(* ===== verification/Protocol.thy ===== *)
theory Protocol
  imports Prelude
begin

text \<open>
  The values that cross the adapter boundary (\<open>runtime/protocol/types.py\<close>) and the
  permission values the policy reasons about (\<open>runtime/permission/types.py\<close>). A frozen
  dataclass is a record whose fields keep the source's order; \<open>default_\<dots>\<close> is the value
  its constructor builds from no arguments. A string-backed type with a closed set of
  values is a datatype with its text beside it.
\<close>

section \<open>JSON values\<close>

text \<open>
  What \<open>json.loads\<close> returns. A float carries its text and, when \<open>is_integer()\<close> holds,
  the integer it equals. An object is its key/value pairs in insertion order.
\<close>

datatype json =
    JNull
  | JBool bool
  | JInt int
  | JFloat "int option" string
  | JString string
  | JList "json list"
  | JObject "(string \<times> json) list"

section \<open>Roles, attachments, calls and messages\<close>

datatype role = ROLE_SYSTEM | ROLE_USER | ROLE_ASSISTANT | ROLE_TOOL | ZERO_ROLE

record attachment =
  at_name :: string
  at_mime :: string
  at_data :: string

record tool_call =
  tc_id :: string
  tc_name :: string
  tc_input :: string

definition default_tool_call :: tool_call where
  "default_tool_call = \<lparr>tc_id = '''', tc_name = '''', tc_input = ''''\<rparr>"

record message =
  msg_role :: role
  msg_content :: string
  msg_reasoning :: string
  msg_tool_call_id :: string
  msg_tool_name :: string
  msg_tool_calls :: "tool_call list option"
  msg_interrupted :: bool
  msg_attachments :: "attachment list"

definition default_message :: message where
  "default_message = \<lparr>msg_role = ZERO_ROLE, msg_content = '''', msg_reasoning = '''',
     msg_tool_call_id = '''', msg_tool_name = '''', msg_tool_calls = None,
     msg_interrupted = False, msg_attachments = []\<rparr>"

text \<open>The calls of a message; the source treats a missing tuple and an empty one alike.\<close>

definition msg_calls :: "message \<Rightarrow> tool_call list" where
  "msg_calls m = (case msg_tool_calls m of None \<Rightarrow> [] | Some cs \<Rightarrow> cs)"

record tool_spec =
  ts_name :: string
  ts_description :: string
  ts_parameters :: "json option"
  ts_risky :: bool

record usage =
  us_input_tokens :: int
  us_output_tokens :: int
  us_total_tokens :: int

record model_response =
  mr_content :: string
  mr_reasoning :: string
  mr_tool_calls :: "tool_call list"
  mr_usage :: "usage option"

definition default_model_response :: model_response where
  "default_model_response = \<lparr>mr_content = '''', mr_reasoning = '''', mr_tool_calls = [], mr_usage = None\<rparr>"

record stream_chunk =
  sc_content_delta :: string
  sc_reasoning_delta :: string

section \<open>Permission values\<close>

datatype command_class =
    COMMAND_CLASS_READ_ONLY
  | COMMAND_CLASS_WRITE
  | COMMAND_CLASS_NETWORK
  | COMMAND_CLASS_DESTRUCTIVE
  | COMMAND_CLASS_UNKNOWN
  | ZERO_COMMAND_CLASS

record perm_request =
  pr_tool_name :: string
  pr_command :: string
  pr_class :: command_class
  pr_cwd :: string
  pr_touched_paths :: "string list"
  pr_env_vars :: "string list"
  pr_reason :: string

definition default_perm_request :: perm_request where
  "default_perm_request = \<lparr>pr_tool_name = '''', pr_command = '''', pr_class = ZERO_COMMAND_CLASS,
     pr_cwd = '''', pr_touched_paths = [], pr_env_vars = [], pr_reason = ''''\<rparr>"

section \<open>Tool messages and system messages\<close>

text \<open>The message both the machine and the replay build from a tool result.\<close>

definition tool_message :: "tool_call \<Rightarrow> string \<Rightarrow> message" where
  "tool_message call result = default_message\<lparr>msg_role := ROLE_TOOL, msg_content := result,
     msg_tool_call_id := tc_id call, msg_tool_name := tc_name call\<rparr>"

lemma tool_message_simps [simp]:
  "msg_role (tool_message c r) = ROLE_TOOL"
  "msg_content (tool_message c r) = r"
  "msg_tool_call_id (tool_message c r) = tc_id c"
  "msg_tool_name (tool_message c r) = tc_name c"
  "msg_calls (tool_message c r) = []"
  by (simp_all add: tool_message_def default_message_def msg_calls_def)

lemma default_message_simps [simp]:
  "msg_role default_message = ZERO_ROLE"
  "msg_calls default_message = []"
  by (simp_all add: default_message_def msg_calls_def)

lemma msg_calls_cong: "msg_tool_calls m = msg_tool_calls m' \<Longrightarrow> msg_calls m = msg_calls m'"
  by (simp add: msg_calls_def)

end
