(* ===== verification/Exceptions.thy ===== *)
theory Exceptions
  imports Prelude
begin

text \<open>
  Error plumbing (\<open>errors.py\<close>): exceptions as finite trees, the walk over everything an
  exception wraps, and the two identity questions \<open>errors_is\<close> and \<open>errors_as\<close>.

  An exception object is an \<open>Exc\<close> with its object identity (\<open>id(error)\<close>), its class,
  its text, \<open>__cause__\<close>, \<open>__context__\<close> and, for a \<open>JoinedError\<close>, its members. Chains
  are built by raising, so they are finite and acyclic; one object may occur under
  several parents, which is what the \<open>seen\<close> set of the walk is about.
\<close>

datatype exc_class =
    BaseExceptionC | ExceptionC | CancelledC | ApprovalDismissedC | JoinedErrorC
  | AsyncCancelledC | ValueErrorC | RuntimeErrorC | TypeErrorC | OSErrorC
  | FileNotFoundErrorC | TimeoutErrorC | UnexpectedEventErrorC | ProtocolViolationErrorC
  | InvariantViolationErrorC

datatype exc = Exc (exc_id: nat) (exc_class: exc_class) (exc_text: string)
  (exc_cause: "exc option") (exc_context: "exc option") (exc_members: "exc list")

text \<open>The parent of each class; \<open>asyncio.CancelledError\<close> derives from \<open>BaseException\<close>.\<close>

fun superclass :: "exc_class \<Rightarrow> exc_class option" where
  "superclass BaseExceptionC = None"
| "superclass ExceptionC = Some BaseExceptionC"
| "superclass AsyncCancelledC = Some BaseExceptionC"
| "superclass ApprovalDismissedC = Some CancelledC"
| "superclass FileNotFoundErrorC = Some OSErrorC"
| "superclass TimeoutErrorC = Some OSErrorC"
| "superclass _ = Some ExceptionC"

fun class_depth :: "exc_class \<Rightarrow> nat" where
  "class_depth BaseExceptionC = 0"
| "class_depth ExceptionC = 1"
| "class_depth AsyncCancelledC = 1"
| "class_depth ApprovalDismissedC = 3"
| "class_depth FileNotFoundErrorC = 3"
| "class_depth TimeoutErrorC = 3"
| "class_depth _ = 2"

function subclass_of :: "exc_class \<Rightarrow> exc_class \<Rightarrow> bool" where
  "subclass_of c d = (c = d \<or> (case superclass c of None \<Rightarrow> False | Some p \<Rightarrow> subclass_of p d))"
  by pat_completeness auto
termination
proof (relation "measure (\<lambda>(c, d). class_depth c)")
  fix c d p
  assume "superclass c = Some p"
  then show "((p, d), (c, d)) \<in> measure (\<lambda>(c, d). class_depth c)"
    by (cases c) auto
qed simp

declare subclass_of.simps [simp del]

definition isinstance_exc :: "exc \<Rightarrow> exc_class \<Rightarrow> bool" where
  "isinstance_exc e c = subclass_of (exc_class e) c"

text \<open>
  \<open>_walk\<close>: a stack of candidates; \<open>pop\<close> takes the last pushed, so the context comes
  before the cause and both before the members, the last member first. The stack is kept
  with its top at the head of the list.
\<close>

definition exc_push :: "exc \<Rightarrow> exc option list \<Rightarrow> exc option list" where
  "exc_push e stack =
     exc_context e # exc_cause e
       # (if isinstance_exc e JoinedErrorC then rev (map Some (exc_members e)) else []) @ stack"

definition exc_option_size :: "exc option \<Rightarrow> nat" where
  "exc_option_size o' = (case o' of None \<Rightarrow> 1 | Some e \<Rightarrow> Suc (size e))"

function walk :: "nat list \<Rightarrow> exc option list \<Rightarrow> exc list" where
  "walk seen [] = []"
| "walk seen (None # stack) = walk seen stack"
| "walk seen (Some e # stack) =
     (if exc_id e \<in> set seen then walk seen stack
      else e # walk (exc_id e # seen) (exc_push e stack))"
  by pat_completeness auto
termination
proof (relation "measure (\<lambda>(seen, stack). sum_list (map exc_option_size stack))")
  fix seen :: "nat list" and e :: exc and stack :: "exc option list"
  obtain i c t ca cx ms where e: "e = Exc i c t ca cx ms" by (cases e)
  have members: "sum_list (map (exc_option_size \<circ> Some) ms) \<le> size_list size ms"
    by (induction ms) (auto simp: exc_option_size_def)
  have rest: "sum_list (map exc_option_size (rev (map Some ms))) \<le> size_list size ms"
    using members by (simp add: rev_map [symmetric] sum_list_rev)
  have "exc_option_size ca + exc_option_size cx \<le> Suc (Suc (size_option size ca + size_option size cx)) - 2 + 0"
    by (cases ca; cases cx) (simp_all add: exc_option_size_def)
  with rest have "sum_list (map exc_option_size (exc_push e stack))
      < exc_option_size (Some e) + sum_list (map exc_option_size stack)"
    by (cases "isinstance_exc e JoinedErrorC") (simp_all add: exc_push_def e exc_option_size_def)
  then show "((exc_id e # seen, exc_push e stack), seen, Some e # stack)
      \<in> measure (\<lambda>(seen, stack). sum_list (map exc_option_size stack))"
    by simp
qed (simp_all add: exc_option_size_def)

declare walk.simps(3) [simp del]

definition errors_is_class :: "exc option \<Rightarrow> exc_class \<Rightarrow> bool" where
  "errors_is_class e c = list_ex (\<lambda>x. isinstance_exc x c) (walk [] [e])"

definition errors_is_instance :: "exc option \<Rightarrow> exc \<Rightarrow> bool" where
  "errors_is_instance e target = list_ex (\<lambda>x. exc_id x = exc_id target) (walk [] [e])"

definition errors_as :: "exc option \<Rightarrow> exc_class \<Rightarrow> exc option" where
  "errors_as e c = find (\<lambda>x. isinstance_exc x c) (walk [] [e])"

text \<open>\<open>JoinedError(*members)\<close>: missing members are dropped, the texts joined by newlines.\<close>

definition joined_error :: "nat \<Rightarrow> exc option list \<Rightarrow> exc" where
  "joined_error i ms = (let kept = List.map_filter id ms in
     Exc i JoinedErrorC (join_with ''\<newline>'' (map exc_text kept)) None None kept)"

text \<open>A freshly raised exception with nothing behind it.\<close>

abbreviation plain_exc :: "nat \<Rightarrow> exc_class \<Rightarrow> string \<Rightarrow> exc" where
  "plain_exc i c t \<equiv> Exc i c t None None []"

section \<open>The walk visits every wrapped exception once\<close>

lemma walk_distinct_ids: "distinct (map exc_id (walk seen stack))
    \<and> set (map exc_id (walk seen stack)) \<inter> set seen = {}"
proof (induction seen stack rule: walk.induct)
  case (3 seen e stack)
  then show ?case by (auto simp: walk.simps(3) [of seen e stack])
qed auto

text \<open>
  The direct parts of an exception, in the order the walk pushes them, and everything
  reachable through them.
\<close>

definition exc_part :: "exc \<Rightarrow> exc \<Rightarrow> bool" where
  "exc_part e x \<longleftrightarrow> Some x \<in> set (exc_push e [])"

inductive wraps :: "exc \<Rightarrow> exc \<Rightarrow> bool" where
  wraps_refl: "wraps e e"
| wraps_step: "exc_part e c \<Longrightarrow> wraps c x \<Longrightarrow> wraps e x"

lemma set_exc_push: "Some x \<in> set (exc_push e stack) \<longleftrightarrow> exc_part e x \<or> Some x \<in> set stack"
  by (auto simp: exc_push_def exc_part_def)

lemma walk_sound: "x \<in> set (walk seen stack) \<Longrightarrow> \<exists>e. Some e \<in> set stack \<and> wraps e x"
proof (induction seen stack rule: walk.induct)
  case (1 seen)
  then show ?case by simp
next
  case (2 seen stack)
  then show ?case by auto
next
  case (3 seen e stack)
  then show ?case
    by (auto simp: walk.simps(3) [of seen e stack] set_exc_push intro: wraps_refl wraps_step split: if_splits)
qed

text \<open>
  \<open>covered ids e\<close>: the ids seen so far, as the walk leaves them. The walk covers its whole
  stack, and what it has covered is closed under parts as soon as the parts of what was
  seen before are seen or still on the stack.
\<close>

lemma walk_covers_stack:
  "Some e \<in> set stack \<Longrightarrow> exc_id e \<in> set seen \<union> exc_id ` set (walk seen stack)"
proof (induction seen stack arbitrary: e rule: walk.induct)
  case (3 seen e' stack)
  then show ?case
    by (cases "exc_id e' \<in> set seen")
      (auto simp: walk.simps(3) [of seen e' stack] set_exc_push; blast)+
qed auto

lemma walk_closed:
  assumes ids: "\<And>x y. P x \<Longrightarrow> P y \<Longrightarrow> exc_id x = exc_id y \<Longrightarrow> x = y"
    and parts: "\<And>x y. P x \<Longrightarrow> exc_part x y \<Longrightarrow> P y"
  shows "(\<And>e. Some e \<in> set stack \<Longrightarrow> P e)
    \<Longrightarrow> (\<And>x y. P x \<Longrightarrow> exc_id x \<in> set seen \<Longrightarrow> exc_part x y \<Longrightarrow> exc_id y \<in> set seen \<or> Some y \<in> set stack)
    \<Longrightarrow> P x \<Longrightarrow> exc_id x \<in> set seen \<union> exc_id ` set (walk seen stack) \<Longrightarrow> exc_part x y
    \<Longrightarrow> exc_id y \<in> set seen \<union> exc_id ` set (walk seen stack)"
proof (induction seen stack arbitrary: x y rule: walk.induct)
  case (1 seen)
  then show ?case by auto
next
  case (2 seen stack)
  then show ?case by simp
next
  case (3 seen e stack)
  show ?case
  proof (cases "exc_id e \<in> set seen")
    case True
    from "3.IH"(1) [OF True 3(3) _ 3(5) _ 3(7)] 3(4,6) True show ?thesis
      by (auto simp: walk.simps(3) [of seen e stack])
  next
    case False
    have Pe: "P e" using 3(3) by simp
    have stack: "\<And>e'. Some e' \<in> set (exc_push e stack) \<Longrightarrow> P e'"
      using 3(3) Pe parts by (auto simp: set_exc_push)
    have seen: "exc_id y' \<in> set (exc_id e # seen) \<or> Some y' \<in> set (exc_push e stack)"
      if "P x'" "exc_id x' \<in> set (exc_id e # seen)" "exc_part x' y'" for x' y'
    proof (cases "exc_id x' = exc_id e")
      case True
      with that(1,3) ids [OF that(1) Pe] show ?thesis by (simp add: set_exc_push)
    next
      case False
      with that 3(4) [of x' y'] show ?thesis by (auto simp: set_exc_push)
    qed
    have "exc_id x \<in> set (exc_id e # seen) \<union> exc_id ` set (walk (exc_id e # seen) (exc_push e stack))"
      using 3(6) False by (auto simp: walk.simps(3) [of seen e stack])
    from "3.IH"(2) [OF False stack seen 3(5) this 3(7)] False show ?thesis
      by (auto simp: walk.simps(3) [of seen e stack])
  qed
qed

text \<open>
  The walk from an exception finds every exception it wraps, as long as object identity is
  what it says: two wrapped objects with one id are one object.
\<close>

lemma walk_complete:
  assumes ids: "\<And>x y. wraps e x \<Longrightarrow> wraps e y \<Longrightarrow> exc_id x = exc_id y \<Longrightarrow> x = y"
    and w: "wraps e x"
  shows "x \<in> set (walk [] [Some e])"
proof -
  have trans: "wraps e a \<Longrightarrow> exc_part a b \<Longrightarrow> wraps e b" for a b
    by (induction rule: wraps.induct) (auto intro: wraps.intros)
  let ?out = "set [] \<union> exc_id ` set (walk [] [Some e])"
  have closed: "exc_id b \<in> ?out" if "wraps e a" "exc_id a \<in> ?out" "exc_part a b" for a b
  proof (rule walk_closed [where P = "wraps e" and x = a])
    show "wraps e x \<Longrightarrow> wraps e y \<Longrightarrow> exc_id x = exc_id y \<Longrightarrow> x = y" for x y by (rule ids)
    show "wraps e x \<Longrightarrow> exc_part x y \<Longrightarrow> wraps e y" for x y by (rule trans)
    show "Some e' \<in> set [Some e] \<Longrightarrow> wraps e e'" for e' by (simp add: wraps_refl)
  qed (use that in simp_all)
  have reach: "wraps a x \<Longrightarrow> wraps e a \<Longrightarrow> exc_id a \<in> ?out \<Longrightarrow> exc_id x \<in> ?out" for a
  proof (induction a x rule: wraps.induct)
    case (wraps_refl a)
    then show ?case by simp
  next
    case (wraps_step a c x)
    from wraps_step.prems(1) wraps_step.hyps(1) have "wraps e c" by (rule trans)
    moreover from wraps_step.prems wraps_step.hyps(1) have "exc_id c \<in> ?out" by (rule closed)
    ultimately show ?case by (rule wraps_step.IH)
  qed
  have "exc_id e \<in> ?out" by (rule walk_covers_stack) simp
  from reach [OF w wraps_refl this] have "exc_id x \<in> exc_id ` set (walk [] [Some e])" by simp
  then obtain z where z: "z \<in> set (walk [] [Some e])" "exc_id x = exc_id z" by auto
  from walk_sound [OF z(1)] have "wraps e z" by simp
  with z ids [OF w] show ?thesis by auto
qed

section \<open>The identity question, answered\<close>

text \<open>
  \<open>errors_is(error, cls)\<close> says yes exactly when the error or something it wraps, through
  causes, contexts and joined members at any depth, is an instance of the class. The
  hypothesis is Python's object identity: two wrapped objects with one id are one object.
\<close>

theorem errors_is_exact:
  assumes "\<And>x y. wraps e x \<Longrightarrow> wraps e y \<Longrightarrow> exc_id x = exc_id y \<Longrightarrow> x = y"
  shows "errors_is_class (Some e) c \<longleftrightarrow> (\<exists>x. wraps e x \<and> isinstance_exc x c)"
proof
  assume "errors_is_class (Some e) c"
  then obtain x where "x \<in> set (walk [] [Some e])" "isinstance_exc x c"
    by (auto simp: errors_is_class_def list_ex_iff)
  with walk_sound [of x "[]" "[Some e]"] show "\<exists>x. wraps e x \<and> isinstance_exc x c" by auto
next
  assume "\<exists>x. wraps e x \<and> isinstance_exc x c"
  then obtain x where x: "wraps e x" "isinstance_exc x c" by blast
  have "x \<in> set (walk [] [Some e])" by (rule walk_complete [OF assms x(1)])
  with x(2) show "errors_is_class (Some e) c" by (auto simp: errors_is_class_def list_ex_iff)
qed

lemma wraps_plain: "wraps (plain_exc i c t) x \<longleftrightarrow> x = plain_exc i c t"
proof
  show "wraps (plain_exc i c t) x \<Longrightarrow> x = plain_exc i c t"
    by (erule wraps.cases) (auto simp: exc_part_def exc_push_def)
qed (simp add: wraps_refl)

lemma wraps_context:
  "c \<noteq> JoinedErrorC \<Longrightarrow> wraps (Exc i c t None (Some (plain_exc j d u)) []) x \<Longrightarrow>
     x = Exc i c t None (Some (plain_exc j d u)) [] \<or> x = plain_exc j d u"
  by (erule wraps.cases) (auto simp: exc_part_def exc_push_def wraps_plain)

text \<open>A runtime error raised while a cancellation was being handled is a cancellation.\<close>

theorem errors_is_exact_witness:
  "errors_is_class (Some (Exc 1 RuntimeErrorC ''boom'' None (Some (plain_exc 2 CancelledC ''stop'')) [])) CancelledC"
proof -
  let ?e = "Exc 1 RuntimeErrorC ''boom'' None (Some (plain_exc 2 CancelledC ''stop'')) []"
  have ids: "x = y" if "wraps ?e x" "wraps ?e y" "exc_id x = exc_id y" for x y
    using wraps_context [OF _ that(1)] wraps_context [OF _ that(2)] that(3) by auto
  have "wraps ?e (plain_exc 2 CancelledC ''stop'')"
    by (rule wraps_step [OF _ wraps_refl]) (simp add: exc_part_def exc_push_def)
  moreover have "isinstance_exc (plain_exc 2 CancelledC ''stop'') CancelledC"
    by (simp add: isinstance_exc_def subclass_of.simps)
  ultimately show ?thesis using errors_is_exact [of ?e CancelledC, OF ids] by blast
qed

end
