(* ===== verification/RunContexts.thy ===== *)
theory RunContexts
  imports Prelude
begin

text \<open>
  Cancellation for one run (\<open>runtime/protocol/run_context.py\<close>). Contexts are shared,
  mutable objects and two of them may share one cancellation event, so they live in an
  explicit heap: a context is an index, and so is an event. A context's children are the
  indices it adopted, in order. \<open>cancel\<close> recurses over the children; the recursion is
  written as a worklist in the same depth-first order, which stops because every context
  it expands sets an event that was clear.
\<close>

record ctx =
  cx_event :: nat
  cx_children :: "nat list"
  cx_values :: "nat \<rightharpoonup> nat"

record ctx_heap =
  ch_events :: "bool list"
  ch_ctxs :: "ctx list"

definition empty_heap :: ctx_heap where
  "empty_heap = \<lparr>ch_events = [], ch_ctxs = []\<rparr>"

definition ctx_at :: "ctx_heap \<Rightarrow> nat \<Rightarrow> ctx" where
  "ctx_at h c = (if c < length (ch_ctxs h) then ch_ctxs h ! c
     else \<lparr>cx_event = length (ch_events h), cx_children = [], cx_values = Map.empty\<rparr>)"

text \<open>\<open>cancelled.is_set()\<close>; a dangling index, which no program run has, counts as set.\<close>

definition is_cancelled :: "ctx_heap \<Rightarrow> nat \<Rightarrow> bool" where
  "is_cancelled h c = (let e = cx_event (ctx_at h c) in e < length (ch_events h) \<longrightarrow> ch_events h ! e)"

definition set_event :: "ctx_heap \<Rightarrow> nat \<Rightarrow> ctx_heap" where
  "set_event h c = h\<lparr>ch_events := (ch_events h)[cx_event (ctx_at h c) := True]\<rparr>"

definition clear_events :: "ctx_heap \<Rightarrow> nat" where
  "clear_events h = count_list (ch_events h) False"

lemma count_list_update_False:
  "i < length bs \<Longrightarrow> \<not> bs ! i \<Longrightarrow> count_list (bs[i := True]) False < count_list bs False"
proof (induction bs arbitrary: i)
  case (Cons b bs)
  then show ?case by (cases i) auto
qed simp

lemma clear_events_set_event: "\<not> is_cancelled h c \<Longrightarrow> clear_events (set_event h c) < clear_events h"
  by (simp add: is_cancelled_def clear_events_def set_event_def Let_def count_list_update_False)

function cancel_all :: "ctx_heap \<Rightarrow> nat list \<Rightarrow> ctx_heap" where
  "cancel_all h [] = h"
| "cancel_all h (c # cs) =
     (if is_cancelled h c then cancel_all h cs
      else cancel_all (set_event h c) (cx_children (ctx_at h c) @ cs))"
  by pat_completeness auto
termination
  by (relation "measures [\<lambda>(h, cs). clear_events h, \<lambda>(h, cs). length cs]")
    (auto simp: clear_events_set_event)

declare cancel_all.simps(2) [simp del]

definition cancel :: "ctx_heap \<Rightarrow> nat \<Rightarrow> ctx_heap" where
  "cancel h c = cancel_all h [c]"

definition adopt :: "ctx_heap \<Rightarrow> nat \<Rightarrow> nat \<Rightarrow> ctx_heap" where
  "adopt h p child = (if is_cancelled h p then cancel h child
     else h\<lparr>ch_ctxs := (ch_ctxs h)[p := (ctx_at h p)\<lparr>cx_children := cx_children (ctx_at h p) @ [child]\<rparr>]\<rparr>)"

text \<open>\<open>RunContext(parent)\<close>: the new heap and the new context.\<close>

definition alloc_context :: "ctx_heap \<Rightarrow> ctx_heap \<times> nat" where
  "alloc_context h =
     (\<lparr>ch_events = ch_events h @ [False],
       ch_ctxs = ch_ctxs h @ [\<lparr>cx_event = length (ch_events h), cx_children = [], cx_values = Map.empty\<rparr>]\<rparr>,
      length (ch_ctxs h))"

definition new_context :: "ctx_heap \<Rightarrow> nat option \<Rightarrow> ctx_heap \<times> nat" where
  "new_context h parent = (let (h', c) = alloc_context h in
     case parent of None \<Rightarrow> (h', c) | Some p \<Rightarrow> (adopt h' p c, c))"

text \<open>\<open>with_value\<close>: a context of its own that points at the parent's event.\<close>

definition with_value :: "ctx_heap \<Rightarrow> nat \<Rightarrow> nat \<Rightarrow> nat \<Rightarrow> ctx_heap \<times> nat" where
  "with_value h c key val = (let (h', d) = alloc_context h in
     (h'\<lparr>ch_ctxs := (ch_ctxs h')[d := (ctx_at h' d)\<lparr>cx_event := cx_event (ctx_at h' c),
        cx_values := (cx_values (ctx_at h' c))(key \<mapsto> val)\<rparr>]\<rparr>, d))"

definition ctx_value :: "ctx_heap \<Rightarrow> nat \<Rightarrow> nat \<Rightarrow> nat option" where
  "ctx_value h c key = cx_values (ctx_at h c) key"

definition DEFAULT_CANCEL_REASON :: string where
  "DEFAULT_CANCEL_REASON = ''run cancelled''"

text \<open>\<open>err()\<close> and \<open>raise_if_cancelled()\<close>: the text of the \<open>Cancelled\<close> they report or raise.\<close>

definition ctx_err :: "ctx_heap \<Rightarrow> nat \<Rightarrow> string option" where
  "ctx_err h c = (if is_cancelled h c then Some DEFAULT_CANCEL_REASON else None)"

definition raise_if_cancelled :: "ctx_heap \<Rightarrow> nat \<Rightarrow> (string, unit) result" where
  "raise_if_cancelled h c = (if is_cancelled h c then Inl DEFAULT_CANCEL_REASON else Inr ())"

section \<open>Well-formed heaps\<close>

text \<open>
  \<open>heap_ok\<close>: no dangling reference. \<open>own_events\<close>: no two contexts share an event, which is
  so as long as \<open>with_value\<close> is not used. \<open>coherent\<close>: the children of a cancelled context
  are cancelled.
\<close>

definition heap_ok :: "ctx_heap \<Rightarrow> bool" where
  "heap_ok h \<longleftrightarrow> list_all (\<lambda>x. cx_event x < length (ch_events h)
     \<and> list_all (\<lambda>d. d < length (ch_ctxs h)) (cx_children x)) (ch_ctxs h)"

definition own_events :: "ctx_heap \<Rightarrow> bool" where
  "own_events h \<longleftrightarrow> distinct (map cx_event (ch_ctxs h))"

definition coherent :: "ctx_heap \<Rightarrow> bool" where
  "coherent h \<longleftrightarrow> (\<forall>c < length (ch_ctxs h). is_cancelled h c
     \<longrightarrow> list_all (is_cancelled h) (cx_children (ctx_at h c)))"

inductive descends :: "ctx_heap \<Rightarrow> nat \<Rightarrow> nat \<Rightarrow> bool" for h where
  descends_refl: "descends h c c"
| descends_child: "descends h c d \<Longrightarrow> e \<in> set (cx_children (ctx_at h d)) \<Longrightarrow> descends h c e"

lemma ctx_at_set_event [simp]: "ctx_at (set_event h c) d = ctx_at h d"
  by (simp add: ctx_at_def set_event_def)

lemma ctxs_set_event [simp]:
  "ch_ctxs (set_event h c) = ch_ctxs h"
  "length (ch_events (set_event h c)) = length (ch_events h)"
  by (simp_all add: set_event_def)

lemma is_cancelled_set_event:
  "is_cancelled (set_event h c) d \<longleftrightarrow> is_cancelled h d \<or> cx_event (ctx_at h d) = cx_event (ctx_at h c)"
proof (cases "cx_event (ctx_at h d) = cx_event (ctx_at h c)")
  case True
  then show ?thesis by (simp add: is_cancelled_def Let_def) (simp add: set_event_def)
next
  case False
  then show ?thesis by (simp add: is_cancelled_def Let_def) (simp add: set_event_def)
qed

lemma cancel_all_ctxs [simp]:
  "ch_ctxs (cancel_all h cs) = ch_ctxs h \<and> length (ch_events (cancel_all h cs)) = length (ch_events h)"
proof (induction h cs rule: cancel_all.induct)
  case (2 h c cs)
  then show ?case by (cases "is_cancelled h c") (simp_all add: cancel_all.simps(2))
qed simp

lemma ctx_at_cancel_all [simp]: "ctx_at (cancel_all h cs) d = ctx_at h d"
  by (simp add: ctx_at_def)

lemma is_cancelled_mono: "is_cancelled h d \<Longrightarrow> is_cancelled (cancel_all h cs) d"
proof (induction h cs rule: cancel_all.induct)
  case (2 h c cs)
  then show ?case
    by (cases "is_cancelled h c") (simp_all add: cancel_all.simps(2) is_cancelled_set_event)
qed simp

lemma cancel_all_cancels: "c \<in> set cs \<Longrightarrow> is_cancelled (cancel_all h cs) c"
proof (induction h cs rule: cancel_all.induct)
  case (2 h d cs)
  show ?case
  proof (cases "is_cancelled h d")
    case True
    with 2 show ?thesis by (auto simp: cancel_all.simps(2) is_cancelled_mono)
  next
    case False
    have "is_cancelled (set_event h d) d" by (simp add: is_cancelled_set_event)
    with False 2 show ?thesis by (auto simp: cancel_all.simps(2) is_cancelled_mono)
  qed
qed simp

lemma cancel_idempotent: "is_cancelled h c \<Longrightarrow> cancel h c = h"
  by (simp add: cancel_def cancel_all.simps(2))

lemma own_eventsD:
  "own_events h \<Longrightarrow> c < length (ch_ctxs h) \<Longrightarrow> d < length (ch_ctxs h)
    \<Longrightarrow> cx_event (ctx_at h c) = cx_event (ctx_at h d) \<Longrightarrow> c = d"
  by (auto simp: own_events_def ctx_at_def distinct_conv_nth)

lemma heap_ok_children:
  "heap_ok h \<Longrightarrow> c < length (ch_ctxs h) \<Longrightarrow> d \<in> set (cx_children (ctx_at h c)) \<Longrightarrow> d < length (ch_ctxs h)"
  by (auto simp: heap_ok_def ctx_at_def list_all_iff dest: nth_mem)

text \<open>
  The state of the walk: every cancelled context has its children cancelled already or
  still on the worklist. The walk ends with nothing on the worklist, so the heap is
  coherent again.
\<close>

definition pending_ok :: "ctx_heap \<Rightarrow> nat list \<Rightarrow> bool" where
  "pending_ok h cs \<longleftrightarrow> (\<forall>c < length (ch_ctxs h). is_cancelled h c
     \<longrightarrow> (\<forall>d \<in> set (cx_children (ctx_at h c)). is_cancelled h d \<or> d \<in> set cs))"

lemma pending_ok_Nil: "pending_ok h [] \<longleftrightarrow> coherent h"
  by (auto simp: pending_ok_def coherent_def list_all_iff)

lemma coherent_pending_ok: "coherent h \<Longrightarrow> pending_ok h cs"
  by (auto simp: pending_ok_def coherent_def list_all_iff)

lemma pending_ok_expand:
  assumes own: "own_events h" and c: "c < length (ch_ctxs h)" and p: "pending_ok h (c # cs)"
  shows "pending_ok (set_event h c) (cx_children (ctx_at h c) @ cs)"
  unfolding pending_ok_def
proof (intro allI impI ballI)
  fix a d
  assume a: "a < length (ch_ctxs (set_event h c))" and set: "is_cancelled (set_event h c) a"
    and d: "d \<in> set (cx_children (ctx_at (set_event h c) a))"
  show "is_cancelled (set_event h c) d \<or> d \<in> set (cx_children (ctx_at h c) @ cs)"
  proof (cases "a = c")
    case True
    with d show ?thesis by simp
  next
    case False
    with a set own c have "is_cancelled h a"
      by (auto simp: is_cancelled_set_event dest: own_eventsD)
    with p a d have "is_cancelled h d \<or> d \<in> set (c # cs)" by (auto simp: pending_ok_def)
    then show ?thesis by (auto simp: is_cancelled_set_event)
  qed
qed

lemma cancel_all_coherent:
  "own_events h \<Longrightarrow> heap_ok h \<Longrightarrow> list_all (\<lambda>c. c < length (ch_ctxs h)) cs \<Longrightarrow> pending_ok h cs
    \<Longrightarrow> coherent (cancel_all h cs)"
proof (induction h cs rule: cancel_all.induct)
  case (1 h)
  then show ?case by (simp add: pending_ok_Nil)
next
  case (2 h c cs)
  show ?case
  proof (cases "is_cancelled h c")
    case True
    with 2(6) have "pending_ok h cs" by (auto simp: pending_ok_def)
    with True 2 show ?thesis by (simp add: cancel_all.simps(2))
  next
    case False
    have own: "own_events (set_event h c)" using 2(3) by (simp add: own_events_def)
    have ok: "heap_ok (set_event h c)" using 2(4) by (simp add: heap_ok_def)
    have "list_all (\<lambda>d. d < length (ch_ctxs (set_event h c))) (cx_children (ctx_at h c) @ cs)"
      using 2(4,5) by (auto simp: list_all_iff intro: heap_ok_children)
    with False own ok 2 pending_ok_expand [of h c cs] show ?thesis
      by (simp add: cancel_all.simps(2))
  qed
qed

lemma coherent_descends:
  assumes "coherent h" "heap_ok h" "is_cancelled h c" "c < length (ch_ctxs h)" "descends h c d"
  shows "is_cancelled h d \<and> d < length (ch_ctxs h)"
  using assms(5,3,4)
proof (induction rule: descends.induct)
  case (descends_child c d e)
  with assms(1,2) show ?case by (auto simp: coherent_def list_all_iff intro: heap_ok_children)
qed simp

lemma descends_cancel: "descends (cancel_all h cs) c d \<longleftrightarrow> descends h c d"
proof
  show "descends (cancel_all h cs) c d \<Longrightarrow> descends h c d"
    by (induction rule: descends.induct) (auto intro: descends.intros)
  show "descends h c d \<Longrightarrow> descends (cancel_all h cs) c d"
    by (induction rule: descends.induct) (auto intro: descends.intros)
qed

text \<open>Only what descends from the worklist is cancelled.\<close>

lemma cancel_all_frame:
  assumes "own_events h" "heap_ok h" "list_all (\<lambda>c. c < length (ch_ctxs h)) cs" "d < length (ch_ctxs h)"
    "\<not> is_cancelled h d" "\<not> (\<exists>c \<in> set cs. descends h c d)"
  shows "\<not> is_cancelled (cancel_all h cs) d"
  using assms
proof (induction h cs rule: cancel_all.induct)
  case (1 h)
  then show ?case by simp
next
  case (2 h c cs)
  show ?case
  proof (cases "is_cancelled h c")
    case True
    with 2 show ?thesis by (simp add: cancel_all.simps(2))
  next
    case False
    let ?h = "set_event h c"
    have "d \<noteq> c" using 2(8) by (auto intro: descends_refl)
    then have nd: "\<not> is_cancelled ?h d"
      using 2(3,5,6,7) by (auto simp: is_cancelled_set_event dest: own_eventsD)
    have eq: "descends ?h a b \<longleftrightarrow> descends h a b" for a b
    proof
      show "descends ?h a b \<Longrightarrow> descends h a b"
        by (induction rule: descends.induct) (auto intro: descends.intros)
      show "descends h a b \<Longrightarrow> descends ?h a b"
        by (induction rule: descends.induct) (auto intro: descends.intros)
    qed
    have trans: "descends h a b \<Longrightarrow> e \<in> set (cx_children (ctx_at h c)) \<Longrightarrow> a = e \<Longrightarrow> descends h c b" for a b e
      by (induction rule: descends.induct) (auto intro: descends.intros)
    have no: "\<not> (\<exists>a \<in> set (cx_children (ctx_at h c) @ cs). descends ?h a d)"
      using 2(8) trans by (auto simp: eq)
    have own: "own_events ?h" using 2(3) by (simp add: own_events_def)
    have ok: "heap_ok ?h" using 2(4) by (simp add: heap_ok_def)
    have ws: "list_all (\<lambda>d. d < length (ch_ctxs ?h)) (cx_children (ctx_at h c) @ cs)"
      using 2(4,5) by (auto simp: list_all_iff intro: heap_ok_children)
    from "2.IH"(2) [OF False own ok ws _ nd no] 2(6) False show ?thesis
      by (simp add: cancel_all.simps(2))
  qed
qed

section \<open>What a cancellation reaches\<close>

text \<open>
  Cancelling a context cancels it and everything derived from it, and nothing else, and
  leaves every cancelled context with cancelled children. It holds on heaps where no two
  contexts share an event, that is, without \<open>with_value\<close>.
\<close>

theorem cancel_exactly_descendants:
  assumes "heap_ok h" and "own_events h" and "coherent h"
    and "c < length (ch_ctxs h)" and "d < length (ch_ctxs h)"
  shows "coherent (cancel h c)
    \<and> (is_cancelled (cancel h c) d \<longleftrightarrow> is_cancelled h d \<or> descends h c d)"
proof -
  have coh: "coherent (cancel h c)"
    unfolding cancel_def by (rule cancel_all_coherent) (use assms in \<open>simp_all add: coherent_pending_ok\<close>)
  have ok: "heap_ok (cancel h c)" using assms(1) by (simp add: heap_ok_def cancel_def)
  have "is_cancelled (cancel h c) c" unfolding cancel_def by (rule cancel_all_cancels) simp
  then have "descends h c d \<Longrightarrow> is_cancelled (cancel h c) d"
    using coherent_descends [OF coh ok, of c d] assms(4) by (simp add: cancel_def descends_cancel)
  moreover have "is_cancelled h d \<Longrightarrow> is_cancelled (cancel h c) d"
    by (simp add: cancel_def is_cancelled_mono)
  moreover have "\<not> is_cancelled h d \<Longrightarrow> \<not> descends h c d \<Longrightarrow> \<not> is_cancelled (cancel h c) d"
    unfolding cancel_def by (rule cancel_all_frame) (use assms in simp_all)
  ultimately show ?thesis using coh by blast
qed

text \<open>A run, its child, and an unrelated context: the child is reached, the other is not.\<close>

definition three_contexts :: ctx_heap where
  "three_contexts = \<lparr>ch_events = [False, False, False],
     ch_ctxs = [\<lparr>cx_event = 0, cx_children = [1], cx_values = Map.empty\<rparr>,
       \<lparr>cx_event = 1, cx_children = [], cx_values = Map.empty\<rparr>,
       \<lparr>cx_event = 2, cx_children = [], cx_values = Map.empty\<rparr>]\<rparr>"

lemma three_contexts_descends: "descends three_contexts c d \<Longrightarrow> c = 0 \<Longrightarrow> d \<in> {0, 1}"
  by (induction rule: descends.induct)
     (auto simp: three_contexts_def ctx_at_def split: if_splits)

theorem cancel_exactly_descendants_witness:
  "coherent (cancel three_contexts 0) \<and> is_cancelled (cancel three_contexts 0) 1
     \<and> \<not> is_cancelled (cancel three_contexts 0) 2"
proof -
  have wf: "heap_ok three_contexts" "own_events three_contexts" "coherent three_contexts"
    by (auto simp: three_contexts_def heap_ok_def own_events_def coherent_def is_cancelled_def ctx_at_def
        less_Suc_eq numeral_3_eq_3 Let_def)
  have n: "length (ch_ctxs three_contexts) = 3" by (simp add: three_contexts_def)
  note exact = cancel_exactly_descendants [OF wf, of 0]
  have "descends three_contexts 0 1"
    by (rule descends_child [OF descends_refl]) (simp add: three_contexts_def ctx_at_def)
  moreover have "\<not> descends three_contexts 0 2" using three_contexts_descends by fastforce
  moreover have "\<not> is_cancelled three_contexts 2" by (simp add: three_contexts_def is_cancelled_def ctx_at_def)
  ultimately show ?thesis using exact [of 1] exact [of 2] n by simp
qed

text \<open>
  A context derived with \<open>with_value\<close> shares its parent's event but keeps its own children.
  A run started under it, as a delegated turn is, survives the cancellation of the parent:
  the derived context reads as cancelled while its child stays live.
\<close>

theorem with_value_child_survives:
  "let (h1, root) = new_context empty_heap None;
       (h2, run) = new_context h1 (Some root);
       (h3, tool) = with_value h2 run 0 0;
       (h4, child) = new_context h3 (Some tool);
       h5 = cancel h4 run
   in is_cancelled h5 run \<and> is_cancelled h5 tool \<and> \<not> is_cancelled h5 child"
  by code_simp

end
