(* ===== verification/Machine.thy ===== *)
theory Machine
  imports Protocol Exceptions
begin

text \<open>
  The data of the state machine (\<open>runtime/machine\<close>): states, the fifteen events, the
  thirteen runtime-data changes, scheduled actions and action plans, \<open>RuntimeData\<close> with
  its validation and the snapshot a transition reads, and the applier that turns a
  decision into the next \<open>RuntimeData\<close>. Handlers and the registry are in \<open>Transition\<close>.
\<close>

section \<open>States\<close>

text \<open>
  The six phases and \<open>ZERO_STATE\<close>, the empty text the registry uses for rules of every
  state; it is not a legal phase, and \<open>validate_runtime_data\<close> refuses it.
\<close>

datatype mstate =
    STATE_INITIALIZING | STATE_IDLE | STATE_WAITING_LLM | STATE_WAITING_APPROVAL
  | STATE_RUNNING_TOOL | STATE_ADVANCING_QUEUE | ZERO_STATE

fun state_text :: "mstate \<Rightarrow> string" where
  "state_text STATE_INITIALIZING = ''Initializing''"
| "state_text STATE_IDLE = ''Idle''"
| "state_text STATE_WAITING_LLM = ''WaitingLLM''"
| "state_text STATE_WAITING_APPROVAL = ''WaitingApproval''"
| "state_text STATE_RUNNING_TOOL = ''RunningTool''"
| "state_text STATE_ADVANCING_QUEUE = ''AdvancingQueue''"
| "state_text ZERO_STATE = ''''"

definition ALL_STATES :: "mstate list" where
  "ALL_STATES = [STATE_INITIALIZING, STATE_IDLE, STATE_WAITING_LLM, STATE_WAITING_APPROVAL,
     STATE_RUNNING_TOOL, STATE_ADVANCING_QUEUE]"

text \<open>The states are finitely many, so a statement over all of them is executable.\<close>

instantiation mstate :: enum
begin

definition enum_mstate :: "mstate list" where
  "enum_mstate = [STATE_INITIALIZING, STATE_IDLE, STATE_WAITING_LLM, STATE_WAITING_APPROVAL,
     STATE_RUNNING_TOOL, STATE_ADVANCING_QUEUE, ZERO_STATE]"

definition enum_all_mstate :: "(mstate \<Rightarrow> bool) \<Rightarrow> bool" where
  "enum_all_mstate P \<longleftrightarrow> list_all P enum_class.enum"

definition enum_ex_mstate :: "(mstate \<Rightarrow> bool) \<Rightarrow> bool" where
  "enum_ex_mstate P \<longleftrightarrow> list_ex P enum_class.enum"

lemma mstate_UNIV: "(UNIV :: mstate set) = set enum_class.enum"
proof -
  have "s \<in> set enum_class.enum" for s :: mstate
    by (cases s) (simp_all add: enum_mstate_def)
  then show ?thesis by auto
qed

instance
proof
  show "(UNIV :: mstate set) = set enum_class.enum" by (rule mstate_UNIV)
  show "distinct (enum_class.enum :: mstate list)" by (simp add: enum_mstate_def)
  show "enum_class.enum_all P \<longleftrightarrow> Ball UNIV P" for P :: "mstate \<Rightarrow> bool"
    by (simp add: enum_all_mstate_def mstate_UNIV list_all_iff)
  show "enum_class.enum_ex P \<longleftrightarrow> Bex UNIV P" for P :: "mstate \<Rightarrow> bool"
    by (simp add: enum_ex_mstate_def mstate_UNIV list_ex_iff)
qed

end

section \<open>Approval decisions, batches, events\<close>

datatype approval_decision = APPROVE_ONCE | APPROVE_ALWAYS | DENY_APPROVAL

record tool_batch =
  tb_id :: string
  tb_calls :: "tool_call list"
  tb_index :: int

datatype event =
    UserMessageSubmitted (ev_content: string) (ev_attachments: "attachment list")
  | AssistantMessageReceived (ev_response: model_response)
  | ToolBatchReceived (ev_content: string) (ev_calls: "tool_call list") (ev_reasoning: string)
  | ToolCallNeedsApproval (ev_call: tool_call) (ev_request: perm_request)
  | ToolCallReadyToRun (ev_call: tool_call)
  | ToolCallDenied (ev_call: tool_call) (ev_reason: string)
  | is_ToolBatchFinished: ToolBatchFinished
  | ToolResultReceived (ev_call: tool_call) (ev_result: string)
  | ApprovalGranted (ev_call: tool_call)
  | ApprovalAlwaysGranted (ev_call: tool_call)
  | ApprovalDenied (ev_call: tool_call)
  | ErrorOccurred (ev_err: "exc option")
  | is_CancelRequested: CancelRequested
  | is_ResetRequested: ResetRequested
  | is_EngineReady: EngineReady

fun event_kind :: "event \<Rightarrow> string" where
  "event_kind (UserMessageSubmitted _ _) = ''UserMessageSubmitted''"
| "event_kind (AssistantMessageReceived _) = ''AssistantMessageReceived''"
| "event_kind (ToolBatchReceived _ _ _) = ''ToolBatchReceived''"
| "event_kind (ToolCallNeedsApproval _ _) = ''ToolCallNeedsApproval''"
| "event_kind (ToolCallReadyToRun _) = ''ToolCallReadyToRun''"
| "event_kind (ToolCallDenied _ _) = ''ToolCallDenied''"
| "event_kind ToolBatchFinished = ''ToolBatchFinished''"
| "event_kind (ToolResultReceived _ _) = ''ToolResultReceived''"
| "event_kind (ApprovalGranted _) = ''ApprovalGranted''"
| "event_kind (ApprovalAlwaysGranted _) = ''ApprovalAlwaysGranted''"
| "event_kind (ApprovalDenied _) = ''ApprovalDenied''"
| "event_kind (ErrorOccurred _) = ''ErrorOccurred''"
| "event_kind CancelRequested = ''CancelRequested''"
| "event_kind ResetRequested = ''ResetRequested''"
| "event_kind EngineReady = ''EngineReady''"

text \<open>Every event type as a zero value, in declaration order.\<close>

definition ALL_EVENTS :: "event list" where
  "ALL_EVENTS = [UserMessageSubmitted '''' [], AssistantMessageReceived default_model_response,
     ToolBatchReceived '''' [] '''', ToolCallNeedsApproval default_tool_call default_perm_request,
     ToolCallReadyToRun default_tool_call, ToolCallDenied default_tool_call '''', ToolBatchFinished,
     ToolResultReceived default_tool_call '''', ApprovalGranted default_tool_call,
     ApprovalAlwaysGranted default_tool_call, ApprovalDenied default_tool_call, ErrorOccurred None,
     CancelRequested, ResetRequested, EngineReady]"

section \<open>The three machine errors\<close>

datatype machine_error =
    UnexpectedEventError mstate event
  | ProtocolViolationError mstate event string
  | InvariantViolationError string

text \<open>The text of each; an event's type name is its kind.\<close>

fun machine_error_text :: "machine_error \<Rightarrow> string" where
  "machine_error_text (UnexpectedEventError s e) =
     ''state '' @ state_text s @ '' does not accept event '' @ event_kind e"
| "machine_error_text (ProtocolViolationError s e r) =
     ''protocol violation in state '' @ state_text s @ '' for event '' @ event_kind e @ '': '' @ r"
| "machine_error_text (InvariantViolationError r) = ''engine state invariant violation: '' @ r"

section \<open>Scheduled actions, plans and runtime-data changes\<close>

datatype scheduled_action =
    CallModel
  | RunTool (sa_call: tool_call)
  | CheckToolQueue
  | AwaitApproval (sa_call: tool_call) (sa_request: perm_request)

record action_plan =
  ap_clear_existing :: bool
  ap_schedule :: "scheduled_action list"

definition default_action_plan :: action_plan where
  "default_action_plan = \<lparr>ap_clear_existing = False, ap_schedule = []\<rparr>"

definition schedule_plan :: "scheduled_action list \<Rightarrow> action_plan" where
  "schedule_plan as = \<lparr>ap_clear_existing = False, ap_schedule = as\<rparr>"

definition clear_plan :: action_plan where
  "clear_plan = \<lparr>ap_clear_existing = True, ap_schedule = []\<rparr>"

datatype change =
    AppendUserMessage string "attachment list"
  | AppendAssistantMessage message
  | AppendToolResult tool_call string
  | AppendStreamingAssistant stream_chunk
  | FlushStreamingAssistant bool
  | SetPendingTool tool_call perm_request
  | SetToolCallBatch string "tool_call list"
  | AdvanceToolCallBatch
  | ClearPendingTool
  | SetCurrentTool tool_call
  | ClearCurrentTool
  | ClearToolCallBatch
  | ResetConversation

record transition_result =
  tr_next_state :: mstate
  tr_changes :: "change list"
  tr_plan :: action_plan

section \<open>Runtime data and its validation\<close>

record runtime_data =
  rd_state :: mstate
  rd_messages :: "message list"
  rd_pending_tool :: "tool_call option"
  rd_pending_permission :: "perm_request option"
  rd_current_tool :: "tool_call option"
  rd_tool_batch :: "tool_batch option"
  rd_streaming_content :: string
  rd_streaming_reasoning :: string

text \<open>\<open>same_tool_call\<close>: by identifier when either has one, else by name and input.\<close>

definition same_tool_call :: "tool_call \<Rightarrow> tool_call \<Rightarrow> bool" where
  "same_tool_call l r =
     (if tc_id l \<noteq> '''' \<or> tc_id r \<noteq> '''' then tc_id l \<noteq> '''' \<and> tc_id l = tc_id r
      else tc_name l = tc_name r \<and> tc_input l = tc_input r)"

definition batch_previous_call_matches :: "tool_batch option \<Rightarrow> tool_call option \<Rightarrow> bool" where
  "batch_previous_call_matches batch call =
     (case (batch, call) of
        (Some b, Some c) \<Rightarrow> 0 < tb_index b \<and> tb_index b \<le> int (length (tb_calls b))
          \<and> same_tool_call (tb_calls b ! nat (tb_index b - 1)) c
      | _ \<Rightarrow> False)"

definition validate_runtime_data :: "runtime_data \<Rightarrow> (machine_error, unit) result" where
  "validate_runtime_data d =
     (if (case rd_tool_batch d of None \<Rightarrow> False
          | Some b \<Rightarrow> tb_index b < 0 \<or> tb_index b > int (length (tb_calls b)))
        then Inl (InvariantViolationError ''tool batch index is out of range'')
      else if rd_pending_tool d = None \<and> rd_pending_permission d \<noteq> None
        then Inl (InvariantViolationError ''pending permission has no pending tool'')
      else if (rd_streaming_content d \<noteq> '''' \<or> rd_streaming_reasoning d \<noteq> '''')
          \<and> rd_state d \<noteq> STATE_WAITING_LLM
        then Inl (InvariantViolationError ''streaming content exists outside WaitingLLM'')
      else if rd_state d \<in> {STATE_INITIALIZING, STATE_IDLE, STATE_WAITING_LLM} then
        (if rd_pending_tool d \<noteq> None \<or> rd_pending_permission d \<noteq> None
            \<or> rd_current_tool d \<noteq> None \<or> rd_tool_batch d \<noteq> None
         then Inl (InvariantViolationError (state_text (rd_state d) @ '' contains tool execution context''))
         else Inr ())
      else if rd_state d = STATE_ADVANCING_QUEUE then
        (if rd_tool_batch d = None
           then Inl (InvariantViolationError ''AdvancingQueue has no tool batch'')
         else if rd_pending_tool d \<noteq> None \<or> rd_pending_permission d \<noteq> None \<or> rd_current_tool d \<noteq> None
           then Inl (InvariantViolationError ''AdvancingQueue contains a pending or current tool'')
         else Inr ())
      else if rd_state d = STATE_WAITING_APPROVAL then
        (if rd_tool_batch d = None \<or> rd_pending_tool d = None \<or> rd_pending_permission d = None
           then Inl (InvariantViolationError ''WaitingApproval requires a batch, pending tool, and permission'')
         else if rd_current_tool d \<noteq> None
           then Inl (InvariantViolationError ''WaitingApproval contains a current tool'')
         else if \<not> batch_previous_call_matches (rd_tool_batch d) (rd_pending_tool d)
           then Inl (InvariantViolationError ''pending tool does not match the advanced batch call'')
         else Inr ())
      else if rd_state d = STATE_RUNNING_TOOL then
        (if rd_tool_batch d = None \<or> rd_current_tool d = None
           then Inl (InvariantViolationError ''RunningTool requires a batch and current tool'')
         else if rd_pending_tool d \<noteq> None \<or> rd_pending_permission d \<noteq> None
           then Inl (InvariantViolationError ''RunningTool contains pending approval context'')
         else if \<not> batch_previous_call_matches (rd_tool_batch d) (rd_current_tool d)
           then Inl (InvariantViolationError ''current tool does not match the advanced batch call'')
         else Inr ())
      else Inl (InvariantViolationError (''unknown state '' @ state_text (rd_state d))))"

section \<open>The snapshot a transition reads\<close>

record queue_view =
  qv_has_batch :: bool
  qv_next :: "tool_call option"
  qv_remaining :: "tool_call list"

definition queue_empty :: "queue_view \<Rightarrow> bool" where
  "queue_empty q = (qv_has_batch q \<and> qv_next q = None)"

record machine_snapshot =
  ms_state :: mstate
  ms_pending_tool :: "tool_call option"
  ms_current_tool :: "tool_call option"
  ms_queue :: queue_view

text \<open>\<open>snapshot_from\<close> reads the batch only after validation, so its index is in range.\<close>

definition queue_view_of :: "tool_batch option \<Rightarrow> queue_view" where
  "queue_view_of batch =
     (case batch of
        None \<Rightarrow> \<lparr>qv_has_batch = False, qv_next = None, qv_remaining = []\<rparr>
      | Some b \<Rightarrow>
          (if tb_index b < int (length (tb_calls b))
           then \<lparr>qv_has_batch = True, qv_next = Some (tb_calls b ! nat (tb_index b)),
                  qv_remaining = drop (nat (tb_index b)) (tb_calls b)\<rparr>
           else \<lparr>qv_has_batch = True, qv_next = None, qv_remaining = []\<rparr>))"

definition snapshot_from :: "runtime_data \<Rightarrow> (machine_error, machine_snapshot) result" where
  "snapshot_from d = bind_result (validate_runtime_data d) (\<lambda>_.
     Inr \<lparr>ms_state = rd_state d, ms_pending_tool = rd_pending_tool d,
          ms_current_tool = rd_current_tool d, ms_queue = queue_view_of (rd_tool_batch d)\<rparr>)"

section \<open>Applying changes\<close>

definition system_messages :: "message list \<Rightarrow> message list" where
  "system_messages ms = filter (\<lambda>m. msg_role m = ROLE_SYSTEM) ms"

fun apply_change :: "runtime_data \<Rightarrow> change \<Rightarrow> (machine_error, runtime_data) result" where
  "apply_change d (AppendUserMessage content attachments) =
     Inr (d\<lparr>rd_streaming_content := '''', rd_streaming_reasoning := '''',
       rd_messages := rd_messages d @ [default_message\<lparr>msg_role := ROLE_USER,
         msg_content := content, msg_attachments := attachments\<rparr>]\<rparr>)"
| "apply_change d (AppendAssistantMessage m) =
     Inr (d\<lparr>rd_streaming_content := '''', rd_streaming_reasoning := '''',
       rd_messages := rd_messages d @ [m]\<rparr>)"
| "apply_change d (AppendToolResult call result) =
     Inr (d\<lparr>rd_streaming_content := '''', rd_streaming_reasoning := '''',
       rd_messages := rd_messages d @ [tool_message call result]\<rparr>)"
| "apply_change d (AppendStreamingAssistant chunk) =
     Inr (d\<lparr>rd_streaming_content := rd_streaming_content d @ sc_content_delta chunk,
       rd_streaming_reasoning := rd_streaming_reasoning d @ sc_reasoning_delta chunk\<rparr>)"
| "apply_change d (FlushStreamingAssistant interrupted) =
     Inr (d\<lparr>rd_streaming_content := '''', rd_streaming_reasoning := '''',
       rd_messages :=
         (if rd_streaming_content d \<noteq> '''' \<or> rd_streaming_reasoning d \<noteq> ''''
          then rd_messages d @ [default_message\<lparr>msg_role := ROLE_ASSISTANT,
            msg_content := rd_streaming_content d, msg_reasoning := rd_streaming_reasoning d,
            msg_interrupted := interrupted\<rparr>]
          else rd_messages d)\<rparr>)"
| "apply_change d (SetPendingTool call request) =
     Inr (d\<lparr>rd_pending_tool := Some call, rd_pending_permission := Some request\<rparr>)"
| "apply_change d (SetCurrentTool call) = Inr (d\<lparr>rd_current_tool := Some call\<rparr>)"
| "apply_change d (SetToolCallBatch i calls) =
     Inr (d\<lparr>rd_tool_batch := Some \<lparr>tb_id = i, tb_calls = calls, tb_index = 0\<rparr>\<rparr>)"
| "apply_change d AdvanceToolCallBatch =
     (case rd_tool_batch d of
        None \<Rightarrow> Inl (InvariantViolationError ''cannot advance an empty tool batch'')
      | Some b \<Rightarrow>
          (if tb_index b \<ge> int (length (tb_calls b))
           then Inl (InvariantViolationError ''cannot advance an empty tool batch'')
           else Inr (d\<lparr>rd_tool_batch := Some (b\<lparr>tb_index := tb_index b + 1\<rparr>)\<rparr>)))"
| "apply_change d ClearPendingTool = Inr (d\<lparr>rd_pending_tool := None, rd_pending_permission := None\<rparr>)"
| "apply_change d ClearCurrentTool = Inr (d\<lparr>rd_current_tool := None\<rparr>)"
| "apply_change d ClearToolCallBatch = Inr (d\<lparr>rd_tool_batch := None\<rparr>)"
| "apply_change d ResetConversation =
     Inr (d\<lparr>rd_messages := system_messages (rd_messages d), rd_pending_tool := None,
       rd_pending_permission := None, rd_current_tool := None, rd_tool_batch := None,
       rd_streaming_content := '''', rd_streaming_reasoning := ''''\<rparr>)"

text \<open>
  \<open>apply_runtime_data_changes\<close>: clone, set the state, apply in order, validate. Records
  are values here, so the clone is the record itself.
\<close>

definition apply_runtime_data_changes ::
    "runtime_data \<Rightarrow> transition_result \<Rightarrow> (machine_error, runtime_data) result" where
  "apply_runtime_data_changes d r =
     bind_result (fold_result apply_change (d\<lparr>rd_state := tr_next_state r\<rparr>) (tr_changes r)) (\<lambda>d'.
     bind_result (validate_runtime_data d') (\<lambda>_. Inr d'))"

section \<open>Validity\<close>

definition valid_data :: "runtime_data \<Rightarrow> bool" where
  "valid_data d \<longleftrightarrow> validate_runtime_data d = Inr ()"

lemma same_tool_call_refl [simp]: "same_tool_call c c"
  by (simp add: same_tool_call_def)

lemma same_tool_call_sym: "same_tool_call a b \<Longrightarrow> same_tool_call b a"
  by (auto simp: same_tool_call_def split: if_splits)

lemma same_tool_call_trans: "same_tool_call a b \<Longrightarrow> same_tool_call b c \<Longrightarrow> same_tool_call a c"
  by (auto simp: same_tool_call_def split: if_splits)

lemma same_tool_call_id: "same_tool_call a b \<Longrightarrow> tc_id a = tc_id b"
  by (auto simp: same_tool_call_def split: if_splits)

text \<open>What validity says in each state: the table of \<open>docs/machine.md\<close>.\<close>

definition no_streaming :: "runtime_data \<Rightarrow> bool" where
  "no_streaming d \<longleftrightarrow> rd_streaming_content d = '''' \<and> rd_streaming_reasoning d = ''''"

definition no_tools :: "runtime_data \<Rightarrow> bool" where
  "no_tools d \<longleftrightarrow> rd_pending_tool d = None \<and> rd_pending_permission d = None
     \<and> rd_current_tool d = None \<and> rd_tool_batch d = None"

definition index_in_range :: "tool_batch \<Rightarrow> bool" where
  "index_in_range b \<longleftrightarrow> 0 \<le> tb_index b \<and> tb_index b \<le> int (length (tb_calls b))"

fun coherent_in :: "mstate \<Rightarrow> runtime_data \<Rightarrow> bool" where
  "coherent_in STATE_WAITING_LLM d = no_tools d"
| "coherent_in STATE_INITIALIZING d = (no_tools d \<and> no_streaming d)"
| "coherent_in STATE_IDLE d = (no_tools d \<and> no_streaming d)"
| "coherent_in STATE_ADVANCING_QUEUE d =
     (no_streaming d \<and> rd_pending_tool d = None \<and> rd_pending_permission d = None
      \<and> rd_current_tool d = None \<and> (\<exists>b. rd_tool_batch d = Some b \<and> index_in_range b))"
| "coherent_in STATE_WAITING_APPROVAL d =
     (no_streaming d \<and> rd_current_tool d = None
      \<and> (\<exists>b c p. rd_tool_batch d = Some b \<and> rd_pending_tool d = Some c
           \<and> rd_pending_permission d = Some p \<and> index_in_range b \<and> 0 < tb_index b
           \<and> same_tool_call (tb_calls b ! nat (tb_index b - 1)) c))"
| "coherent_in STATE_RUNNING_TOOL d =
     (no_streaming d \<and> rd_pending_tool d = None \<and> rd_pending_permission d = None
      \<and> (\<exists>b c. rd_tool_batch d = Some b \<and> rd_current_tool d = Some c
           \<and> index_in_range b \<and> 0 < tb_index b
           \<and> same_tool_call (tb_calls b ! nat (tb_index b - 1)) c))"
| "coherent_in ZERO_STATE d = False"

lemma valid_data_iff: "valid_data d \<longleftrightarrow> coherent_in (rd_state d) d"
proof (cases "rd_state d")
  case STATE_WAITING_APPROVAL
  then show ?thesis
    by (auto simp: valid_data_def validate_runtime_data_def no_streaming_def index_in_range_def
        batch_previous_call_matches_def split: option.splits if_splits)
next
  case STATE_RUNNING_TOOL
  then show ?thesis
    by (auto simp: valid_data_def validate_runtime_data_def no_streaming_def index_in_range_def
        batch_previous_call_matches_def split: option.splits if_splits)
qed (auto simp: valid_data_def validate_runtime_data_def no_streaming_def no_tools_def
      index_in_range_def split: option.splits if_splits)

lemma snapshot_from_valid:
  "valid_data d \<Longrightarrow> snapshot_from d = Inr \<lparr>ms_state = rd_state d, ms_pending_tool = rd_pending_tool d,
     ms_current_tool = rd_current_tool d, ms_queue = queue_view_of (rd_tool_batch d)\<rparr>"
  by (simp add: snapshot_from_def valid_data_def)

lemma snapshot_from_Inr: "snapshot_from d = Inr s \<Longrightarrow> valid_data d"
  by (auto simp: snapshot_from_def valid_data_def bind_result_Inr_iff)

lemma apply_changes_valid: "apply_runtime_data_changes d r = Inr d' \<Longrightarrow> valid_data d'"
  by (auto simp: apply_runtime_data_changes_def valid_data_def bind_result_Inr_iff)

lemma apply_changes_Inr_iff:
  "apply_runtime_data_changes d r = Inr d' \<longleftrightarrow>
     fold_result apply_change (d\<lparr>rd_state := tr_next_state r\<rparr>) (tr_changes r) = Inr d' \<and> valid_data d'"
  by (auto simp: apply_runtime_data_changes_def valid_data_def bind_result_Inr_iff)

lemma system_messages_simps [simp]:
  "system_messages [] = []"
  "system_messages (m # ms) = (if msg_role m = ROLE_SYSTEM then m # system_messages ms else system_messages ms)"
  "system_messages (ms @ ns) = system_messages ms @ system_messages ns"
  "system_messages (system_messages ms) = system_messages ms"
  by (simp_all add: system_messages_def)

text \<open>A run of tool results appends one tool message each and touches nothing else.\<close>

lemma fold_tool_results:
  "fold_result apply_change d (map (\<lambda>(c, r). AppendToolResult c r) crs) =
     Inr (if crs = [] then d else d\<lparr>rd_streaming_content := '''', rd_streaming_reasoning := '''',
       rd_messages := rd_messages d @ map (\<lambda>(c, r). tool_message c r) crs\<rparr>)"
proof (induction crs arbitrary: d)
  case Nil
  show ?case by simp
next
  case (Cons cr crs)
  obtain c r where cr: "cr = (c, r)" by fastforce
  have "fold_result apply_change d (map (\<lambda>(c, r). AppendToolResult c r) (cr # crs)) =
      fold_result apply_change (d\<lparr>rd_streaming_content := '''', rd_streaming_reasoning := '''',
        rd_messages := rd_messages d @ [tool_message c r]\<rparr>)
        (map (\<lambda>(c, r). AppendToolResult c r) crs)"
    by (simp add: cr)
  then show ?case unfolding Cons.IH by (simp add: cr)
qed

end
