(* ===== verification/Transition.thy ===== *)
theory Transition
  imports Machine
begin

text \<open>
  The transition table (\<open>runtime/machine/transition.py\<close>): the fifteen handlers, the
  registry they are put into at import time, the lookup \<open>transition\<close> performs, and the
  pure step of the machine: snapshot, decide, apply.

  A handler reads the fields of its own event class; a selector applied to another class
  of event has no meaning, and the \<open>isinstance\<close> check of \<open>adapt_transition\<close> comes first.
\<close>

type_synonym handler = "machine_snapshot \<Rightarrow> event \<Rightarrow> (machine_error, transition_result) result"

section \<open>Handlers\<close>

definition handle_engine_ready :: handler where
  "handle_engine_ready s e =
     Inr \<lparr>tr_next_state = STATE_IDLE, tr_changes = [], tr_plan = default_action_plan\<rparr>"

definition handle_user_message_submitted :: handler where
  "handle_user_message_submitted s e =
     Inr \<lparr>tr_next_state = STATE_WAITING_LLM,
       tr_changes = [AppendUserMessage (ev_content e) (ev_attachments e)],
       tr_plan = schedule_plan [CallModel]\<rparr>"

definition handle_assistant_message_received :: handler where
  "handle_assistant_message_received s e =
     Inr \<lparr>tr_next_state = STATE_IDLE,
       tr_changes = [AppendAssistantMessage (default_message\<lparr>msg_role := ROLE_ASSISTANT,
         msg_content := mr_content (ev_response e), msg_reasoning := mr_reasoning (ev_response e)\<rparr>)],
       tr_plan = default_action_plan\<rparr>"

definition tool_batch_id :: "tool_call list \<Rightarrow> string" where
  "tool_batch_id calls =
     (case calls of [] \<Rightarrow> ''batch'' | c # _ \<Rightarrow> if tc_id c = '''' then ''batch'' else ''batch-'' @ tc_id c)"

definition handle_tool_batch_received :: handler where
  "handle_tool_batch_received s e =
     (if ev_calls e = [] then Inl (ProtocolViolationError (ms_state s) e ''tool batch is empty'')
      else Inr \<lparr>tr_next_state = STATE_ADVANCING_QUEUE,
        tr_changes = [AppendAssistantMessage (default_message\<lparr>msg_role := ROLE_ASSISTANT,
            msg_content := ev_content e, msg_reasoning := ev_reasoning e,
            msg_tool_calls := Some (ev_calls e)\<rparr>),
          SetToolCallBatch (tool_batch_id (ev_calls e)) (ev_calls e)],
        tr_plan = schedule_plan [CheckToolQueue]\<rparr>)"

definition approve_tool :: "machine_snapshot \<Rightarrow> event \<Rightarrow> tool_call \<Rightarrow> (machine_error, transition_result) result" where
  "approve_tool s e call =
     (case ms_pending_tool s of
        None \<Rightarrow> Inl (ProtocolViolationError (ms_state s) e ''approval has no pending tool'')
      | Some pending \<Rightarrow>
          if \<not> same_tool_call call pending
          then Inl (ProtocolViolationError (ms_state s) e ''approved call does not match pending tool'')
          else Inr \<lparr>tr_next_state = STATE_RUNNING_TOOL,
            tr_changes = [SetCurrentTool call, ClearPendingTool],
            tr_plan = schedule_plan [RunTool call]\<rparr>)"

definition handle_approval_granted :: handler where
  "handle_approval_granted s e = approve_tool s e (ev_call e)"

definition handle_approval_always_granted :: handler where
  "handle_approval_always_granted s e = approve_tool s e (ev_call e)"

definition handle_approval_denied :: handler where
  "handle_approval_denied s e =
     (case ms_pending_tool s of
        None \<Rightarrow> Inl (ProtocolViolationError (ms_state s) e ''denial has no pending tool'')
      | Some pending \<Rightarrow>
          if \<not> same_tool_call (ev_call e) pending
          then Inl (ProtocolViolationError (ms_state s) e ''denied call does not match pending tool'')
          else Inr \<lparr>tr_next_state = STATE_ADVANCING_QUEUE,
            tr_changes = [ClearPendingTool, AppendToolResult (ev_call e) (''denied: '' @ tc_name (ev_call e))],
            tr_plan = schedule_plan [CheckToolQueue]\<rparr>)"

definition handle_tool_result_received :: handler where
  "handle_tool_result_received s e =
     (case ms_current_tool s of
        None \<Rightarrow> Inl (ProtocolViolationError (ms_state s) e ''tool result has no current tool'')
      | Some current \<Rightarrow>
          if \<not> same_tool_call (ev_call e) current
          then Inl (ProtocolViolationError (ms_state s) e ''result call does not match current tool'')
          else Inr \<lparr>tr_next_state = STATE_ADVANCING_QUEUE,
            tr_changes = [AppendToolResult (ev_call e) (ev_result e), ClearCurrentTool],
            tr_plan = schedule_plan [CheckToolQueue]\<rparr>)"

definition handle_tool_batch_finished :: handler where
  "handle_tool_batch_finished s e =
     (if \<not> queue_empty (ms_queue s)
      then Inl (ProtocolViolationError (ms_state s) e ''tool batch finished before the queue was empty'')
      else Inr \<lparr>tr_next_state = STATE_WAITING_LLM, tr_changes = [ClearToolCallBatch],
        tr_plan = schedule_plan [CallModel]\<rparr>)"

definition handle_tool_call_needs_approval :: handler where
  "handle_tool_call_needs_approval s e =
     (case qv_next (ms_queue s) of
        None \<Rightarrow> Inl (ProtocolViolationError (ms_state s) e ''approval requested with no next tool'')
      | Some next_call \<Rightarrow>
          if \<not> same_tool_call (ev_call e) next_call
          then Inl (ProtocolViolationError (ms_state s) e ''approval call does not match next tool'')
          else Inr \<lparr>tr_next_state = STATE_WAITING_APPROVAL,
            tr_changes = [SetPendingTool (ev_call e) (ev_request e), AdvanceToolCallBatch],
            tr_plan = schedule_plan [AwaitApproval (ev_call e) (ev_request e)]\<rparr>)"

definition handle_tool_call_ready_to_run :: handler where
  "handle_tool_call_ready_to_run s e =
     (case qv_next (ms_queue s) of
        None \<Rightarrow> Inl (ProtocolViolationError (ms_state s) e ''ready call has no next tool'')
      | Some next_call \<Rightarrow>
          if \<not> same_tool_call (ev_call e) next_call
          then Inl (ProtocolViolationError (ms_state s) e ''ready call does not match next tool'')
          else Inr \<lparr>tr_next_state = STATE_RUNNING_TOOL,
            tr_changes = [AdvanceToolCallBatch, SetCurrentTool (ev_call e)],
            tr_plan = schedule_plan [RunTool (ev_call e)]\<rparr>)"

definition handle_tool_call_denied :: handler where
  "handle_tool_call_denied s e =
     (case qv_next (ms_queue s) of
        None \<Rightarrow> Inl (ProtocolViolationError (ms_state s) e ''denied call has no next tool'')
      | Some next_call \<Rightarrow>
          if \<not> same_tool_call (ev_call e) next_call
          then Inl (ProtocolViolationError (ms_state s) e ''denied call does not match next tool'')
          else Inr \<lparr>tr_next_state = STATE_ADVANCING_QUEUE,
            tr_changes = [AdvanceToolCallBatch,
              AppendToolResult (ev_call e) (''denied by permission policy: '' @ ev_reason e)],
            tr_plan = schedule_plan [CheckToolQueue]\<rparr>)"

text \<open>The answers an abandoned turn owes: pending, current, then the rest of the batch.\<close>

definition outstanding_tool_results :: "machine_snapshot \<Rightarrow> string \<Rightarrow> string \<Rightarrow> change list" where
  "outstanding_tool_results s running_result not_executed =
     (case ms_pending_tool s of None \<Rightarrow> [] | Some c \<Rightarrow> [AppendToolResult c not_executed]) @
     (case ms_current_tool s of None \<Rightarrow> [] | Some c \<Rightarrow> [AppendToolResult c running_result]) @
     map (\<lambda>c. AppendToolResult c not_executed) (qv_remaining (ms_queue s))"

definition runtime_error_message :: "exc option \<Rightarrow> string" where
  "runtime_error_message err = (case err of None \<Rightarrow> ''unknown runtime error'' | Some x \<Rightarrow> exc_text x)"

definition handle_error_occurred :: handler where
  "handle_error_occurred s e = (let reason = runtime_error_message (ev_err e) in
     Inr \<lparr>tr_next_state = STATE_IDLE,
       tr_changes = [FlushStreamingAssistant True]
         @ outstanding_tool_results s reason (''not executed: '' @ reason)
         @ [ClearPendingTool, ClearCurrentTool, ClearToolCallBatch],
       tr_plan = clear_plan\<rparr>)"

definition handle_cancel_requested :: handler where
  "handle_cancel_requested s e =
     Inr \<lparr>tr_next_state = STATE_IDLE,
       tr_changes = [FlushStreamingAssistant True]
         @ outstanding_tool_results s ''cancelled'' ''not executed: cancelled''
         @ [ClearPendingTool, ClearCurrentTool, ClearToolCallBatch],
       tr_plan = clear_plan\<rparr>"

definition handle_reset_requested :: handler where
  "handle_reset_requested s e =
     Inr \<lparr>tr_next_state = STATE_IDLE, tr_changes = [ResetConversation], tr_plan = clear_plan\<rparr>"

section \<open>The registry\<close>

type_synonym transition_key = "mstate \<times> string"
type_synonym transition_registry = "transition_key \<rightharpoonup> handler"

definition adapt_transition :: "(event \<Rightarrow> bool) \<Rightarrow> handler \<Rightarrow> handler" where
  "adapt_transition is_event_type h s e =
     (if \<not> is_event_type e
      then Inl (ProtocolViolationError (ms_state s) e ''registered handler has incompatible event type'')
      else h s e)"

text \<open>A duplicate rule raises \<open>RuntimeError\<close> with this text.\<close>

definition register_transition ::
    "transition_registry \<Rightarrow> transition_key \<Rightarrow> handler \<Rightarrow> (string, transition_registry) result" where
  "register_transition registry key h =
     (if registry key \<noteq> None
      then Inl (''duplicate state transition: '' @ state_text (fst key) @ '' + '' @ snd key)
      else Inr (registry(key \<mapsto> h)))"

definition transition_rules :: "(transition_key \<times> handler) list" where
  "transition_rules =
    [((STATE_INITIALIZING, ''EngineReady''), adapt_transition is_EngineReady handle_engine_ready),
     ((STATE_IDLE, ''UserMessageSubmitted''),
        adapt_transition is_UserMessageSubmitted handle_user_message_submitted),
     ((STATE_WAITING_LLM, ''AssistantMessageReceived''),
        adapt_transition is_AssistantMessageReceived handle_assistant_message_received),
     ((STATE_WAITING_LLM, ''ToolBatchReceived''),
        adapt_transition is_ToolBatchReceived handle_tool_batch_received),
     ((STATE_WAITING_APPROVAL, ''ApprovalGranted''),
        adapt_transition is_ApprovalGranted handle_approval_granted),
     ((STATE_WAITING_APPROVAL, ''ApprovalAlwaysGranted''),
        adapt_transition is_ApprovalAlwaysGranted handle_approval_always_granted),
     ((STATE_WAITING_APPROVAL, ''ApprovalDenied''),
        adapt_transition is_ApprovalDenied handle_approval_denied),
     ((STATE_RUNNING_TOOL, ''ToolResultReceived''),
        adapt_transition is_ToolResultReceived handle_tool_result_received),
     ((STATE_ADVANCING_QUEUE, ''ToolBatchFinished''),
        adapt_transition is_ToolBatchFinished handle_tool_batch_finished),
     ((STATE_ADVANCING_QUEUE, ''ToolCallNeedsApproval''),
        adapt_transition is_ToolCallNeedsApproval handle_tool_call_needs_approval),
     ((STATE_ADVANCING_QUEUE, ''ToolCallReadyToRun''),
        adapt_transition is_ToolCallReadyToRun handle_tool_call_ready_to_run),
     ((STATE_ADVANCING_QUEUE, ''ToolCallDenied''),
        adapt_transition is_ToolCallDenied handle_tool_call_denied),
     ((ZERO_STATE, ''ErrorOccurred''), adapt_transition is_ErrorOccurred handle_error_occurred),
     ((ZERO_STATE, ''CancelRequested''), adapt_transition is_CancelRequested handle_cancel_requested),
     ((ZERO_STATE, ''ResetRequested''), adapt_transition is_ResetRequested handle_reset_requested)]"

definition new_transition_registry :: "(string, transition_registry) result" where
  "new_transition_registry =
     fold_result (\<lambda>registry (key, h). register_transition registry key h) Map.empty transition_rules"

text \<open>The module-level registry; a build that raised would leave the module unimported.\<close>

definition transition_registry :: transition_registry where
  "transition_registry = (case new_transition_registry of Inl _ \<Rightarrow> Map.empty | Inr r \<Rightarrow> r)"

definition transition :: handler where
  "transition s e =
     (case transition_registry (ms_state s, event_kind e) of
        Some h \<Rightarrow> h s e
      | None \<Rightarrow>
          (case transition_registry (ZERO_STATE, event_kind e) of
             Some h \<Rightarrow> h s e
           | None \<Rightarrow> Inl (UnexpectedEventError (ms_state s) e)))"

text \<open>
  The pure part of a dispatched event: read a validated snapshot, decide, apply to a
  clone. The new data comes with the plan for the action queue.
\<close>

definition machine_step :: "runtime_data \<Rightarrow> event \<Rightarrow> (machine_error, runtime_data \<times> action_plan) result" where
  "machine_step d e =
     bind_result (snapshot_from d) (\<lambda>s.
     bind_result (transition s e) (\<lambda>r.
     bind_result (apply_runtime_data_changes d r) (\<lambda>d'. Inr (d', tr_plan r))))"

section \<open>The registry, evaluated\<close>

lemma fold_register_distinct:
  "distinct (map fst rules) \<Longrightarrow> (\<And>k. k \<in> fst ` set rules \<Longrightarrow> reg k = None) \<Longrightarrow>
   fold_result (\<lambda>registry (key, h). register_transition registry key h) reg rules
     = Inr (reg ++ map_of rules)"
proof (induction rules arbitrary: reg)
  case Nil
  show ?case by simp
next
  case (Cons kh rules)
  obtain k h where kh: "kh = (k, h)" by fastforce
  have fresh: "reg k = None" using Cons.prems(2) by (simp add: kh)
  have "fold_result (\<lambda>registry (key, h). register_transition registry key h) (reg(k \<mapsto> h)) rules
      = Inr (reg(k \<mapsto> h) ++ map_of rules)"
  proof (rule Cons.IH)
    show "distinct (map fst rules)" using Cons.prems(1) by simp
    show "(reg(k \<mapsto> h)) k' = None" if "k' \<in> fst ` set rules" for k'
      using that Cons.prems by (auto simp: kh)
  qed
  moreover have "map_of rules k = None"
    using Cons.prems(1) by (simp add: kh map_of_eq_None_iff)
  then have "reg(k \<mapsto> h) ++ map_of rules = reg ++ map_of (kh # rules)"
    by (auto simp: kh map_add_def fun_eq_iff split: option.splits)
  moreover have "register_transition reg k h = Inr (reg(k \<mapsto> h))"
    by (simp add: register_transition_def fresh)
  ultimately show ?case by (simp only: kh fold_result.simps prod.case bind_result_simps)
qed

lemma transition_rules_distinct: "distinct (map fst transition_rules)"
  by (simp add: transition_rules_def)

lemma new_transition_registry_eq: "new_transition_registry = Inr (map_of transition_rules)"
  by (simp add: new_transition_registry_def fold_register_distinct transition_rules_distinct)

lemma transition_registry_eq: "transition_registry = map_of transition_rules"
  by (simp add: transition_registry_def new_transition_registry_eq)

text \<open>What \<open>transition\<close> does for each event class, with the registry looked up.\<close>

lemma transition_eqs:
  "transition s (UserMessageSubmitted t a) =
     (if ms_state s = STATE_IDLE then handle_user_message_submitted s (UserMessageSubmitted t a)
      else Inl (UnexpectedEventError (ms_state s) (UserMessageSubmitted t a)))"
  "transition s (AssistantMessageReceived m) =
     (if ms_state s = STATE_WAITING_LLM then handle_assistant_message_received s (AssistantMessageReceived m)
      else Inl (UnexpectedEventError (ms_state s) (AssistantMessageReceived m)))"
  "transition s (ToolBatchReceived t cs r) =
     (if ms_state s = STATE_WAITING_LLM then handle_tool_batch_received s (ToolBatchReceived t cs r)
      else Inl (UnexpectedEventError (ms_state s) (ToolBatchReceived t cs r)))"
  "transition s (ToolCallNeedsApproval c q) =
     (if ms_state s = STATE_ADVANCING_QUEUE then handle_tool_call_needs_approval s (ToolCallNeedsApproval c q)
      else Inl (UnexpectedEventError (ms_state s) (ToolCallNeedsApproval c q)))"
  "transition s (ToolCallReadyToRun c) =
     (if ms_state s = STATE_ADVANCING_QUEUE then handle_tool_call_ready_to_run s (ToolCallReadyToRun c)
      else Inl (UnexpectedEventError (ms_state s) (ToolCallReadyToRun c)))"
  "transition s (ToolCallDenied c w) =
     (if ms_state s = STATE_ADVANCING_QUEUE then handle_tool_call_denied s (ToolCallDenied c w)
      else Inl (UnexpectedEventError (ms_state s) (ToolCallDenied c w)))"
  "transition s ToolBatchFinished =
     (if ms_state s = STATE_ADVANCING_QUEUE then handle_tool_batch_finished s ToolBatchFinished
      else Inl (UnexpectedEventError (ms_state s) ToolBatchFinished))"
  "transition s (ToolResultReceived c w) =
     (if ms_state s = STATE_RUNNING_TOOL then handle_tool_result_received s (ToolResultReceived c w)
      else Inl (UnexpectedEventError (ms_state s) (ToolResultReceived c w)))"
  "transition s (ApprovalGranted c) =
     (if ms_state s = STATE_WAITING_APPROVAL then handle_approval_granted s (ApprovalGranted c)
      else Inl (UnexpectedEventError (ms_state s) (ApprovalGranted c)))"
  "transition s (ApprovalAlwaysGranted c) =
     (if ms_state s = STATE_WAITING_APPROVAL then handle_approval_always_granted s (ApprovalAlwaysGranted c)
      else Inl (UnexpectedEventError (ms_state s) (ApprovalAlwaysGranted c)))"
  "transition s (ApprovalDenied c) =
     (if ms_state s = STATE_WAITING_APPROVAL then handle_approval_denied s (ApprovalDenied c)
      else Inl (UnexpectedEventError (ms_state s) (ApprovalDenied c)))"
  "transition s (ErrorOccurred x) = handle_error_occurred s (ErrorOccurred x)"
  "transition s CancelRequested = handle_cancel_requested s CancelRequested"
  "transition s ResetRequested = handle_reset_requested s ResetRequested"
  "transition s EngineReady =
     (if ms_state s = STATE_INITIALIZING then handle_engine_ready s EngineReady
      else Inl (UnexpectedEventError (ms_state s) EngineReady))"
  by (simp_all add: transition_def transition_registry_eq transition_rules_def adapt_transition_def)

lemmas handler_defs =
  handle_engine_ready_def handle_user_message_submitted_def handle_assistant_message_received_def
  handle_tool_batch_received_def approve_tool_def handle_approval_granted_def
  handle_approval_always_granted_def handle_approval_denied_def handle_tool_result_received_def
  handle_tool_batch_finished_def handle_tool_call_needs_approval_def
  handle_tool_call_ready_to_run_def handle_tool_call_denied_def handle_error_occurred_def
  handle_cancel_requested_def handle_reset_requested_def

section \<open>The documented edges\<close>

text \<open>The table of \<open>docs/machine.md\<close>: the state an accepted event leads to.\<close>

fun documented_edge :: "mstate \<Rightarrow> event \<Rightarrow> mstate option" where
  "documented_edge STATE_INITIALIZING EngineReady = Some STATE_IDLE"
| "documented_edge STATE_IDLE (UserMessageSubmitted _ _) = Some STATE_WAITING_LLM"
| "documented_edge STATE_WAITING_LLM (AssistantMessageReceived _) = Some STATE_IDLE"
| "documented_edge STATE_WAITING_LLM (ToolBatchReceived _ _ _) = Some STATE_ADVANCING_QUEUE"
| "documented_edge STATE_WAITING_APPROVAL (ApprovalGranted _) = Some STATE_RUNNING_TOOL"
| "documented_edge STATE_WAITING_APPROVAL (ApprovalAlwaysGranted _) = Some STATE_RUNNING_TOOL"
| "documented_edge STATE_WAITING_APPROVAL (ApprovalDenied _) = Some STATE_ADVANCING_QUEUE"
| "documented_edge STATE_RUNNING_TOOL (ToolResultReceived _ _) = Some STATE_ADVANCING_QUEUE"
| "documented_edge STATE_ADVANCING_QUEUE ToolBatchFinished = Some STATE_WAITING_LLM"
| "documented_edge STATE_ADVANCING_QUEUE (ToolCallNeedsApproval _ _) = Some STATE_WAITING_APPROVAL"
| "documented_edge STATE_ADVANCING_QUEUE (ToolCallReadyToRun _) = Some STATE_RUNNING_TOOL"
| "documented_edge STATE_ADVANCING_QUEUE (ToolCallDenied _ _) = Some STATE_ADVANCING_QUEUE"
| "documented_edge _ (ErrorOccurred _) = Some STATE_IDLE"
| "documented_edge _ CancelRequested = Some STATE_IDLE"
| "documented_edge _ ResetRequested = Some STATE_IDLE"
| "documented_edge _ _ = None"

lemma transition_undocumented:
  "transition s e = Inl (UnexpectedEventError (ms_state s) e) \<longleftrightarrow> documented_edge (ms_state s) e = None"
  by (cases e; cases "ms_state s")
     (auto simp: transition_eqs handler_defs Let_def split: option.splits)

lemma transition_follows_edge:
  "transition s e = Inr r \<Longrightarrow> documented_edge (ms_state s) e = Some (tr_next_state r)"
  by (cases e; cases "ms_state s")
     (auto simp: transition_eqs handler_defs Let_def split: option.splits if_splits)

section \<open>When an event is accepted\<close>

text \<open>The guard of each rule over the data of a valid \<open>RuntimeData\<close>.\<close>

definition next_call :: "tool_batch \<Rightarrow> tool_call option" where
  "next_call b = (if tb_index b < int (length (tb_calls b)) then Some (tb_calls b ! nat (tb_index b)) else None)"

definition matches :: "tool_call \<Rightarrow> tool_call option \<Rightarrow> bool" where
  "matches c slot = (case slot of None \<Rightarrow> False | Some x \<Rightarrow> same_tool_call c x)"

fun event_guard :: "runtime_data \<Rightarrow> event \<Rightarrow> bool" where
  "event_guard d (ToolBatchReceived _ calls _) = (calls \<noteq> [])"
| "event_guard d (ToolCallNeedsApproval c _) = matches c (Option.bind (rd_tool_batch d) next_call)"
| "event_guard d (ToolCallReadyToRun c) = matches c (Option.bind (rd_tool_batch d) next_call)"
| "event_guard d (ToolCallDenied c _) = matches c (Option.bind (rd_tool_batch d) next_call)"
| "event_guard d ToolBatchFinished = (Option.bind (rd_tool_batch d) next_call = None)"
| "event_guard d (ToolResultReceived c _) = matches c (rd_current_tool d)"
| "event_guard d (ApprovalGranted c) = matches c (rd_pending_tool d)"
| "event_guard d (ApprovalAlwaysGranted c) = matches c (rd_pending_tool d)"
| "event_guard d (ApprovalDenied c) = matches c (rd_pending_tool d)"
| "event_guard d _ = True"

definition accepts :: "runtime_data \<Rightarrow> event \<Rightarrow> bool" where
  "accepts d e \<longleftrightarrow> documented_edge (rd_state d) e \<noteq> None \<and> event_guard d e"

section \<open>The abstract effect of an event\<close>

text \<open>
  The calls of the current batch that have no answer yet, in the order an abandoned turn
  answers them, and the answer each gets: the call that is running gets the reason itself.
\<close>

definition remaining_calls :: "runtime_data \<Rightarrow> tool_call list" where
  "remaining_calls d = (case rd_tool_batch d of None \<Rightarrow> [] | Some b \<Rightarrow> drop (nat (tb_index b)) (tb_calls b))"

definition outstanding_calls :: "runtime_data \<Rightarrow> tool_call list" where
  "outstanding_calls d = (case rd_pending_tool d of None \<Rightarrow> [] | Some c \<Rightarrow> [c])
     @ (case rd_current_tool d of None \<Rightarrow> [] | Some c \<Rightarrow> [c]) @ remaining_calls d"

definition outstanding_answers :: "runtime_data \<Rightarrow> string \<Rightarrow> string \<Rightarrow> (tool_call \<times> string) list" where
  "outstanding_answers d running_result not_executed =
     (case rd_pending_tool d of None \<Rightarrow> [] | Some c \<Rightarrow> [(c, not_executed)])
     @ (case rd_current_tool d of None \<Rightarrow> [] | Some c \<Rightarrow> [(c, running_result)])
     @ map (\<lambda>c. (c, not_executed)) (remaining_calls d)"

lemma outstanding_answers_calls [simp]: "map fst (outstanding_answers d r n) = outstanding_calls d"
  by (simp add: outstanding_answers_def outstanding_calls_def comp_def split: option.split)

definition interrupted_message :: "runtime_data \<Rightarrow> message list" where
  "interrupted_message d =
     (if no_streaming d then []
      else [default_message\<lparr>msg_role := ROLE_ASSISTANT, msg_content := rd_streaming_content d,
        msg_reasoning := rd_streaming_reasoning d, msg_interrupted := True\<rparr>])"

definition cleared :: "runtime_data \<Rightarrow> runtime_data" where
  "cleared d = d\<lparr>rd_state := STATE_IDLE, rd_pending_tool := None, rd_pending_permission := None,
     rd_current_tool := None, rd_tool_batch := None, rd_streaming_content := '''',
     rd_streaming_reasoning := ''''\<rparr>"

definition abandoned :: "runtime_data \<Rightarrow> string \<Rightarrow> string \<Rightarrow> runtime_data" where
  "abandoned d running_result not_executed =
     (cleared d)\<lparr>rd_messages := rd_messages d @ interrupted_message d
       @ map (\<lambda>(c, r). tool_message c r) (outstanding_answers d running_result not_executed)\<rparr>"

definition add_message :: "runtime_data \<Rightarrow> message \<Rightarrow> runtime_data" where
  "add_message d m = d\<lparr>rd_streaming_content := '''', rd_streaming_reasoning := '''',
     rd_messages := rd_messages d @ [m]\<rparr>"

definition advanced :: "runtime_data \<Rightarrow> runtime_data" where
  "advanced d = d\<lparr>rd_tool_batch := map_option (\<lambda>b. b\<lparr>tb_index := tb_index b + 1\<rparr>) (rd_tool_batch d)\<rparr>"

fun next_data :: "runtime_data \<Rightarrow> event \<Rightarrow> runtime_data" where
  "next_data d EngineReady = d\<lparr>rd_state := STATE_IDLE\<rparr>"
| "next_data d (UserMessageSubmitted t a) =
     (add_message d (default_message\<lparr>msg_role := ROLE_USER, msg_content := t, msg_attachments := a\<rparr>))
       \<lparr>rd_state := STATE_WAITING_LLM\<rparr>"
| "next_data d (AssistantMessageReceived m) =
     (add_message d (default_message\<lparr>msg_role := ROLE_ASSISTANT, msg_content := mr_content m,
       msg_reasoning := mr_reasoning m\<rparr>))\<lparr>rd_state := STATE_IDLE\<rparr>"
| "next_data d (ToolBatchReceived t calls r) =
     (add_message d (default_message\<lparr>msg_role := ROLE_ASSISTANT, msg_content := t,
       msg_reasoning := r, msg_tool_calls := Some calls\<rparr>))
       \<lparr>rd_state := STATE_ADVANCING_QUEUE,
        rd_tool_batch := Some \<lparr>tb_id = tool_batch_id calls, tb_calls = calls, tb_index = 0\<rparr>\<rparr>"
| "next_data d (ToolCallNeedsApproval c q) =
     (advanced d)\<lparr>rd_state := STATE_WAITING_APPROVAL, rd_pending_tool := Some c,
       rd_pending_permission := Some q\<rparr>"
| "next_data d (ToolCallReadyToRun c) =
     (advanced d)\<lparr>rd_state := STATE_RUNNING_TOOL, rd_current_tool := Some c\<rparr>"
| "next_data d (ToolCallDenied c reason) =
     add_message (advanced d) (tool_message c (''denied by permission policy: '' @ reason))"
| "next_data d ToolBatchFinished = d\<lparr>rd_state := STATE_WAITING_LLM, rd_tool_batch := None\<rparr>"
| "next_data d (ToolResultReceived c result) =
     (add_message d (tool_message c result))\<lparr>rd_state := STATE_ADVANCING_QUEUE, rd_current_tool := None\<rparr>"
| "next_data d (ApprovalGranted c) =
     d\<lparr>rd_state := STATE_RUNNING_TOOL, rd_current_tool := Some c, rd_pending_tool := None,
       rd_pending_permission := None\<rparr>"
| "next_data d (ApprovalAlwaysGranted c) =
     d\<lparr>rd_state := STATE_RUNNING_TOOL, rd_current_tool := Some c, rd_pending_tool := None,
       rd_pending_permission := None\<rparr>"
| "next_data d (ApprovalDenied c) =
     (add_message d (tool_message c (''denied: '' @ tc_name c)))
       \<lparr>rd_state := STATE_ADVANCING_QUEUE, rd_pending_tool := None, rd_pending_permission := None\<rparr>"
| "next_data d (ErrorOccurred err) =
     abandoned d (runtime_error_message err) (''not executed: '' @ runtime_error_message err)"
| "next_data d CancelRequested = abandoned d ''cancelled'' ''not executed: cancelled''"
| "next_data d ResetRequested = (cleared d)\<lparr>rd_messages := system_messages (rd_messages d)\<rparr>"

fun event_plan :: "event \<Rightarrow> action_plan" where
  "event_plan (UserMessageSubmitted _ _) = schedule_plan [CallModel]"
| "event_plan (ToolBatchReceived _ _ _) = schedule_plan [CheckToolQueue]"
| "event_plan (ToolCallNeedsApproval c q) = schedule_plan [AwaitApproval c q]"
| "event_plan (ToolCallReadyToRun c) = schedule_plan [RunTool c]"
| "event_plan (ToolCallDenied _ _) = schedule_plan [CheckToolQueue]"
| "event_plan ToolBatchFinished = schedule_plan [CallModel]"
| "event_plan (ToolResultReceived _ _) = schedule_plan [CheckToolQueue]"
| "event_plan (ApprovalGranted c) = schedule_plan [RunTool c]"
| "event_plan (ApprovalAlwaysGranted c) = schedule_plan [RunTool c]"
| "event_plan (ApprovalDenied _) = schedule_plan [CheckToolQueue]"
| "event_plan (ErrorOccurred _) = clear_plan"
| "event_plan CancelRequested = clear_plan"
| "event_plan ResetRequested = clear_plan"
| "event_plan _ = default_action_plan"

section \<open>The step function computes the abstract effect\<close>

definition view_of :: "runtime_data \<Rightarrow> machine_snapshot" where
  "view_of d = \<lparr>ms_state = rd_state d, ms_pending_tool = rd_pending_tool d,
     ms_current_tool = rd_current_tool d, ms_queue = queue_view_of (rd_tool_batch d)\<rparr>"

lemma view_of_simps [simp]:
  "ms_state (view_of d) = rd_state d" "ms_pending_tool (view_of d) = rd_pending_tool d"
  "ms_current_tool (view_of d) = rd_current_tool d"
  by (simp_all add: view_of_def)

lemma view_of_queue [simp]:
  "qv_next (ms_queue (view_of d)) = Option.bind (rd_tool_batch d) next_call"
  "qv_remaining (ms_queue (view_of d)) = remaining_calls d"
  "queue_empty (ms_queue (view_of d)) \<longleftrightarrow>
     rd_tool_batch d \<noteq> None \<and> Option.bind (rd_tool_batch d) next_call = None"
  by (auto simp: view_of_def queue_view_of_def next_call_def remaining_calls_def queue_empty_def
      split: option.splits)

lemma snapshot_valid: "valid_data d \<Longrightarrow> snapshot_from d = Inr (view_of d)"
  by (simp add: snapshot_from_valid view_of_def)

lemma outstanding_tool_results_eq:
  "outstanding_tool_results (view_of d) r n =
     map (\<lambda>(c, a). AppendToolResult c a) (outstanding_answers d r n)"
  by (simp add: outstanding_tool_results_def outstanding_answers_def comp_def split: option.split)

text \<open>A valid \<open>AdvancingQueue\<close> has a batch, so the finished-batch guard is about its index.\<close>

lemma advancing_batch: "valid_data d \<Longrightarrow> rd_state d = STATE_ADVANCING_QUEUE \<Longrightarrow> \<exists>b. rd_tool_batch d = Some b"
  by (auto simp: valid_data_iff)

lemma transition_accepts:
  assumes "valid_data d"
  shows "(\<exists>r. transition (view_of d) e = Inr r) \<longleftrightarrow> accepts d e"
proof (cases "documented_edge (rd_state d) e = None")
  case True
  then have "transition (view_of d) e = Inl (UnexpectedEventError (rd_state d) e)"
    using transition_undocumented [of "view_of d" e] by simp
  with True show ?thesis by (simp add: accepts_def)
next
  case False
  then show ?thesis
    using advancing_batch [OF assms]
    by (cases e; cases "rd_state d")
       (auto simp: accepts_def transition_eqs handler_defs Let_def matches_def split: option.splits)
qed

lemma apply_outstanding:
  "fold_result apply_change (d\<lparr>rd_state := STATE_IDLE\<rparr>)
     (FlushStreamingAssistant True # map (\<lambda>(c, a). AppendToolResult c a) answers
        @ [ClearPendingTool, ClearCurrentTool, ClearToolCallBatch]) =
   Inr ((cleared d)\<lparr>rd_messages := rd_messages d @ interrupted_message d
       @ map (\<lambda>(c, r). tool_message c r) answers\<rparr>)"
  by (auto simp: fold_result_append fold_tool_results cleared_def interrupted_message_def no_streaming_def)

lemma transition_effect:
  assumes "valid_data d" and "transition (view_of d) e = Inr r"
  shows "fold_result apply_change (d\<lparr>rd_state := tr_next_state r\<rparr>) (tr_changes r) = Inr (next_data d e)"
    and "tr_plan r = event_plan e"
proof -
  have "accepts d e" using transition_accepts [OF assms(1)] assms(2) by blast
  then have edge: "documented_edge (rd_state d) e \<noteq> None" and g: "event_guard d e"
    by (simp_all add: accepts_def)
  show "tr_plan r = event_plan e"
    using edge assms(2)
    by (cases e; cases "rd_state d")
       (auto simp: transition_eqs handler_defs Let_def split: option.splits if_splits)
  show "fold_result apply_change (d\<lparr>rd_state := tr_next_state r\<rparr>) (tr_changes r) = Inr (next_data d e)"
  proof (cases "\<exists>x. e = ErrorOccurred x \<or> e = CancelRequested")
    case True
    then obtain answers where "tr_next_state r = STATE_IDLE"
      and "tr_changes r = FlushStreamingAssistant True # map (\<lambda>(c, a). AppendToolResult c a) answers
        @ [ClearPendingTool, ClearCurrentTool, ClearToolCallBatch]"
      and "next_data d e = (cleared d)\<lparr>rd_messages := rd_messages d @ interrupted_message d
        @ map (\<lambda>(c, r). tool_message c r) answers\<rparr>"
      using assms(2)
      by (auto simp: transition_eqs handler_defs Let_def outstanding_tool_results_eq abandoned_def)
    then show ?thesis by (simp only: apply_outstanding)
  next
    case False
    then show ?thesis
      using edge g assms(2)
      by (cases e; cases "rd_state d")
         (auto simp: transition_eqs handler_defs Let_def add_message_def advanced_def cleared_def
           next_call_def Option.bind_eq_Some_conv split: option.splits if_splits)
  qed
qed

lemma next_data_valid:
  assumes "valid_data d" and "accepts d e"
  shows "valid_data (next_data d e)"
  using assms
  by (cases e; cases "rd_state d")
     (auto simp: accepts_def valid_data_iff add_message_def advanced_def cleared_def abandoned_def
       next_call_def matches_def no_tools_def no_streaming_def index_in_range_def
       intro: same_tool_call_sym same_tool_call_trans split: option.splits if_splits)

text \<open>
  The step is total on valid data: an accepted event always commits valid data (the
  validation after the changes never fires), and a refused one is one of two errors.
\<close>

lemma machine_step_accepts:
  "valid_data d \<Longrightarrow> accepts d e \<Longrightarrow> machine_step d e = Inr (next_data d e, event_plan e)"
proof -
  assume v: "valid_data d" and a: "accepts d e"
  then obtain r where r: "transition (view_of d) e = Inr r" using transition_accepts by blast
  have "apply_runtime_data_changes d r = Inr (next_data d e)"
    using transition_effect(1) [OF v r] next_data_valid [OF v a] by (simp add: apply_changes_Inr_iff)
  with r transition_effect(2) [OF v r] show ?thesis
    by (simp add: machine_step_def snapshot_valid [OF v])
qed

lemma machine_step_Inr_iff:
  "machine_step d e = Inr (d', p) \<longleftrightarrow>
     valid_data d \<and> accepts d e \<and> d' = next_data d e \<and> p = event_plan e"
proof
  assume step: "machine_step d e = Inr (d', p)"
  then obtain s r where s: "snapshot_from d = Inr s" and r: "transition s e = Inr r"
    by (auto simp: machine_step_def bind_result_Inr_iff)
  have v: "valid_data d" by (rule snapshot_from_Inr [OF s])
  then have "accepts d e" using s r transition_accepts [OF v] by (auto simp: snapshot_valid)
  with v machine_step_accepts [OF v] step
  show "valid_data d \<and> accepts d e \<and> d' = next_data d e \<and> p = event_plan e" by simp
qed (auto simp: machine_step_accepts)

section \<open>The properties of the table\<close>

lemma transition_errors:
  "transition s e = Inl x \<Longrightarrow> x = UnexpectedEventError (ms_state s) e
     \<or> (\<exists>r. x = ProtocolViolationError (ms_state s) e r
          \<and> r \<noteq> ''registered handler has incompatible event type'')"
  by (cases e; cases "ms_state s")
     (auto simp: transition_eqs handler_defs Let_def split: option.splits if_splits)

text \<open>
  C7. The registry builds without a duplicate, and lookup follows the table of
  \<open>docs/machine.md\<close> in both directions: an event is unexpected exactly where the table has no
  row, an accepted event leads to the state of its row, and no rule is ever handed an event
  of another class.
\<close>

theorem registry_conforms:
  "new_transition_registry = Inr (map_of transition_rules) \<and> length transition_rules = 15
   \<and> (transition s e = Inl (UnexpectedEventError (ms_state s) e) \<longleftrightarrow> documented_edge (ms_state s) e = None)
   \<and> map_option tr_next_state (case transition s e of Inl _ \<Rightarrow> None | Inr r \<Rightarrow> Some r)
       \<in> {None, documented_edge (ms_state s) e}
   \<and> transition s e \<noteq> Inl (ProtocolViolationError (ms_state s) e
       ''registered handler has incompatible event type'')"
proof -
  have "length transition_rules = 15" by (simp add: transition_rules_def)
  moreover have "map_option tr_next_state (case transition s e of Inl _ \<Rightarrow> None | Inr r \<Rightarrow> Some r)
      \<in> {None, documented_edge (ms_state s) e}"
    by (cases "transition s e") (auto dest: transition_follows_edge)
  moreover have "transition s e \<noteq> Inl (ProtocolViolationError (ms_state s) e
       ''registered handler has incompatible event type'')"
    using transition_errors by fastforce
  ultimately show ?thesis using new_transition_registry_eq transition_undocumented by blast
qed

text \<open>
  C5. Over valid data the step of the machine is total and exact: an event whose guard holds
  commits the abstract effect \<open>next_data\<close>, which is valid again, so the validation after the
  changes never refuses what a handler decided; any other event is refused as unexpected or
  as a protocol violation, with no new data.
\<close>

theorem machine_step_exact:
  assumes "valid_data d"
  shows "if accepts d e then machine_step d e = Inr (next_data d e, event_plan e) \<and> valid_data (next_data d e)
    else machine_step d e \<in> insert (Inl (UnexpectedEventError (rd_state d) e))
      (range (\<lambda>r. Inl (ProtocolViolationError (rd_state d) e r)))"
proof (cases "accepts d e")
  case True
  with assms show ?thesis by (simp add: machine_step_accepts next_data_valid)
next
  case False
  then obtain x where x: "transition (view_of d) e = Inl x"
    using transition_accepts [OF assms] by (cases "transition (view_of d) e") auto
  then have "machine_step d e = Inl x" by (simp add: machine_step_def snapshot_valid [OF assms])
  with False transition_errors [OF x] show ?thesis by auto
qed

text \<open>Data in \<open>WaitingApproval\<close>, used by several witnesses.\<close>

definition sample_call :: tool_call where
  "sample_call = \<lparr>tc_id = ''c1'', tc_name = ''bash'', tc_input = ''{}''\<rparr>"

definition sample_other :: tool_call where
  "sample_other = \<lparr>tc_id = ''c2'', tc_name = ''read_file'', tc_input = ''{}''\<rparr>"

definition waiting_data :: runtime_data where
  "waiting_data = \<lparr>rd_state = STATE_WAITING_APPROVAL,
     rd_messages = [default_message\<lparr>msg_role := ROLE_SYSTEM, msg_content := ''s''\<rparr>,
       default_message\<lparr>msg_role := ROLE_ASSISTANT, msg_tool_calls := Some [sample_call, sample_other]\<rparr>],
     rd_pending_tool = Some sample_call, rd_pending_permission = Some default_perm_request,
     rd_current_tool = None,
     rd_tool_batch = Some \<lparr>tb_id = ''batch-c1'', tb_calls = [sample_call, sample_other], tb_index = 1\<rparr>,
     rd_streaming_content = '''', rd_streaming_reasoning = ''''\<rparr>"

lemma waiting_data_valid: "valid_data waiting_data"
  by (simp add: valid_data_iff waiting_data_def no_streaming_def index_in_range_def)

theorem machine_step_exact_witness:
  "machine_step waiting_data (ApprovalGranted sample_call)
     = Inr (next_data waiting_data (ApprovalGranted sample_call), schedule_plan [RunTool sample_call])"
proof -
  have "accepts waiting_data (ApprovalGranted sample_call)"
    by (simp add: accepts_def matches_def waiting_data_def)
  with machine_step_exact [OF waiting_data_valid, of "ApprovalGranted sample_call"] show ?thesis by simp
qed

text \<open>
  History is only appended to: every event but a reset leaves the messages it found as a
  prefix. A reset keeps exactly the system messages, in order.
\<close>

theorem history_append_only:
  assumes "machine_step d e = Inr (d', p)"
  shows "if e = ResetRequested then rd_messages d' = filter (\<lambda>m. msg_role m = ROLE_SYSTEM) (rd_messages d)
    else take (length (rd_messages d)) (rd_messages d') = rd_messages d"
  using assms
  by (cases e)
     (auto simp: machine_step_Inr_iff add_message_def advanced_def abandoned_def cleared_def system_messages_def)

theorem history_append_only_witness:
  "take (length (rd_messages waiting_data)) (rd_messages (next_data waiting_data CancelRequested))
     = rd_messages waiting_data"
proof -
  have "machine_step waiting_data CancelRequested = Inr (next_data waiting_data CancelRequested, clear_plan)"
    using machine_step_accepts [OF waiting_data_valid, of CancelRequested]
    by (simp add: accepts_def waiting_data_def)
  from history_append_only [OF this] show ?thesis by (simp only: event.distinct if_False)
qed

text \<open>
  C28. A turn given up, by a failure or by a cancellation, ends in \<open>Idle\<close> with nothing
  scheduled, and its history gains the interrupted reply, if one was streaming, and then one
  tool message for each call still unanswered: the pending one, the running one, and the rest
  of the batch, in that order. The call that was running gets the reason itself.
\<close>

theorem abandoned_turn_answers:
  assumes "machine_step d e = Inr (d', p)" and "is_ErrorOccurred e \<or> e = CancelRequested"
  shows "rd_state d' = STATE_IDLE \<and> no_tools d' \<and> no_streaming d' \<and> p = clear_plan
    \<and> (let reason = (if e = CancelRequested then ''cancelled'' else runtime_error_message (ev_err e))
       in rd_messages d' = rd_messages d @ interrupted_message d
         @ (case rd_pending_tool d of None \<Rightarrow> [] | Some c \<Rightarrow> [tool_message c (''not executed: '' @ reason)])
         @ (case rd_current_tool d of None \<Rightarrow> [] | Some c \<Rightarrow> [tool_message c reason])
         @ map (\<lambda>c. tool_message c (''not executed: '' @ reason)) (remaining_calls d))"
  using assms
  by (cases e)
     (auto simp: machine_step_Inr_iff abandoned_def cleared_def no_tools_def no_streaming_def
       outstanding_answers_def Let_def comp_def split: option.split)

theorem abandoned_turn_answers_witness:
  "rd_messages (next_data waiting_data CancelRequested) = rd_messages waiting_data
     @ [tool_message sample_call ''not executed: cancelled'', tool_message sample_other ''not executed: cancelled'']"
proof -
  have "machine_step waiting_data CancelRequested = Inr (next_data waiting_data CancelRequested, clear_plan)"
    using machine_step_accepts [OF waiting_data_valid, of CancelRequested]
    by (simp add: accepts_def waiting_data_def)
  from abandoned_turn_answers [OF this] show ?thesis
    by (simp add: waiting_data_def interrupted_message_def no_streaming_def remaining_calls_def Let_def)
qed

end
