(* ===== verification/Transcript.thy ===== *)
theory Transcript
  imports Transition
begin

text \<open>
  What a provider demands of a transcript, and that every dispatched event keeps it: an
  assistant message that asks for tools is followed by one tool message per call, in
  order, before anything else. \<open>docs/machine.md\<close> calls an unanswered call "a transcript
  the provider rejects with a 400". \<open>scan\<close> reads a transcript with the identifiers still
  to be answered; it fails on a tool message out of order and on any other message while
  an answer is owed.
\<close>

section \<open>Scanning a transcript\<close>

fun scan :: "string list \<Rightarrow> message list \<Rightarrow> string list option" where
  "scan owed [] = Some owed"
| "scan owed (m # ms) =
     (if msg_role m = ROLE_TOOL
      then (case owed of [] \<Rightarrow> None
            | i # rest \<Rightarrow> if msg_tool_call_id m = i then scan rest ms else None)
      else if owed \<noteq> [] then None
      else scan (if msg_role m = ROLE_ASSISTANT then map tc_id (msg_calls m) else []) ms)"

definition complete_transcript :: "message list \<Rightarrow> bool" where
  "complete_transcript ms \<longleftrightarrow> scan [] ms = Some []"

lemma scan_append: "scan owed (ms @ ns) = Option.bind (scan owed ms) (\<lambda>o'. scan o' ns)"
  by (induction owed ms rule: scan.induct) (auto split: list.splits option.splits)

lemma scan_answers: "scan (map (tc_id \<circ> fst) answers @ owed) (map (\<lambda>(c, r). tool_message c r) answers) = Some owed"
  by (induction answers) auto

lemma scan_answer: "scan (tc_id c # owed) [tool_message c r] = Some owed"
  by simp

lemma scan_plain:
  "msg_role m \<noteq> ROLE_TOOL \<Longrightarrow> msg_calls m = [] \<Longrightarrow> scan [] [m] = Some []"
  by simp

lemma scan_system_messages: "scan [] (system_messages ms) = Some []"
  by (induction ms) (auto simp: system_messages_def)

lemma scan_prefix: "scan owed (ms @ ns) \<noteq> None \<Longrightarrow> scan owed ms \<noteq> None"
  by (cases "scan owed ms") (simp_all add: scan_append)

text \<open>
  What the scan promises in words of positions: the message at \<open>i\<close> that asks for \<open>n\<close>
  calls is followed by \<open>n\<close> tool messages that carry their identifiers in order.
\<close>

lemma scan_owed_taken:
  "scan owed ms = Some [] \<Longrightarrow>
     length owed \<le> length ms \<and>
     (\<forall>k < length owed. msg_role (ms ! k) = ROLE_TOOL \<and> msg_tool_call_id (ms ! k) = owed ! k)"
proof (induction owed arbitrary: ms)
  case Nil
  show ?case by simp
next
  case (Cons i owed)
  then obtain m ms' where ms: "ms = m # ms'" by (cases ms) auto
  with Cons.prems have m: "msg_role m = ROLE_TOOL" "msg_tool_call_id m = i" "scan owed ms' = Some []"
    by (auto split: if_splits)
  from Cons.IH [OF m(3)] m(1,2) show ?case
    by (auto simp: ms nth_Cons split: nat.splits)
qed

lemma complete_transcript_answers:
  assumes "complete_transcript ms" and "i < length ms" and "msg_role (ms ! i) = ROLE_ASSISTANT"
    and "k < length (msg_calls (ms ! i))"
  shows "i + k + 1 < length ms \<and> msg_role (ms ! (i + k + 1)) = ROLE_TOOL
    \<and> msg_tool_call_id (ms ! (i + k + 1)) = tc_id (msg_calls (ms ! i) ! k)"
proof -
  let ?rest = "drop (Suc i) ms"
  have split: "ms = take i ms @ ms ! i # ?rest" using assms(2) by (simp add: id_take_nth_drop)
  then have "scan [] (take i ms @ ms ! i # ?rest) = Some []"
    using assms(1) by (simp add: complete_transcript_def)
  then obtain owed where owed: "scan owed (ms ! i # ?rest) = Some []"
    by (auto simp: scan_append Option.bind_eq_Some_conv)
  with assms(3) have "scan (map tc_id (msg_calls (ms ! i))) ?rest = Some []"
    by (simp split: if_splits)
  from scan_owed_taken [OF this] assms(4) show ?thesis by (auto simp: algebra_simps)
qed

section \<open>The transcript invariant\<close>

definition transcript_ok :: "runtime_data \<Rightarrow> bool" where
  "transcript_ok d \<longleftrightarrow> scan [] (rd_messages d) = Some (map tc_id (outstanding_calls d))"

lemma outstanding_no_tools: "no_tools d \<Longrightarrow> outstanding_calls d = []"
  by (simp add: no_tools_def outstanding_calls_def remaining_calls_def)

lemma transcript_ok_quiet:
  "valid_data d \<Longrightarrow> rd_state d \<in> {STATE_INITIALIZING, STATE_IDLE, STATE_WAITING_LLM} \<Longrightarrow>
     transcript_ok d \<longleftrightarrow> complete_transcript (rd_messages d)"
  by (auto simp: transcript_ok_def complete_transcript_def valid_data_iff outstanding_no_tools)

text \<open>In the queue the calls still owed are the rest of the batch, behind the one out.\<close>

lemma remaining_after:
  "index_in_range b \<Longrightarrow> next_call b = Some c \<Longrightarrow>
     drop (nat (tb_index b)) (tb_calls b) = c # drop (nat (tb_index b + 1)) (tb_calls b)"
  by (auto simp: next_call_def index_in_range_def nat_add_distrib drop_Suc_nth split: if_splits)

lemma remaining_none:
  "index_in_range b \<Longrightarrow> next_call b = None \<Longrightarrow> length (tb_calls b) \<le> nat (tb_index b)"
  by (auto simp: next_call_def index_in_range_def split: if_splits)

lemma interrupted_only_waiting:
  "valid_data d \<Longrightarrow> interrupted_message d \<noteq> [] \<Longrightarrow> no_tools d"
  by (cases "rd_state d") (auto simp: valid_data_iff interrupted_message_def)

lemma abandoned_complete:
  assumes "valid_data d" and "transcript_ok d"
  shows "complete_transcript (rd_messages (abandoned d r n))"
proof (cases "interrupted_message d = []")
  case True
  have "map tc_id (outstanding_calls d) = map (tc_id \<circ> fst) (outstanding_answers d r n)"
    by (simp add: outstanding_answers_calls [of d r n, symmetric] del: outstanding_answers_calls)
  then have "scan (map tc_id (outstanding_calls d))
      (map (\<lambda>(c, a). tool_message c a) (outstanding_answers d r n)) = Some []"
    using scan_answers [of "outstanding_answers d r n" "[]"] by simp
  with assms(2) True show ?thesis
    by (simp add: transcript_ok_def complete_transcript_def abandoned_def scan_append)
next
  case False
  then have none: "no_tools d" using interrupted_only_waiting [OF assms(1)] by simp
  then have "outstanding_answers d r n = []"
    by (simp add: no_tools_def outstanding_answers_def remaining_calls_def)
  with False assms(2) outstanding_no_tools [OF none] show ?thesis
    by (simp add: transcript_ok_def complete_transcript_def abandoned_def scan_append
        interrupted_message_def msg_calls_def default_message_def split: if_splits)
qed

lemma next_data_transcript:
  assumes v: "valid_data d" and t: "transcript_ok d" and a: "accepts d e"
  shows "transcript_ok (next_data d e)"
proof (cases "\<exists>x. e = ErrorOccurred x \<or> e = CancelRequested \<or> e = ResetRequested")
  case True
  have "outstanding_calls (abandoned d r n) = []" for r n
    by (simp add: abandoned_def cleared_def outstanding_calls_def remaining_calls_def)
  moreover have "outstanding_calls ((cleared d)\<lparr>rd_messages := ms\<rparr>) = []" for ms
    by (simp add: cleared_def outstanding_calls_def remaining_calls_def)
  ultimately show ?thesis
    using True abandoned_complete [OF v t]
    by (auto simp: transcript_ok_def complete_transcript_def scan_system_messages)
next
  case False
  with v t a show ?thesis
    by (cases e; cases "rd_state d")
       (auto simp: accepts_def valid_data_iff transcript_ok_def outstanding_calls_def remaining_calls_def
         no_tools_def add_message_def advanced_def scan_append matches_def remaining_after remaining_none
         same_tool_call_id msg_calls_def default_message_def cleared_def Option.bind_eq_Some_conv
         split: option.splits)
qed

end
