(* ===== verification/RunControl.thy ===== *)
theory RunControl
  imports RunContexts Machine
begin

text \<open>
  Run identities and the action queue (\<open>execution/run_controller.py\<close>,
  \<open>execution/action_queue.py\<close>), and the two interfaces the engine relies on: identities
  that never come back once retired, and a queue that hands out stamped actions in the
  order they were scheduled.
\<close>

section \<open>The run controller\<close>

text \<open>
  \<open>rc_context\<close> is the index of the live run's context in the context heap. Both the
  identity texts are \<open>f"run-{n}"\<close> and \<open>f"action-{n}"\<close> of a counter that only grows.
\<close>

record run_controller =
  rc_next :: nat
  rc_run_id :: string
  rc_context :: "nat option"

definition new_run_controller :: run_controller where
  "new_run_controller = \<lparr>rc_next = 0, rc_run_id = '''', rc_context = None\<rparr>"

definition run_id_text :: "nat \<Rightarrow> string" where
  "run_id_text n = ''run-'' @ dec n"

definition cancel_current :: "ctx_heap \<Rightarrow> run_controller \<Rightarrow> ctx_heap \<times> run_controller" where
  "cancel_current h c =
     (case rc_context c of None \<Rightarrow> (h, c) | Some x \<Rightarrow> (cancel h x, c\<lparr>rc_context := None\<rparr>))"

definition bump_run_id :: "run_controller \<Rightarrow> run_controller" where
  "bump_run_id c = c\<lparr>rc_next := rc_next c + 1, rc_run_id := run_id_text (rc_next c + 1)\<rparr>"

definition start_run :: "ctx_heap \<Rightarrow> run_controller \<Rightarrow> nat \<Rightarrow> ctx_heap \<times> run_controller \<times> nat" where
  "start_run h c parent =
     (let (h1, c1) = cancel_current h c; c2 = bump_run_id c1; (h2, x) = new_context h1 (Some parent)
      in (h2, c2\<lparr>rc_context := Some x\<rparr>, x))"

definition invalidate_current_run :: "ctx_heap \<Rightarrow> run_controller \<Rightarrow> ctx_heap \<times> run_controller" where
  "invalidate_current_run h c = (let (h1, c1) = cancel_current h c in (h1, bump_run_id c1))"

definition cancel_run :: "ctx_heap \<Rightarrow> run_controller \<Rightarrow> ctx_heap \<times> run_controller" where
  "cancel_run h c = (let (h1, c1) = cancel_current h c in (h1, bump_run_id c1))"

definition finish_run :: "ctx_heap \<Rightarrow> run_controller \<Rightarrow> string \<Rightarrow> ctx_heap \<times> run_controller" where
  "finish_run h c run_id =
     (if run_id = '''' \<or> run_id \<noteq> rc_run_id c then (h, c) else cancel_current h c)"

definition is_current :: "run_controller \<Rightarrow> string \<Rightarrow> bool" where
  "is_current c run_id \<longleftrightarrow> run_id \<noteq> '''' \<and> run_id = rc_run_id c"

lemma run_id_text_inject [simp]: "run_id_text m = run_id_text n \<longleftrightarrow> m = n"
  by (simp add: run_id_text_def)

lemma run_id_text_nonempty [simp]: "run_id_text n \<noteq> ''''"
  by (simp add: run_id_text_def)

lemma cancel_current_ids [simp]:
  "rc_next (snd (cancel_current h c)) = rc_next c" "rc_run_id (snd (cancel_current h c)) = rc_run_id c"
  "rc_context (snd (cancel_current h c)) = None"
  by (simp_all add: cancel_current_def split: option.split)

text \<open>The controller as a function of one operation, for statements about histories.\<close>

datatype run_op = StartRun nat | InvalidateRun | CancelRun | FinishRun string

fun apply_run_op :: "run_op \<Rightarrow> ctx_heap \<times> run_controller \<Rightarrow> ctx_heap \<times> run_controller" where
  "apply_run_op (StartRun p) (h, c) = (let (h', c', x) = start_run h c p in (h', c'))"
| "apply_run_op InvalidateRun (h, c) = invalidate_current_run h c"
| "apply_run_op CancelRun (h, c) = cancel_run h c"
| "apply_run_op (FinishRun r) (h, c) = finish_run h c r"

fun retires :: "run_op \<Rightarrow> bool" where
  "retires (FinishRun _) = False"
| "retires _ = True"

text \<open>The current identity is the latest one issued; before the first run it is empty.\<close>

definition run_ids_ok :: "run_controller \<Rightarrow> bool" where
  "run_ids_ok c \<longleftrightarrow> rc_run_id c = (if rc_next c = 0 then '''' else run_id_text (rc_next c))"

definition issued_runs :: "run_controller \<Rightarrow> string set" where
  "issued_runs c = run_id_text ` {1..rc_next c}"

lemma run_op_effect:
  "rc_next (snd (apply_run_op op (h, c))) = (if retires op then rc_next c + 1 else rc_next c)"
  "rc_run_id (snd (apply_run_op op (h, c))) = (if retires op then run_id_text (rc_next c + 1) else rc_run_id c)"
  by (cases op; simp add: start_run_def invalidate_current_run_def cancel_run_def finish_run_def
      bump_run_id_def new_context_def Let_def split_def)+

section \<open>Identities that never come back\<close>

text \<open>
  The general contract: a state has issued some identifiers and a few of them are live;
  an operation makes live only what was live already or what it issues itself. The client
  learns that an identifier that is dead once stays dead, whatever operations follow.
\<close>

locale token_source =
  fixes live :: "'s \<Rightarrow> string set"
    and issued :: "'s \<Rightarrow> string set"
    and apply_op :: "'op \<Rightarrow> 's \<Rightarrow> 's"
    and inv :: "'s \<Rightarrow> bool"
  assumes inv_step: "inv s \<Longrightarrow> inv (apply_op op s)"
    and issued_step: "issued s \<subseteq> issued (apply_op op s)"
    and live_step: "inv s \<Longrightarrow> live (apply_op op s) \<inter> issued s \<subseteq> live s"
begin

definition run_ops :: "'op list \<Rightarrow> 's \<Rightarrow> 's" where
  "run_ops ops s = foldl (\<lambda>s op. apply_op op s) s ops"

lemma run_ops_simps [simp]:
  "run_ops [] s = s" "run_ops (op # ops) s = run_ops ops (apply_op op s)"
  by (simp_all add: run_ops_def)

lemma inv_run_ops: "inv s \<Longrightarrow> inv (run_ops ops s)"
  by (induction ops arbitrary: s) (simp_all add: inv_step)

lemma dead_forever:
  "inv s \<Longrightarrow> r \<in> issued s \<Longrightarrow> r \<notin> live s \<Longrightarrow> r \<notin> live (run_ops ops s)"
proof (induction ops arbitrary: s)
  case (Cons op ops)
  have "r \<in> issued (apply_op op s)" using Cons.prems(2) issued_step by blast
  moreover have "r \<notin> live (apply_op op s)" using Cons.prems live_step by blast
  ultimately show ?case using Cons.IH [of "apply_op op s"] inv_step [OF Cons.prems(1)] by simp
qed simp

end

text \<open>
  With one live identifier at a time: some operations retire the current one, and the
  one they install was never issued before.
\<close>

locale identity_source =
  fixes current :: "'s \<Rightarrow> string"
    and issued :: "'s \<Rightarrow> string set"
    and apply_op :: "'op \<Rightarrow> 's \<Rightarrow> 's"
    and retire :: "'op \<Rightarrow> bool"
    and inv :: "'s \<Rightarrow> bool"
  assumes inv_step: "inv s \<Longrightarrow> inv (apply_op op s)"
    and issued_step: "issued s \<subseteq> issued (apply_op op s)"
    and retire_fresh: "inv s \<Longrightarrow> retire op \<Longrightarrow> current (apply_op op s) \<notin> issued s"
    and keep_current: "inv s \<Longrightarrow> \<not> retire op \<Longrightarrow> current (apply_op op s) = current s"

sublocale identity_source \<subseteq> tokens: token_source "\<lambda>s. {current s}" issued apply_op inv
proof unfold_locales
  show "inv s \<Longrightarrow> inv (apply_op op s)" for s op by (rule inv_step)
  show "issued s \<subseteq> issued (apply_op op s)" for s op by (rule issued_step)
  show "inv s \<Longrightarrow> {current (apply_op op s)} \<inter> issued s \<subseteq> {current s}" for s op
    using retire_fresh keep_current by (cases "retire op") auto
qed

context identity_source
begin

lemma stale_forever:
  "inv s \<Longrightarrow> r \<in> issued s \<Longrightarrow> r \<noteq> current s \<Longrightarrow> r \<noteq> current (tokens.run_ops ops s)"
  using tokens.dead_forever by simp

lemma retired_forever:
  assumes "inv s" "current s \<in> issued s" "retire op"
  shows "current s \<noteq> current (tokens.run_ops ops (apply_op op s))"
proof (rule stale_forever)
  show "inv (apply_op op s)" using assms(1) by (rule inv_step)
  show "current s \<in> issued (apply_op op s)" using assms(2) issued_step by blast
  show "current s \<noteq> current (apply_op op s)" using retire_fresh [OF assms(1,3)] assms(2) by metis
qed

end

interpretation runs: identity_source "\<lambda>hc. rc_run_id (snd hc)" "\<lambda>hc. issued_runs (snd hc)"
  apply_run_op retires "\<lambda>hc. run_ids_ok (snd hc)"
proof unfold_locales
  fix s :: "ctx_heap \<times> run_controller" and op
  obtain h c where s: "s = (h, c)" by fastforce
  show "run_ids_ok (snd s) \<Longrightarrow> run_ids_ok (snd (apply_run_op op s))"
    by (simp add: s run_ids_ok_def run_op_effect)
  show "issued_runs (snd s) \<subseteq> issued_runs (snd (apply_run_op op s))"
    by (auto simp: s issued_runs_def run_op_effect)
  show "retires op \<Longrightarrow> rc_run_id (snd (apply_run_op op s)) \<notin> issued_runs (snd s)"
    by (auto simp: s issued_runs_def run_op_effect)
  show "\<not> retires op \<Longrightarrow> rc_run_id (snd (apply_run_op op s)) = rc_run_id (snd s)"
    by (simp add: s run_op_effect)
qed

section \<open>The action queue\<close>

record queued_action =
  qa_run_id :: string
  qa_action_id :: string
  qa_action :: "scheduled_action option"

record action_queue =
  aq_queue :: "queued_action list"
  aq_next :: nat

definition new_action_queue :: action_queue where
  "new_action_queue = \<lparr>aq_queue = [], aq_next = 0\<rparr>"

definition action_id_text :: "nat \<Rightarrow> string" where
  "action_id_text n = ''action-'' @ dec n"

definition enqueue :: "action_queue \<Rightarrow> string \<Rightarrow> scheduled_action \<Rightarrow> action_queue \<times> queued_action" where
  "enqueue q run_id a =
     (let queued = \<lparr>qa_run_id = run_id, qa_action_id = action_id_text (aq_next q + 1), qa_action = Some a\<rparr>
      in (q\<lparr>aq_queue := aq_queue q @ [queued], aq_next := aq_next q + 1\<rparr>, queued))"

definition pop_action :: "action_queue \<Rightarrow> action_queue \<times> queued_action option" where
  "pop_action q = (case aq_queue q of [] \<Rightarrow> (q, None) | a # rest \<Rightarrow> (q\<lparr>aq_queue := rest\<rparr>, Some a))"

definition clear_queue :: "action_queue \<Rightarrow> action_queue" where
  "clear_queue q = q\<lparr>aq_queue := []\<rparr>"

definition queue_len :: "action_queue \<Rightarrow> nat" where
  "queue_len q = length (aq_queue q)"

text \<open>Scheduling a plan: every action of it, in order, under one run.\<close>

definition enqueue_all :: "action_queue \<Rightarrow> string \<Rightarrow> scheduled_action list \<Rightarrow> action_queue" where
  "enqueue_all q run_id as = foldl (\<lambda>q a. fst (enqueue q run_id a)) q as"

definition queue_ok :: "action_queue \<Rightarrow> bool" where
  "queue_ok q \<longleftrightarrow> distinct (map qa_action_id (aq_queue q))
     \<and> set (map qa_action_id (aq_queue q)) \<subseteq> action_id_text ` {1..aq_next q}"

lemma action_id_text_inject [simp]: "action_id_text m = action_id_text n \<longleftrightarrow> m = n"
  by (simp add: action_id_text_def)

lemma action_id_fresh: "queue_ok q \<Longrightarrow> action_id_text (Suc (aq_next q)) \<notin> qa_action_id ` set (aq_queue q)"
  by (force simp: queue_ok_def)

lemma queue_ok_enqueue: "queue_ok q \<Longrightarrow> queue_ok (fst (enqueue q r a))"
proof -
  assume ok: "queue_ok q"
  have "action_id_text ` {1..aq_next q} \<subseteq> action_id_text ` {1..Suc (aq_next q)}" by (rule image_mono) auto
  with ok action_id_fresh [OF ok] show ?thesis
    by (simp add: queue_ok_def enqueue_def Let_def) blast
qed

lemma queue_ok_pop: "queue_ok q \<Longrightarrow> queue_ok (fst (pop_action q))"
  by (auto simp: queue_ok_def pop_action_def split: list.split)

lemma queue_ok_clear: "queue_ok (clear_queue q)"
  by (simp add: queue_ok_def clear_queue_def)

lemma queue_ok_enqueue_all: "queue_ok q \<Longrightarrow> queue_ok (enqueue_all q r as)"
proof (induction as arbitrary: q)
  case Nil
  then show ?case by (simp add: enqueue_all_def)
next
  case (Cons a as)
  then show ?case using queue_ok_enqueue [of q r a] by (simp add: enqueue_all_def)
qed

text \<open>An entry that was popped or cleared never comes back under its identifier.\<close>

datatype queue_op = PutAction string scheduled_action | PopAction | ClearActions

fun apply_queue_op :: "queue_op \<Rightarrow> action_queue \<Rightarrow> action_queue" where
  "apply_queue_op (PutAction r a) q = fst (enqueue q r a)"
| "apply_queue_op PopAction q = fst (pop_action q)"
| "apply_queue_op ClearActions q = clear_queue q"

definition issued_actions :: "action_queue \<Rightarrow> string set" where
  "issued_actions q = action_id_text ` {1..aq_next q}"

interpretation actions: token_source "\<lambda>q. qa_action_id ` set (aq_queue q)" issued_actions apply_queue_op queue_ok
proof unfold_locales
  fix q op
  show "queue_ok q \<Longrightarrow> queue_ok (apply_queue_op op q)"
    by (cases op) (simp_all add: queue_ok_enqueue queue_ok_pop queue_ok_clear)
  show "issued_actions q \<subseteq> issued_actions (apply_queue_op op q)"
    by (cases op) (auto simp: issued_actions_def enqueue_def pop_action_def clear_queue_def Let_def
        split: list.split)
  show "qa_action_id ` set (aq_queue (apply_queue_op op q)) \<inter> issued_actions q
      \<subseteq> qa_action_id ` set (aq_queue q)"
    by (cases op) (auto simp: issued_actions_def enqueue_def pop_action_def clear_queue_def Let_def
        split: list.split)
qed

section \<open>Order of delivery\<close>

text \<open>What popping until the queue is empty delivers.\<close>

fun drain :: "nat \<Rightarrow> action_queue \<Rightarrow> queued_action list" where
  "drain 0 q = []"
| "drain (Suc n) q = (case pop_action q of (q', None) \<Rightarrow> [] | (q', Some a) \<Rightarrow> a # drain n q')"

lemma drain_all: "length (aq_queue q) \<le> n \<Longrightarrow> drain n q = aq_queue q"
proof (induction n arbitrary: q)
  case (Suc n)
  then show ?case by (cases "aq_queue q") (auto simp: pop_action_def)
qed simp

text \<open>The entries a plan becomes, when the counter stands at \<open>n\<close>.\<close>

fun stamped :: "nat \<Rightarrow> string \<Rightarrow> scheduled_action list \<Rightarrow> queued_action list" where
  "stamped n r [] = []"
| "stamped n r (a # as) =
     \<lparr>qa_run_id = r, qa_action_id = action_id_text (Suc n), qa_action = Some a\<rparr> # stamped (Suc n) r as"

lemma enqueue_all_queue:
  "aq_queue (enqueue_all q r as) = aq_queue q @ stamped (aq_next q) r as
   \<and> aq_next (enqueue_all q r as) = aq_next q + length as"
proof (induction as arbitrary: q)
  case Nil
  show ?case by (simp add: enqueue_all_def)
next
  case (Cons a as)
  have step: "enqueue_all q r (a # as) = enqueue_all (fst (enqueue q r a)) r as" by (simp add: enqueue_all_def)
  show ?case unfolding step using Cons.IH [of "fst (enqueue q r a)"] by (simp add: enqueue_def Let_def)
qed

lemma stamped_actions: "map qa_action (stamped n r as) = map Some as"
  by (induction as arbitrary: n) simp_all

lemma stamped_runs: "x \<in> set (stamped n r as) \<Longrightarrow> qa_run_id x = r"
  by (induction as arbitrary: n) auto

section \<open>The properties of the identities\<close>

text \<open>
  Once a run is retired, by cancelling, invalidating or replacing it, its identity is never
  current again, whatever run operations follow and over whatever contexts.
\<close>

theorem retired_run_never_current:
  assumes "run_ids_ok c" and "0 < rc_next c" and "retires op"
  shows "\<not> is_current (snd (foldl (\<lambda>hc op. apply_run_op op hc) (apply_run_op op (h, c)) ops)) (rc_run_id c)"
proof -
  have "rc_run_id c \<in> issued_runs c" using assms(1,2) by (auto simp: run_ids_ok_def issued_runs_def)
  then have "rc_run_id c \<noteq> rc_run_id (snd (runs.tokens.run_ops ops (apply_run_op op (h, c))))"
    using runs.retired_forever [of "(h, c)" op ops] assms(1,3) by simp
  then show ?thesis by (simp add: is_current_def runs.tokens.run_ops_def)
qed

theorem retired_run_never_current_witness:
  "\<not> is_current (snd (apply_run_op (StartRun 0) (apply_run_op CancelRun
      (empty_heap, \<lparr>rc_next = 1, rc_run_id = ''run-1'', rc_context = None\<rparr>)))) ''run-1''"
proof -
  let ?c = "\<lparr>rc_next = 1, rc_run_id = ''run-1'', rc_context = None\<rparr>"
  have "run_ids_ok ?c" by (simp add: run_ids_ok_def run_id_text_def dec.simps digit_def)
  from retired_run_never_current [OF this, of CancelRun empty_heap "[StartRun 0]"] show ?thesis by simp
qed

text \<open>
  The queue is first in, first out: draining it delivers what was there and then the plan,
  in order, stamped with its run, with identifiers all different from one another and from
  every one used before; clearing drops everything and reuses no identifier.
\<close>

theorem queue_delivers_in_order:
  assumes "queue_ok q"
  shows "map qa_action (drain (length (aq_queue q) + length as) (enqueue_all q r as))
      = map qa_action (aq_queue q) @ map Some as
    \<and> distinct (map qa_action_id (drain (length (aq_queue q) + length as) (enqueue_all q r as)))
    \<and> aq_queue (clear_queue q) = [] \<and> issued_actions (clear_queue q) = issued_actions q
    \<and> qa_action_id (snd (enqueue (clear_queue q) r' a)) \<notin> issued_actions q"
proof -
  have n: "drain (length (aq_queue q) + length as) (enqueue_all q r as) = aq_queue (enqueue_all q r as)"
  proof (rule drain_all)
    have "length (stamped n r as) = length as" for n by (induction as arbitrary: n) simp_all
    then show "length (aq_queue (enqueue_all q r as)) \<le> length (aq_queue q) + length as"
      by (simp add: enqueue_all_queue)
  qed
  have "distinct (map qa_action_id (aq_queue (enqueue_all q r as)))"
    using queue_ok_enqueue_all [OF assms] by (simp add: queue_ok_def)
  moreover have "map qa_action (aq_queue (enqueue_all q r as)) = map qa_action (aq_queue q) @ map Some as"
    by (simp add: enqueue_all_queue stamped_actions)
  ultimately show ?thesis
    unfolding n by (auto simp: clear_queue_def issued_actions_def enqueue_def Let_def)
qed

theorem queue_delivers_in_order_witness:
  "map qa_action (drain 2 (enqueue_all new_action_queue ''run-1'' [CallModel, CheckToolQueue]))
     = [Some CallModel, Some CheckToolQueue]"
proof -
  have "queue_ok new_action_queue" by (simp add: queue_ok_def new_action_queue_def)
  from queue_delivers_in_order [OF this, of "[CallModel, CheckToolQueue]" "''run-1''" "''run-1''" CallModel]
  show ?thesis by (simp add: new_action_queue_def numeral_2_eq_2)
qed

text \<open>
  An entry that left the queue, popped or cleared, never comes back under its identifier,
  whatever is queued afterwards.
\<close>

theorem action_never_returns:
  assumes "queue_ok q" and "i \<in> issued_actions q" and "i \<notin> qa_action_id ` set (aq_queue q)"
  shows "i \<notin> qa_action_id ` set (aq_queue (foldl (\<lambda>q op. apply_queue_op op q) q ops))"
  using actions.dead_forever [OF assms, of ops] by (simp add: actions.run_ops_def)

theorem action_never_returns_witness:
  "''action-1'' \<notin> qa_action_id ` set (aq_queue (apply_queue_op (PutAction ''run-2'' CallModel)
     \<lparr>aq_queue = [], aq_next = 1\<rparr>))"
proof -
  have "queue_ok \<lparr>aq_queue = [], aq_next = 1\<rparr>" by (simp add: queue_ok_def)
  from action_never_returns [OF this, of "''action-1''" "[PutAction ''run-2'' CallModel]"]
  show ?thesis by (simp add: issued_actions_def action_id_text_def dec.simps digit_def)
qed

end
