(* ===== verification/Paths.thy ===== *)
theory Paths
  imports Prelude
begin

text \<open>
  The part of \<open>os.path\<close> (POSIX) the sources call: \<open>isabs\<close>, \<open>normpath\<close>, \<open>join\<close>,
  \<open>abspath\<close> and \<open>relpath\<close>. \<open>abspath\<close> of a relative path reads the process working
  directory, which is an argument here.
\<close>

definition isabs :: "string \<Rightarrow> bool" where
  "isabs p = startswith p ''/''"

text \<open>\<open>splitroot\<close>: exactly two leading slashes are a root of their own.\<close>

definition splitroot :: "string \<Rightarrow> string \<times> string" where
  "splitroot p =
     (if \<not> startswith p ''/'' then ('''', p)
      else if startswith p ''//'' \<and> \<not> startswith p ''///'' then (''//'', drop 2 p)
      else (''/'', drop 1 p))"

text \<open>One component against the components kept so far, the last one first.\<close>

definition norm_step :: "bool \<Rightarrow> string list \<Rightarrow> string \<Rightarrow> string list" where
  "norm_step rooted kept part =
     (if part = '''' \<or> part = ''.'' then kept
      else if part \<noteq> ''..'' \<or> (\<not> rooted \<and> kept = []) \<or> (kept \<noteq> [] \<and> hd kept = ''..'') then part # kept
      else tl kept)"

definition norm_comps :: "bool \<Rightarrow> string list \<Rightarrow> string list" where
  "norm_comps rooted comps = rev (foldl (norm_step rooted) [] comps)"

definition normpath :: "string \<Rightarrow> string" where
  "normpath p =
     (if p = '''' then ''.''
      else let (root, rest) = splitroot p;
               path = root @ join_with ''/'' (norm_comps (root \<noteq> '''') (split_on CHR ''/'' rest))
           in if path = '''' then ''.'' else path)"

definition path_join :: "string \<Rightarrow> string \<Rightarrow> string" where
  "path_join a b =
     (if isabs b then b
      else if a = '''' \<or> endswith a ''/'' then a @ b
      else a @ ''/'' @ b)"

definition abspath :: "string \<Rightarrow> string \<Rightarrow> string" where
  "abspath getcwd p = normpath (if isabs p then p else path_join getcwd p)"

fun common_prefix :: "'a list \<Rightarrow> 'a list \<Rightarrow> 'a list" where
  "common_prefix (x # xs) (y # ys) = (if x = y then x # common_prefix xs ys else [])"
| "common_prefix _ _ = []"

definition path_parts :: "string \<Rightarrow> string list" where
  "path_parts p = filter (\<lambda>c. c \<noteq> '''') (split_on CHR ''/'' p)"

text \<open>\<open>os.path.relpath(path, start)\<close>; an empty path raises \<open>ValueError\<close>.\<close>

definition relpath :: "string \<Rightarrow> string \<Rightarrow> string \<Rightarrow> (string, string) result" where
  "relpath getcwd path start =
     (if path = '''' then Inl ''no path specified''
      else let s = path_parts (abspath getcwd start);
               p = path_parts (abspath getcwd path);
               i = length (common_prefix s p);
               rel = replicate (length s - i) ''..'' @ drop i p
           in Inr (if rel = [] then ''.'' else join_with ''/'' rel))"

section \<open>Normal paths\<close>

text \<open>
  The kept components are never empty or \<open>.\<close>, and every \<open>..\<close> among them comes before
  every name; under a root there is no \<open>..\<close> at all.
\<close>

definition kept_ok :: "bool \<Rightarrow> string list \<Rightarrow> bool" where
  "kept_ok rooted kept \<longleftrightarrow> '''' \<notin> set kept \<and> ''.'' \<notin> set kept
     \<and> (rooted \<longrightarrow> ''..'' \<notin> set kept)
     \<and> (\<exists>names n. kept = names @ replicate n ''..'' \<and> ''..'' \<notin> set names)"

lemma kept_ok_step: "kept_ok rooted kept \<Longrightarrow> kept_ok rooted (norm_step rooted kept part)"
proof -
  assume ok: "kept_ok rooted kept"
  then obtain names n where k: "kept = names @ replicate n ''..''" "''..'' \<notin> set names"
    by (auto simp: kept_ok_def)
  show ?thesis
  proof (cases "part = ''..''")
    case False
    with k ok have "\<exists>ns m. part # kept = ns @ replicate m ''..'' \<and> ''..'' \<notin> set ns"
      by (intro exI [of _ "part # names"] exI [of _ n]) auto
    with False ok show ?thesis by (auto simp: kept_ok_def norm_step_def)
  next
    case True
    show ?thesis
    proof (cases names)
      case Nil
      with k(1) have up: "part # kept = [] @ replicate (Suc n) ''..''" using True by simp
      show ?thesis
      proof (cases "kept = []")
        case True
        have "\<exists>ns m. [''..''] = ns @ replicate m ''..'' \<and> ''..'' \<notin> set ns"
          by (intro exI [of _ "[]"] exI [of _ 1]) simp
        with True \<open>part = ''..''\<close> ok show ?thesis
          by (auto simp: kept_ok_def norm_step_def)
      next
        case False
        with k(1) Nil have "hd kept = ''..''" by (cases n) auto
        moreover have "\<not> rooted" using ok False k(1) Nil by (cases n) (auto simp: kept_ok_def)
        moreover have "\<exists>ns m. part # kept = ns @ replicate m ''..'' \<and> ''..'' \<notin> set ns"
          using up by (intro exI [of _ "[]"] exI [of _ "Suc n"]) simp
        ultimately show ?thesis using ok True False by (auto simp: kept_ok_def norm_step_def)
      qed
    next
      case (Cons m names')
      with k have "tl kept = names' @ replicate n ''..''" "''..'' \<notin> set names'" "hd kept \<noteq> ''..''" "kept \<noteq> []"
        by auto
      then have step: "norm_step rooted kept part = tl kept"
        using True by (simp add: norm_step_def)
      have "set (tl kept) \<subseteq> set kept" by (cases kept) auto
      moreover have "\<exists>ns m. tl kept = ns @ replicate m ''..'' \<and> ''..'' \<notin> set ns"
        using \<open>tl kept = _\<close> \<open>''..'' \<notin> set names'\<close> by blast
      ultimately show ?thesis using ok unfolding step kept_ok_def by blast
    qed
  qed
qed

lemma kept_ok_foldl: "kept_ok rooted kept \<Longrightarrow> kept_ok rooted (foldl (norm_step rooted) kept comps)"
  by (induction comps arbitrary: kept) (simp_all add: kept_ok_step)

lemma kept_ok_norm_comps: "kept_ok rooted (rev (norm_comps rooted comps))"
proof -
  have "kept_ok rooted []" by (auto simp: kept_ok_def)
  then show ?thesis by (simp add: norm_comps_def kept_ok_foldl)
qed

text \<open>Components that are already in normal order are kept as they are.\<close>

lemma norm_ups: "foldl (norm_step False) (replicate m ''..'') (replicate n ''..'') = replicate (n + m) ''..''"
proof (induction n arbitrary: m)
  case (Suc n)
  have "norm_step False (replicate m ''..'') ''..'' = replicate (Suc m) ''..''"
    by (cases m) (simp_all add: norm_step_def)
  then show ?case using Suc.IH [of "Suc m"] by simp
qed simp

lemma norm_names:
  "'''' \<notin> set ns \<Longrightarrow> ''.'' \<notin> set ns \<Longrightarrow> ''..'' \<notin> set ns \<Longrightarrow>
     foldl (norm_step rooted) kept ns = rev ns @ kept"
  by (induction ns arbitrary: kept) (auto simp: norm_step_def)

lemma norm_comps_normal: "kept_ok rooted (rev comps) \<Longrightarrow> norm_comps rooted comps = comps"
proof -
  assume ok: "kept_ok rooted (rev comps)"
  then obtain names n where k: "rev comps = names @ replicate n ''..''" and names: "''..'' \<notin> set names"
    by (auto simp: kept_ok_def)
  then have c: "comps = replicate n ''..'' @ rev names" by (metis rev_append rev_replicate rev_rev_ident)
  have clean: "'''' \<notin> set names" "''.'' \<notin> set names" using ok c by (auto simp: kept_ok_def)
  have "rooted \<Longrightarrow> n = 0" using ok c by (cases n) (auto simp: kept_ok_def)
  then have "foldl (norm_step rooted) [] (replicate n ''..'') = replicate n ''..''"
    using norm_ups [of 0 n] by (cases rooted) auto
  with names clean c show ?thesis by (simp add: norm_comps_def norm_names)
qed

lemma norm_comps_idem: "norm_comps rooted (norm_comps rooted comps) = norm_comps rooted comps"
  by (rule norm_comps_normal [OF kept_ok_norm_comps])

lemma norm_comps_skip: "norm_comps rooted (filter (\<lambda>c. c \<noteq> '''' \<and> c \<noteq> ''.'') comps) = norm_comps rooted comps"
proof -
  have "foldl (norm_step rooted) kept (filter (\<lambda>c. c \<noteq> '''' \<and> c \<noteq> ''.'') comps)
      = foldl (norm_step rooted) kept comps" for kept
    by (induction comps arbitrary: kept) (auto simp: norm_step_def)
  then show ?thesis by (simp add: norm_comps_def)
qed

lemma split_on_join:
  "ws \<noteq> [] \<Longrightarrow> list_all (\<lambda>w. sep \<notin> set w) ws \<Longrightarrow> split_on sep (join_with [sep] ws) = ws"
proof (induction ws)
  case (Cons w ws)
  have free: "sep \<notin> set v \<Longrightarrow> split_on sep v = [v]" for v
    by (induction v) auto
  have step: "sep \<notin> set v \<Longrightarrow> split_on sep (v @ sep # r) = v # split_on sep r" for v r
    by (induction v) auto
  show ?case
  proof (cases ws)
    case Nil
    with Cons.prems free show ?thesis by simp
  next
    case (Cons v vs)
    with Cons.prems Cons.IH step show ?thesis by (simp add: join_with_Cons)
  qed
qed simp

lemma norm_comps_members: "c \<in> set (norm_comps rooted comps) \<Longrightarrow> c \<in> set comps"
proof -
  have tl: "set (tl ys) \<subseteq> set ys" for ys :: "string list" by (cases ys) auto
  have "set (foldl (norm_step rooted) kept comps) \<subseteq> set kept \<union> set comps" for kept
  proof (induction comps arbitrary: kept)
    case (Cons x xs)
    have "set (norm_step rooted kept x) \<subseteq> set kept \<union> {x}"
      using tl [of kept] by (auto simp: norm_step_def)
    with Cons.IH [of "norm_step rooted kept x"] show ?case by auto
  qed simp
  then show "c \<in> set (norm_comps rooted comps) \<Longrightarrow> c \<in> set comps" by (fastforce simp: norm_comps_def)
qed

section \<open>Normalising twice\<close>

text \<open>The components of a path under \<open>split_on\<close>, normalised and joined, split again.\<close>

lemma norm_comps_sep_free:
  "list_all (\<lambda>w. CHR ''/'' \<notin> set w) (norm_comps rooted (split_on CHR ''/'' s))"
  by (auto simp: list_all_iff dest: norm_comps_members split_on_sep_free)

lemma norm_comps_nonempty_parts: "w \<in> set (norm_comps rooted ws) \<Longrightarrow> w \<noteq> ''''"
  using kept_ok_norm_comps [of rooted ws] by (auto simp: kept_ok_def)

lemma norm_rejoin:
  "norm_comps rooted (split_on CHR ''/'' (join_with ''/'' (norm_comps rooted (split_on CHR ''/'' s))))
     = norm_comps rooted (split_on CHR ''/'' s)"
proof (cases "norm_comps rooted (split_on CHR ''/'' s) = []")
  case True
  then show ?thesis by (simp add: norm_comps_def norm_step_def)
next
  case False
  then show ?thesis
    by (simp add: split_on_join norm_comps_sep_free norm_comps_idem)
qed

lemma join_norm_start:
  "\<not> startswith (join_with ''/'' (norm_comps rooted (split_on CHR ''/'' s))) ''/''"
proof (cases "norm_comps rooted (split_on CHR ''/'' s)")
  case Nil
  then show ?thesis by (simp add: startswith_def)
next
  case (Cons w ws)
  then have "w \<noteq> ''''" using norm_comps_nonempty_parts [of w rooted "split_on CHR ''/'' s"] by simp
  moreover have "CHR ''/'' \<notin> set w" using norm_comps_sep_free [of rooted s] Cons by simp
  ultimately show ?thesis by (cases w; cases ws) (auto simp: Cons startswith_def)
qed

lemma splitroot_root: "splitroot p = (root, rest) \<Longrightarrow> root \<in> {'''', ''/'', ''//''}"
  by (auto simp: splitroot_def split: if_splits)

lemma splitroot_again:
  "root \<in> {'''', ''/'', ''//''} \<Longrightarrow> \<not> startswith q ''/'' \<Longrightarrow> splitroot (root @ q) = (root, q)"
  by (cases q) (auto simp: splitroot_def startswith_def)

lemma normpath_dot: "normpath ''.'' = ''.''"
  by (simp add: normpath_def splitroot_def startswith_def norm_comps_def norm_step_def)

lemma normpath_normpath: "normpath (normpath p) = normpath p"
proof (cases "p = ''''")
  case True
  then have "normpath p = ''.''" by (simp add: normpath_def)
  then show ?thesis by (simp only: normpath_dot)
next
  case False
  obtain root rest where sr: "splitroot p = (root, rest)" by fastforce
  let ?c = "norm_comps (root \<noteq> '''') (split_on CHR ''/'' rest)"
  let ?q = "join_with ''/'' ?c"
  have n: "normpath p = (if root @ ?q = '''' then ''.'' else root @ ?q)"
    using False by (simp add: normpath_def sr Let_def)
  show ?thesis
  proof (cases "root @ ?q = ''''")
    case True
    then have "normpath p = ''.''" using n True by (metis (full_types))
    then show ?thesis by (simp only: normpath_dot)
  next
    case False
    have "splitroot (root @ ?q) = (root, ?q)"
      by (rule splitroot_again [OF splitroot_root [OF sr] join_norm_start])
    with False n show ?thesis by (simp only: normpath_def [of "root @ ?q"] norm_rejoin split Let_def if_False)
  qed
qed

text \<open>
  Normalising a path twice is normalising it once, and the components of a normal path
  are names with every \<open>..\<close> in front of them, none below a root.
\<close>

theorem normpath_normal:
  "normpath (normpath p) = normpath p
   \<and> (let ws = norm_comps (fst (splitroot p) \<noteq> '''') (split_on CHR ''/'' (snd (splitroot p)))
      in '''' \<notin> set ws \<and> ''.'' \<notin> set ws \<and> \<not> (fst (splitroot p) \<noteq> '''' \<and> ''..'' \<in> set ws)
         \<and> (\<exists>n names. ws = replicate n ''..'' @ names \<and> ''..'' \<notin> set names))"
proof -
  let ?ws = "norm_comps (fst (splitroot p) \<noteq> '''') (split_on CHR ''/'' (snd (splitroot p)))"
  have ok: "kept_ok (fst (splitroot p) \<noteq> '''') (rev ?ws)" by (rule kept_ok_norm_comps)
  then obtain names n where "rev ?ws = names @ replicate n ''..''" "''..'' \<notin> set names"
    by (auto simp: kept_ok_def)
  then have "?ws = replicate n ''..'' @ rev names" "''..'' \<notin> set (rev names)"
    by (metis rev_append rev_replicate rev_rev_ident, simp)
  then have "\<exists>n names. ?ws = replicate n ''..'' @ names \<and> ''..'' \<notin> set names" by blast
  moreover have "'''' \<notin> set ?ws" "''.'' \<notin> set ?ws" "fst (splitroot p) = '''' \<or> ''..'' \<notin> set ?ws"
    using ok unfolding kept_ok_def set_rev by blast+
  ultimately show ?thesis using normpath_normpath [of p] by (simp only: Let_def) blast
qed

end
