(* ===== verification/CommandAnalyzer.thy ===== *)
theory CommandAnalyzer
  imports Protocol
begin

text \<open>
  The heuristic classification of a shell command from its text
  (\<open>execution/command_analyzer.py\<close>). \<open>json.loads\<close> is an argument of the three functions
  that read a tool call's raw input; \<open>None\<close> stands for the \<open>ValueError\<close> it raises.
\<close>

section \<open>Tokens\<close>

definition NETWORK_CLIENTS :: "string list" where
  "NETWORK_CLIENTS = [''curl'', ''wget'', ''ssh'', ''scp'', ''rsync'', ''nc'', ''ncat'', ''telnet'',
     ''ftp'', ''lftp'', ''aria2c'']"

definition NETWORK_PACKAGE_MANAGERS :: "string list" where
  "NETWORK_PACKAGE_MANAGERS = [''pip'', ''npm'', ''go'', ''git'']"

definition DESTRUCTIVE_TOKENS :: "string list" where
  "DESTRUCTIVE_TOKENS = [''rm'', ''rmdir'', ''shred'', ''mkfs'', ''dd'', ''chmod'', ''chown'', ''sudo'']"

definition WRITE_TOKENS :: "string list" where
  "WRITE_TOKENS = [''touch'', ''mkdir'', ''mv'', ''cp'', ''sed'', ''perl'', ''git'']"

definition READ_ONLY_GIT_PREFIXES :: "string list" where
  "READ_ONLY_GIT_PREFIXES = [''git status'', ''git diff'', ''git show'', ''git log'', ''git branch'']"

text \<open>The apostrophe is the character with code 39.\<close>

definition apostrophe :: char where
  "apostrophe = CHR 0x27"

definition hasAnyToken :: "string \<Rightarrow> string list \<Rightarrow> bool" where
  "hasAnyToken command tokens =
     list_ex (\<lambda>field. py_strip_chars (apostrophe # ''\";|&()'') field \<in> set tokens) (split_ws command)"

definition containsNetworkIntent :: "string \<Rightarrow> bool" where
  "containsNetworkIntent command =
     (if contains ''://'' command then True
      else if hasAnyToken command NETWORK_CLIENTS then True
      else if \<not> hasAnyToken command NETWORK_PACKAGE_MANAGERS then False
      else list_ex (\<lambda>needle. contains needle command)
        ['' install'', '' get '', '' clone '', '' push'', '' pull'', ''fetch''])"

definition commandMayWrite :: "string \<Rightarrow> bool" where
  "commandMayWrite command =
     (contains ''>'' command \<or> contains ''| tee'' command \<or> hasAnyToken command WRITE_TOKENS)"

definition isReadOnlyGitCommand :: "string \<Rightarrow> bool" where
  "isReadOnlyGitCommand command = list_ex (startswith command) READ_ONLY_GIT_PREFIXES"

text \<open>Every field that looks like a path, so the policy can vet it.\<close>

definition commandPaths :: "string \<Rightarrow> string list" where
  "commandPaths command =
     filter (\<lambda>field. startswith field ''/'' \<or> startswith field ''./'' \<or> startswith field ''../''
         \<or> startswith field ''.'')
       (map (py_strip_chars (apostrophe # ''\";,'')) (split_ws command))"

text \<open>\<open>field.partition("=")\<close>: the name is what comes before the first \<open>=\<close>.\<close>

definition commandEnv :: "string \<Rightarrow> string list" where
  "commandEnv command = List.map_filter
     (\<lambda>field. let name = takeWhile (\<lambda>c. c \<noteq> CHR ''='') field in
        if CHR ''='' \<in> set field \<and> name \<noteq> '''' \<and> upper_fixed name then Some name else None)
     (split_ws command)"

section \<open>The request\<close>

definition analyzeCommandRequest :: "perm_request \<Rightarrow> perm_request" where
  "analyzeCommandRequest request =
     (let command = py_strip (pr_command request);
          touched = pr_touched_paths request @ commandPaths command;
          env = commandEnv command;
          (cls, reason) =
            (if command = '''' then (COMMAND_CLASS_UNKNOWN, ''empty command'')
             else if hasAnyToken command DESTRUCTIVE_TOKENS \<or> contains ''rm -rf'' command
               then (COMMAND_CLASS_DESTRUCTIVE, ''destructive shell command'')
             else if containsNetworkIntent command
               then (COMMAND_CLASS_NETWORK, ''network-capable shell command'')
             else if commandMayWrite command
               then (if isReadOnlyGitCommand command
                     then (COMMAND_CLASS_READ_ONLY, ''read-only git command'')
                     else (COMMAND_CLASS_WRITE, ''shell command may write files''))
             else (COMMAND_CLASS_READ_ONLY, ''read-only shell command''))
      in request\<lparr>pr_class := cls, pr_touched_paths := touched, pr_env_vars := env, pr_reason := reason\<rparr>)"

section \<open>Reading a tool call's input\<close>

definition parseInput :: "(string \<Rightarrow> json option) \<Rightarrow> string \<Rightarrow> (string \<times> json) list option" where
  "parseInput json_loads input =
     (case json_loads input of Some (JObject kvs) \<Rightarrow> Some kvs | _ \<Rightarrow> None)"

fun nonempty_string :: "json \<Rightarrow> string option" where
  "nonempty_string (JString s) = (if s \<noteq> '''' then Some s else None)"
| "nonempty_string _ = None"

definition toolPaths :: "(string \<Rightarrow> json option) \<Rightarrow> tool_call \<Rightarrow> string list" where
  "toolPaths json_loads call =
     (case parseInput json_loads (tc_input call) of
        None \<Rightarrow> []
      | Some kvs \<Rightarrow>
          concat (map (\<lambda>key. case Option.bind (map_of kvs key) nonempty_string of
              None \<Rightarrow> [] | Some s \<Rightarrow> [s]) [''path'', ''cwd''])
          @ concat (map (\<lambda>key. case map_of kvs key of
              Some (JList values) \<Rightarrow> List.map_filter nonempty_string values | _ \<Rightarrow> []) [''paths'', ''files'']))"

definition jsonStringField :: "(string \<Rightarrow> json option) \<Rightarrow> string \<Rightarrow> string \<Rightarrow> string" where
  "jsonStringField json_loads input field =
     (case parseInput json_loads input of
        None \<Rightarrow> ''''
      | Some kvs \<Rightarrow> (case map_of kvs field of Some (JString s) \<Rightarrow> s | _ \<Rightarrow> ''''))"

definition firstNonEmpty :: "string list \<Rightarrow> string" where
  "firstNonEmpty values = (case find (\<lambda>v. v \<noteq> '''') values of None \<Rightarrow> '''' | Some v \<Rightarrow> v)"

section \<open>What the analysis sees\<close>

lemma analyze_simps [simp]:
  "pr_tool_name (analyzeCommandRequest r) = pr_tool_name r"
  "pr_command (analyzeCommandRequest r) = pr_command r"
  "pr_cwd (analyzeCommandRequest r) = pr_cwd r"
  "pr_touched_paths (analyzeCommandRequest r) = pr_touched_paths r @ commandPaths (py_strip (pr_command r))"
  "pr_env_vars (analyzeCommandRequest r) = commandEnv (py_strip (pr_command r))"
  by (simp_all add: analyzeCommandRequest_def Let_def split_def)

text \<open>Splitting at white space: a word between two spaces is a field of its own.\<close>

lemma split_ws_acc_append_space:
  "py_space c \<Longrightarrow> split_ws_acc cur (xs @ c # ys) = split_ws_acc cur xs @ split_ws ys"
  by (induction cur xs rule: split_ws_acc.induct) (auto simp: split_ws_def)

lemma split_ws_append_space: "py_space c \<Longrightarrow> split_ws (xs @ c # ys) = split_ws xs @ split_ws ys"
  by (simp add: split_ws_def split_ws_acc_append_space)

lemma split_ws_word_acc:
  "list_all (\<lambda>c. \<not> py_space c) w \<Longrightarrow> split_ws_acc cur w = (if rev cur @ w = [] then [] else [rev cur @ w])"
  by (induction cur w rule: split_ws_acc.induct) auto

lemma split_ws_word: "list_all (\<lambda>c. \<not> py_space c) w \<Longrightarrow> w \<noteq> [] \<Longrightarrow> split_ws w = [w]"
  by (simp add: split_ws_def split_ws_word_acc)

lemma hasAnyToken_append:
  "py_space c \<Longrightarrow> hasAnyToken (xs @ c # ys) ts \<longleftrightarrow> hasAnyToken xs ts \<or> hasAnyToken ys ts"
  by (simp add: hasAnyToken_def split_ws_append_space)

text \<open>Leading and trailing white space carries no field.\<close>

lemma split_ws_leading: "split_ws (dropWhile py_space s) = split_ws s"
  by (induction s) (auto simp: split_ws_def)

lemma split_ws_trailing: "list_all py_space t \<Longrightarrow> split_ws (s @ t) = split_ws s"
proof (cases t)
  case (Cons c t')
  assume "list_all py_space t"
  with Cons have c: "py_space c" and t': "list_all py_space t'" by simp_all
  have "split_ws t' = []" using t' by (induction t') (simp_all add: split_ws_def)
  with Cons c show ?thesis by (simp add: split_ws_append_space)
qed simp

lemma split_ws_strip: "split_ws (py_strip s) = split_ws s"
proof -
  let ?u = "dropWhile py_space s"
  have "?u = rev (dropWhile py_space (rev ?u)) @ rev (takeWhile py_space (rev ?u))"
    by (metis rev_append rev_rev_ident takeWhile_dropWhile_id)
  moreover have "list_all py_space (rev (takeWhile py_space (rev ?u)))"
    by (auto simp: list_all_iff dest: set_takeWhileD)
  ultimately have "split_ws ?u = split_ws (py_strip s)"
    by (metis split_ws_trailing py_strip_def strip_by_def)
  then show ?thesis by (simp add: split_ws_leading)
qed

lemma hasAnyToken_strip: "hasAnyToken (py_strip s) ts \<longleftrightarrow> hasAnyToken s ts"
  by (simp add: hasAnyToken_def split_ws_strip)

lemma commandPaths_strip: "commandPaths (py_strip s) = commandPaths s"
  by (simp add: commandPaths_def split_ws_strip)

lemma analyze_destructive:
  "hasAnyToken (pr_command r) DESTRUCTIVE_TOKENS \<Longrightarrow>
     pr_class (analyzeCommandRequest r) = COMMAND_CLASS_DESTRUCTIVE"
proof -
  assume "hasAnyToken (pr_command r) DESTRUCTIVE_TOKENS"
  then have t: "hasAnyToken (py_strip (pr_command r)) DESTRUCTIVE_TOKENS" by (simp add: hasAnyToken_strip)
  then have "py_strip (pr_command r) \<noteq> ''''" by (auto simp: hasAnyToken_def split_ws_def)
  with t show ?thesis by (simp add: analyzeCommandRequest_def Let_def)
qed

end
