(* ===== verification/Policy.thy ===== *)
theory Policy
  imports CommandAnalyzer Paths
begin

text \<open>
  The permission policy (\<open>execution/policy.py\<close>): which tool calls run directly, which
  need approval, which are refused. The definitions take \<open>json.loads\<close> and, where
  \<open>os.path.relpath\<close> may read it, the process working directory.
\<close>

section \<open>Modes, rules, policies\<close>

datatype tool_decision = DECISION_NEEDS_APPROVAL | DECISION_RUN_DIRECTLY | DECISION_DENIED

text \<open>A mode is string-backed: any text can reach the constructor.\<close>

definition PERMISSION_MODE_ASK :: string where "PERMISSION_MODE_ASK = ''ask''"
definition PERMISSION_MODE_ACCEPT_EDITS :: string where "PERMISSION_MODE_ACCEPT_EDITS = ''accept-edits''"
definition PERMISSION_MODE_PLAN :: string where "PERMISSION_MODE_PLAN = ''plan''"
definition PERMISSION_MODE_BYPASS :: string where "PERMISSION_MODE_BYPASS = ''bypass''"

record permission_rules =
  allow_tools :: "string list"
  deny_tools :: "string list"
  allow_prefixes :: "string list"
  deny_prefixes :: "string list"
  allow_paths :: "string list"
  deny_paths :: "string list"
  allow_env :: "string list"
  deny_env :: "string list"
  network :: string

definition default_rules :: permission_rules where
  "default_rules = \<lparr>allow_tools = [], deny_tools = [], allow_prefixes = [], deny_prefixes = [],
     allow_paths = [], deny_paths = [], allow_env = [], deny_env = [], network = ''''\<rparr>"

record tool_policy_input =
  pi_tool_specs :: "tool_spec list"
  pi_cwd :: string

record default_policy =
  dp_mode :: string
  dp_rules :: permission_rules

definition valid_permission_mode :: "string \<Rightarrow> bool" where
  "valid_permission_mode m \<longleftrightarrow> m \<in> {PERMISSION_MODE_ASK, PERMISSION_MODE_ACCEPT_EDITS,
     PERMISSION_MODE_PLAN, PERMISSION_MODE_BYPASS}"

definition new_policy :: "string \<Rightarrow> permission_rules \<Rightarrow> default_policy" where
  "new_policy m rules = \<lparr>dp_mode = (if m = '''' then PERMISSION_MODE_ASK else m),
     dp_rules = rules\<lparr>network := py_lower (py_strip (network rules))\<rparr>\<rparr>"

definition new_default_policy :: default_policy where
  "new_default_policy = new_policy PERMISSION_MODE_ASK default_rules"

section \<open>Matching\<close>

text \<open>The first spec of that name decides; an unknown tool is risky.\<close>

definition isRiskyTool :: "string \<Rightarrow> tool_spec list \<Rightarrow> bool" where
  "isRiskyTool name specs =
     (case find (\<lambda>s. ts_name s = name) specs of None \<Rightarrow> True | Some s \<Rightarrow> ts_risky s)"

definition isWriteTool :: "string \<Rightarrow> bool" where
  "isWriteTool name \<longleftrightarrow> name \<in> {''write_file'', ''apply_patch''}"

text \<open>\<open>os.sep\<close> is the slash, so the \<open>replace\<close> of \<open>_cleanSlash\<close> changes nothing.\<close>

definition cleanSlash :: "string \<Rightarrow> string" where
  "cleanSlash path = normpath path"

definition rel_path :: "string \<Rightarrow> string \<Rightarrow> string \<Rightarrow> string option" where
  "rel_path getcwd basepath targpath =
     (if isabs basepath \<noteq> isabs targpath then None
      else case relpath getcwd targpath basepath of Inl _ \<Rightarrow> None | Inr r \<Rightarrow> Some r)"

definition matches_name :: "string \<Rightarrow> string list \<Rightarrow> bool" where
  "matches_name value patterns = list_ex (\<lambda>pattern. pattern = value) patterns"

definition matchesPrefix :: "string \<Rightarrow> string list \<Rightarrow> bool" where
  "matchesPrefix command prefixes = (let command = py_strip command in
     list_ex (\<lambda>prefix. let prefix = py_strip prefix in
       prefix \<noteq> '''' \<and> startswith command prefix
       \<and> (let rest = drop (length prefix) command in
            rest = '''' \<or> hd rest = CHR '' '' \<or> hd rest = CHR 0x09)) prefixes)"

definition matchesPath :: "string \<Rightarrow> string list \<Rightarrow> bool" where
  "matchesPath path patterns = (let path = cleanSlash path in
     list_ex (\<lambda>pattern. let pattern = cleanSlash pattern in
       path = pattern \<or> startswith path (py_rstrip_chars ''/'' pattern @ ''/'')) patterns)"

section \<open>What a request touches\<close>

definition protected_clean :: "string \<Rightarrow> bool" where
  "protected_clean clean \<longleftrightarrow>
     clean = ''.git'' \<or> startswith clean ''.git/'' \<or> clean = ''.env'' \<or> contains ''/.env'' clean
     \<or> contains ''.ssh/'' clean \<or> contains ''.aws/'' clean \<or> contains ''.config/gcloud/'' clean"

definition touchesProtectedPath :: "string \<Rightarrow> perm_request \<Rightarrow> bool" where
  "touchesProtectedPath getcwd request =
     list_ex (\<lambda>path. protected_clean (cleanSlash path)
       \<or> (isabs path \<and> pr_cwd request \<noteq> ''''
          \<and> (case rel_path getcwd (pr_cwd request) path of
               None \<Rightarrow> True | Some rel \<Rightarrow> rel = ''..'' \<or> startswith rel ''../'')))
       (pr_touched_paths request)"

definition touchesDeniedPath :: "permission_rules \<Rightarrow> perm_request \<Rightarrow> bool" where
  "touchesDeniedPath rules request =
     list_ex (\<lambda>path. matchesPath path (deny_paths rules)) (pr_touched_paths request)"

definition usesDeniedEnv :: "permission_rules \<Rightarrow> perm_request \<Rightarrow> bool" where
  "usesDeniedEnv rules request = list_ex (\<lambda>key. matches_name key (deny_env rules)) (pr_env_vars request)"

definition pathsAllowed :: "permission_rules \<Rightarrow> perm_request \<Rightarrow> bool" where
  "pathsAllowed rules request =
     (pr_touched_paths request \<noteq> [] \<and> allow_paths rules \<noteq> []
      \<and> list_all (\<lambda>path. matchesPath path (allow_paths rules)) (pr_touched_paths request))"

definition envAllowed :: "permission_rules \<Rightarrow> perm_request \<Rightarrow> bool" where
  "envAllowed rules request =
     (pr_env_vars request \<noteq> [] \<and> allow_env rules \<noteq> []
      \<and> list_all (\<lambda>key. matches_name key (allow_env rules)) (pr_env_vars request))"

definition networkDenied :: "permission_rules \<Rightarrow> perm_request \<Rightarrow> bool" where
  "networkDenied rules request = (network rules \<noteq> ''allow'' \<and> pr_class request = COMMAND_CLASS_NETWORK)"

section \<open>The request and the decision\<close>

definition permission_request ::
    "(string \<Rightarrow> json option) \<Rightarrow> tool_call \<Rightarrow> tool_policy_input \<Rightarrow> perm_request" where
  "permission_request json_loads call input =
     (let request = default_perm_request\<lparr>pr_tool_name := tc_name call,
            pr_class := COMMAND_CLASS_UNKNOWN,
            pr_cwd := (if pi_cwd input \<noteq> '''' then pi_cwd input else ''.''),
            pr_reason := ''unknown tool calls require approval''\<rparr>
      in if tc_name call \<in> {''web_search'', ''browser_fetch''} then
           request\<lparr>pr_class := COMMAND_CLASS_NETWORK, pr_reason := ''network access requires approval''\<rparr>
         else if tc_name call \<in> {''bash'', ''run_command''} then
           (let command = jsonStringField json_loads (tc_input call) ''command'' in
            if tc_name call = ''run_command'' then
              analyzeCommandRequest (request\<lparr>pr_command := command,
                pr_cwd := firstNonEmpty [jsonStringField json_loads (tc_input call) ''cwd'', pr_cwd request]\<rparr>)
            else analyzeCommandRequest (request\<lparr>pr_command := command\<rparr>))
         else if tc_name call \<in> {''git_status'', ''git_diff'', ''read_file'', ''list_files'', ''search''} then
           request\<lparr>pr_class := COMMAND_CLASS_READ_ONLY, pr_touched_paths := toolPaths json_loads call,
             pr_reason := ''read-only tool''\<rparr>
         else if tc_name call \<in> {''write_file'', ''apply_patch''} then
           request\<lparr>pr_class := COMMAND_CLASS_WRITE, pr_touched_paths := toolPaths json_loads call,
             pr_reason := ''tool writes workspace files''\<rparr>
         else if \<not> isRiskyTool (tc_name call) (pi_tool_specs input) then
           request\<lparr>pr_class := COMMAND_CLASS_READ_ONLY, pr_reason := ''tool spec is marked safe''\<rparr>
         else request)"

definition classify_tool_call ::
    "(string \<Rightarrow> json option) \<Rightarrow> string \<Rightarrow> default_policy \<Rightarrow> tool_call \<Rightarrow> tool_policy_input \<Rightarrow> tool_decision" where
  "classify_tool_call json_loads getcwd p call input =
     (let request = permission_request json_loads call input;
          rules = dp_rules p;
          risky = isRiskyTool (tc_name call) (pi_tool_specs input)
      in if matches_name (tc_name call) (deny_tools rules)
            \<or> matchesPrefix (pr_command request) (deny_prefixes rules)
            \<or> touchesProtectedPath getcwd request
            \<or> touchesDeniedPath rules request
            \<or> usesDeniedEnv rules request
         then DECISION_DENIED
         else if dp_mode p = PERMISSION_MODE_BYPASS then DECISION_RUN_DIRECTLY
         else if dp_mode p = PERMISSION_MODE_PLAN then
           (if pr_class request = COMMAND_CLASS_READ_ONLY \<and> \<not> risky then DECISION_RUN_DIRECTLY
            else DECISION_DENIED)
         else if pr_class request = COMMAND_CLASS_DESTRUCTIVE \<or> networkDenied rules request
           then DECISION_NEEDS_APPROVAL
         else if matches_name (tc_name call) (allow_tools rules)
            \<or> matchesPrefix (pr_command request) (allow_prefixes rules)
            \<or> pathsAllowed rules request
            \<or> envAllowed rules request
           then DECISION_RUN_DIRECTLY
         else if dp_mode p = PERMISSION_MODE_ACCEPT_EDITS
             \<and> (pr_class request = COMMAND_CLASS_READ_ONLY \<or> isWriteTool (tc_name call))
           then DECISION_RUN_DIRECTLY
         else if risky then DECISION_NEEDS_APPROVAL
         else DECISION_RUN_DIRECTLY)"

section \<open>The deny rules\<close>

definition refused :: "string \<Rightarrow> permission_rules \<Rightarrow> string \<Rightarrow> perm_request \<Rightarrow> bool" where
  "refused getcwd rules name request \<longleftrightarrow>
     matches_name name (deny_tools rules) \<or> matchesPrefix (pr_command request) (deny_prefixes rules)
     \<or> touchesProtectedPath getcwd request \<or> touchesDeniedPath rules request \<or> usesDeniedEnv rules request"

lemma classify_refused:
  "refused getcwd (dp_rules p) (tc_name call) (permission_request json_loads call input) \<Longrightarrow>
     classify_tool_call json_loads getcwd p call input = DECISION_DENIED"
  by (simp add: classify_tool_call_def Let_def refused_def)

lemma classify_denied_iff:
  "classify_tool_call json_loads getcwd p call input = DECISION_DENIED \<longleftrightarrow>
     refused getcwd (dp_rules p) (tc_name call) (permission_request json_loads call input)
     \<or> (dp_mode p = PERMISSION_MODE_PLAN
        \<and> \<not> (pr_class (permission_request json_loads call input) = COMMAND_CLASS_READ_ONLY
             \<and> \<not> isRiskyTool (tc_name call) (pi_tool_specs input)))"
  by (auto simp: classify_tool_call_def Let_def refused_def PERMISSION_MODE_PLAN_def PERMISSION_MODE_BYPASS_def)

text \<open>Each matcher only asks whether some pattern matches, so more patterns match more.\<close>

lemma matches_name_mono: "set a \<subseteq> set b \<Longrightarrow> matches_name v a \<Longrightarrow> matches_name v b"
  by (auto simp: matches_name_def list_ex_iff)

lemma matchesPrefix_mono: "set a \<subseteq> set b \<Longrightarrow> matchesPrefix c a \<Longrightarrow> matchesPrefix c b"
  unfolding matchesPrefix_def Let_def list_ex_iff by blast

lemma matchesPath_mono: "set a \<subseteq> set b \<Longrightarrow> matchesPath q a \<Longrightarrow> matchesPath q b"
  unfolding matchesPath_def Let_def list_ex_iff by blast

definition deny_le :: "permission_rules \<Rightarrow> permission_rules \<Rightarrow> bool" where
  "deny_le r r' \<longleftrightarrow> set (deny_tools r) \<subseteq> set (deny_tools r') \<and> set (deny_prefixes r) \<subseteq> set (deny_prefixes r')
     \<and> set (deny_paths r) \<subseteq> set (deny_paths r') \<and> set (deny_env r) \<subseteq> set (deny_env r')"

lemma refused_mono: "deny_le r r' \<Longrightarrow> refused getcwd r name q \<Longrightarrow> refused getcwd r' name q"
  unfolding refused_def deny_le_def touchesDeniedPath_def usesDeniedEnv_def list_ex_iff
  using matches_name_mono matchesPrefix_mono matchesPath_mono by meson

section \<open>What a request says\<close>

lemma request_shell:
  assumes "tc_name call \<in> {''bash'', ''run_command''}"
  shows "pr_command (permission_request json_loads call input) = jsonStringField json_loads (tc_input call) ''command''"
    and "hasAnyToken (jsonStringField json_loads (tc_input call) ''command'') DESTRUCTIVE_TOKENS \<Longrightarrow>
      pr_class (permission_request json_loads call input) = COMMAND_CLASS_DESTRUCTIVE"
  using assms by (auto simp: permission_request_def Let_def intro: analyze_destructive)

lemma request_file_paths:
  "tc_name call \<in> {''read_file'', ''list_files'', ''search'', ''git_status'', ''git_diff'', ''write_file'', ''apply_patch''} \<Longrightarrow>
     pr_touched_paths (permission_request json_loads call input) = toolPaths json_loads call"
  by (auto simp: permission_request_def Let_def)

lemma request_cwd:
  "tc_name call \<noteq> ''run_command'' \<Longrightarrow>
     pr_cwd (permission_request json_loads call input) = (if pi_cwd input \<noteq> '''' then pi_cwd input else ''.'')"
  by (auto simp: permission_request_def Let_def)

text \<open>A path that normalises into \<open>.git\<close>, however it is spelled.\<close>

lemma normpath_relative:
  "p \<noteq> '''' \<Longrightarrow> \<not> isabs p \<Longrightarrow> norm_comps False (split_on CHR ''/'' p) = w # ws \<Longrightarrow>
     normpath p = join_with ''/'' (w # ws)"
proof -
  assume p: "p \<noteq> ''''" "\<not> isabs p" and c: "norm_comps False (split_on CHR ''/'' p) = w # ws"
  have "w \<noteq> ''''" using norm_comps_nonempty_parts [of w False "split_on CHR ''/'' p"] c by simp
  then have "join_with ''/'' (w # ws) \<noteq> ''''" by (cases ws) auto
  with p c show ?thesis by (simp add: normpath_def splitroot_def isabs_def)
qed

lemma git_path_protected:
  assumes "p \<noteq> ''''" "\<not> isabs p" "norm_comps False (split_on CHR ''/'' p) = ''.git'' # ws"
  shows "protected_clean (cleanSlash p)"
proof -
  have "normpath p = join_with ''/'' (''.git'' # ws)" by (rule normpath_relative [OF assms])
  then show ?thesis by (cases ws) (simp_all add: cleanSlash_def protected_clean_def startswith_def)
qed

lemma protected_path_denied:
  assumes "q \<in> set (pr_touched_paths (permission_request json_loads call input))"
    and "protected_clean (cleanSlash q)"
  shows "classify_tool_call json_loads getcwd p call input = DECISION_DENIED"
  using assms by (intro classify_refused) (auto simp: refused_def touchesProtectedPath_def list_ex_iff)

lemma absolute_path_denied:
  assumes "q \<in> set (pr_touched_paths (permission_request json_loads call input))" and "isabs q"
    and "\<not> isabs (pr_cwd (permission_request json_loads call input))"
    and "pr_cwd (permission_request json_loads call input) \<noteq> ''''"
  shows "classify_tool_call json_loads getcwd p call input = DECISION_DENIED"
  using assms
  by (intro classify_refused) (auto simp: refused_def touchesProtectedPath_def list_ex_iff rel_path_def)

text \<open>Only bypass mode runs a destructive command, and only it runs denied network access.\<close>

lemma destructive_not_run:
  "pr_class (permission_request json_loads call input) = COMMAND_CLASS_DESTRUCTIVE \<Longrightarrow>
     dp_mode p \<noteq> PERMISSION_MODE_BYPASS \<Longrightarrow>
     classify_tool_call json_loads getcwd p call input \<noteq> DECISION_RUN_DIRECTLY"
  by (auto simp: classify_tool_call_def Let_def)

lemma network_not_run:
  "networkDenied (dp_rules p) (permission_request json_loads call input) \<Longrightarrow>
     dp_mode p \<noteq> PERMISSION_MODE_BYPASS \<Longrightarrow>
     classify_tool_call json_loads getcwd p call input \<noteq> DECISION_RUN_DIRECTLY"
  by (auto simp: classify_tool_call_def Let_def networkDenied_def)

text \<open>The working directory of the process is read only for two relative paths.\<close>

lemma rel_path_getcwd: "isabs targpath \<Longrightarrow> rel_path g1 base targpath = rel_path g2 base targpath"
  by (simp add: rel_path_def relpath_def abspath_def)

section \<open>The properties of the policy\<close>

text \<open>
  C29. Deny rules are absolute: a call refused under some policy other than plan mode is
  refused under every policy that denies at least as much, whatever its mode and whatever it
  allows.
\<close>

theorem deny_rules_absolute:
  assumes "classify_tool_call json_loads getcwd p call input = DECISION_DENIED"
    and "dp_mode p \<noteq> PERMISSION_MODE_PLAN" and "deny_le (dp_rules p) (dp_rules p')"
  shows "classify_tool_call json_loads getcwd p' call input = DECISION_DENIED"
  using assms(1,2) refused_mono [OF assms(3)] by (auto simp: classify_denied_iff intro: classify_refused)

theorem deny_rules_absolute_witness:
  "classify_tool_call (\<lambda>_. None) ''/'' \<lparr>dp_mode = ''bypass'', dp_rules = default_rules
      \<lparr>deny_tools := [''bash'', ''search''], allow_tools := [''search'']\<rparr>\<rparr>
     \<lparr>tc_id = '''', tc_name = ''search'', tc_input = ''''\<rparr> \<lparr>pi_tool_specs = [], pi_cwd = ''''\<rparr> = DECISION_DENIED"
proof (rule deny_rules_absolute [where p = "\<lparr>dp_mode = ''ask'', dp_rules = default_rules\<lparr>deny_tools := [''search'']\<rparr>\<rparr>"])
  show "classify_tool_call (\<lambda>_. None) ''/'' \<lparr>dp_mode = ''ask'', dp_rules = default_rules\<lparr>deny_tools := [''search'']\<rparr>\<rparr>
     \<lparr>tc_id = '''', tc_name = ''search'', tc_input = ''''\<rparr> \<lparr>pi_tool_specs = [], pi_cwd = ''''\<rparr> = DECISION_DENIED"
    by (simp add: classify_tool_call_def default_rules_def matches_name_def Let_def)
qed (simp_all add: PERMISSION_MODE_PLAN_def deny_le_def default_rules_def)


definition shell_call :: tool_call where
  "shell_call = \<lparr>tc_id = ''c'', tc_name = ''bash'', tc_input = ''x''\<rparr>"




text \<open>
  Plan mode runs nothing but calls classed read-only whose tool spec is marked safe, and
  refuses everything else without asking; no allow rule widens it.
\<close>

theorem plan_mode_read_only:
  assumes "dp_mode p = PERMISSION_MODE_PLAN"
  shows "classify_tool_call json_loads getcwd p call input \<noteq> DECISION_NEEDS_APPROVAL
    \<and> (classify_tool_call json_loads getcwd p call input = DECISION_RUN_DIRECTLY \<longleftrightarrow>
      pr_class (permission_request json_loads call input) = COMMAND_CLASS_READ_ONLY
      \<and> (\<exists>s. find (\<lambda>s. ts_name s = tc_name call) (pi_tool_specs input) = Some s \<and> \<not> ts_risky s)
      \<and> \<not> refused getcwd (dp_rules p) (tc_name call) (permission_request json_loads call input))"
  using assms
  by (auto simp: classify_tool_call_def Let_def refused_def PERMISSION_MODE_PLAN_def PERMISSION_MODE_BYPASS_def
      isRiskyTool_def split: option.splits)

theorem plan_mode_read_only_witness:
  "classify_tool_call (\<lambda>_. None) ''/'' \<lparr>dp_mode = ''plan'', dp_rules = default_rules\<lparr>allow_tools := [''write_file'']\<rparr>\<rparr>
     \<lparr>tc_id = '''', tc_name = ''write_file'', tc_input = ''''\<rparr>
     \<lparr>pi_tool_specs = [\<lparr>ts_name = ''write_file'', ts_description = '''', ts_parameters = None, ts_risky = True\<rparr>],
      pi_cwd = ''''\<rparr> = DECISION_DENIED"
proof -
  let ?p = "\<lparr>dp_mode = ''plan'', dp_rules = default_rules\<lparr>allow_tools := [''write_file'']\<rparr>\<rparr>"
  have "dp_mode ?p = PERMISSION_MODE_PLAN" by (simp add: PERMISSION_MODE_PLAN_def)
  from plan_mode_read_only [OF this, of "\<lambda>_. None" "''/''" "\<lparr>tc_id = '''', tc_name = ''write_file'', tc_input = ''''\<rparr>"
      "\<lparr>pi_tool_specs = [\<lparr>ts_name = ''write_file'', ts_description = '''', ts_parameters = None, ts_risky = True\<rparr>],
        pi_cwd = ''''\<rparr>"]
  show ?thesis by (cases rule: tool_decision.exhaust) auto
qed

text \<open>
  The verdict never depends on the working directory of the process.
\<close>

theorem verdict_ignores_process_cwd:
  "classify_tool_call json_loads g1 p call input = classify_tool_call json_loads g2 p call input"
proof -
  have "isabs q \<Longrightarrow> rel_path g1 b q = rel_path g2 b q" for q b by (rule rel_path_getcwd)
  then have "touchesProtectedPath g1 r = touchesProtectedPath g2 r" for r
    by (auto simp: touchesProtectedPath_def list_ex_iff)
  then show ?thesis by (simp add: classify_tool_call_def Let_def)
qed

end
