(* ===== verification/ApprovalStore.thy ===== *)
theory ApprovalStore
  imports Policy "HOL-Library.Multiset" "HOL-Library.Char_ord" "HOL-Library.List_Lexorder"
begin

text \<open>
  Remembered "always allow" decisions (\<open>execution/approval_store.py\<close>): the canonical
  JSON a tool call's input is hashed in, and the in-memory store. \<open>json.loads\<close> and
  \<open>hashlib.sha256(...).hexdigest()\<close> are arguments; encoding the text to JSON is modelled.
\<close>

section \<open>Canonical JSON\<close>

text \<open>An integral float becomes the integer it equals.\<close>

fun normalise_numbers :: "json \<Rightarrow> json" where
  "normalise_numbers (JFloat (Some i) _) = JInt i"
| "normalise_numbers (JList xs) = JList (map normalise_numbers xs)"
| "normalise_numbers (JObject kvs) = JObject (map (\<lambda>(k, v). (k, normalise_numbers v)) kvs)"
| "normalise_numbers v = v"

text \<open>The escapes of \<open>json.dumps(..., ensure_ascii=False)\<close>.\<close>

definition hex_digit :: "nat \<Rightarrow> char" where
  "hex_digit n = ''0123456789abcdef'' ! n"

definition json_escape_char :: "char \<Rightarrow> string" where
  "json_escape_char c = (let n = (of_char c :: nat) in
     if c = CHR 0x22 then [CHR 0x5C, CHR 0x22]
     else if c = CHR 0x5C then [CHR 0x5C, CHR 0x5C]
     else if n = 10 then [CHR 0x5C, CHR ''n'']
     else if n = 13 then [CHR 0x5C, CHR ''r'']
     else if n = 9 then [CHR 0x5C, CHR ''t'']
     else if n = 12 then [CHR 0x5C, CHR ''f'']
     else if n = 8 then [CHR 0x5C, CHR ''b'']
     else if n < 32 then [CHR 0x5C, CHR ''u'', CHR ''0'', CHR ''0'', hex_digit (n div 16), hex_digit (n mod 16)]
     else [c])"

definition json_quote :: "string \<Rightarrow> string" where
  "json_quote s = [CHR 0x22] @ concat (map json_escape_char s) @ [CHR 0x22]"

text \<open>\<open>json.dumps\<close> with compact separators and sorted keys.\<close>

fun json_dumps :: "json \<Rightarrow> string" where
  "json_dumps JNull = ''null''"
| "json_dumps (JBool b) = (if b then ''true'' else ''false'')"
| "json_dumps (JInt i) = dec_int i"
| "json_dumps (JFloat _ text) = text"
| "json_dumps (JString s) = json_quote s"
| "json_dumps (JList xs) = ''['' @ join_with '','' (map json_dumps xs) @ '']''"
| "json_dumps (JObject kvs) =
     ''{'' @ join_with '','' (map (\<lambda>(k, text). json_quote k @ '':'' @ text)
       (sort_key fst (map (\<lambda>(k, v). (k, json_dumps v)) kvs))) @ ''}''"

text \<open>The HTML escapes; the two line separators are above the modelled code points.\<close>

definition html_escape_char :: "char \<Rightarrow> string" where
  "html_escape_char c =
     (if c = CHR ''<'' then CHR 0x5C # ''u003c''
      else if c = CHR ''>'' then CHR 0x5C # ''u003e''
      else if c = CHR ''&'' then CHR 0x5C # ''u0026''
      else [c])"

definition canonical_json :: "json \<Rightarrow> string" where
  "canonical_json v = concat (map html_escape_char (json_dumps (normalise_numbers v)))"

definition hashCanonicalInput :: "(string \<Rightarrow> json option) \<Rightarrow> (string \<Rightarrow> string) \<Rightarrow> string \<Rightarrow> string" where
  "hashCanonicalInput json_loads sha256 input =
     (case json_loads input of None \<Rightarrow> sha256 input | Some v \<Rightarrow> sha256 (canonical_json v))"

section \<open>The store\<close>

record approval_key =
  ak_tool_name :: string
  ak_input_hash :: string

record approval_store =
  as_always :: "approval_key \<rightharpoonup> bool"
  as_mode :: string
  as_rules :: permission_rules

definition new_approval_store :: approval_store where
  "new_approval_store = \<lparr>as_always = Map.empty, as_mode = '''', as_rules = default_rules\<rparr>"

definition new_approval_key :: "(string \<Rightarrow> json option) \<Rightarrow> (string \<Rightarrow> string) \<Rightarrow> tool_call \<Rightarrow> approval_key" where
  "new_approval_key json_loads sha256 call =
     \<lparr>ak_tool_name = tc_name call, ak_input_hash = hashCanonicalInput json_loads sha256 (tc_input call)\<rparr>"

definition allow_always :: "approval_store \<Rightarrow> approval_key \<Rightarrow> approval_store" where
  "allow_always st key = st\<lparr>as_always := (as_always st)(key \<mapsto> True)\<rparr>"

definition is_always_allowed :: "approval_store \<Rightarrow> approval_key \<Rightarrow> bool" where
  "is_always_allowed st key = (case as_always st key of None \<Rightarrow> False | Some b \<Rightarrow> b)"

definition set_store_policy :: "approval_store \<Rightarrow> string \<Rightarrow> permission_rules \<Rightarrow> approval_store" where
  "set_store_policy st m rules = st\<lparr>as_mode := m, as_rules := rules\<rparr>"

lemma is_always_allowed_allow [simp]:
  "is_always_allowed (allow_always st key) k \<longleftrightarrow> k = key \<or> is_always_allowed st k"
  by (auto simp: is_always_allowed_def allow_always_def)

lemma is_always_allowed_set_policy [simp]:
  "is_always_allowed (set_store_policy st m rules) k = is_always_allowed st k"
  by (simp add: is_always_allowed_def set_store_policy_def)

section \<open>Inputs that are the same call\<close>

text \<open>
  Two JSON values are the same when they differ only in the order of object keys and in
  whether an integral number is written as a float, at any depth.
\<close>

inductive same_json :: "json \<Rightarrow> json \<Rightarrow> bool" where
  same_refl: "same_json v v"
| same_sym: "same_json v w \<Longrightarrow> same_json w v"
| same_trans: "same_json u v \<Longrightarrow> same_json v w \<Longrightarrow> same_json u w"
| same_float: "same_json (JFloat (Some i) t) (JInt i)"
| same_list: "list_all2 same_json xs ys \<Longrightarrow> same_json (JList xs) (JList ys)"
| same_object: "list_all2 (\<lambda>a b. fst a = fst b \<and> same_json (snd a) (snd b)) kvs lws \<Longrightarrow>
    same_json (JObject kvs) (JObject lws)"
| same_order: "mset kvs = mset lws \<Longrightarrow> distinct (map fst kvs) \<Longrightarrow> same_json (JObject kvs) (JObject lws)"

lemma sort_key_same:
  fixes xs ys :: "(string \<times> string) list"
  assumes "mset xs = mset ys" and "distinct (map fst xs)"
  shows "sort_key fst xs = sort_key fst ys"
proof (rule map_sorted_distinct_set_unique)
  have sets: "set xs = set ys" using assms(1) by (metis set_mset_mset)
  have "mset (map fst xs) = mset (map fst ys)" using assms(1) by (simp add: mset_map)
  then have dy: "distinct (map fst ys)" using assms(2) by (metis mset_eq_imp_distinct_iff)
  show "inj_on fst (set (sort_key fst xs) \<union> set (sort_key fst ys))"
    using assms(2) sets by (simp add: distinct_map)
  have "distinct (map fst (sort_key fst zs)) \<longleftrightarrow> distinct (map fst zs)" for zs :: "(string \<times> string) list"
    by (rule mset_eq_imp_distinct_iff) (simp add: mset_map)
  then show "distinct (map fst (sort_key fst xs))" "distinct (map fst (sort_key fst ys))"
    using assms(2) dy by simp_all
  show "set (sort_key fst xs) = set (sort_key fst ys)" using sets by simp
qed simp_all

lemma same_json_canonical: "same_json v w \<Longrightarrow> json_dumps (normalise_numbers v) = json_dumps (normalise_numbers w)"
proof (induction rule: same_json.induct)
  case (same_list xs ys)
  then have "map (json_dumps \<circ> normalise_numbers) xs = map (json_dumps \<circ> normalise_numbers) ys"
    by (induction rule: list_all2_induct) simp_all
  then show ?case by simp
next
  case (same_object kvs lws)
  then have "map (\<lambda>(k, v). (k, json_dumps (normalise_numbers v))) kvs
      = map (\<lambda>(k, v). (k, json_dumps (normalise_numbers v))) lws"
    by (induction rule: list_all2_induct) auto
  then show ?case by (simp add: comp_def split_def)
next
  case (same_order kvs lws)
  let ?f = "\<lambda>(k, v). (k, json_dumps (normalise_numbers v))"
  have "mset (map ?f kvs) = mset (map ?f lws)" using same_order(1) by (simp add: mset_map)
  moreover have "distinct (map fst (map ?f kvs))" using same_order(2) by (simp add: comp_def split_def)
  ultimately have "sort_key fst (map ?f kvs) = sort_key fst (map ?f lws)" by (rule sort_key_same)
  then show ?case by (simp add: comp_def split_def)
qed simp_all

section \<open>The property of the store\<close>

text \<open>
  Remembering one call remembers every call of that tool whose input is the same JSON
  value, up to the order of object keys and integral floats at any depth; and it forgets
  nothing remembered before.
\<close>

theorem remembered_up_to_json:
  assumes "json_loads (tc_input call) = Some v" and "json_loads (tc_input call') = Some v'"
    and "same_json v v'" and "tc_name call = tc_name call'"
  shows "is_always_allowed (allow_always st (new_approval_key json_loads sha256 call))
      (new_approval_key json_loads sha256 call')
    \<and> (is_always_allowed st k \<longrightarrow> is_always_allowed (allow_always st (new_approval_key json_loads sha256 call)) k)"
  using assms
  by (simp add: new_approval_key_def hashCanonicalInput_def canonical_json_def same_json_canonical)

theorem remembered_up_to_json_witness:
  "is_always_allowed (allow_always new_approval_store
      (new_approval_key (\<lambda>t. Some (if t = ''a'' then JObject [(''x'', JInt 1), (''y'', JNull)]
          else JObject [(''y'', JNull), (''x'', JInt 1)])) id \<lparr>tc_id = '''', tc_name = ''t'', tc_input = ''a''\<rparr>))
     (new_approval_key (\<lambda>t. Some (if t = ''a'' then JObject [(''x'', JInt 1), (''y'', JNull)]
          else JObject [(''y'', JNull), (''x'', JInt 1)])) id \<lparr>tc_id = '''', tc_name = ''t'', tc_input = ''b''\<rparr>)"
  (is "is_always_allowed (allow_always _ (new_approval_key ?l id ?a)) (new_approval_key ?l id ?b)")
proof -
  have "same_json (JObject [(''x'', JInt 1), (''y'', JNull)]) (JObject [(''y'', JNull), (''x'', JInt 1)])"
    by (rule same_order) simp_all
  then show ?thesis
    using remembered_up_to_json [of ?l ?a "JObject [(''x'', JInt 1), (''y'', JNull)]" ?b
        "JObject [(''y'', JNull), (''x'', JInt 1)]" new_approval_store id]
    by simp
qed

end
