(* ===== verification/Execution.thy ===== *)
theory Execution
  imports ApprovalStore Transition RunControl
begin

text \<open>
  Executing one scheduled action and reading its result back
  (\<open>execution/scheduled_action_executor.py\<close>, \<open>scheduled_action_result.py\<close>,
  \<open>scheduled_action_runner.py\<close>, \<open>action_result_resolver.py\<close>).

  The model, the tools and the approval waiter are ports: arguments that return a value
  or the exception they raise. Stream chunks a model call delivers on the way are events
  of their own in \<open>Engine\<close>. A function that raises takes the identity of the new
  exception object as its first argument.
\<close>

section \<open>Results\<close>

datatype action_result =
    ModelReplied model_response
  | ToolFinished tool_call string
  | ToolQueueChecked
  | ApprovalReceived tool_call approval_decision

section \<open>The executor\<close>

type_synonym model_port = "message list \<Rightarrow> tool_spec list \<Rightarrow> (exc, model_response) result"

record tools_port =
  tp_specs :: "tool_spec list"
  tp_run :: "tool_call \<Rightarrow> (exc, string) result"

type_synonym waiter_port = "tool_call \<Rightarrow> perm_request \<Rightarrow> (exc, approval_decision) result"

record executor =
  ex_model :: "model_port option"
  ex_tools :: "tools_port option"

record action_input =
  ai_messages :: "message list"
  ai_tool_specs :: "tool_spec list"
  ai_waiter :: "waiter_port option"

definition executor_tool_specs :: "executor \<Rightarrow> tool_spec list" where
  "executor_tool_specs ex = (case ex_tools ex of None \<Rightarrow> [] | Some t \<Rightarrow> tp_specs t)"

definition call_model :: "nat \<Rightarrow> executor \<Rightarrow> action_input \<Rightarrow> (exc, action_result) result" where
  "call_model fresh ex env =
     (case ex_model ex of
        None \<Rightarrow> Inl (plain_exc fresh ValueErrorC ''no model is configured'')
      | Some m \<Rightarrow> bind_result (m (ai_messages env) (ai_tool_specs env)) (\<lambda>r. Inr (ModelReplied r)))"

text \<open>
  \<open>except Cancelled\<close> re-raises; a bare \<open>asyncio.CancelledError\<close> becomes a \<open>Cancelled\<close>
  whose \<open>__context__\<close> it is; any other \<open>Exception\<close> is a result, not a fault. What is left
  derives from \<open>BaseException\<close> only and passes through.
\<close>

definition run_tool :: "nat \<Rightarrow> executor \<Rightarrow> tool_call \<Rightarrow> (exc, action_result) result" where
  "run_tool fresh ex call =
     (case ex_tools ex of
        None \<Rightarrow> Inl (plain_exc fresh ValueErrorC ''no tools are configured'')
      | Some t \<Rightarrow>
          (case tp_run t call of
             Inr text \<Rightarrow> Inr (ToolFinished call text)
           | Inl e \<Rightarrow>
               if isinstance_exc e CancelledC then Inl e
               else if isinstance_exc e AsyncCancelledC
                 then Inl (Exc fresh CancelledC ''tool run cancelled'' None (Some e) [])
               else if isinstance_exc e ExceptionC then Inr (ToolFinished call (''Error: '' @ exc_text e))
               else Inl e))"

definition await_approval ::
    "nat \<Rightarrow> action_input \<Rightarrow> tool_call \<Rightarrow> perm_request \<Rightarrow> (exc, action_result) result" where
  "await_approval fresh env call request =
     (case ai_waiter env of
        None \<Rightarrow> Inl (plain_exc fresh ValueErrorC ''approval waiter is not configured'')
      | Some w \<Rightarrow> bind_result (w call request) (\<lambda>d. Inr (ApprovalReceived call d)))"

definition execute :: "nat \<Rightarrow> executor \<Rightarrow> scheduled_action \<Rightarrow> action_input \<Rightarrow> (exc, action_result) result" where
  "execute fresh ex a env =
     (case a of
        CallModel \<Rightarrow> call_model fresh ex env
      | RunTool call \<Rightarrow> run_tool fresh ex call
      | CheckToolQueue \<Rightarrow> Inr ToolQueueChecked
      | AwaitApproval call request \<Rightarrow> await_approval fresh env call request)"

section \<open>The runner\<close>

record action_completion =
  ac_run_id :: string
  ac_action_id :: string
  ac_result :: action_result

definition run_queued :: "nat \<Rightarrow> executor \<Rightarrow> queued_action \<Rightarrow> action_input \<Rightarrow> (exc, action_completion) result" where
  "run_queued fresh ex q env =
     (case qa_action q of
        None \<Rightarrow> Inl (plain_exc fresh ValueErrorC ''queued action carries no action'')
      | Some a \<Rightarrow> bind_result (execute fresh ex a env) (\<lambda>r.
          Inr \<lparr>ac_run_id = qa_run_id q, ac_action_id = qa_action_id q, ac_result = r\<rparr>))"

section \<open>The resolver\<close>

record resolver_input =
  ri_tool_batch :: "tool_batch option"
  ri_tool_specs :: "tool_spec list"

text \<open>What the resolver is built over: the two library functions and the working directory.\<close>

record resolver_env =
  re_json_loads :: "string \<Rightarrow> json option"
  re_sha256 :: "string \<Rightarrow> string"
  re_getcwd :: string

definition resolver_decision ::
    "resolver_env \<Rightarrow> default_policy \<Rightarrow> approval_store \<Rightarrow> tool_call \<Rightarrow> tool_spec list \<Rightarrow> tool_decision" where
  "resolver_decision w p st call specs =
     (if is_always_allowed st (new_approval_key (re_json_loads w) (re_sha256 w) call)
      then DECISION_RUN_DIRECTLY
      else classify_tool_call (re_json_loads w) (re_getcwd w) p call \<lparr>pi_tool_specs = specs, pi_cwd = ''''\<rparr>)"

definition resolveToolCall ::
    "resolver_env \<Rightarrow> default_policy \<Rightarrow> approval_store \<Rightarrow> tool_call \<Rightarrow> tool_spec list \<Rightarrow> event" where
  "resolveToolCall w p st call specs =
     (let request = permission_request (re_json_loads w) call \<lparr>pi_tool_specs = specs, pi_cwd = ''''\<rparr>
      in case resolver_decision w p st call specs of
        DECISION_DENIED \<Rightarrow> ToolCallDenied call (pr_reason request)
      | DECISION_RUN_DIRECTLY \<Rightarrow> ToolCallReadyToRun call
      | DECISION_NEEDS_APPROVAL \<Rightarrow> ToolCallNeedsApproval call request)"

definition resolve_model_reply :: "nat \<Rightarrow> model_response \<Rightarrow> resolver_input \<Rightarrow> (exc, event) result" where
  "resolve_model_reply fresh response input =
     (if mr_tool_calls response = [] then Inr (AssistantMessageReceived response)
      else if ri_tool_specs input = []
        then Inl (plain_exc fresh ValueErrorC ''model returned tool call while tools are disabled'')
      else Inr (ToolBatchReceived (mr_content response) (mr_tool_calls response) (mr_reasoning response)))"

fun resolve_approval :: "tool_call \<Rightarrow> approval_decision \<Rightarrow> event" where
  "resolve_approval call APPROVE_ONCE = ApprovalGranted call"
| "resolve_approval call APPROVE_ALWAYS = ApprovalAlwaysGranted call"
| "resolve_approval call DENY_APPROVAL = ApprovalDenied call"

text \<open>The batch index of valid data is never negative, so indexing is from the front.\<close>

fun resolve ::
    "nat \<Rightarrow> resolver_env \<Rightarrow> default_policy \<Rightarrow> approval_store \<Rightarrow> action_result \<Rightarrow> resolver_input \<Rightarrow> (exc, event) result" where
  "resolve fresh w p st (ModelReplied response) input = resolve_model_reply fresh response input"
| "resolve fresh w p st (ToolFinished call result) input = Inr (ToolResultReceived call result)"
| "resolve fresh w p st ToolQueueChecked input =
     (case ri_tool_batch input of
        None \<Rightarrow> Inr ToolBatchFinished
      | Some b \<Rightarrow>
          if tb_index b \<ge> int (length (tb_calls b)) then Inr ToolBatchFinished
          else Inr (resolveToolCall w p st (tb_calls b ! nat (tb_index b)) (ri_tool_specs input)))"
| "resolve fresh w p st (ApprovalReceived call decision) input = Inr (resolve_approval call decision)"

section \<open>Actions, results and events fit together\<close>

text \<open>The action each state waits for, and the results an action can have.\<close>

definition action_for :: "runtime_data \<Rightarrow> scheduled_action option" where
  "action_for d =
     (case rd_state d of
        STATE_WAITING_LLM \<Rightarrow> Some CallModel
      | STATE_ADVANCING_QUEUE \<Rightarrow> Some CheckToolQueue
      | STATE_RUNNING_TOOL \<Rightarrow> map_option RunTool (rd_current_tool d)
      | STATE_WAITING_APPROVAL \<Rightarrow>
          (case (rd_pending_tool d, rd_pending_permission d) of
             (Some c, Some q) \<Rightarrow> Some (AwaitApproval c q) | _ \<Rightarrow> None)
      | _ \<Rightarrow> None)"

fun answers :: "scheduled_action \<Rightarrow> action_result \<Rightarrow> bool" where
  "answers CallModel (ModelReplied _) = True"
| "answers (RunTool c) (ToolFinished c' _) = (c' = c)"
| "answers CheckToolQueue ToolQueueChecked = True"
| "answers (AwaitApproval c _) (ApprovalReceived c' _) = (c' = c)"
| "answers _ _ = False"

lemma execute_answers: "execute fresh ex a env = Inr r \<Longrightarrow> answers a r"
  by (cases a)
     (auto simp: execute_def call_model_def run_tool_def await_approval_def bind_result_Inr_iff
       split: option.splits sum.splits if_splits)

lemma resolve_accepted:
  assumes v: "valid_data d" and a: "action_for d = Some a" and r: "answers a r"
    and e: "resolve fresh w p st r \<lparr>ri_tool_batch = rd_tool_batch d, ri_tool_specs = specs\<rparr> = Inr e"
  shows "accepts d e"
proof (cases "rd_state d")
  case STATE_ADVANCING_QUEUE
  then obtain b where b: "rd_tool_batch d = Some b" using v advancing_batch by blast
  have "r = ToolQueueChecked" using a r STATE_ADVANCING_QUEUE by (cases r) (auto simp: action_for_def)
  with b e STATE_ADVANCING_QUEUE show ?thesis
    by (auto simp: accepts_def next_call_def resolveToolCall_def Let_def matches_def
        split: if_splits tool_decision.splits)
next
  case STATE_WAITING_LLM
  then obtain m where "r = ModelReplied m" using a r by (cases r) (auto simp: action_for_def)
  with e STATE_WAITING_LLM show ?thesis
    by (auto simp: resolve_model_reply_def accepts_def split: if_splits)
next
  case STATE_WAITING_APPROVAL
  then obtain c q where c: "rd_pending_tool d = Some c" "a = AwaitApproval c q"
    using a by (auto simp: action_for_def split: option.splits)
  with r obtain dec where "r = ApprovalReceived c dec" by (cases r) auto
  with c e STATE_WAITING_APPROVAL show ?thesis
    by (cases dec) (auto simp: accepts_def matches_def)
next
  case STATE_RUNNING_TOOL
  then obtain c where c: "rd_current_tool d = Some c" "a = RunTool c"
    using a by (auto simp: action_for_def)
  with r obtain t where "r = ToolFinished c t" by (cases r) auto
  with c e STATE_RUNNING_TOOL show ?thesis by (auto simp: accepts_def matches_def)
qed (use a in \<open>simp_all add: action_for_def\<close>)

text \<open>What an accepted event schedules is what the new state waits for.\<close>

lemma plan_matches:
  "valid_data d \<Longrightarrow> accepts d e \<Longrightarrow>
     ap_schedule (event_plan e) = (case action_for (next_data d e) of None \<Rightarrow> [] | Some a \<Rightarrow> [a])"
  by (cases e; cases "rd_state d")
     (auto simp: accepts_def valid_data_iff action_for_def add_message_def advanced_def abandoned_def
       cleared_def schedule_plan_def clear_plan_def default_action_plan_def)

lemma plan_clears:
  "ap_clear_existing (event_plan e) \<longleftrightarrow> (\<exists>x. e = ErrorOccurred x) \<or> e = CancelRequested \<or> e = ResetRequested"
  by (cases e) (simp_all add: schedule_plan_def clear_plan_def default_action_plan_def)

lemma action_for_quiet:
  "valid_data d \<Longrightarrow> action_for d = None \<longleftrightarrow> rd_state d \<in> {STATE_INITIALIZING, STATE_IDLE}"
  by (cases "rd_state d") (auto simp: action_for_def valid_data_iff)

section \<open>The property of execution\<close>

definition sample_world :: resolver_env where
  "sample_world = \<lparr>re_json_loads = (\<lambda>_. None), re_sha256 = (\<lambda>s. s), re_getcwd = ''/''\<rparr>"

text \<open>
  C27. Whatever the executor returns for the action a valid state waits for, and whatever event
  the resolver makes of it under any policy and any remembered approvals, the machine accepts
  the event, never reporting a violation; and the one action it schedules is again the one the
  new state waits for, with nothing scheduled exactly when the turn is over.
\<close>

theorem resolved_event_accepted:
  assumes "valid_data d" and "action_for d = Some a"
    and "execute fresh ex a env = Inr res"
    and "resolve fresh' w p st res \<lparr>ri_tool_batch = rd_tool_batch d, ri_tool_specs = specs\<rparr> = Inr e"
  shows "\<exists>d' plan. machine_step d e = Inr (d', plan) \<and> valid_data d'
    \<and> ap_schedule plan = (case action_for d' of None \<Rightarrow> [] | Some a' \<Rightarrow> [a'])
    \<and> (ap_schedule plan = [] \<longleftrightarrow> rd_state d' \<in> {STATE_INITIALIZING, STATE_IDLE})"
proof -
  have acc: "accepts d e" by (rule resolve_accepted [OF assms(1,2) execute_answers [OF assms(3)] assms(4)])
  have v: "valid_data (next_data d e)" by (rule next_data_valid [OF assms(1) acc])
  have "machine_step d e = Inr (next_data d e, event_plan e)" by (rule machine_step_accepts [OF assms(1) acc])
  with v plan_matches [OF assms(1) acc] action_for_quiet [OF v] show ?thesis
    by (auto split: option.splits)
qed

text \<open>An approval from a waiter that always denies.\<close>

theorem resolved_event_accepted_witness:
  "\<exists>d' plan. machine_step waiting_data (ApprovalDenied sample_call) = Inr (d', plan)
     \<and> ap_schedule plan = (case action_for d' of None \<Rightarrow> [] | Some a' \<Rightarrow> [a'])"
proof -
  let ?env = "\<lparr>ai_messages = [], ai_tool_specs = [], ai_waiter = Some (\<lambda>_ _. Inr DENY_APPROVAL)\<rparr>"
  have a: "action_for waiting_data = Some (AwaitApproval sample_call default_perm_request)"
    by (simp add: action_for_def waiting_data_def)
  have x: "execute 0 \<lparr>ex_model = None, ex_tools = None\<rparr> (AwaitApproval sample_call default_perm_request) ?env
      = Inr (ApprovalReceived sample_call DENY_APPROVAL)"
    by (simp add: execute_def await_approval_def)
  have "resolve 0 sample_world new_default_policy new_approval_store (ApprovalReceived sample_call DENY_APPROVAL)
      \<lparr>ri_tool_batch = rd_tool_batch waiting_data, ri_tool_specs = []\<rparr> = Inr (ApprovalDenied sample_call)"
    by simp
  from resolved_event_accepted [OF waiting_data_valid a x this] show ?thesis by blast
qed

end
