(* ===== verification/Engine.thy ===== *)
theory Engine
  imports Execution Transcript
begin

text \<open>
  The engine (\<open>runtime/engine\<close>): the state it owns, every critical section of
  \<open>action_loop.py\<close> and \<open>commands.py\<close> as one function, the reads of \<open>query.py\<close>, and the
  agent loops that interleave at their \<open>await\<close>s as a step relation.

  A critical section runs from one \<open>await\<close> that may suspend to the next; the engine lock is
  held only across code that never suspends, so taking it is not a suspension. A function
  that can raise after it changed something returns the new state beside its outcome.
\<close>

section \<open>State\<close>

record engine =
  en_data :: runtime_data
  en_queue :: action_queue
  en_runs :: run_controller
  en_heap :: ctx_heap
  en_policy :: default_policy
  en_approvals :: approval_store

definition initial_data :: "message list \<Rightarrow> runtime_data" where
  "initial_data ms = \<lparr>rd_state = STATE_INITIALIZING, rd_messages = ms, rd_pending_tool = None,
     rd_pending_permission = None, rd_current_tool = None, rd_tool_batch = None,
     rd_streaming_content = '''', rd_streaming_reasoning = ''''\<rparr>"

text \<open>\<open>new_engine_with_executor_and_policy\<close>: the store starts with the policy's own settings.\<close>

definition new_engine :: "default_policy \<Rightarrow> message list \<Rightarrow> engine" where
  "new_engine p ms = \<lparr>en_data = initial_data ms, en_queue = new_action_queue,
     en_runs = new_run_controller, en_heap = empty_heap, en_policy = p,
     en_approvals = set_store_policy new_approval_store (dp_mode p) (dp_rules p)\<rparr>"

fun machine_error_class :: "machine_error \<Rightarrow> exc_class" where
  "machine_error_class (UnexpectedEventError _ _) = UnexpectedEventErrorC"
| "machine_error_class (ProtocolViolationError _ _ _) = ProtocolViolationErrorC"
| "machine_error_class (InvariantViolationError _) = InvariantViolationErrorC"

definition machine_exc :: "nat \<Rightarrow> machine_error \<Rightarrow> exc" where
  "machine_exc fresh e = plain_exc fresh (machine_error_class e) (machine_error_text e)"

definition is_cancellation :: "exc \<Rightarrow> exc \<Rightarrow> bool" where
  "is_cancellation approval_dismissed failure =
     (errors_is_class (Some failure) CancelledC
      \<or> errors_is_instance (Some failure) approval_dismissed
      \<or> isinstance_exc failure AsyncCancelledC)"

section \<open>Critical sections\<close>

definition calculate_transition :: "engine \<Rightarrow> event \<Rightarrow> (machine_error, transition_result) result" where
  "calculate_transition en e = bind_result (snapshot_from (en_data en)) (\<lambda>s. transition s e)"

text \<open>The data changes, the queue clear and the new entries are one decision.\<close>

definition commit_transition :: "engine \<Rightarrow> transition_result \<Rightarrow> (machine_error, engine) result" where
  "commit_transition en decision =
     bind_result (apply_runtime_data_changes (en_data en) decision) (\<lambda>d.
     bind_result (validate_runtime_data d) (\<lambda>_.
       let q = (if ap_clear_existing (tr_plan decision) then clear_queue (en_queue en) else en_queue en)
       in Inr (en\<lparr>en_data := d,
            en_queue := enqueue_all q (rc_run_id (en_runs en)) (ap_schedule (tr_plan decision))\<rparr>)))"

definition engine_cancel_run :: "engine \<Rightarrow> engine" where
  "engine_cancel_run en = (let (h, c) = cancel_run (en_heap en) (en_runs en) in en\<lparr>en_heap := h, en_runs := c\<rparr>)"

definition engine_invalidate_run :: "engine \<Rightarrow> engine" where
  "engine_invalidate_run en =
     (let (h, c) = invalidate_current_run (en_heap en) (en_runs en) in en\<lparr>en_heap := h, en_runs := c\<rparr>)"

definition engine_finish_run :: "engine \<Rightarrow> string \<Rightarrow> engine" where
  "engine_finish_run en r =
     (let (h, c) = finish_run (en_heap en) (en_runs en) r in en\<lparr>en_heap := h, en_runs := c\<rparr>)"

text \<open>
  The locked part of \<open>_dispatch_event\<close>: the outcome is the context the loop that follows
  will use, or what was raised.
\<close>

definition dispatch_locked :: "nat \<Rightarrow> engine \<Rightarrow> nat \<Rightarrow> event \<Rightarrow> engine \<times> (exc, nat) result" where
  "dispatch_locked fresh en ctx e =
     (case calculate_transition en e of
        Inl err \<Rightarrow> (en, Inl (machine_exc fresh err))
      | Inr decision \<Rightarrow>
          if is_UserMessageSubmitted e then
            (let (h, c, run_ctx) = start_run (en_heap en) (en_runs en) ctx;
                 en1 = en\<lparr>en_heap := h, en_runs := c\<rparr>
             in case commit_transition en1 decision of
                  Inl err \<Rightarrow> (engine_cancel_run en1, Inl (machine_exc fresh err))
                | Inr en2 \<Rightarrow> (en2, Inr run_ctx))
          else if ap_schedule (tr_plan decision) \<noteq> [] \<and> rc_context (en_runs en) = None
            then (en, Inl (plain_exc fresh RuntimeErrorC ''event scheduled actions without an active run''))
          else
            (let run_ctx = (if ap_schedule (tr_plan decision) \<noteq> [] then the (rc_context (en_runs en)) else ctx)
             in case commit_transition en decision of
                  Inl err \<Rightarrow> (en, Inl (machine_exc fresh err))
                | Inr en2 \<Rightarrow> (en2, Inr run_ctx)))"

text \<open>\<open>dispatch_event\<close> refuses a user message; only a turn may submit one.\<close>

definition dispatch_event :: "nat \<Rightarrow> engine \<Rightarrow> nat \<Rightarrow> event \<Rightarrow> engine \<times> (exc, nat) result" where
  "dispatch_event fresh en ctx e =
     (if is_UserMessageSubmitted e
      then (en, Inl (plain_exc fresh ValueErrorC ''user messages must be submitted through Engine.RunTurn''))
      else dispatch_locked fresh en ctx e)"

text \<open>The head of the loop: the next action, a finished run, or the violation it raises.\<close>

datatype pop_outcome = NextAction queued_action | LoopFinished | LoopBroken exc

definition loop_pop :: "nat \<Rightarrow> engine \<Rightarrow> string \<Rightarrow> engine \<times> pop_outcome" where
  "loop_pop fresh en run_id =
     (case pop_action (en_queue en) of
        (q, Some a) \<Rightarrow> (en\<lparr>en_queue := q\<rparr>, NextAction a)
      | (q, None) \<Rightarrow>
          if rd_state (en_data en) = STATE_IDLE then (engine_finish_run en run_id, LoopFinished)
          else (en, LoopBroken (machine_exc fresh (InvariantViolationError
            (''action queue is empty in state '' @ state_text (rd_state (en_data en)))))))"

text \<open>What \<open>_execute_scheduled_action\<close> does once the runner has returned.\<close>

definition complete_action ::
    "nat \<Rightarrow> resolver_env \<Rightarrow> tool_spec list \<Rightarrow> engine \<Rightarrow> action_completion \<Rightarrow> engine \<times> (exc, unit) result" where
  "complete_action fresh w specs en completion =
     (if \<not> is_current (en_runs en) (ac_run_id completion) then (en, Inr ())
      else case resolve fresh w (en_policy en) (en_approvals en) (ac_result completion)
             \<lparr>ri_tool_batch = rd_tool_batch (en_data en), ri_tool_specs = specs\<rparr> of
          Inl x \<Rightarrow> (en, Inl x)
        | Inr e \<Rightarrow>
            (case bind_result (calculate_transition en e) (commit_transition en) of
               Inl err \<Rightarrow> (en, Inl (machine_exc fresh err))
             | Inr en' \<Rightarrow>
                 (if is_ApprovalAlwaysGranted e
                  then en'\<lparr>en_approvals := allow_always (en_approvals en')
                    (new_approval_key (re_json_loads w) (re_sha256 w) (ev_call e))\<rparr>
                  else en', Inr ())))"

text \<open>The \<open>except\<close> arm of the loop, up to the loop its dispatch starts.\<close>

definition fail_action :: "nat \<Rightarrow> exc \<Rightarrow> engine \<Rightarrow> nat \<Rightarrow> exc \<Rightarrow> engine \<times> (exc, nat) result" where
  "fail_action fresh approval_dismissed en ctx failure =
     (if is_cancellation approval_dismissed failure
      then dispatch_event fresh (engine_cancel_run en) ctx CancelRequested
      else dispatch_event fresh en ctx (ErrorOccurred (Some failure)))"

definition record_stream_chunk :: "engine \<Rightarrow> string \<Rightarrow> stream_chunk \<Rightarrow> engine" where
  "record_stream_chunk en run_id chunk =
     (if \<not> is_current (en_runs en) run_id then en
      else case commit_transition en \<lparr>tr_next_state = rd_state (en_data en),
             tr_changes = [AppendStreamingAssistant chunk], tr_plan = default_action_plan\<rparr> of
          Inl _ \<Rightarrow> en
        | Inr en' \<Rightarrow> en')"

section \<open>Commands\<close>

text \<open>A context for a command outside any run.\<close>

definition live_context :: "engine \<Rightarrow> engine \<times> nat" where
  "live_context en = (let (h, c) = new_context (en_heap en) None in (en\<lparr>en_heap := h\<rparr>, c))"

definition cmd_ready :: "nat \<Rightarrow> engine \<Rightarrow> engine \<times> (exc, nat) result" where
  "cmd_ready fresh en = (let (en1, c) = live_context en in dispatch_event fresh en1 c EngineReady)"

definition cmd_cancel :: "nat \<Rightarrow> engine \<Rightarrow> engine \<times> (exc, nat) result" where
  "cmd_cancel fresh en =
     (let (en1, c) = live_context (engine_cancel_run en) in dispatch_event fresh en1 c CancelRequested)"

definition cmd_reset :: "nat \<Rightarrow> engine \<Rightarrow> engine \<times> (exc, nat) result" where
  "cmd_reset fresh en =
     (let (en1, c) = live_context (engine_invalidate_run (engine_cancel_run en))
      in dispatch_event fresh en1 c ResetRequested)"

definition replace_messages :: "engine \<Rightarrow> message list \<Rightarrow> engine" where
  "replace_messages en ms =
     (let en1 = engine_invalidate_run (engine_cancel_run en)
      in en1\<lparr>en_data := (en_data en1)\<lparr>rd_messages := ms, rd_pending_tool := None,
             rd_pending_permission := None, rd_current_tool := None, rd_tool_batch := None,
             rd_streaming_content := '''', rd_streaming_reasoning := '''', rd_state := STATE_IDLE\<rparr>,
           en_queue := clear_queue (en_queue en1)\<rparr>)"

definition set_permission_policy :: "nat \<Rightarrow> engine \<Rightarrow> string \<Rightarrow> permission_rules \<Rightarrow> (exc, engine) result" where
  "set_permission_policy fresh en m rules =
     (if \<not> valid_permission_mode m
      then Inl (plain_exc fresh ValueErrorC (''invalid permission mode: '' @ m))
      else Inr (en\<lparr>en_policy := new_policy m rules, en_approvals := set_store_policy (en_approvals en) m rules\<rparr>))"

section \<open>Reads\<close>

record engine_view =
  vw_state :: mstate
  vw_messages :: "message list"
  vw_pending_tool :: "tool_call option"
  vw_pending_permission :: "perm_request option"
  vw_batch_id :: string
  vw_batch_index :: int
  vw_batch_total :: nat
  vw_streaming_message :: "message option"
  vw_is_busy :: bool
  vw_needs_input :: bool

definition engine_snapshot :: "engine \<Rightarrow> engine_view" where
  "engine_snapshot en =
     (let d = en_data en;
          batch = (if rd_pending_tool d = None then None else rd_tool_batch d)
      in \<lparr>vw_state = rd_state d, vw_messages = rd_messages d, vw_pending_tool = rd_pending_tool d,
          vw_pending_permission = (if rd_pending_tool d = None then None else rd_pending_permission d),
          vw_batch_id = (case batch of None \<Rightarrow> '''' | Some b \<Rightarrow> tb_id b),
          vw_batch_index = (case batch of None \<Rightarrow> 0 | Some b \<Rightarrow> tb_index b),
          vw_batch_total = (case batch of None \<Rightarrow> 0 | Some b \<Rightarrow> length (tb_calls b)),
          vw_streaming_message =
            (if rd_streaming_content d \<noteq> '''' \<or> rd_streaming_reasoning d \<noteq> ''''
             then Some (default_message\<lparr>msg_role := ROLE_ASSISTANT,
               msg_content := rd_streaming_content d, msg_reasoning := rd_streaming_reasoning d\<rparr>)
             else None),
          vw_is_busy = (rd_state d \<in> {STATE_WAITING_LLM, STATE_RUNNING_TOOL, STATE_ADVANCING_QUEUE}),
          vw_needs_input = (rd_state d = STATE_WAITING_APPROVAL)\<rparr>)"

section \<open>What a commit does\<close>

definition committed :: "engine \<Rightarrow> event \<Rightarrow> engine" where
  "committed en e = en\<lparr>en_data := next_data (en_data en) e,
     en_queue := enqueue_all (if ap_clear_existing (event_plan e) then clear_queue (en_queue en) else en_queue en)
       (rc_run_id (en_runs en)) (ap_schedule (event_plan e))\<rparr>"

lemma calculate_valid:
  "valid_data (en_data en) \<Longrightarrow> calculate_transition en e = transition (view_of (en_data en)) e"
  by (simp add: calculate_transition_def snapshot_valid)

lemma calculate_Inr:
  assumes "calculate_transition en e = Inr decision"
  shows "valid_data (en_data en)" and "accepts (en_data en) e" and "tr_plan decision = event_plan e"
proof -
  show v: "valid_data (en_data en)"
    using assms by (auto simp: calculate_transition_def bind_result_Inr_iff dest: snapshot_from_Inr)
  then have t: "transition (view_of (en_data en)) e = Inr decision" using assms by (simp add: calculate_valid)
  with transition_accepts [OF v] show "accepts (en_data en) e" by blast
  show "tr_plan decision = event_plan e" by (rule transition_effect(2) [OF v t])
qed

text \<open>A decision the machine made always commits; \<open>en1\<close> differs at most in run and contexts.\<close>

lemma commit_calculated:
  assumes "calculate_transition en e = Inr decision" and "en_data en1 = en_data en"
  shows "commit_transition en1 decision = Inr (committed en1 e)"
proof -
  note c = calculate_Inr [OF assms(1)]
  have t: "transition (view_of (en_data en)) e = Inr decision"
    using assms(1) c(1) by (simp add: calculate_valid)
  have v: "valid_data (next_data (en_data en) e)" by (rule next_data_valid [OF c(1,2)])
  then have "apply_runtime_data_changes (en_data en) decision = Inr (next_data (en_data en) e)"
    using transition_effect(1) [OF c(1) t] by (simp add: apply_changes_Inr_iff)
  with v show ?thesis
    by (simp add: commit_transition_def assms(2) c(3) committed_def valid_data_def Let_def)
qed

lemma calculate_Inl: "valid_data (en_data en) \<Longrightarrow> accepts (en_data en) e \<Longrightarrow> \<exists>r. calculate_transition en e = Inr r"
  using transition_accepts by (simp add: calculate_valid)

text \<open>The outcome of each critical section over valid data.\<close>

lemma dispatch_locked_cases:
  assumes "dispatch_locked fresh en ctx e = (en', out)"
  obtains (refused) "en' = en" "\<exists>x. out = Inl x"
  | (turn) h c run_ctx where "is_UserMessageSubmitted e" "accepts (en_data en) e" "valid_data (en_data en)"
      "start_run (en_heap en) (en_runs en) ctx = (h, c, run_ctx)"
      "en' = committed (en\<lparr>en_heap := h, en_runs := c\<rparr>) e" "out = Inr run_ctx"
  | (event) "\<not> is_UserMessageSubmitted e" "accepts (en_data en) e" "valid_data (en_data en)"
      "ap_schedule (event_plan e) \<noteq> [] \<Longrightarrow> rc_context (en_runs en) \<noteq> None"
      "en' = committed en e" "out = Inr (if ap_schedule (event_plan e) \<noteq> [] then the (rc_context (en_runs en)) else ctx)"
proof (cases "calculate_transition en e")
  case (Inl err)
  show ?thesis by (rule refused) (use assms Inl in \<open>auto simp: dispatch_locked_def\<close>)
next
  case (Inr decision)
  note c = calculate_Inr [OF Inr]
  show ?thesis
  proof (cases "is_UserMessageSubmitted e")
    case True
    obtain h k x where s: "start_run (en_heap en) (en_runs en) ctx = (h, k, x)" by (metis prod_cases3)
    have "commit_transition (en\<lparr>en_heap := h, en_runs := k\<rparr>) decision
        = Inr (committed (en\<lparr>en_heap := h, en_runs := k\<rparr>) e)"
      by (rule commit_calculated [OF Inr]) simp
    with assms Inr True s have "en' = committed (en\<lparr>en_heap := h, en_runs := k\<rparr>) e" "out = Inr x"
      by (auto simp: dispatch_locked_def)
    then show ?thesis by (rule turn [OF True c(2) c(1) s])
  next
    case False
    have ok: "commit_transition en decision = Inr (committed en e)" by (rule commit_calculated [OF Inr]) simp
    show ?thesis
    proof (cases "ap_schedule (event_plan e) \<noteq> [] \<and> rc_context (en_runs en) = None")
      case True
      show ?thesis by (rule refused) (use assms Inr False c(3) True in \<open>auto simp: dispatch_locked_def\<close>)
    next
      case blocked: False
      from event [OF False c(2) c(1)] show ?thesis
        using assms Inr False c(3) blocked ok by (auto simp: dispatch_locked_def Let_def split: if_splits)
    qed
  qed
qed

lemma complete_action_cases:
  assumes "complete_action fresh w specs en completion = (en', out)"
  obtains (stale) "\<not> is_current (en_runs en) (ac_run_id completion)" "en' = en" "out = Inr ()"
  | (failed) x where "is_current (en_runs en) (ac_run_id completion)" "en' = en" "out = Inl x"
  | (applied) e where "is_current (en_runs en) (ac_run_id completion)"
      "resolve fresh w (en_policy en) (en_approvals en) (ac_result completion)
         \<lparr>ri_tool_batch = rd_tool_batch (en_data en), ri_tool_specs = specs\<rparr> = Inr e"
      "accepts (en_data en) e" "valid_data (en_data en)"
      "en' = (committed en e)\<lparr>en_approvals := (if is_ApprovalAlwaysGranted e
         then allow_always (en_approvals en) (new_approval_key (re_json_loads w) (re_sha256 w) (ev_call e))
         else en_approvals en)\<rparr>" "out = Inr ()"
proof (cases "is_current (en_runs en) (ac_run_id completion)")
  case False
  show ?thesis by (rule stale) (use assms False in \<open>auto simp: complete_action_def\<close>)
next
  case True
  show ?thesis
  proof (cases "resolve fresh w (en_policy en) (en_approvals en) (ac_result completion)
      \<lparr>ri_tool_batch = rd_tool_batch (en_data en), ri_tool_specs = specs\<rparr>")
    case (Inl x)
    show ?thesis by (rule failed [OF True]) (use assms True Inl in \<open>auto simp: complete_action_def\<close>)
  next
    case resolved: (Inr e)
    show ?thesis
    proof (cases "calculate_transition en e")
      case (Inl err)
      show ?thesis
        by (rule failed [OF True]) (use assms True resolved Inl in \<open>auto simp: complete_action_def\<close>)
    next
      case (Inr decision)
      note c = calculate_Inr [OF Inr]
      have "commit_transition en decision = Inr (committed en e)" by (rule commit_calculated [OF Inr]) simp
      with assms True resolved Inr
      have "en' = (committed en e)\<lparr>en_approvals := (if is_ApprovalAlwaysGranted e
         then allow_always (en_approvals en) (new_approval_key (re_json_loads w) (re_sha256 w) (ev_call e))
         else en_approvals en)\<rparr>" "out = Inr ()"
        by (auto simp: complete_action_def committed_def)
      then show ?thesis by (rule applied [OF True resolved c(2) c(1)])
    qed
  qed
qed

text \<open>A turn submitted to an idle engine always starts.\<close>

lemma dispatch_turn:
  assumes v: "valid_data (en_data en)" and i: "rd_state (en_data en) = STATE_IDLE"
    and s: "start_run (en_heap en) (en_runs en) ctx = (h, c, x)"
  shows "dispatch_locked fresh en ctx (UserMessageSubmitted t a)
    = (committed (en\<lparr>en_heap := h, en_runs := c\<rparr>) (UserMessageSubmitted t a), Inr x)"
proof -
  have "accepts (en_data en) (UserMessageSubmitted t a)" by (simp add: accepts_def i)
  then obtain dec where d: "calculate_transition en (UserMessageSubmitted t a) = Inr dec"
    using calculate_Inl [OF v] by blast
  have "commit_transition (en\<lparr>en_heap := h, en_runs := c\<rparr>) dec
      = Inr (committed (en\<lparr>en_heap := h, en_runs := c\<rparr>) (UserMessageSubmitted t a))"
    by (rule commit_calculated [OF d]) simp
  with d s show ?thesis by (simp add: dispatch_locked_def)
qed

lemma committed_queue_empty:
  "aq_queue (en_queue en) = [] \<or> ap_clear_existing (event_plan e) \<Longrightarrow>
     aq_queue (en_queue (committed en e))
       = stamped (aq_next (en_queue en)) (rc_run_id (en_runs en)) (ap_schedule (event_plan e))"
  by (auto simp: committed_def enqueue_all_queue clear_queue_def)

end
