(* ===== verification/EngineSystem.thy ===== *)
theory EngineSystem
  imports Engine
begin

text \<open>
  Every interleaving of agent loops and commands over one engine. A loop is a task inside
  \<open>_run_scheduled_actions\<close>: it is about to start, about to pop, or waiting for the action it
  took; turns and commands each start one, and they all drain the same queue. The step
  relation has one rule per critical section, so a statement about its reachable states
  is a statement about every order in which the event loop may run the tasks.
\<close>

section \<open>Loops and steps\<close>

datatype loop_phase =
    LoopStarting
  | LoopPopping string
  | LoopExecuting string queued_action
  | LoopEnded

record agent_loop =
  lp_ctx :: nat
  lp_phase :: loop_phase

record system =
  sy_engine :: engine
  sy_loops :: "agent_loop list"

definition spawn :: "system \<Rightarrow> engine \<times> (exc, nat) result \<Rightarrow> system" where
  "spawn s out = \<lparr>sy_engine = fst out, sy_loops = sy_loops s @
     (case snd out of Inl _ \<Rightarrow> [] | Inr c \<Rightarrow> [\<lparr>lp_ctx = c, lp_phase = LoopStarting\<rparr>])\<rparr>"

definition in_phase :: "system \<Rightarrow> nat \<Rightarrow> loop_phase \<Rightarrow> bool" where
  "in_phase s i ph \<longleftrightarrow> i < length (sy_loops s) \<and> lp_phase (sy_loops s ! i) = ph"

definition set_loop :: "system \<Rightarrow> nat \<Rightarrow> engine \<Rightarrow> loop_phase \<Rightarrow> system" where
  "set_loop s i en ph = \<lparr>sy_engine = en, sy_loops = (sy_loops s)[i := (sy_loops s ! i)\<lparr>lp_phase := ph\<rparr>]\<rparr>"

text \<open>A failed action's loop carries on in the loop its cleanup dispatch starts, or ends.\<close>

definition after_failure :: "system \<Rightarrow> nat \<Rightarrow> engine \<times> (exc, nat) result \<Rightarrow> system" where
  "after_failure s i out = \<lparr>sy_engine = fst out, sy_loops = (sy_loops s)[i :=
     (case snd out of Inl _ \<Rightarrow> (sy_loops s ! i)\<lparr>lp_phase := LoopEnded\<rparr>
      | Inr c \<Rightarrow> \<lparr>lp_ctx = c, lp_phase = LoopStarting\<rparr>)]\<rparr>"

definition completion_of :: "queued_action \<Rightarrow> action_result \<Rightarrow> action_completion" where
  "completion_of q r = \<lparr>ac_run_id = qa_run_id q, ac_action_id = qa_action_id q, ac_result = r\<rparr>"

inductive sys_step :: "resolver_env \<Rightarrow> exc \<Rightarrow> system \<Rightarrow> system \<Rightarrow> bool" for w dismissed where
  step_ready: "sys_step w dismissed s (spawn s (cmd_ready f (sy_engine s)))"
| step_cancel: "sys_step w dismissed s (spawn s (cmd_cancel f (sy_engine s)))"
| step_reset: "sys_step w dismissed s (spawn s (cmd_reset f (sy_engine s)))"
| step_turn: "sys_step w dismissed s
    (spawn s (dispatch_locked f (sy_engine s) ctx (UserMessageSubmitted content attachments)))"
| step_replace: "complete_transcript ms \<Longrightarrow>
    sys_step w dismissed s (s\<lparr>sy_engine := replace_messages (sy_engine s) ms\<rparr>)"
| step_policy: "set_permission_policy f (sy_engine s) m rules = Inr en \<Longrightarrow>
    sys_step w dismissed s (s\<lparr>sy_engine := en\<rparr>)"
| step_begin: "in_phase s i LoopStarting \<Longrightarrow>
    sys_step w dismissed s (set_loop s i (sy_engine s) (LoopPopping (rc_run_id (en_runs (sy_engine s)))))"
| step_pop: "in_phase s i (LoopPopping r) \<Longrightarrow> loop_pop f (sy_engine s) r = (en, NextAction q) \<Longrightarrow>
    sys_step w dismissed s (set_loop s i en (LoopExecuting r q))"
| step_end: "in_phase s i (LoopPopping r) \<Longrightarrow> loop_pop f (sy_engine s) r = (en, out) \<Longrightarrow>
    \<not> is_NextAction out \<Longrightarrow> sys_step w dismissed s (set_loop s i en LoopEnded)"
| step_chunk: "in_phase s i (LoopExecuting r q) \<Longrightarrow>
    sys_step w dismissed s (s\<lparr>sy_engine := record_stream_chunk (sy_engine s) (qa_run_id q) chunk\<rparr>)"
| step_complete: "in_phase s i (LoopExecuting r q) \<Longrightarrow> qa_action q = Some a \<Longrightarrow> answers a res \<Longrightarrow>
    complete_action f w specs (sy_engine s) (completion_of q res) = (en, Inr ()) \<Longrightarrow>
    sys_step w dismissed s (set_loop s i en (LoopPopping r))"
| step_reject: "in_phase s i (LoopExecuting r q) \<Longrightarrow> qa_action q = Some a \<Longrightarrow> answers a res \<Longrightarrow>
    complete_action f w specs (sy_engine s) (completion_of q res) = (en, Inl x) \<Longrightarrow>
    sys_step w dismissed s (after_failure s i (fail_action f dismissed en (lp_ctx (sy_loops s ! i)) x))"
| step_fail: "in_phase s i (LoopExecuting r q) \<Longrightarrow>
    sys_step w dismissed s
      (after_failure s i (fail_action f dismissed (sy_engine s) (lp_ctx (sy_loops s ! i)) x))"

inductive reachable :: "resolver_env \<Rightarrow> exc \<Rightarrow> system \<Rightarrow> system \<Rightarrow> bool" for w dismissed s0 where
  reach_start: "reachable w dismissed s0 s0"
| reach_step: "reachable w dismissed s0 s \<Longrightarrow> sys_step w dismissed s t \<Longrightarrow> reachable w dismissed s0 t"

definition start_system :: "default_policy \<Rightarrow> message list \<Rightarrow> system" where
  "start_system p ms = \<lparr>sy_engine = new_engine p ms, sy_loops = []\<rparr>"

section \<open>The engine invariant\<close>

definition runs_ok :: "engine \<Rightarrow> bool" where
  "runs_ok en \<longleftrightarrow> run_ids_ok (en_runs en) \<and> (rc_context (en_runs en) \<noteq> None \<longrightarrow> 0 < rc_next (en_runs en))
     \<and> (\<forall>q \<in> set (aq_queue (en_queue en)). qa_run_id q \<in> issued_runs (en_runs en))"

definition engine_ok :: "engine \<Rightarrow> bool" where
  "engine_ok en \<longleftrightarrow> valid_data (en_data en) \<and> transcript_ok (en_data en) \<and> queue_ok (en_queue en) \<and> runs_ok en"

lemma engine_ok_new: "complete_transcript ms \<Longrightarrow> engine_ok (new_engine p ms)"
  by (simp add: engine_ok_def new_engine_def initial_data_def valid_data_iff no_tools_def no_streaming_def
      transcript_ok_def complete_transcript_def outstanding_calls_def remaining_calls_def queue_ok_def
      new_action_queue_def runs_ok_def run_ids_ok_def new_run_controller_def)

text \<open>The three run operations as operations of the controller.\<close>

lemma engine_run_ops:
  "en_runs (engine_cancel_run en) = snd (apply_run_op CancelRun (en_heap en, en_runs en))"
  "en_runs (engine_invalidate_run en) = snd (apply_run_op InvalidateRun (en_heap en, en_runs en))"
  "en_runs (engine_finish_run en r) = snd (apply_run_op (FinishRun r) (en_heap en, en_runs en))"
  by (simp_all add: engine_cancel_run_def engine_invalidate_run_def engine_finish_run_def split_def Let_def)

lemma engine_run_frame [simp]:
  "en_data (engine_cancel_run en) = en_data en" "en_queue (engine_cancel_run en) = en_queue en"
  "en_data (engine_invalidate_run en) = en_data en" "en_queue (engine_invalidate_run en) = en_queue en"
  "en_data (engine_finish_run en r) = en_data en" "en_queue (engine_finish_run en r) = en_queue en"
  by (simp_all add: engine_cancel_run_def engine_invalidate_run_def engine_finish_run_def split_def Let_def)

lemma live_context_frame:
  "live_context en = (en1, c) \<Longrightarrow> en_data en1 = en_data en \<and> en_queue en1 = en_queue en \<and> en_runs en1 = en_runs en"
  by (auto simp: live_context_def Let_def split_def)

lemma run_op_ids_ok: "run_ids_ok c \<Longrightarrow> run_ids_ok (snd (apply_run_op op (h, c)))"
  using runs.inv_step [of "(h, c)" op] by simp

lemma run_op_issued: "issued_runs c \<subseteq> issued_runs (snd (apply_run_op op (h, c)))"
  using runs.issued_step [of "(h, c)" op] by simp

lemma run_op_context:
  "(rc_context c \<noteq> None \<longrightarrow> 0 < rc_next c) \<Longrightarrow>
     rc_context (snd (apply_run_op op (h, c))) \<noteq> None \<longrightarrow> 0 < rc_next (snd (apply_run_op op (h, c)))"
  by (cases op)
     (auto simp: start_run_def invalidate_current_run_def cancel_run_def finish_run_def bump_run_id_def
       new_context_def Let_def split_def)

lemma runs_ok_op:
  assumes "runs_ok en" and "en_runs en' = snd (apply_run_op op (h, en_runs en))"
    and "set (aq_queue (en_queue en')) \<subseteq> set (aq_queue (en_queue en))"
  shows "runs_ok en'"
  using assms run_op_ids_ok [of "en_runs en" op h] run_op_issued [of "en_runs en" op h]
    run_op_context [of "en_runs en" op h]
  unfolding runs_ok_def by (metis subset_iff)

lemma engine_ok_run_ops:
  assumes "engine_ok en"
  shows "engine_ok (engine_cancel_run en)" "engine_ok (engine_invalidate_run en)"
    "engine_ok (engine_finish_run en r)"
proof -
  have r: "runs_ok en" using assms by (simp add: engine_ok_def)
  have "runs_ok (engine_cancel_run en)" "runs_ok (engine_invalidate_run en)" "runs_ok (engine_finish_run en r)"
    by (rule runs_ok_op [OF r engine_run_ops(1)] runs_ok_op [OF r engine_run_ops(2)]
        runs_ok_op [OF r engine_run_ops(3)]; simp)+
  with assms show "engine_ok (engine_cancel_run en)" "engine_ok (engine_invalidate_run en)"
    "engine_ok (engine_finish_run en r)"
    by (simp_all add: engine_ok_def)
qed

lemma engine_ok_live_context: "engine_ok en \<Longrightarrow> live_context en = (en1, c) \<Longrightarrow> engine_ok en1"
  using live_context_frame [of en en1 c] by (simp add: engine_ok_def runs_ok_def)

lemma current_issued: "run_ids_ok c \<Longrightarrow> 0 < rc_next c \<Longrightarrow> rc_run_id c \<in> issued_runs c"
  by (auto simp: run_ids_ok_def issued_runs_def)

lemma is_current_issued: "run_ids_ok c \<Longrightarrow> is_current c r \<Longrightarrow> r \<in> issued_runs c \<and> 0 < rc_next c"
  by (auto simp: run_ids_ok_def issued_runs_def is_current_def split: if_splits)

lemma engine_ok_committed:
  assumes ok: "engine_ok en" and a: "accepts (en_data en) e"
    and run: "ap_schedule (event_plan e) \<noteq> [] \<Longrightarrow> 0 < rc_next (en_runs en)"
  shows "engine_ok (committed en e)"
proof -
  let ?q = "if ap_clear_existing (event_plan e) then clear_queue (en_queue en) else en_queue en"
  have v: "valid_data (en_data en)" and t: "transcript_ok (en_data en)" and q: "queue_ok (en_queue en)"
    and r: "runs_ok en"
    using ok by (simp_all add: engine_ok_def)
  have "queue_ok ?q" using q by (simp add: queue_ok_clear)
  then have "queue_ok (en_queue (committed en e))" by (simp add: committed_def queue_ok_enqueue_all)
  moreover have "runs_ok (committed en e)"
  proof (cases "ap_schedule (event_plan e) = []")
    case True
    with r show ?thesis by (simp add: runs_ok_def committed_def enqueue_all_def clear_queue_def)
  next
    case False
    have "rc_run_id (en_runs en) \<in> issued_runs (en_runs en)"
      using r run [OF False] by (simp add: runs_ok_def current_issued)
    with r show ?thesis
      by (auto simp: runs_ok_def committed_def enqueue_all_queue clear_queue_def dest: stamped_runs)
  qed
  ultimately show ?thesis
    using next_data_valid [OF v a] next_data_transcript [OF v t a]
    by (simp add: engine_ok_def committed_def)
qed

lemma engine_ok_dispatch_locked:
  assumes ok: "engine_ok en" and d: "dispatch_locked fresh en ctx e = (en', out)"
  shows "engine_ok en'"
  using d
proof (cases rule: dispatch_locked_cases)
  case refused
  with ok show ?thesis by simp
next
  case (turn h c run_ctx)
  let ?en = "en\<lparr>en_heap := h, en_runs := c\<rparr>"
  have c: "en_runs ?en = snd (apply_run_op (StartRun ctx) (en_heap en, en_runs en))"
    using turn(4) by simp
  have "runs_ok ?en" by (rule runs_ok_op [OF _ c]) (use ok in \<open>simp_all add: engine_ok_def\<close>)
  then have ok1: "engine_ok ?en" using ok by (simp add: engine_ok_def)
  have "0 < rc_next c" using c run_op_effect(1) [of "StartRun ctx" "en_heap en" "en_runs en"] by simp
  with engine_ok_committed [OF ok1, of e] turn show ?thesis by simp
next
  case event
  have "ap_schedule (event_plan e) \<noteq> [] \<Longrightarrow> 0 < rc_next (en_runs en)"
    using event(4) ok by (simp add: engine_ok_def runs_ok_def)
  with engine_ok_committed [OF ok event(2)] event(5) show ?thesis by simp
qed

lemma engine_ok_dispatch_event:
  "engine_ok en \<Longrightarrow> dispatch_event fresh en ctx e = (en', out) \<Longrightarrow> engine_ok en'"
  by (auto simp: dispatch_event_def intro: engine_ok_dispatch_locked split: if_splits)

lemma engine_ok_fail_action:
  "engine_ok en \<Longrightarrow> engine_ok (fst (fail_action fresh dismissed en ctx x))"
  by (cases "is_cancellation dismissed x")
     (auto simp: fail_action_def intro: engine_ok_dispatch_event engine_ok_run_ops prod.collapse [symmetric])

lemma engine_ok_commands:
  assumes "engine_ok en"
  shows "engine_ok (fst (cmd_ready f en))" "engine_ok (fst (cmd_cancel f en))" "engine_ok (fst (cmd_reset f en))"
  using assms
  by (auto simp: cmd_ready_def cmd_cancel_def cmd_reset_def split_def Let_def
      intro!: engine_ok_dispatch_event [OF _ prod.collapse [symmetric]] engine_ok_run_ops
        engine_ok_live_context [OF _ prod.collapse [symmetric]])

lemma engine_ok_replace:
  assumes ok: "engine_ok en" and ms: "complete_transcript ms"
  shows "engine_ok (replace_messages en ms)"
proof -
  let ?en = "engine_invalidate_run (engine_cancel_run en)"
  have "engine_ok ?en" using ok by (intro engine_ok_run_ops)
  with ms show ?thesis
    by (simp add: engine_ok_def replace_messages_def Let_def valid_data_iff no_tools_def no_streaming_def
        transcript_ok_def complete_transcript_def outstanding_calls_def remaining_calls_def
        queue_ok_clear runs_ok_def) (simp add: clear_queue_def)
qed

lemma engine_ok_pop: "engine_ok en \<Longrightarrow> loop_pop f en r = (en', out) \<Longrightarrow> engine_ok en'"
  using queue_ok_pop [of "en_queue en"] engine_ok_run_ops(3) [of en r]
  by (auto simp: loop_pop_def pop_action_def engine_ok_def runs_ok_def split: list.splits if_splits)

lemma engine_ok_complete:
  assumes ok: "engine_ok en" and c: "complete_action f w specs en completion = (en', out)"
  shows "engine_ok en'"
  using c
proof (cases rule: complete_action_cases)
  case (applied e)
  have "0 < rc_next (en_runs en)"
    using ok applied(1) is_current_issued by (auto simp: engine_ok_def runs_ok_def)
  then have "engine_ok (committed en e)" by (rule engine_ok_committed [OF ok applied(3)])
  with applied(5) show ?thesis by (simp add: engine_ok_def runs_ok_def)
qed (use ok in simp_all)

lemma engine_ok_chunk: "engine_ok en \<Longrightarrow> engine_ok (record_stream_chunk en r chunk)"
proof (cases "\<exists>en'. commit_transition en \<lparr>tr_next_state = rd_state (en_data en),
    tr_changes = [AppendStreamingAssistant chunk], tr_plan = default_action_plan\<rparr> = Inr en'")
  case True
  assume ok: "engine_ok en"
  from True obtain en' where c: "commit_transition en \<lparr>tr_next_state = rd_state (en_data en),
    tr_changes = [AppendStreamingAssistant chunk], tr_plan = default_action_plan\<rparr> = Inr en'" by blast
  let ?d = "(en_data en)\<lparr>rd_streaming_content := rd_streaming_content (en_data en) @ sc_content_delta chunk,
      rd_streaming_reasoning := rd_streaming_reasoning (en_data en) @ sc_reasoning_delta chunk\<rparr>"
  from c have "en' = en\<lparr>en_data := ?d\<rparr>" and "valid_data ?d"
    by (auto simp: commit_transition_def bind_result_Inr_iff apply_changes_Inr_iff default_action_plan_def
        enqueue_all_def Let_def)
  with ok c show ?thesis
    by (simp add: record_stream_chunk_def engine_ok_def transcript_ok_def outstanding_calls_def
        remaining_calls_def runs_ok_def)
next
  case False
  assume "engine_ok en"
  with False show ?thesis by (auto simp: record_stream_chunk_def split: sum.split)
qed

section \<open>Every interleaving keeps the invariant\<close>

lemma set_policy_frame:
  "set_permission_policy f en m rules = Inr en' \<Longrightarrow>
     en_data en' = en_data en \<and> en_queue en' = en_queue en \<and> en_runs en' = en_runs en"
  by (auto simp: set_permission_policy_def split: if_splits)

lemma sys_step_ok: "sys_step w dismissed s t \<Longrightarrow> engine_ok (sy_engine s) \<Longrightarrow> engine_ok (sy_engine t)"
proof (induction rule: sys_step.induct)
  case (step_ready s f)
  then show ?case by (simp add: spawn_def engine_ok_commands)
next
  case (step_cancel s f)
  then show ?case by (simp add: spawn_def engine_ok_commands)
next
  case (step_reset s f)
  then show ?case by (simp add: spawn_def engine_ok_commands)
next
  case (step_turn s f ctx content attachments)
  then show ?case
    by (simp add: spawn_def engine_ok_dispatch_locked [OF _ prod.collapse [symmetric]])
next
  case (step_policy f s m rules en)
  from set_policy_frame [OF step_policy(1)] step_policy(2) show ?case by (simp add: engine_ok_def runs_ok_def)
next
  case (step_reject s i r q a res f specs en x)
  then show ?case by (simp add: after_failure_def engine_ok_fail_action engine_ok_complete)
next
  case (step_fail s i r q f x)
  then show ?case by (simp add: after_failure_def engine_ok_fail_action)
qed (auto simp: set_loop_def engine_ok_replace engine_ok_chunk intro: engine_ok_pop engine_ok_complete)

lemma reachable_ok:
  "reachable w dismissed s0 s \<Longrightarrow> engine_ok (sy_engine s0) \<Longrightarrow> engine_ok (sy_engine s)"
  by (induction rule: reachable.induct) (auto intro: sys_step_ok)

section \<open>Retired runs stay retired\<close>

definition retired :: "engine \<Rightarrow> string \<Rightarrow> bool" where
  "retired en r \<longleftrightarrow> r \<in> issued_runs (en_runs en) \<and> r \<noteq> rc_run_id (en_runs en)"

text \<open>
  What a critical section may do to the run controller: operations of the controller, one
  after the other, over whatever context heap they found.
\<close>

inductive run_steps :: "run_controller \<Rightarrow> run_controller \<Rightarrow> bool" where
  run_same: "run_steps c c"
| run_op: "run_steps c d \<Longrightarrow> run_steps c (snd (apply_run_op op (h, d)))"

lemma run_steps_trans: "run_steps c d \<Longrightarrow> run_steps b c \<Longrightarrow> run_steps b d"
  by (induction rule: run_steps.induct) (auto intro: run_steps.intros)

lemma run_steps_ok: "run_steps c d \<Longrightarrow> run_ids_ok c \<Longrightarrow> run_ids_ok d"
  by (induction rule: run_steps.induct) (auto intro: run_op_ids_ok)

lemma run_steps_issued: "run_steps c d \<Longrightarrow> issued_runs c \<subseteq> issued_runs d"
proof (induction rule: run_steps.induct)
  case (run_op c d op h)
  then show ?case using run_op_issued [of d op h] by blast
qed simp

lemma run_steps_stale:
  "run_steps c d \<Longrightarrow> run_ids_ok c \<Longrightarrow> r \<in> issued_runs c \<Longrightarrow> r \<noteq> rc_run_id c \<Longrightarrow> r \<noteq> rc_run_id d"
proof (induction rule: run_steps.induct)
  case (run_op c d op h)
  have "run_ids_ok d" using run_op by (auto intro: run_steps_ok)
  moreover have "r \<in> issued_runs d" using run_op run_steps_issued by blast
  ultimately show ?case
    using runs.stale_forever [of "(h, d)" r "[op]"] run_op by simp
qed

lemma engine_run_steps:
  "run_steps (en_runs en) (en_runs (engine_cancel_run en))"
  "run_steps (en_runs en) (en_runs (engine_invalidate_run en))"
  "run_steps (en_runs en) (en_runs (engine_finish_run en r))"
  unfolding engine_run_ops by (intro run_op run_same)+

lemma dispatch_locked_runs:
  "dispatch_locked fresh en ctx e = (en', out) \<Longrightarrow> run_steps (en_runs en) (en_runs en')"
proof (erule dispatch_locked_cases)
  fix h c x
  assume s: "start_run (en_heap en) (en_runs en) ctx = (h, c, x)"
    and en': "en' = committed (en\<lparr>en_heap := h, en_runs := c\<rparr>) e"
  have "c = snd (apply_run_op (StartRun ctx) (en_heap en, en_runs en))" using s by simp
  then have "run_steps (en_runs en) c" by (metis run_op run_same)
  then show "run_steps (en_runs en) (en_runs en')" by (simp add: en' committed_def)
qed (simp_all add: committed_def run_same)

lemma dispatch_event_runs:
  "run_steps (en_runs en) (en_runs (fst (dispatch_event fresh en ctx e)))"
  using dispatch_locked_runs [OF prod.collapse [symmetric]] by (simp add: dispatch_event_def run_same)

lemma live_context_runs: "en_runs (fst (live_context en)) = en_runs en"
  using live_context_frame [OF prod.collapse [symmetric]] by blast

lemma command_runs:
  "run_steps (en_runs en) (en_runs (fst (cmd_ready f en)))"
  "run_steps (en_runs en) (en_runs (fst (cmd_cancel f en)))"
  "run_steps (en_runs en) (en_runs (fst (cmd_reset f en)))"
  "run_steps (en_runs en) (en_runs (fst (fail_action f dismissed en ctx x)))"
  "run_steps (en_runs en) (en_runs (replace_messages en ms))"
proof -
  have d: "en_runs e1 = en_runs e2 \<Longrightarrow> run_steps (en_runs e2) (en_runs (fst (dispatch_event f e1 c e)))" for e1 e2 c e
    by (metis dispatch_event_runs)
  let ?en = "engine_invalidate_run (engine_cancel_run en)"
  have two: "run_steps (en_runs en) (en_runs ?en)"
    by (rule run_steps_trans [OF engine_run_steps(2) engine_run_steps(1)])
  show "run_steps (en_runs en) (en_runs (fst (cmd_ready f en)))"
    by (simp add: cmd_ready_def split_def Let_def d live_context_runs)
  show "run_steps (en_runs en) (en_runs (fst (cmd_cancel f en)))"
    by (simp add: cmd_cancel_def split_def Let_def)
      (rule run_steps_trans [OF d [OF live_context_runs] engine_run_steps(1)])
  show "run_steps (en_runs en) (en_runs (fst (cmd_reset f en)))"
    by (simp add: cmd_reset_def split_def Let_def) (rule run_steps_trans [OF d [OF live_context_runs] two])
  show "run_steps (en_runs en) (en_runs (fst (fail_action f dismissed en ctx x)))"
    by (simp add: fail_action_def dispatch_event_runs run_steps_trans [OF dispatch_event_runs engine_run_steps(1)])
  show "run_steps (en_runs en) (en_runs (replace_messages en ms))"
    using two by (simp add: replace_messages_def Let_def)
qed

lemma complete_action_runs:
  "complete_action f w specs en completion = (en', out) \<Longrightarrow> en_runs en' = en_runs en"
  by (erule complete_action_cases) (simp_all add: committed_def)

lemma loop_pop_runs: "loop_pop f en r = (en', out) \<Longrightarrow> run_steps (en_runs en) (en_runs en')"
  by (auto simp: loop_pop_def run_same engine_run_steps split: prod.splits option.splits if_splits)

lemma record_stream_chunk_runs: "en_runs (record_stream_chunk en r chunk) = en_runs en"
  by (auto simp: record_stream_chunk_def commit_transition_def bind_result_Inr_iff Let_def split: sum.split)

lemma sys_step_runs: "sys_step w dismissed s t \<Longrightarrow> run_steps (en_runs (sy_engine s)) (en_runs (sy_engine t))"
proof (induction rule: sys_step.induct)
  case (step_turn s f ctx content attachments)
  show ?case by (simp add: spawn_def dispatch_locked_runs [OF prod.collapse [symmetric]])
next
  case (step_policy f s m rules en)
  from set_policy_frame [OF step_policy] show ?case by (simp add: run_same)
next
  case (step_reject s i r q a res f specs en x)
  from complete_action_runs [OF step_reject(4)] command_runs(4) [of en f dismissed "lp_ctx (sy_loops s ! i)" x]
  show ?case by (simp add: after_failure_def)
qed (auto simp: spawn_def set_loop_def after_failure_def command_runs record_stream_chunk_runs run_same
      complete_action_runs intro: loop_pop_runs)

lemma reachable_runs:
  "reachable w dismissed s0 s \<Longrightarrow> run_steps (en_runs (sy_engine s0)) (en_runs (sy_engine s))"
  by (induction rule: reachable.induct) (auto intro: run_same run_steps_trans sys_step_runs)

lemma reachable_retired:
  "reachable w dismissed s0 s \<Longrightarrow> engine_ok (sy_engine s0) \<Longrightarrow> retired (sy_engine s0) r \<Longrightarrow> retired (sy_engine s) r"
  using reachable_runs [of w dismissed s0 s] run_steps_issued run_steps_stale
  by (auto simp: retired_def engine_ok_def runs_ok_def)

lemma retired_inert:
  "retired en r \<Longrightarrow> ac_run_id completion = r \<Longrightarrow>
     complete_action f w specs en completion = (en, Inr ()) \<and> record_stream_chunk en r chunk = en"
  by (auto simp: retired_def is_current_def complete_action_def record_stream_chunk_def)

section \<open>Actions in flight\<close>

definition in_flight :: "system \<Rightarrow> queued_action \<Rightarrow> bool" where
  "in_flight s q \<longleftrightarrow> q \<in> set (aq_queue (en_queue (sy_engine s))) \<or> (\<exists>i r. in_phase s i (LoopExecuting r q))"

definition flight_ok :: "system \<Rightarrow> bool" where
  "flight_ok s \<longleftrightarrow> (\<forall>i r q. in_phase s i (LoopExecuting r q) \<longrightarrow> qa_run_id q \<in> issued_runs (en_runs (sy_engine s)))"

lemma in_phase_set_loop:
  "in_phase (set_loop s i en ph) j ph' \<Longrightarrow> (j = i \<and> ph' = ph) \<or> in_phase s j ph'"
  by (cases "i = j") (auto simp: in_phase_def set_loop_def)

lemma in_phase_spawn: "in_phase (spawn s out) j (LoopExecuting r q) \<Longrightarrow> in_phase s j (LoopExecuting r q)"
  by (auto simp: in_phase_def spawn_def nth_append less_Suc_eq split: sum.splits if_splits)

lemma in_phase_after_failure:
  "in_phase (after_failure s i out) j (LoopExecuting r q) \<Longrightarrow> in_phase s j (LoopExecuting r q)"
  by (cases "i = j") (auto simp: in_phase_def after_failure_def split: sum.splits)

lemma in_phase_engine [simp]: "in_phase (s\<lparr>sy_engine := en\<rparr>) j ph = in_phase s j ph"
  by (simp add: in_phase_def)

lemma popped_action: "loop_pop f en r = (en', NextAction q) \<Longrightarrow> q \<in> set (aq_queue (en_queue en)) \<and> en_runs en' = en_runs en"
  by (auto simp: loop_pop_def pop_action_def split: list.splits if_splits)

lemma sys_step_executing:
  "sys_step w dismissed s t \<Longrightarrow> in_phase t i (LoopExecuting r q) \<Longrightarrow>
     in_phase s i (LoopExecuting r q) \<or> q \<in> set (aq_queue (en_queue (sy_engine s)))"
proof (induction rule: sys_step.induct)
  case (step_pop s j r' f en q')
  from in_phase_set_loop [OF step_pop(3)] popped_action [OF step_pop(2)] show ?case by auto
qed (auto dest: in_phase_set_loop in_phase_spawn in_phase_after_failure)

lemma sys_step_flight:
  "sys_step w dismissed s t \<Longrightarrow> engine_ok (sy_engine s) \<Longrightarrow> flight_ok s \<Longrightarrow> flight_ok t"
  using run_steps_issued [OF sys_step_runs] sys_step_executing
  unfolding flight_ok_def engine_ok_def runs_ok_def by blast

lemma reachable_flight:
  assumes "reachable w dismissed s0 s" "engine_ok (sy_engine s0)" "flight_ok s0"
  shows "flight_ok s"
  using assms by (induction rule: reachable.induct) (auto intro: sys_step_flight reachable_ok)

lemma flight_issued:
  "engine_ok (sy_engine s) \<Longrightarrow> flight_ok s \<Longrightarrow> in_flight s q \<Longrightarrow> qa_run_id q \<in> issued_runs (en_runs (sy_engine s))"
  by (auto simp: in_flight_def flight_ok_def engine_ok_def runs_ok_def)

lemma start_system_ok: "complete_transcript ms \<Longrightarrow> engine_ok (sy_engine (start_system p ms)) \<and> flight_ok (start_system p ms)"
  by (simp add: start_system_def engine_ok_new flight_ok_def in_phase_def)

section \<open>What retires every run issued so far\<close>

lemma op_retires:
  "run_ids_ok c \<Longrightarrow> retires op \<Longrightarrow> r \<in> issued_runs c \<Longrightarrow>
     r \<in> issued_runs (snd (apply_run_op op (h, c))) \<and> r \<noteq> rc_run_id (snd (apply_run_op op (h, c)))"
  using runs.retire_fresh [of "(h, c)" op] run_op_issued [of c op h] by auto

lemma dispatch_event_runs_eq: "en_runs (fst (dispatch_event f en c e)) = en_runs en"
proof (cases "is_UserMessageSubmitted e")
  case False
  obtain en' out where d: "dispatch_locked f en c e = (en', out)" by fastforce
  then have "en_runs en' = en_runs en"
    by (cases rule: dispatch_locked_cases) (use False in \<open>simp_all add: committed_def\<close>)
  with False d show ?thesis by (simp add: dispatch_event_def)
qed (simp add: dispatch_event_def)

lemma cancel_run_retires:
  "engine_ok en \<Longrightarrow> r \<in> issued_runs (en_runs en) \<Longrightarrow> retired (engine_cancel_run en) r"
  unfolding retired_def engine_run_ops by (rule op_retires) (simp_all add: engine_ok_def runs_ok_def)

lemma retired_invalidate: "engine_ok en \<Longrightarrow> retired en r \<Longrightarrow> retired (engine_invalidate_run en) r"
  unfolding retired_def engine_run_ops
  by (rule op_retires) (simp_all add: engine_ok_def runs_ok_def)

lemma commands_retire:
  assumes ok: "engine_ok en" and r: "r \<in> issued_runs (en_runs en)"
  shows "retired (fst (cmd_cancel f en)) r" "retired (fst (cmd_reset f en)) r" "retired (replace_messages en ms) r"
proof -
  have one: "retired (engine_cancel_run en) r" by (rule cancel_run_retires [OF ok r])
  have two: "retired (engine_invalidate_run (engine_cancel_run en)) r"
    by (rule retired_invalidate [OF engine_ok_run_ops(1) [OF ok] one])
  show "retired (fst (cmd_cancel f en)) r"
    using one by (simp add: retired_def cmd_cancel_def Let_def split_def dispatch_event_runs_eq live_context_runs)
  show "retired (fst (cmd_reset f en)) r"
    using two by (simp add: retired_def cmd_reset_def Let_def split_def dispatch_event_runs_eq live_context_runs)
  show "retired (replace_messages en ms) r" using two by (simp add: retired_def replace_messages_def Let_def)
qed

lemma turn_retires:
  assumes ok: "engine_ok en" and r: "r \<in> issued_runs (en_runs en)"
    and d: "dispatch_locked f en ctx (UserMessageSubmitted t a) = (en', Inr c)"
  shows "retired en' r"
  using d
proof (cases rule: dispatch_locked_cases)
  case (turn h k x)
  have "k = snd (apply_run_op (StartRun ctx) (en_heap en, en_runs en))" using turn(4) by simp
  with op_retires [of "en_runs en" "StartRun ctx" r "en_heap en"] ok r turn(5) show ?thesis
    by (simp add: retired_def committed_def engine_ok_def runs_ok_def)
qed simp_all

section \<open>The properties of the engine\<close>


text \<open>A resumed conversation with one answered call, after \<open>ready\<close>.\<close>

definition resumed_messages :: "message list" where
  "resumed_messages = [default_message\<lparr>msg_role := ROLE_ASSISTANT, msg_tool_calls := Some [sample_call]\<rparr>,
     tool_message sample_call ''ok'']"

lemma resumed_messages_complete: "complete_transcript resumed_messages"
  by (simp add: complete_transcript_def resumed_messages_def msg_calls_def)

definition resumed_ready :: "engine \<times> (exc, nat) result" where
  "resumed_ready = cmd_ready 0 (new_engine new_default_policy resumed_messages)"

lemma resumed_ready_idle:
  "rd_state (en_data (fst resumed_ready)) = STATE_IDLE
   \<and> rd_messages (en_data (fst resumed_ready)) = resumed_messages"
proof -
  let ?en = "new_engine new_default_policy resumed_messages"
  obtain en1 c where l: "live_context ?en = (en1, c)" by fastforce
  have d: "en_data en1 = initial_data resumed_messages"
    using live_context_frame [OF l] by (simp add: new_engine_def)
  have v: "valid_data (en_data en1)"
    by (simp add: d initial_data_def valid_data_iff no_tools_def no_streaming_def)
  have a: "accepts (en_data en1) EngineReady" by (simp add: d accepts_def initial_data_def)
  obtain dec where t: "calculate_transition en1 EngineReady = Inr dec" using calculate_Inl [OF v a] by blast
  have "commit_transition en1 dec = Inr (committed en1 EngineReady)" by (rule commit_calculated [OF t]) simp
  then have "fst resumed_ready = committed en1 EngineReady"
    using t calculate_Inr(3) [OF t]
    by (simp add: resumed_ready_def cmd_ready_def l dispatch_event_def dispatch_locked_def default_action_plan_def)
  then show ?thesis by (simp add: committed_def d initial_data_def)
qed



text \<open>A queued model call after a cancellation.\<close>

definition asked :: "engine \<times> (exc, nat) result" where
  "asked = dispatch_locked 0 (fst resumed_ready) 0 (UserMessageSubmitted ''go'' [])"

lemma resumed_ready_engine: "engine_ok (fst resumed_ready) \<and> rc_next (en_runs (fst resumed_ready)) = 0
    \<and> aq_queue (en_queue (fst resumed_ready)) = [] \<and> aq_next (en_queue (fst resumed_ready)) = 0"
proof -
  let ?en = "new_engine new_default_policy resumed_messages"
  obtain en1 c where l: "live_context ?en = (en1, c)" by fastforce
  note f = live_context_frame [OF l]
  have "engine_ok (fst resumed_ready)"
    unfolding resumed_ready_def by (rule engine_ok_commands(1) [OF engine_ok_new [OF resumed_messages_complete]])
  moreover obtain en2 out where d: "dispatch_locked 0 en1 c EngineReady = (en2, out)" by fastforce
  then have "en_runs en2 = en_runs en1 \<and> en_queue en2 = en_queue en1"
    by (cases rule: dispatch_locked_cases)
      (simp_all add: committed_def default_action_plan_def enqueue_all_def)
  then have "en_runs (fst resumed_ready) = en_runs ?en \<and> en_queue (fst resumed_ready) = en_queue ?en"
    using f by (simp add: resumed_ready_def cmd_ready_def l dispatch_event_def d)
  ultimately show ?thesis by (simp add: new_engine_def new_run_controller_def new_action_queue_def)
qed

lemma asked_queue:
  "aq_queue (en_queue (fst asked)) = [\<lparr>qa_run_id = ''run-1'', qa_action_id = ''action-1'', qa_action = Some CallModel\<rparr>]"
proof -
  let ?en = "fst resumed_ready"
  obtain h c x where st: "start_run (en_heap ?en) (en_runs ?en) 0 = (h, c, x)" by (metis prod_cases3)
  have v: "valid_data (en_data ?en)" using resumed_ready_engine by (simp add: engine_ok_def)
  have c: "rc_run_id c = ''run-1''"
    using run_op_effect(2) [of "StartRun 0" "en_heap ?en" "en_runs ?en"] st resumed_ready_engine
    by (simp add: run_id_text_def dec.simps digit_def)
  have a: "asked = (committed (?en\<lparr>en_heap := h, en_runs := c\<rparr>) (UserMessageSubmitted ''go'' []), Inr x)"
    unfolding asked_def by (rule dispatch_turn [OF v _ st]) (simp add: resumed_ready_idle)
  show ?thesis
    unfolding a fst_conv
    by (subst committed_queue_empty)
      (simp_all add: resumed_ready_engine c schedule_plan_def action_id_text_def dec.simps digit_def)
qed


text \<open>
  A command that is refused changes no data and queues nothing: when \<open>dispatch_event\<close>
  raises, the machine data, the queue, the runs and the contexts are what they were.
\<close>

theorem refused_dispatch_changes_nothing:
  assumes "dispatch_event fresh en ctx e = (en', Inl x)"
  shows "en' = en"
proof (cases "is_UserMessageSubmitted e")
  case False
  with assms have "dispatch_locked fresh en ctx e = (en', Inl x)" by (simp add: dispatch_event_def)
  then show ?thesis by (cases rule: dispatch_locked_cases) simp_all
qed (use assms in \<open>simp add: dispatch_event_def\<close>)

theorem refused_dispatch_changes_nothing_witness:
  "fst (dispatch_event 0 (new_engine new_default_policy []) 0 (UserMessageSubmitted ''hi'' [])) = new_engine new_default_policy []"
proof -
  have "dispatch_event 0 (new_engine new_default_policy []) 0 (UserMessageSubmitted ''hi'' [])
    = (new_engine new_default_policy [],
       Inl (plain_exc 0 ValueErrorC ''user messages must be submitted through Engine.RunTurn''))"
    by (simp add: dispatch_event_def)
  from refused_dispatch_changes_nothing [OF this] show ?thesis by (simp add: dispatch_event_def)
qed

text \<open>
  A remembered approval outlives every policy: once \<open>always allow\<close> has been answered for a
  call and applied, any call of the same tool with the same JSON input is sent to run without
  the policy being asked, even one whose deny rules refuse it.
\<close>

theorem always_allow_skips_policy:
  assumes "complete_action f w specs en completion = (en', Inr ())"
    and "is_current (en_runs en) (ac_run_id completion)"
    and "ac_result completion = ApprovalReceived call APPROVE_ALWAYS"
    and "re_json_loads w (tc_input call) = Some v" and "re_json_loads w (tc_input call') = Some v'"
    and "same_json v v'" and "tc_name call = tc_name call'"
  shows "resolveToolCall w p' (en_approvals en') call' specs' = ToolCallReadyToRun call'"
  using assms(1)
proof (cases rule: complete_action_cases)
  case (applied e)
  have "e = ApprovalAlwaysGranted call" using applied(2) assms(3) by simp
  then have "en_approvals en' = allow_always (en_approvals en) (new_approval_key (re_json_loads w) (re_sha256 w) call)"
    using applied(5) by simp
  moreover have "canonical_json v = canonical_json v'"
    by (simp add: canonical_json_def same_json_canonical [OF assms(6)])
  ultimately have "is_always_allowed (en_approvals en') (new_approval_key (re_json_loads w) (re_sha256 w) call')"
    using assms(4-7) by (simp add: new_approval_key_def hashCanonicalInput_def)
  then show ?thesis by (simp add: resolveToolCall_def resolver_decision_def Let_def)
qed (use assms(2) in simp_all)

text \<open>The store of an engine that waits for an approval.\<close>

definition waiting_engine :: engine where
  "waiting_engine = (new_engine new_default_policy [])\<lparr>en_data := waiting_data,
     en_runs := \<lparr>rc_next = 1, rc_run_id = ''run-1'', rc_context = None\<rparr>\<rparr>"

theorem always_allow_skips_policy_witness:
  "resolveToolCall (sample_world\<lparr>re_json_loads := \<lambda>_. Some JNull\<rparr>)
     \<lparr>dp_mode = ''plan'', dp_rules = default_rules\<lparr>deny_tools := [''bash'']\<rparr>\<rparr>
     (en_approvals (fst (complete_action 0 (sample_world\<lparr>re_json_loads := \<lambda>_. Some JNull\<rparr>) [] waiting_engine
       \<lparr>ac_run_id = ''run-1'', ac_action_id = ''action-1'', ac_result = ApprovalReceived sample_call APPROVE_ALWAYS\<rparr>)))
     sample_call [] = ToolCallReadyToRun sample_call"
proof -
  let ?w = "sample_world\<lparr>re_json_loads := \<lambda>_. Some JNull\<rparr>"
  let ?c = "\<lparr>ac_run_id = ''run-1'', ac_action_id = ''action-1'', ac_result = ApprovalReceived sample_call APPROVE_ALWAYS\<rparr>"
  let ?e = "ApprovalAlwaysGranted sample_call"
  have v: "valid_data (en_data waiting_engine)" by (simp add: waiting_engine_def waiting_data_valid)
  have "accepts (en_data waiting_engine) ?e"
    by (simp add: waiting_engine_def accepts_def matches_def waiting_data_def)
  then obtain dec where d: "calculate_transition waiting_engine ?e = Inr dec" using calculate_Inl [OF v] by blast
  have "commit_transition waiting_engine dec = Inr (committed waiting_engine ?e)"
    by (rule commit_calculated [OF d]) simp
  with d have "\<exists>en'. complete_action 0 ?w [] waiting_engine ?c = (en', Inr ())"
    by (simp add: complete_action_def is_current_def waiting_engine_def)
  then obtain en' where c: "complete_action 0 ?w [] waiting_engine ?c = (en', Inr ())" ..
  have "resolveToolCall ?w \<lparr>dp_mode = ''plan'', dp_rules = default_rules\<lparr>deny_tools := [''bash'']\<rparr>\<rparr>
      (en_approvals en') sample_call [] = ToolCallReadyToRun sample_call"
    by (rule always_allow_skips_policy [OF c, where call = sample_call and v = JNull and v' = JNull])
      (simp_all add: is_current_def waiting_engine_def same_refl)
  with c show ?thesis by simp
qed

end
