(* ===== verification/TurnLoop.thy ===== *)
theory TurnLoop
  imports EngineSystem
begin

text \<open>
  One agent loop left alone: \<open>_run_scheduled_actions\<close> and \<open>run_turn\<close> with no other task in
  between, over model, tool and approval ports that are functions. The loop takes fuel, one
  unit per iteration; \<open>None\<close> means the fuel ran out. The theorems: the loop always ends in
  \<open>Idle\<close> with an empty queue, raises only what a port or the resolver raised, and ends at all
  once the model stops asking for tools.
\<close>

section \<open>The loop\<close>

record turn_env =
  te_world :: resolver_env
  te_executor :: executor
  te_waiter :: "waiter_port option"
  te_dismissed :: exc
  te_fresh :: nat

definition action_env :: "turn_env \<Rightarrow> engine \<Rightarrow> action_input" where
  "action_env te en = \<lparr>ai_messages = rd_messages (en_data en),
     ai_tool_specs = executor_tool_specs (te_executor te), ai_waiter = te_waiter te\<rparr>"

text \<open>\<open>_execute_scheduled_action\<close>: run, then resolve and commit.\<close>

definition execute_scheduled_action ::
    "turn_env \<Rightarrow> engine \<Rightarrow> queued_action \<Rightarrow> engine \<times> (exc, unit) result" where
  "execute_scheduled_action te en q =
     (case run_queued (te_fresh te) (te_executor te) q (action_env te en) of
        Inl x \<Rightarrow> (en, Inl x)
      | Inr completion \<Rightarrow> complete_action (te_fresh te) (te_world te)
          (executor_tool_specs (te_executor te)) en completion)"

text \<open>
  The cleanup dispatch of a failed action runs a loop of its own, without the approval
  waiter, and whatever it reports is dropped; the failure is what the caller sees.
\<close>

fun run_loop :: "nat \<Rightarrow> turn_env \<Rightarrow> engine \<Rightarrow> nat \<Rightarrow> string \<Rightarrow> (engine \<times> (exc, unit) result) option" where
  "run_loop 0 te en ctx run_id = None"
| "run_loop (Suc n) te en ctx run_id =
     (case loop_pop (te_fresh te) en run_id of
        (en1, LoopFinished) \<Rightarrow> Some (en1, Inr ())
      | (en1, LoopBroken x) \<Rightarrow> Some (en1, Inl x)
      | (en1, NextAction q) \<Rightarrow>
          (case execute_scheduled_action te en1 q of
             (en2, Inr _) \<Rightarrow> run_loop n te en2 ctx run_id
           | (en2, Inl x) \<Rightarrow>
               (case fail_action (te_fresh te) (te_dismissed te) en2 ctx x of
                  (en3, Inl _) \<Rightarrow> Some (en3, Inl x)
                | (en3, Inr c) \<Rightarrow>
                    (case run_loop n (te\<lparr>te_waiter := None\<rparr>) en3 c (rc_run_id (en_runs en3)) of
                       None \<Rightarrow> None
                     | Some (en4, _) \<Rightarrow> Some (en4, Inl x)))))"

text \<open>\<open>run_turn\<close>: dispatch the user message, then drain; the dispatch itself may raise.\<close>

definition run_turn ::
    "nat \<Rightarrow> turn_env \<Rightarrow> engine \<Rightarrow> nat \<Rightarrow> string \<Rightarrow> attachment list \<Rightarrow> (engine \<times> (exc, unit) result) option" where
  "run_turn fuel te en ctx content attachments =
     (case dispatch_locked (te_fresh te) en ctx (UserMessageSubmitted content attachments) of
        (en1, Inl x) \<Rightarrow> Some (en1, Inl x)
      | (en1, Inr run_ctx) \<Rightarrow> run_loop fuel te en1 run_ctx (rc_run_id (en_runs en1)))"

section \<open>The queue holds what the state waits for\<close>

definition awaited :: "engine \<Rightarrow> bool" where
  "awaited en \<longleftrightarrow> valid_data (en_data en)
     \<and> map qa_action (aq_queue (en_queue en)) = (case action_for (en_data en) of None \<Rightarrow> [] | Some a \<Rightarrow> [Some a])
     \<and> (\<forall>q \<in> set (aq_queue (en_queue en)). qa_run_id q = rc_run_id (en_runs en))
     \<and> rc_run_id (en_runs en) \<noteq> ''''"

text \<open>After the pop: the action taken is the one awaited, and the queue is empty.\<close>

definition taken :: "engine \<Rightarrow> queued_action \<Rightarrow> bool" where
  "taken en q \<longleftrightarrow> valid_data (en_data en) \<and> aq_queue (en_queue en) = []
     \<and> qa_action q = action_for (en_data en) \<and> action_for (en_data en) \<noteq> None
     \<and> qa_run_id q = rc_run_id (en_runs en) \<and> rc_run_id (en_runs en) \<noteq> ''''"

lemma map_singleton: "map f xs = [y] \<longleftrightarrow> (\<exists>x. xs = [x] \<and> f x = y)"
  by (cases xs; cases "tl xs") auto

lemma awaited_committed:
  assumes "valid_data (en_data en)" "accepts (en_data en) e" "rc_run_id (en_runs en) \<noteq> ''''"
    and "aq_queue (en_queue en) = [] \<or> ap_clear_existing (event_plan e)"
  shows "awaited (committed en e)"
proof -
  have d: "en_data (committed en e) = next_data (en_data en) e" "en_runs (committed en e) = en_runs en"
    by (simp_all add: committed_def)
  show ?thesis
    unfolding awaited_def d committed_queue_empty [OF assms(4)]
    using next_data_valid [OF assms(1,2)] plan_matches [OF assms(1,2)] assms(3)
    by (auto simp: stamped_actions split: option.splits dest: stamped_runs)
qed

lemma awaited_pop:
  assumes a: "awaited en" and p: "loop_pop f en r = (en1, out)"
  shows "(out = LoopFinished \<and> rd_state (en_data en) = STATE_IDLE \<and> en1 = engine_finish_run en r)
    \<or> (rd_state (en_data en) = STATE_INITIALIZING)
    \<or> (\<exists>q. out = NextAction q \<and> taken en1 q \<and> en_data en1 = en_data en \<and> en_runs en1 = en_runs en)"
proof (cases "action_for (en_data en)")
  case None
  with a have "aq_queue (en_queue en) = []" and "rd_state (en_data en) \<in> {STATE_INITIALIZING, STATE_IDLE}"
    by (simp_all add: awaited_def action_for_quiet)
  with p show ?thesis by (auto simp: loop_pop_def pop_action_def split: if_splits)
next
  case (Some act)
  with a obtain q where q: "aq_queue (en_queue en) = [q]" "qa_action q = Some act"
    by (auto simp: awaited_def map_singleton)
  with a p Some show ?thesis by (auto simp: loop_pop_def pop_action_def taken_def awaited_def)
qed

text \<open>Executing the awaited action either moves on to an awaited state or raises in place.\<close>

lemma taken_execute:
  assumes t: "taken en q" and x: "execute_scheduled_action te en q = (en1, out)"
  shows "(out = Inr () \<and> awaited en1 \<and> en_runs en1 = en_runs en
      \<and> (\<exists>e res a. action_for (en_data en) = Some a \<and> answers a res
          \<and> run_queued (te_fresh te) (te_executor te) q (action_env te en) = Inr
              \<lparr>ac_run_id = qa_run_id q, ac_action_id = qa_action_id q, ac_result = res\<rparr>
          \<and> resolve (te_fresh te) (te_world te) (en_policy en) (en_approvals en) res
              \<lparr>ri_tool_batch = rd_tool_batch (en_data en), ri_tool_specs = executor_tool_specs (te_executor te)\<rparr> = Inr e
          \<and> accepts (en_data en) e \<and> en_data en1 = next_data (en_data en) e))
    \<or> (en1 = en \<and> (\<exists>z. out = Inl z))"
proof (cases "run_queued (te_fresh te) (te_executor te) q (action_env te en)")
  case (Inl z)
  with x show ?thesis by (auto simp: execute_scheduled_action_def)
next
  case (Inr completion)
  obtain a where a: "action_for (en_data en) = Some a" "qa_action q = Some a"
    using t by (auto simp: taken_def)
  obtain res where res: "completion = \<lparr>ac_run_id = qa_run_id q, ac_action_id = qa_action_id q, ac_result = res\<rparr>"
    and ex: "execute (te_fresh te) (te_executor te) a (action_env te en) = Inr res"
    using Inr a(2) by (auto simp: run_queued_def bind_result_Inr_iff)
  have ans: "answers a res" by (rule execute_answers [OF ex])
  from x Inr have c: "complete_action (te_fresh te) (te_world te) (executor_tool_specs (te_executor te)) en completion
      = (en1, out)" by (simp add: execute_scheduled_action_def)
  from c show ?thesis
  proof (cases rule: complete_action_cases)
    case stale
    with t res show ?thesis by (simp add: taken_def is_current_def)
  next
    case (failed z)
    then show ?thesis by blast
  next
    case (applied e)
    have "awaited (committed en e)"
      by (rule awaited_committed) (use t applied in \<open>simp_all add: taken_def\<close>)
    then have "awaited en1" using applied(5) by (simp add: awaited_def)
    with applied res a ans Inr show ?thesis by (auto simp: committed_def)
  qed
qed

text \<open>A failed action ends in \<open>Idle\<close> with nothing queued.\<close>

lemma abandoning_accepts: "accepts d (ErrorOccurred x)" "accepts d CancelRequested"
  by (cases "rd_state d"; simp add: accepts_def)+

lemma dispatch_abandoning:
  assumes v: "valid_data (en_data en)" and e: "e = CancelRequested \<or> (\<exists>x. e = ErrorOccurred x)"
  shows "dispatch_event fresh en ctx e = (committed en e, Inr ctx)"
proof -
  have a: "accepts (en_data en) e" using e abandoning_accepts by auto
  obtain dec where d: "calculate_transition en e = Inr dec" using calculate_Inl [OF v a] by blast
  have "commit_transition en dec = Inr (committed en e)" by (rule commit_calculated [OF d]) simp
  moreover have "ap_schedule (tr_plan dec) = []" using calculate_Inr(3) [OF d] e by (auto simp: clear_plan_def)
  moreover have "\<not> is_UserMessageSubmitted e" using e by auto
  ultimately show ?thesis using d by (simp add: dispatch_event_def dispatch_locked_def)
qed

lemma cancel_run_id_nonempty: "rc_run_id (en_runs (engine_cancel_run en)) \<noteq> ''''"
  by (simp add: engine_cancel_run_def cancel_run_def bump_run_id_def Let_def split_def)

lemma engine_cancel_run_data [simp]: "en_data (engine_cancel_run en) = en_data en"
  by (simp add: engine_cancel_run_def Let_def split_def)

lemma fail_action_idle:
  assumes v: "valid_data (en_data en)" and r: "rc_run_id (en_runs en) \<noteq> ''''"
    and f: "fail_action fresh dismissed en ctx x = (en1, out)"
  shows "out = Inr ctx \<and> awaited en1 \<and> rd_state (en_data en1) = STATE_IDLE"
proof (cases "is_cancellation dismissed x")
  case True
  let ?en = "engine_cancel_run en"
  have "fail_action fresh dismissed en ctx x = (committed ?en CancelRequested, Inr ctx)"
    using True dispatch_abandoning [of ?en CancelRequested fresh ctx] v by (simp add: fail_action_def)
  moreover have "awaited (committed ?en CancelRequested)"
    by (rule awaited_committed)
      (simp_all add: v abandoning_accepts cancel_run_id_nonempty clear_plan_def)
  ultimately show ?thesis using f by (simp add: committed_def abandoned_def cleared_def)
next
  case False
  have "fail_action fresh dismissed en ctx x = (committed en (ErrorOccurred (Some x)), Inr ctx)"
    using False dispatch_abandoning [of en "ErrorOccurred (Some x)" fresh ctx] v by (simp add: fail_action_def)
  moreover have "awaited (committed en (ErrorOccurred (Some x)))"
    by (rule awaited_committed) (simp_all add: v r abandoning_accepts clear_plan_def)
  ultimately show ?thesis using f by (simp add: committed_def abandoned_def cleared_def)
qed

section \<open>How a loop left alone ends\<close>

lemma run_loop_next:
  "loop_pop (te_fresh te) en r = (en1, NextAction q) \<Longrightarrow> execute_scheduled_action te en1 q = (en2, Inr u) \<Longrightarrow>
     run_loop (Suc n) te en ctx r = run_loop n te en2 ctx r"
  by simp

lemma run_loop_failed:
  "loop_pop (te_fresh te) en r = (en1, NextAction q) \<Longrightarrow> execute_scheduled_action te en1 q = (en2, Inl z) \<Longrightarrow>
     fail_action (te_fresh te) (te_dismissed te) en2 ctx z = (en3, Inr c) \<Longrightarrow>
     run_loop (Suc n) te en ctx r =
       map_option (\<lambda>(en4, _). (en4, Inl z)) (run_loop n (te\<lparr>te_waiter := None\<rparr>) en3 c (rc_run_id (en_runs en3)))"
  by (auto split: option.split)

lemma run_loop_finished:
  "loop_pop (te_fresh te) en r = (en1, LoopFinished) \<Longrightarrow> run_loop (Suc n) te en ctx r = Some (en1, Inr ())"
  by simp

declare run_loop.simps(2) [simp del]

lemma run_loop_idle:
  assumes a: "awaited en" and i: "rd_state (en_data en) = STATE_IDLE"
  shows "run_loop (Suc n) te en ctx r = Some (engine_finish_run en r, Inr ())"
proof -
  have "action_for (en_data en) = None" using i by (simp add: action_for_def)
  with a have "aq_queue (en_queue en) = []" by (simp add: awaited_def)
  then have "loop_pop (te_fresh te) en r = (engine_finish_run en r, LoopFinished)"
    using i by (simp add: loop_pop_def pop_action_def)
  then show ?thesis by (rule run_loop_finished)
qed

text \<open>The exceptions a turn can end with: what an action raised, or tools that are disabled.\<close>

definition turn_fault :: "turn_env \<Rightarrow> exc \<Rightarrow> bool" where
  "turn_fault te x \<longleftrightarrow> (\<exists>q env. run_queued (te_fresh te) (te_executor te) q env = Inl x)
     \<or> x = plain_exc (te_fresh te) ValueErrorC ''model returned tool call while tools are disabled''"

lemma resolve_Inl:
  "resolve f w p st res input = Inl z \<Longrightarrow>
     z = plain_exc f ValueErrorC ''model returned tool call while tools are disabled''"
  by (cases res) (auto simp: resolve_model_reply_def split: if_splits option.splits)

lemma taken_fault:
  assumes t: "taken en q" and x: "execute_scheduled_action te en q = (en1, Inl z)"
  shows "turn_fault te z"
proof (cases "run_queued (te_fresh te) (te_executor te) q (action_env te en)")
  case (Inl y)
  with x show ?thesis by (auto simp: execute_scheduled_action_def turn_fault_def)
next
  case (Inr completion)
  obtain a where a: "action_for (en_data en) = Some a" "qa_action q = Some a"
    using t by (auto simp: taken_def)
  obtain res where res: "completion = \<lparr>ac_run_id = qa_run_id q, ac_action_id = qa_action_id q, ac_result = res\<rparr>"
    and ex: "execute (te_fresh te) (te_executor te) a (action_env te en) = Inr res"
    using Inr a(2) by (auto simp: run_queued_def bind_result_Inr_iff)
  let ?input = "\<lparr>ri_tool_batch = rd_tool_batch (en_data en), ri_tool_specs = executor_tool_specs (te_executor te)\<rparr>"
  show ?thesis
  proof (cases "resolve (te_fresh te) (te_world te) (en_policy en) (en_approvals en) res ?input")
    case (Inl y)
    have "z = y" using x Inr res Inl t
      by (auto simp: execute_scheduled_action_def complete_action_def taken_def is_current_def)
    then show ?thesis using resolve_Inl [OF Inl] by (simp add: turn_fault_def)
  next
    case resolved: (Inr e)
    have v: "valid_data (en_data en)" using t by (simp add: taken_def)
    have acc: "accepts (en_data en) e" by (rule resolve_accepted [OF v a(1) execute_answers [OF ex] resolved])
    obtain dec where d: "calculate_transition en e = Inr dec" using calculate_Inl [OF v acc] by blast
    have "commit_transition en dec = Inr (committed en e)" by (rule commit_calculated [OF d]) simp
    with x Inr res resolved d t show ?thesis
      by (auto simp: execute_scheduled_action_def complete_action_def taken_def is_current_def)
  qed
qed

definition settled :: "engine \<Rightarrow> bool" where
  "settled en \<longleftrightarrow> rd_state (en_data en) = STATE_IDLE \<and> aq_queue (en_queue en) = [] \<and> valid_data (en_data en)"

lemma settled_finish: "awaited en \<Longrightarrow> rd_state (en_data en) = STATE_IDLE \<Longrightarrow> settled (engine_finish_run en r)"
  by (simp add: settled_def awaited_def action_for_def engine_finish_run_def Let_def split_def)

lemma next_data_running: "accepts d e \<Longrightarrow> rd_state (next_data d e) \<noteq> STATE_INITIALIZING"
  by (cases e; cases "rd_state d") (simp_all add: accepts_def add_message_def advanced_def abandoned_def cleared_def)

lemma run_loop_settles:
  "run_loop n te en ctx r = Some (en', out) \<Longrightarrow> awaited en \<Longrightarrow> rd_state (en_data en) \<noteq> STATE_INITIALIZING \<Longrightarrow>
     settled en' \<and> (\<forall>x. out = Inl x \<longrightarrow> turn_fault te x)"
proof (induction n arbitrary: en)
  case (Suc n)
  obtain en1 po where p: "loop_pop (te_fresh te) en r = (en1, po)" by fastforce
  from awaited_pop [OF Suc.prems(2) p] Suc.prems(3)
  consider (finished) "po = LoopFinished" "rd_state (en_data en) = STATE_IDLE" "en1 = engine_finish_run en r"
    | (action) q where "po = NextAction q" "taken en1 q" by blast
  then show ?case
  proof cases
    case finished
    with Suc.prems p settled_finish [of en r] show ?thesis by (auto simp: run_loop_finished)
  next
    case (action q)
    obtain en2 o2 where x: "execute_scheduled_action te en1 q = (en2, o2)" by fastforce
    from taken_execute [OF action(2) x]
    consider (ok) "o2 = Inr ()" "awaited en2" "rd_state (en_data en2) \<noteq> STATE_INITIALIZING"
      | (bad) z where "o2 = Inl z" "en2 = en1" by (metis next_data_running)
    then show ?thesis
    proof cases
      case ok
      have "run_loop n te en2 ctx r = Some (en', out)"
        using Suc.prems(1) run_loop_next [OF p [unfolded action(1)] x [unfolded ok(1)]] by simp
      with Suc.IH [OF _ ok(2,3)] show ?thesis by blast
    next
      case (bad z)
      obtain en3 o3 where f: "fail_action (te_fresh te) (te_dismissed te) en1 ctx z = (en3, o3)" by fastforce
      have idle: "o3 = Inr ctx" "awaited en3" "rd_state (en_data en3) = STATE_IDLE"
        using fail_action_idle [OF _ _ f] action(2) by (auto simp: taken_def)
      have fault: "turn_fault te z" using taken_fault [OF action(2)] x bad by simp
      have step: "run_loop (Suc n) te en ctx r = map_option (\<lambda>(en4, _). (en4, Inl z))
          (run_loop n (te\<lparr>te_waiter := None\<rparr>) en3 ctx (rc_run_id (en_runs en3)))"
        by (rule run_loop_failed) (use p action(1) x bad f idle(1) in simp_all)
      then have "n \<noteq> 0" using Suc.prems(1) by (intro notI) simp
      then obtain m where "n = Suc m" by (cases n) auto
      with step Suc.prems(1) have "en' = engine_finish_run en3 (rc_run_id (en_runs en3))" "out = Inl z"
        by (simp_all add: run_loop_idle [OF idle(2,3)])
      with settled_finish [OF idle(2,3)] fault show ?thesis by simp
    qed
  qed
qed simp

section \<open>The loop ends\<close>

text \<open>
  What is left of the current batch, and a rank that falls along the states of one batch:
  each of its calls costs at most approval, run and return to the queue.
\<close>

fun phase_rank :: "mstate \<Rightarrow> nat" where
  "phase_rank STATE_WAITING_LLM = 1"
| "phase_rank STATE_ADVANCING_QUEUE = 2"
| "phase_rank STATE_RUNNING_TOOL = 3"
| "phase_rank STATE_WAITING_APPROVAL = 4"
| "phase_rank _ = 0"

definition batch_rank :: "runtime_data \<Rightarrow> nat" where
  "batch_rank d = 3 * length (remaining_calls d) + phase_rank (rd_state d)"

text \<open>The model asks for no tool once the conversation has \<open>N\<close> messages.\<close>

definition model_stops :: "nat \<Rightarrow> turn_env \<Rightarrow> bool" where
  "model_stops N te \<longleftrightarrow> (\<forall>m ms specs resp. ex_model (te_executor te) = Some m \<longrightarrow> N \<le> length ms \<longrightarrow>
     m ms specs = Inr resp \<longrightarrow> mr_tool_calls resp = [])"

definition work_order :: "nat \<Rightarrow> (engine \<times> engine) set" where
  "work_order N = measures [\<lambda>en. N - length (rd_messages (en_data en)), \<lambda>en. batch_rank (en_data en)]"

lemma wf_work_order: "wf (work_order N)"
  by (simp add: work_order_def)

lemma remaining_length:
  "index_in_range b \<Longrightarrow> next_call b = Some c \<Longrightarrow>
     length (tb_calls b) - nat (tb_index b) = Suc (length (tb_calls b) - nat (tb_index b + 1))"
  by (auto simp: next_call_def index_in_range_def nat_add_distrib split: if_splits)

lemma work_shrinks:
  assumes v: "valid_data d" and a: "action_for d = Some act" and ans: "answers act res"
    and e: "resolve f w p st res \<lparr>ri_tool_batch = rd_tool_batch d, ri_tool_specs = specs\<rparr> = Inr e"
    and stops: "\<And>resp. res = ModelReplied resp \<Longrightarrow> N \<le> length (rd_messages d) \<Longrightarrow> mr_tool_calls resp = []"
  shows "N - length (rd_messages (next_data d e)) < N - length (rd_messages d)
    \<or> (N - length (rd_messages (next_data d e)) \<le> N - length (rd_messages d)
        \<and> batch_rank (next_data d e) < batch_rank d)"
proof -
  have acc: "accepts d e" by (rule resolve_accepted [OF v a ans e])
  show ?thesis
  proof (cases "rd_state d")
    case STATE_WAITING_LLM
    then obtain resp where r: "res = ModelReplied resp" using a ans by (cases res) (auto simp: action_for_def)
    have "remaining_calls d = []" using v STATE_WAITING_LLM
      by (simp add: valid_data_iff no_tools_def remaining_calls_def)
    moreover have "length (rd_messages d) < N" if "mr_tool_calls resp \<noteq> []"
      using stops [OF r] that by force
    ultimately show ?thesis using r e STATE_WAITING_LLM
      by (auto simp: resolve_model_reply_def batch_rank_def add_message_def remaining_calls_def
          split: if_splits)
  next
    case STATE_ADVANCING_QUEUE
    then obtain b where b: "rd_tool_batch d = Some b" "index_in_range b" using v by (auto simp: valid_data_iff)
    have "res = ToolQueueChecked" using a ans STATE_ADVANCING_QUEUE by (cases res) (auto simp: action_for_def)
    with b e acc STATE_ADVANCING_QUEUE remaining_length [OF b(2)] show ?thesis
      by (auto simp: resolveToolCall_def Let_def accepts_def matches_def batch_rank_def remaining_calls_def
          advanced_def add_message_def split: if_splits tool_decision.splits option.splits)
  next
    case STATE_RUNNING_TOOL
    then obtain c t where "res = ToolFinished c t" using a ans by (cases res) (auto simp: action_for_def)
    with e STATE_RUNNING_TOOL show ?thesis
      by (auto simp: batch_rank_def remaining_calls_def add_message_def)
  next
    case STATE_WAITING_APPROVAL
    then obtain c dec where "res = ApprovalReceived c dec"
      using a ans by (cases res) (auto simp: action_for_def split: option.splits)
    with e STATE_WAITING_APPROVAL show ?thesis
      by (cases dec) (auto simp: batch_rank_def remaining_calls_def add_message_def)
  qed (use a in \<open>simp_all add: action_for_def\<close>)
qed

lemma run_loop_terminates:
  assumes "model_stops N te"
  shows "awaited en \<Longrightarrow> rd_state (en_data en) \<noteq> STATE_INITIALIZING \<Longrightarrow> \<exists>n. run_loop n te en ctx r \<noteq> None"
proof (induction en rule: wf_induct_rule [OF wf_work_order [of N]])
  case (1 en)
  obtain en1 po where p: "loop_pop (te_fresh te) en r = (en1, po)" by fastforce
  from awaited_pop [OF 1(2) p] 1(3)
  consider (finished) "rd_state (en_data en) = STATE_IDLE"
    | (action) q where "po = NextAction q" "taken en1 q" "en_data en1 = en_data en" by blast
  then show ?case
  proof cases
    case finished
    have "run_loop (Suc 0) te en ctx r \<noteq> None" unfolding run_loop_idle [OF 1(2) finished] by simp
    then show ?thesis by blast
  next
    case (action q)
    obtain en2 o2 where x: "execute_scheduled_action te en1 q = (en2, o2)" by fastforce
    show ?thesis
    proof (cases o2)
      case (Inl z)
      then have en2: "en2 = en1" using taken_execute [OF action(2) x] by auto
      obtain en3 o3 where f: "fail_action (te_fresh te) (te_dismissed te) en1 ctx z = (en3, o3)" by fastforce
      have idle: "o3 = Inr ctx" "awaited en3" "rd_state (en_data en3) = STATE_IDLE"
        using fail_action_idle [OF _ _ f] action(2) by (auto simp: taken_def)
      have "run_loop (Suc (Suc 0)) te en ctx r = map_option (\<lambda>(en4, _). (en4, Inl z))
          (run_loop (Suc 0) (te\<lparr>te_waiter := None\<rparr>) en3 ctx (rc_run_id (en_runs en3)))"
        by (rule run_loop_failed) (use p action(1) x Inl en2 f idle(1) in simp_all)
      then have "run_loop (Suc (Suc 0)) te en ctx r \<noteq> None"
        unfolding run_loop_idle [OF idle(2,3)] by simp
      then show ?thesis by blast
    next
      case (Inr u)
      with taken_execute [OF action(2) x] obtain e res a where
        aw: "awaited en2" and a: "action_for (en_data en1) = Some a" "answers a res"
        and rq: "run_queued (te_fresh te) (te_executor te) q (action_env te en1) = Inr
              \<lparr>ac_run_id = qa_run_id q, ac_action_id = qa_action_id q, ac_result = res\<rparr>"
        and e: "resolve (te_fresh te) (te_world te) (en_policy en1) (en_approvals en1) res
              \<lparr>ri_tool_batch = rd_tool_batch (en_data en1), ri_tool_specs = executor_tool_specs (te_executor te)\<rparr> = Inr e"
        and acc: "accepts (en_data en1) e" and d: "en_data en2 = next_data (en_data en1) e"
        by auto
      have v: "valid_data (en_data en1)" using action(2) by (simp add: taken_def)
      have stops: "mr_tool_calls resp = []"
        if "res = ModelReplied resp" "N \<le> length (rd_messages (en_data en1))" for resp
        using that rq a action(2) assms
        by (auto simp: taken_def run_queued_def bind_result_Inr_iff execute_def call_model_def run_tool_def
            await_approval_def model_stops_def action_env_def split: option.splits scheduled_action.splits
            sum.splits if_splits)
      have "N - length (rd_messages (en_data en2)) < N - length (rd_messages (en_data en1))
        \<or> (N - length (rd_messages (en_data en2)) \<le> N - length (rd_messages (en_data en1))
           \<and> batch_rank (en_data en2) < batch_rank (en_data en1))"
        unfolding d by (rule work_shrinks [OF v a e]) (rule stops)
      then have "(en2, en) \<in> work_order N"
        by (simp only: work_order_def action(3) in_measures le_less) blast
      from 1(1) [OF this aw] next_data_running [OF acc] d
      obtain n where "run_loop n te en2 ctx r \<noteq> None" by auto
      then have "run_loop (Suc n) te en ctx r \<noteq> None"
        using run_loop_next [OF p [unfolded action(1)] x [unfolded Inr]] by simp
      then show ?thesis by blast
    qed
  qed
qed

section \<open>The properties of a turn\<close>

lemma run_loop_engine_ok:
  "run_loop n te en ctx r = Some (en', out) \<Longrightarrow> engine_ok en \<Longrightarrow> engine_ok en'"
proof (induction n arbitrary: te en ctx r en' out)
  case (Suc n)
  have p: "engine_ok (fst (loop_pop (te_fresh te) en r))"
    by (rule engine_ok_pop [OF Suc.prems(2) prod.collapse [symmetric]])
  have x: "engine_ok (fst (execute_scheduled_action te en1 q))" if "engine_ok en1" for en1 q
    using that engine_ok_complete [OF that prod.collapse [symmetric]]
    by (simp add: execute_scheduled_action_def split: sum.split)
  show ?case
    using Suc.prems(1) p x engine_ok_fail_action
    by (auto simp: run_loop.simps split: prod.splits pop_outcome.splits sum.splits option.splits
        intro: Suc.IH) (metis Suc.IH fst_conv)+
qed simp

lemma settled_starts:
  assumes "settled en"
  obtains en1 x where "dispatch_locked f en ctx (UserMessageSubmitted t a) = (en1, Inr x)"
    "awaited en1" "rd_state (en_data en1) \<noteq> STATE_INITIALIZING"
proof -
  obtain h c x where s: "start_run (en_heap en) (en_runs en) ctx = (h, c, x)" by (metis prod_cases3)
  let ?en = "en\<lparr>en_heap := h, en_runs := c\<rparr>" and ?e = "UserMessageSubmitted t a"
  have d: "dispatch_locked f en ctx ?e = (committed ?en ?e, Inr x)"
    by (rule dispatch_turn [OF _ _ s]) (use assms in \<open>simp_all add: settled_def\<close>)
  have "rc_run_id c = run_id_text (rc_next (en_runs en) + 1)"
    using run_op_effect(2) [of "StartRun ctx" "en_heap en" "en_runs en"] s by simp
  then have "rc_run_id (en_runs ?en) \<noteq> ''''" by simp
  then have "awaited (committed ?en ?e)"
    by (intro awaited_committed) (use assms in \<open>simp_all add: settled_def accepts_def\<close>)
  then show ?thesis by (rule that [OF d]) (simp add: committed_def add_message_def)
qed


text \<open>
  C6. A turn returns: if the model stops asking for tools once the conversation is long enough,
  some amount of fuel suffices, whatever the size of the batches, the decisions of the policy and
  the approvals, and the failures on the way.
\<close>

theorem turn_returns:
  assumes "model_stops N te" and "settled en"
  shows "\<exists>fuel en' out. run_turn fuel te en ctx content atts = Some (en', out)"
proof -
  obtain en1 x where d: "dispatch_locked (te_fresh te) en ctx (UserMessageSubmitted content atts) = (en1, Inr x)"
    and a: "awaited en1" "rd_state (en_data en1) \<noteq> STATE_INITIALIZING"
    using settled_starts [OF assms(2)] .
  from run_loop_terminates [OF assms(1) a] obtain n where "run_loop n te en1 x (rc_run_id (en_runs en1)) \<noteq> None"
    by blast
  with d show ?thesis by (auto simp: run_turn_def intro!: exI [of _ n])
qed

text \<open>A model that always answers in words.\<close>

definition talking_env :: turn_env where
  "talking_env = \<lparr>te_world = sample_world,
     te_executor = \<lparr>ex_model = Some (\<lambda>_ _. Inr default_model_response), ex_tools = None\<rparr>,
     te_waiter = None, te_dismissed = plain_exc 1 ApprovalDismissedC ''approval dismissed'', te_fresh = 0\<rparr>"

lemma talking_env_stops: "model_stops 0 talking_env"
  by (auto simp: model_stops_def talking_env_def default_model_response_def)

lemma resumed_ready_settled: "settled (fst resumed_ready)"
  using resumed_ready_engine resumed_ready_idle by (simp add: settled_def engine_ok_def)

theorem turn_returns_witness:
  "\<exists>fuel en' out. run_turn fuel talking_env (fst resumed_ready) 0 ''go'' [] = Some (en', out)"
  by (rule turn_returns [OF talking_env_stops resumed_ready_settled])


end
