(* ===== verification/Timestamps.thy ===== *)
theory Timestamps
  imports Prelude
begin

text \<open>
  Time stamps (\<open>timeutil.py\<close>): instants with nanoseconds, and the three texts written from
  them, the RFC 3339 forms of the stored artefacts and the session and turn identifiers.
  The calendar itself (the clock, \<open>fromisoformat\<close>) is Python's; a stamp is its fields. The
  identifiers are written from UTC stamps, the only ones \<open>now()\<close> returns, of years with
  four digits.
\<close>

section \<open>Stamps\<close>

text \<open>
  A \<open>datetime\<close> keeps microseconds and a \<open>Timestamp\<close> the nanoseconds beside them; both are
  the nanoseconds of the second here, whole microseconds for a plain \<open>datetime\<close>. The offset
  is in seconds, \<open>None\<close> for a naive stamp.
\<close>

record stamp =
  st_year :: nat
  st_month :: nat
  st_day :: nat
  st_hour :: nat
  st_minute :: nat
  st_second :: nat
  st_nanos :: nat
  st_offset :: "int option"

definition nanoseconds :: "stamp \<Rightarrow> nat" where
  "nanoseconds t = st_nanos t"

definition ZERO_TIME :: stamp where
  "ZERO_TIME = \<lparr>st_year = 1, st_month = 1, st_day = 1, st_hour = 0, st_minute = 0, st_second = 0,
     st_nanos = 0, st_offset = Some 0\<rparr>"

text \<open>\<open>datetime\<close> compares the microseconds only; the stored stamps are UTC.\<close>

definition isZeroTime :: "stamp \<Rightarrow> bool" where
  "isZeroTime t = (t\<lparr>st_nanos := 1000 * (st_nanos t div 1000)\<rparr> = ZERO_TIME)"

text \<open>The order of UTC stamps as the order of one number.\<close>

definition stamp_key :: "stamp \<Rightarrow> nat" where
  "stamp_key t = (((((st_year t * 13 + st_month t) * 32 + st_day t) * 24 + st_hour t) * 60
     + st_minute t) * 60 + st_second t) * 1000000 + st_nanos t div 1000"

section \<open>Texts\<close>

text \<open>\<open>f"{n:0wd}"\<close> for a number that is not negative.\<close>

definition pad :: "nat \<Rightarrow> nat \<Rightarrow> string" where
  "pad w n = replicate (w - length (dec n)) CHR ''0'' @ dec n"

definition date_time_text :: "stamp \<Rightarrow> string" where
  "date_time_text t = pad 4 (st_year t) @ ''-'' @ pad 2 (st_month t) @ ''-'' @ pad 2 (st_day t) @ ''T''
     @ pad 2 (st_hour t) @ '':'' @ pad 2 (st_minute t) @ '':'' @ pad 2 (st_second t)"

definition offset_text :: "stamp \<Rightarrow> string" where
  "offset_text t = (case st_offset t of
       None \<Rightarrow> ''''
     | Some secs \<Rightarrow>
         if secs = 0 then ''Z''
         else let sign = (if secs > 0 then ''+'' else ''-''); n = nat \<bar>secs\<bar>
              in sign @ pad 2 (n div 3600) @ '':'' @ pad 2 ((n mod 3600) div 60))"

definition format_rfc3339_nano :: "stamp \<Rightarrow> string" where
  "format_rfc3339_nano t =
     (let fraction = py_rstrip_chars ''0'' (pad 9 (nanoseconds t))
      in if fraction \<noteq> '''' then date_time_text t @ ''.'' @ fraction @ offset_text t
         else date_time_text t @ offset_text t)"

definition format_rfc3339 :: "stamp \<Rightarrow> string" where
  "format_rfc3339 t = date_time_text t @ offset_text t"

definition format_id :: "stamp \<Rightarrow> bool \<Rightarrow> string" where
  "format_id t keep_dot =
     pad 4 (st_year t) @ pad 2 (st_month t) @ pad 2 (st_day t) @ ''T''
     @ pad 2 (st_hour t) @ pad 2 (st_minute t) @ pad 2 (st_second t)
     @ (if keep_dot then ''.'' else '''') @ pad 9 (nanoseconds t)"

text \<open>
  The fraction \<open>parse_rfc3339_nano\<close> reads: the first dot followed by digits, filled up with
  zeros to nine and cut there.
\<close>

definition is_digit :: "char \<Rightarrow> bool" where
  "is_digit c = (c \<in> set ''0123456789'')"

fun fraction_digits :: "string \<Rightarrow> string" where
  "fraction_digits [] = []"
| "fraction_digits (c # cs) =
     (if c = CHR ''.'' \<and> takeWhile is_digit cs \<noteq> [] then takeWhile is_digit cs else fraction_digits cs)"

definition parsed_nanoseconds :: "string \<Rightarrow> nat" where
  "parsed_nanoseconds text = undec (take 9 (fraction_digits text @ ''000000000''))"

section \<open>Digits\<close>

lemma digit_is_digit: "n < 10 \<Longrightarrow> is_digit (digit n)"
proof -
  assume "n < 10"
  then have "n \<in> {0, 1, 2, 3, 4, 5, 6, 7, 8, 9}" by auto
  then show ?thesis by (auto simp: digit_def is_digit_def)
qed

lemma dec_digits: "c \<in> set (dec n) \<Longrightarrow> is_digit c"
proof (induction n rule: dec.induct)
  case (1 n)
  then show ?case by (cases "n < 10") (auto simp: dec.simps [of n] digit_is_digit)
qed

lemma pad_digits: "c \<in> set (pad w n) \<Longrightarrow> is_digit c"
  by (auto simp: pad_def dest: dec_digits) (simp add: is_digit_def)

lemma dec_length: "0 < k \<Longrightarrow> n < 10 ^ k \<Longrightarrow> length (dec n) \<le> k"
proof (induction k arbitrary: n)
  case 0
  then show ?case by simp
next
  case (Suc k)
  show ?case
  proof (cases "n < 10")
    case True
    then show ?thesis by (simp add: dec.simps [of n])
  next
    case False
    with Suc.prems have "n div 10 < 10 ^ k" by (simp add: less_mult_imp_div_less mult.commute)
    moreover have "0 < k" using Suc.prems False by (cases k) auto
    ultimately have "length (dec (n div 10)) \<le> k" using Suc.IH by blast
    with False show ?thesis by (simp add: dec.simps [of n])
  qed
qed

lemma pad_length: "0 < w \<Longrightarrow> n < 10 ^ w \<Longrightarrow> length (pad w n) = w"
  by (simp add: pad_def dec_length)

lemma undec_zeros: "undec (replicate k CHR ''0'' @ s) = undec s"
  by (induction k) (simp_all add: undec_def undigit_def)

lemma undec_pad: "undec (pad w n) = n"
  by (simp add: pad_def undec_zeros undec_dec)

lemma rstrip_zeros: "\<exists>k. s = py_rstrip_chars ''0'' s @ replicate k CHR ''0''"
proof -
  have "takeWhile (\<lambda>c. c \<in> set ''0'') (rev s) = replicate (length (takeWhile (\<lambda>c. c \<in> set ''0'') (rev s))) CHR ''0''"
    by (rule replicate_eqI [OF refl]) (auto dest: set_takeWhileD)
  then obtain k where "takeWhile (\<lambda>c. c \<in> set ''0'') (rev s) = replicate k CHR ''0''" by blast
  moreover have "rev s = takeWhile (\<lambda>c. c \<in> set ''0'') (rev s) @ dropWhile (\<lambda>c. c \<in> set ''0'') (rev s)"
    by simp
  ultimately have "rev s = replicate k CHR ''0'' @ dropWhile (\<lambda>c. c \<in> set ''0'') (rev s)" by simp
  then have "rev (rev s) = rev (replicate k CHR ''0'' @ dropWhile (\<lambda>c. c \<in> set ''0'') (rev s))"
    by (rule arg_cong)
  then have "s = py_rstrip_chars ''0'' s @ replicate k CHR ''0''"
    by (simp add: py_rstrip_chars_def)
  then show ?thesis by blast
qed

lemma refill:
  assumes "length s = 9"
  shows "take 9 (py_rstrip_chars ''0'' s @ ''000000000'') = s"
proof -
  obtain k where k: "s = py_rstrip_chars ''0'' s @ replicate k CHR ''0''" using rstrip_zeros by blast
  have zeros: "''000000000'' = replicate 9 CHR ''0''" by (simp add: eval_nat_numeral)
  from k assms have l: "length (py_rstrip_chars ''0'' s) + k = 9" by (metis length_append length_replicate)
  then have "take 9 (py_rstrip_chars ''0'' s @ replicate 9 CHR ''0'')
      = py_rstrip_chars ''0'' s @ replicate k CHR ''0''" by auto
  with k zeros show ?thesis by simp
qed

lemma fraction_digits_skip: "CHR ''.'' \<notin> set p \<Longrightarrow> fraction_digits (p @ s) = fraction_digits s"
  by (induction p) auto

lemma digits_no_dot: "(\<And>c. c \<in> set s \<Longrightarrow> is_digit c) \<Longrightarrow> CHR ''.'' \<notin> set s"
  by (auto simp: is_digit_def)

lemma pad_no_dot: "CHR ''.'' \<notin> set (pad w n)"
  by (rule digits_no_dot) (rule pad_digits)

lemma date_time_no_dot: "CHR ''.'' \<notin> set (date_time_text t)"
  by (simp add: date_time_text_def pad_no_dot)

lemma offset_no_dot: "CHR ''.'' \<notin> set (offset_text t)"
  by (auto simp: offset_text_def pad_no_dot Let_def split: option.split)

lemma offset_head: "takeWhile is_digit (offset_text t) = []"
  by (auto simp: offset_text_def is_digit_def Let_def split: option.split)

lemma rstrip_members: "c \<in> set (py_rstrip_chars z s) \<Longrightarrow> c \<in> set s"
  by (auto simp: py_rstrip_chars_def dest: set_dropWhileD)

lemma fraction_of_format:
  "fraction_digits (format_rfc3339_nano t) = py_rstrip_chars ''0'' (pad 9 (nanoseconds t))"
proof -
  define f where "f = py_rstrip_chars ''0'' (pad 9 (nanoseconds t))"
  have digits: "\<forall>c \<in> set f. is_digit c" by (auto simp: f_def dest!: rstrip_members pad_digits)
  then have t: "takeWhile is_digit (f @ offset_text t) = f"
    by (simp add: takeWhile_append2 offset_head)
  have none: "fraction_digits (offset_text t) = []"
    using fraction_digits_skip [OF offset_no_dot, of t "[]"] by simp
  show ?thesis
  proof (cases "f = []")
    case True
    then show ?thesis
      by (simp add: format_rfc3339_nano_def Let_def f_def [symmetric] fraction_digits_skip date_time_no_dot none)
  next
    case False
    then show ?thesis
      by (simp add: format_rfc3339_nano_def Let_def f_def [symmetric] fraction_digits_skip date_time_no_dot t)
  qed
qed

section \<open>Properties\<close>

text \<open>
  A stored stamp keeps all its nanoseconds: the fraction \<open>parse_rfc3339_nano\<close> reads
  from the text \<open>format_rfc3339_nano\<close> writes is the fraction of the stamp, although
  trailing zeros are dropped and a whole second has no fraction at all.
\<close>

theorem stamp_fraction_roundtrip:
  assumes "st_nanos t < 10 ^ 9"
  shows "parsed_nanoseconds (format_rfc3339_nano t) = st_nanos t"
proof -
  have "length (pad 9 (nanoseconds t)) = 9" using assms by (intro pad_length) (simp_all add: nanoseconds_def)
  then show ?thesis
    by (simp add: parsed_nanoseconds_def fraction_of_format refill undec_pad nanoseconds_def del: take_append)
qed

definition sample_stamp :: stamp where
  "sample_stamp = \<lparr>st_year = 2025, st_month = 3, st_day = 9, st_hour = 8, st_minute = 7, st_second = 6,
     st_nanos = 50400, st_offset = Some 0\<rparr>"

theorem stamp_fraction_roundtrip_witness:
  "parsed_nanoseconds (format_rfc3339_nano sample_stamp) = 50400"
  using stamp_fraction_roundtrip [of sample_stamp] by (simp add: sample_stamp_def)

end
