(* ===== verification/EventLog.thy ===== *)
theory EventLog
  imports Protocol Timestamps Transcript
begin

text \<open>
  The event log of one stored session (\<open>store/store.py\<close>): its records, the replay that
  rebuilds the model context, the undo point and the truncation, and the file itself, one
  encoded record per line, with the reading that heals a torn tail.

  The encoding of a record (\<open>jsonutil\<close> over Python's \<open>json\<close>) is an argument: \<open>encode\<close> writes a
  line, \<open>decode\<close> is \<open>None\<close> where decoding raises. \<open>codec_ok\<close> states what the code relies on.
\<close>

section \<open>Records\<close>

definition EVENT_SESSION_STARTED :: string where "EVENT_SESSION_STARTED = ''session_started''"
definition EVENT_MESSAGE_APPENDED :: string where "EVENT_MESSAGE_APPENDED = ''message_appended''"
definition EVENT_APPROVAL_DECISION :: string where "EVENT_APPROVAL_DECISION = ''approval_decision''"
definition EVENT_TOOL_RESULT :: string where "EVENT_TOOL_RESULT = ''tool_result''"
definition EVENT_CANCEL :: string where "EVENT_CANCEL = ''cancel''"
definition EVENT_RESET :: string where "EVENT_RESET = ''reset''"
definition EVENT_ERROR :: string where "EVENT_ERROR = ''error''"
definition EVENT_CHECKPOINT :: string where "EVENT_CHECKPOINT = ''checkpoint''"
definition EVENT_COMPACT :: string where "EVENT_COMPACT = ''compact''"
definition EVENT_CONTEXT_REPLACED :: string where "EVENT_CONTEXT_REPLACED = ''context_replaced''"

lemmas event_names = EVENT_SESSION_STARTED_def EVENT_MESSAGE_APPENDED_def EVENT_APPROVAL_DECISION_def
  EVENT_TOOL_RESULT_def EVENT_CANCEL_def EVENT_RESET_def EVENT_ERROR_def EVENT_CHECKPOINT_def
  EVENT_COMPACT_def EVENT_CONTEXT_REPLACED_def

definition MAX_EVENT_BYTES :: nat where
  "MAX_EVENT_BYTES = 20 * 1024 * 1024"

record stored_file =
  sf_path :: string
  sf_exists :: bool
  sf_content :: string
  sf_mode :: int

record checkpoint =
  cp_id :: string
  cp_files :: "stored_file list"
  cp_reason :: string

record compact =
  co_summary :: string
  co_original :: "message list"
  co_kept :: "message list"

record log_record =
  lr_type :: string
  lr_session_id :: string
  lr_turn_id :: string
  lr_time :: stamp
  lr_message :: "message option"
  lr_tool_call :: "tool_call option"
  lr_decision :: string
  lr_result :: string
  lr_error :: string
  lr_checkpoint :: "checkpoint option"
  lr_compact :: "compact option"
  lr_messages :: "message list"

text \<open>\<open>Record(type=t)\<close>.\<close>

definition new_record :: "string \<Rightarrow> log_record" where
  "new_record t = \<lparr>lr_type = t, lr_session_id = '''', lr_turn_id = '''', lr_time = ZERO_TIME,
     lr_message = None, lr_tool_call = None, lr_decision = '''', lr_result = '''', lr_error = '''',
     lr_checkpoint = None, lr_compact = None, lr_messages = []\<rparr>"

section \<open>Replay\<close>

definition replay_record :: "message list \<Rightarrow> log_record \<Rightarrow> message list" where
  "replay_record ms r =
     (if lr_type r = EVENT_MESSAGE_APPENDED
      then (case lr_message r of None \<Rightarrow> ms | Some m \<Rightarrow> ms @ [m])
      else if lr_type r = EVENT_TOOL_RESULT
      then (case lr_tool_call r of None \<Rightarrow> ms | Some c \<Rightarrow> ms @ [tool_message c (lr_result r)])
      else if lr_type r = EVENT_RESET then system_messages ms
      else if lr_type r = EVENT_COMPACT
      then (case lr_compact r of None \<Rightarrow> ms | Some c \<Rightarrow> co_kept c)
      else if lr_type r = EVENT_CONTEXT_REPLACED then lr_messages r
      else ms)"

definition messages_from_records :: "log_record list \<Rightarrow> message list" where
  "messages_from_records rs = foldl replay_record [] rs"

text \<open>The identity, turn and time an append fills in are invisible to the replay.\<close>

definition stamped_as :: "log_record \<Rightarrow> log_record \<Rightarrow> bool" where
  "stamped_as r r' \<longleftrightarrow> (\<exists>s t m. r' = r\<lparr>lr_session_id := s, lr_turn_id := t, lr_time := m\<rparr>)"

lemma replay_record_cong:
  assumes "lr_type r' = lr_type r" and "lr_message r' = lr_message r" and "lr_tool_call r' = lr_tool_call r"
    and "lr_result r' = lr_result r" and "lr_compact r' = lr_compact r" and "lr_messages r' = lr_messages r"
  shows "replay_record ms r' = replay_record ms r"
  unfolding replay_record_def assms by (rule refl)

lemma replay_stamped: "stamped_as r r' \<Longrightarrow> replay_record ms r' = replay_record ms r"
  by (rule replay_record_cong) (auto simp: stamped_as_def)

lemma replay_append: "messages_from_records (rs @ [r]) = replay_record (messages_from_records rs) r"
  by (simp add: messages_from_records_def)

lemma replay_Nil [simp]: "messages_from_records [] = []"
  by (simp add: messages_from_records_def)

section \<open>The undo point\<close>

definition restorable :: "log_record \<Rightarrow> bool" where
  "restorable r = (lr_type r = EVENT_CHECKPOINT
     \<and> (case lr_checkpoint r of None \<Rightarrow> False | Some c \<Rightarrow> 0 < length (cp_files c)))"

fun newest_checkpoint :: "log_record list \<Rightarrow> nat \<Rightarrow> nat option" where
  "newest_checkpoint rs 0 = None"
| "newest_checkpoint rs (Suc i) = (if restorable (rs ! i) then Some i else newest_checkpoint rs i)"

definition undo_point :: "log_record list \<Rightarrow> (checkpoint \<times> message list \<times> nat) option" where
  "undo_point rs = (case newest_checkpoint rs (length rs) of
       None \<Rightarrow> None
     | Some i \<Rightarrow> Some (the (lr_checkpoint (rs ! i)), messages_from_records (take i rs), i))"

definition truncate_records :: "log_record list \<Rightarrow> int \<Rightarrow> log_record list" where
  "truncate_records rs keep =
     (if keep < 0 \<or> keep \<ge> int (length rs) - 1 then rs else take (nat (keep + 1)) rs)"

lemma newest_checkpoint_Some:
  "newest_checkpoint rs n = Some i \<Longrightarrow>
     i < n \<and> restorable (rs ! i) \<and> (\<forall>j. i < j \<and> j < n \<longrightarrow> \<not> restorable (rs ! j))"
proof (induction n)
  case (Suc n)
  then show ?case by (cases "restorable (rs ! n)") (auto simp: less_Suc_eq)
qed simp

lemma newest_checkpoint_None: "newest_checkpoint rs n = None \<Longrightarrow> \<forall>j < n. \<not> restorable (rs ! j)"
  by (induction n) (auto simp: less_Suc_eq split: if_splits)

lemma newest_checkpoint_take:
  "n \<le> k \<Longrightarrow> newest_checkpoint (take k rs) n = newest_checkpoint rs n"
  by (induction n) auto

lemma newest_checkpoint_here: "restorable (rs ! i) \<Longrightarrow> newest_checkpoint rs (Suc i) = Some i"
  by simp

lemma replay_checkpoint: "lr_type r = EVENT_CHECKPOINT \<Longrightarrow> replay_record ms r = ms"
  by (simp add: replay_record_def event_names)

lemma truncate_at_point:
  assumes "undo_point rs = Some (c, ms, i)"
  shows "truncate_records rs (int i) = take (Suc i) rs"
    and "messages_from_records (take (Suc i) rs) = ms"
    and "undo_point (take (Suc i) rs) = Some (c, ms, i)"
proof -
  from assms have n: "newest_checkpoint rs (length rs) = Some i" and c: "c = the (lr_checkpoint (rs ! i))"
    and ms: "ms = messages_from_records (take i rs)"
    by (auto simp: undo_point_def split: option.splits)
  from newest_checkpoint_Some [OF n] have i: "i < length rs" and r: "restorable (rs ! i)" by auto
  show "truncate_records rs (int i) = take (Suc i) rs"
    using i by (auto simp: truncate_records_def nat_add_distrib)
  show eq: "messages_from_records (take (Suc i) rs) = ms"
    using i r by (simp add: take_Suc_conv_app_nth replay_append ms replay_checkpoint restorable_def)
  have "newest_checkpoint (take (Suc i) rs) (Suc i) = Some i" using r by simp
  then show "undo_point (take (Suc i) rs) = Some (c, ms, i)"
    using i by (simp add: undo_point_def c ms min_absorb2)
qed

section \<open>The file\<close>

text \<open>\<open>bytes.strip()\<close> leaves nothing.\<close>

definition bytes_blank :: "string \<Rightarrow> bool" where
  "bytes_blank s = list_all (\<lambda>c. (of_char c :: nat) \<in> {9, 10, 11, 12, 13, 32}) s"

datatype log_error = EventTooLong nat | CorruptEvent nat

definition log_lines :: "string \<Rightarrow> string list" where
  "log_lines raw = (let ls = split_on newline raw in if last ls = [] then butlast ls else ls)"

text \<open>The loop of \<open>_records_unlocked\<close>; \<open>Some n\<close> beside the records truncates the file to \<open>n\<close> bytes.\<close>

fun read_lines ::
    "(string \<Rightarrow> log_record option) \<Rightarrow> string \<Rightarrow> nat \<Rightarrow> log_record list \<Rightarrow> string list
      \<Rightarrow> (log_error, log_record list \<times> nat option) result" where
  "read_lines decode raw good acc [] = Inr (acc, None)"
| "read_lines decode raw good acc (line # rest) =
     (if length line > MAX_EVENT_BYTES then Inl (EventTooLong good)
      else case decode line of
          None \<Rightarrow> if bytes_blank (drop (good + length line + 1) raw) then Inr (acc, Some good)
                  else Inl (CorruptEvent good)
        | Some r \<Rightarrow> read_lines decode raw (good + length line + 1) (acc @ [r]) rest)"

text \<open>The records beside the file as the read leaves it.\<close>

definition read_log :: "(string \<Rightarrow> log_record option) \<Rightarrow> string \<Rightarrow> (log_error, log_record list \<times> string) result" where
  "read_log decode raw = bind_result (read_lines decode raw 0 [] (log_lines raw))
     (\<lambda>(rs, cut). Inr (rs, case cut of None \<Rightarrow> raw | Some n \<Rightarrow> take n raw))"

text \<open>The end of \<open>_append_unlocked\<close>, and \<open>writeRecords\<close>.\<close>

definition append_line :: "(log_record \<Rightarrow> string) \<Rightarrow> string \<Rightarrow> log_record \<Rightarrow> string" where
  "append_line encode raw r = raw @ encode r @ [newline]"

definition writeRecords :: "(log_record \<Rightarrow> string) \<Rightarrow> log_record list \<Rightarrow> string" where
  "writeRecords encode rs = concat (map (\<lambda>r. encode r @ [newline]) rs)"

text \<open>
  A record is written on one line of bounded length and reads back as itself. Stated for
  the records at hand, so that it can be instantiated.
\<close>

definition codec_ok :: "(log_record \<Rightarrow> string) \<Rightarrow> (string \<Rightarrow> log_record option) \<Rightarrow> log_record set \<Rightarrow> bool" where
  "codec_ok encode decode R \<longleftrightarrow> (\<forall>r \<in> R. newline \<notin> set (encode r) \<and> encode r \<noteq> [] \<and> length (encode r) \<le> MAX_EVENT_BYTES
     \<and> decode (encode r) = Some r)"

lemma codec_ok_Un: "codec_ok encode decode (R \<union> S) \<longleftrightarrow> codec_ok encode decode R \<and> codec_ok encode decode S"
  by (auto simp: codec_ok_def)

lemma split_on_line: "sep \<notin> set w \<Longrightarrow> split_on sep (w @ sep # s) = w # split_on sep s"
  by (induction w) (auto split: list.splits)

lemma split_on_last: "sep \<notin> set w \<Longrightarrow> split_on sep w = [w]"
  by (induction w) auto

lemma writeRecords_simps [simp]:
  "writeRecords encode [] = []"
  "writeRecords encode (r # rs) = encode r @ newline # writeRecords encode rs"
  "writeRecords encode (rs @ ss) = writeRecords encode rs @ writeRecords encode ss"
  by (simp_all add: writeRecords_def)

lemma append_line_writeRecords: "append_line encode (writeRecords encode rs) r = writeRecords encode (rs @ [r])"
  by (simp add: append_line_def)

lemma split_on_records:
  "codec_ok encode decode (set rs) \<Longrightarrow> split_on newline (writeRecords encode rs @ s) = map encode rs @ split_on newline s"
  by (induction rs) (auto simp: codec_ok_def split_on_line)

lemma read_records:
  "codec_ok encode decode (set rs) \<Longrightarrow>
     read_lines decode raw good acc (map encode rs @ rest)
       = read_lines decode raw (good + length (writeRecords encode rs)) (acc @ rs) rest"
proof (induction rs arbitrary: good acc)
  case (Cons r rs)
  from Cons.prems have r: "codec_ok encode decode {r}" and rs: "codec_ok encode decode (set rs)"
    by (auto simp: codec_ok_def)
  from r have "length (encode r) \<le> MAX_EVENT_BYTES" "decode (encode r) = Some r" by (auto simp: codec_ok_def)
  then show ?case using Cons.IH [OF rs] by (simp add: add.assoc)
qed simp

lemma log_lines_tail:
  assumes "codec_ok encode decode (set rs)" and "newline \<notin> set t"
  shows "log_lines (writeRecords encode rs @ t) = map encode rs @ (if t = [] then [] else [t])"
  using assms by (simp add: log_lines_def split_on_records split_on_last)

lemma read_log_written:
  "codec_ok encode decode (set rs) \<Longrightarrow> read_log decode (writeRecords encode rs) = Inr (rs, writeRecords encode rs)"
  using log_lines_tail [of encode decode rs "[]"] read_records [of encode decode rs _ 0 "[]" "[]"]
  by (simp add: read_log_def)

lemma read_log_torn:
  assumes c: "codec_ok encode decode (set rs)" and t: "newline \<notin> set t" "t \<noteq> []" "length t \<le> MAX_EVENT_BYTES"
    and d: "decode t = None"
  shows "read_log decode (writeRecords encode rs @ t) = Inr (rs, writeRecords encode rs)"
  using log_lines_tail [OF c t(1)] read_records [OF c, where good = 0 and acc = "[]"] t d
  by (simp add: read_log_def bytes_blank_def)

lemma read_log_corrupt:
  assumes c: "codec_ok encode decode (set rs)" and t: "newline \<notin> set t" "length t \<le> MAX_EVENT_BYTES"
    and d: "decode t = None" and rest: "\<not> bytes_blank rest"
  shows "read_log decode (writeRecords encode rs @ t @ newline # rest) = Inl (CorruptEvent (length (writeRecords encode rs)))"
proof -
  have "split_on newline (writeRecords encode rs @ t @ newline # rest) = map encode rs @ t # split_on newline rest"
    using c t(1) by (simp add: split_on_records split_on_line)
  then have "log_lines (writeRecords encode rs @ t @ newline # rest)
      = map encode rs @ t # (if last (split_on newline rest) = [] then butlast (split_on newline rest)
          else split_on newline rest)"
    by (simp add: log_lines_def butlast_append)
  then show ?thesis
    using read_records [OF c, where good = 0 and acc = "[]"] t d rest by (simp add: read_log_def)
qed

section \<open>Properties\<close>

text \<open>
  C11. A crash in the middle of an append loses only the record being written: over a log of
  encodable records followed by a torn line, reading returns exactly the records and leaves
  the file as those records alone, so the next append reads back with them.
\<close>

theorem torn_tail_recovered:
  assumes "codec_ok encode decode (set (rs @ [r]))"
    and "newline \<notin> set t" and "t \<noteq> []" and "length t \<le> MAX_EVENT_BYTES" and "decode t = None"
  shows "read_log decode (writeRecords encode rs @ t) = Inr (rs, writeRecords encode rs)
    \<and> read_log decode (append_line encode (writeRecords encode rs) r) = Inr (rs @ [r], writeRecords encode (rs @ [r]))"
proof -
  from assms(1) have c: "codec_ok encode decode (set rs)" by (simp add: codec_ok_def)
  have "read_log decode (writeRecords encode rs @ t) = Inr (rs, writeRecords encode rs)"
    using read_log_torn [OF c] assms by blast
  moreover have "read_log decode (writeRecords encode (rs @ [r])) = Inr (rs @ [r], writeRecords encode (rs @ [r]))"
    by (rule read_log_written [OF assms(1)])
  ultimately show ?thesis by (simp only: append_line_writeRecords)
qed

definition sample_encode :: "log_record \<Rightarrow> string" where
  "sample_encode r = (if r = new_record EVENT_CANCEL then ''{c}'' else ''{r}'')"

definition sample_decode :: "string \<Rightarrow> log_record option" where
  "sample_decode s = (if s = ''{c}'' then Some (new_record EVENT_CANCEL)
     else if s = ''{r}'' then Some (new_record EVENT_RESET) else None)"

lemma sample_records_differ: "new_record EVENT_RESET \<noteq> new_record EVENT_CANCEL"
proof
  assume "new_record EVENT_RESET = new_record EVENT_CANCEL"
  then have "lr_type (new_record EVENT_RESET) = lr_type (new_record EVENT_CANCEL)" by (rule arg_cong)
  then show False by (simp add: new_record_def event_names)
qed

lemma sample_codec: "codec_ok sample_encode sample_decode {new_record EVENT_CANCEL, new_record EVENT_RESET}"
  using sample_records_differ
  by (simp add: codec_ok_def sample_encode_def sample_decode_def newline_def MAX_EVENT_BYTES_def)

theorem torn_tail_recovered_witness:
  "read_log sample_decode (writeRecords sample_encode [new_record EVENT_CANCEL] @ ''{r'')
     = Inr ([new_record EVENT_CANCEL], writeRecords sample_encode [new_record EVENT_CANCEL])"
  using torn_tail_recovered [where encode = sample_encode and decode = sample_decode
      and rs = "[new_record EVENT_CANCEL]" and r = "new_record EVENT_RESET" and t = "''{r''"] sample_codec
  by (simp add: sample_decode_def newline_def MAX_EVENT_BYTES_def)

text \<open>
  Corruption inside the log is never dropped silently: an undecodable line with anything
  but white space behind it makes the read fail at the offset where the line begins, whatever
  comes behind.
\<close>

theorem corruption_is_loud:
  assumes "codec_ok encode decode (set rs)" and "newline \<notin> set t" and "length t \<le> MAX_EVENT_BYTES"
    and "decode t = None" and "\<not> bytes_blank rest"
  shows "read_log decode (writeRecords encode rs @ t @ newline # rest)
    = Inl (CorruptEvent (length (writeRecords encode rs)))"
  by (rule read_log_corrupt [OF assms])

theorem corruption_is_loud_witness:
  "read_log sample_decode (writeRecords sample_encode [new_record EVENT_CANCEL] @ ''?'' @ newline # ''{c}'')
     = Inl (CorruptEvent (length (writeRecords sample_encode [new_record EVENT_CANCEL])))"
proof (rule corruption_is_loud)
  show "codec_ok sample_encode sample_decode (set [new_record EVENT_CANCEL])"
    using sample_codec by (simp add: codec_ok_def)
qed (simp_all add: sample_decode_def newline_def MAX_EVENT_BYTES_def bytes_blank_def)

text \<open>
  C12. The one tear the healing does not see: an append that stops just before its line feed.
  The file reads as complete and is left as it is, so the next append continues the same
  line; reading then drops both records as a torn tail, and once a third record follows the
  log does not read at all. All that is asked of the encoding is that two records on one
  line do not decode.
\<close>

theorem lost_newline_loses_records:
  assumes c: "codec_ok encode decode (set (rs @ [r1, r2, r3]))"
    and glued: "decode (encode r1 @ encode r2) = None" "length (encode r1 @ encode r2) \<le> MAX_EVENT_BYTES"
    and visible: "\<not> bytes_blank (encode r3)"
  shows "read_log decode (writeRecords encode rs @ encode r1)
        = Inr (rs @ [r1], writeRecords encode rs @ encode r1)
    \<and> read_log decode (append_line encode (writeRecords encode rs @ encode r1) r2)
        = Inr (rs, writeRecords encode rs)
    \<and> read_log decode (append_line encode (append_line encode (writeRecords encode rs @ encode r1) r2) r3)
        = Inl (CorruptEvent (length (writeRecords encode rs)))"
proof -
  from c have rs: "codec_ok encode decode (set rs)" and all: "codec_ok encode decode {r1, r2, r3}"
    by (auto simp: codec_ok_def)
  from all have free: "newline \<notin> set (encode r1)" "newline \<notin> set (encode r1 @ encode r2)"
    and r1: "encode r1 \<noteq> []" "length (encode r1) \<le> MAX_EVENT_BYTES" "decode (encode r1) = Some r1"
    by (auto simp: codec_ok_def)
  have 1: "read_log decode (writeRecords encode rs @ encode r1)
      = Inr (rs @ [r1], writeRecords encode rs @ encode r1)"
    using log_lines_tail [OF rs free(1)] read_records [OF rs, where good = 0 and acc = "[]"] r1
    by (simp add: read_log_def)
  define t where "t = encode r1 @ encode r2"
  have t: "newline \<notin> set t" "length t \<le> MAX_EVENT_BYTES" "decode t = None" "t \<noteq> []"
    using free glued r1 by (simp_all add: t_def)
  have "split_on newline (writeRecords encode rs @ t @ [newline]) = map encode rs @ [t, []]"
    using rs t(1) by (simp add: split_on_records split_on_line)
  then have "log_lines (writeRecords encode rs @ t @ [newline]) = map encode rs @ [t]"
    by (simp add: log_lines_def butlast_append)
  then have 2: "read_log decode (writeRecords encode rs @ t @ [newline]) = Inr (rs, writeRecords encode rs)"
    using read_records [OF rs, where good = 0 and acc = "[]"] t by (simp add: read_log_def bytes_blank_def)
  have "\<not> bytes_blank (encode r3 @ [newline])" using visible by (simp add: bytes_blank_def)
  from read_log_corrupt [OF rs t(1,2,3) this]
  have 3: "read_log decode (writeRecords encode rs @ t @ newline # encode r3 @ [newline])
      = Inl (CorruptEvent (length (writeRecords encode rs)))" .
  from 1 2 3 show ?thesis by (simp add: append_line_def t_def)
qed

theorem lost_newline_loses_records_witness:
  "read_log sample_decode (append_line sample_encode ''{c}'' (new_record EVENT_RESET)) = Inr ([], [])"
proof -
  have "codec_ok sample_encode sample_decode (set ([] @ [new_record EVENT_CANCEL, new_record EVENT_RESET, new_record EVENT_CANCEL]))"
    using sample_codec by (simp add: codec_ok_def)
  note l = lost_newline_loses_records [OF this]
  have e: "sample_encode (new_record EVENT_CANCEL) = ''{c}''" "sample_encode (new_record EVENT_RESET) = ''{r}''"
    using sample_records_differ by (simp_all add: sample_encode_def)
  from l show ?thesis
    by (simp add: e sample_decode_def MAX_EVENT_BYTES_def bytes_blank_def)
qed

text \<open>
  An undo that truncates the log at its own undo point agrees with what it puts into the
  engine: the kept log replays to exactly the messages the undo point returned, no newer
  restorable checkpoint was skipped, and a second undo finds the same checkpoint again.
\<close>

theorem undo_truncation_agrees:
  assumes "undo_point rs = Some (c, ms, i)"
  shows "messages_from_records (truncate_records rs (int i)) = ms
    \<and> undo_point (truncate_records rs (int i)) = Some (c, ms, i)
    \<and> (\<forall>r \<in> set (drop (Suc i) rs). \<not> restorable r)"
proof -
  note t = truncate_at_point [OF assms]
  from assms have n: "newest_checkpoint rs (length rs) = Some i"
    by (auto simp: undo_point_def split: option.splits)
  have "\<not> restorable r" if "r \<in> set (drop (Suc i) rs)" for r
  proof -
    from that obtain k where "k < length rs - Suc i" "r = rs ! (Suc i + k)"
      by (auto simp: in_set_conv_nth)
    then show ?thesis using newest_checkpoint_Some [OF n] by simp
  qed
  with t show ?thesis by simp
qed

definition sample_checkpoint :: checkpoint where
  "sample_checkpoint = \<lparr>cp_id = ''t1'', cp_files = [\<lparr>sf_path = ''/w/a'', sf_exists = True, sf_content = ''x'', sf_mode = 420\<rparr>],
     cp_reason = ''write_file''\<rparr>"

definition sample_log :: "log_record list" where
  "sample_log =
     [(new_record EVENT_MESSAGE_APPENDED)\<lparr>lr_message := Some (default_message\<lparr>msg_role := ROLE_USER\<rparr>)\<rparr>,
      (new_record EVENT_CHECKPOINT)\<lparr>lr_checkpoint := Some sample_checkpoint\<rparr>,
      (new_record EVENT_TOOL_RESULT)\<lparr>lr_tool_call := Some default_tool_call\<rparr>,
      new_record EVENT_CANCEL]"

theorem undo_truncation_agrees_witness:
  "messages_from_records (truncate_records sample_log 1) = [default_message\<lparr>msg_role := ROLE_USER\<rparr>]"
proof -
  have "undo_point sample_log = Some (sample_checkpoint, [default_message\<lparr>msg_role := ROLE_USER\<rparr>], 1)" by code_simp
  from undo_truncation_agrees [OF this] show ?thesis by simp
qed

end
