(* ===== verification/SessionStore.thy ===== *)
theory SessionStore
  imports EventLog "HOL-Library.AList" "HOL-Library.Char_ord" "HOL-Library.List_Lexorder"
begin

text \<open>
  The durable session store (\<open>store/store.py\<close>): one directory per session with its metadata
  file and its event log, the memory file, and every operation of \<open>Store\<close>. An operation
  runs under the store's lock from its first read to its last write, so it is one function
  from the old files to the new ones; one that raises before its first write returns the
  error alone.

  Files are their contents: a directory holds the metadata, when the file is there and
  decodes, and the records of the log. How the bytes of a log become its records, a torn
  tail included, is in EventLog. The clock and SHA-256 are arguments, writes succeed.
\<close>

section \<open>State\<close>

record stored_root_spec =
  sr_path :: string
  sr_access :: string

record stored_workspace_spec =
  sw_primary_root :: string
  sw_cwd :: string
  sw_roots :: "stored_root_spec list"

record stored_meta =
  sm_id :: string
  sm_title :: string
  sm_created_at :: stamp
  sm_updated_at :: stamp
  sm_provider :: string
  sm_model :: string
  sm_cwd :: string
  sm_fingerprint :: string
  sm_sources :: "string list"
  sm_current_turn_id :: string
  sm_parent_id :: string
  sm_project_id :: string
  sm_config_root :: string
  sm_workspace :: "stored_workspace_spec option"

datatype meta_file = NoMeta | BadMeta | MetaFile stored_meta

record session_dir =
  sd_meta :: meta_file
  sd_events :: "log_record list option"

record store =
  so_dirs :: "(string \<times> session_dir) list"
  so_memory :: "string list option"

datatype store_error = StoreValueError string | StoreNotFound string | StoreDecodeError string

text \<open>\<open>new(root)\<close> over a root that does not exist yet.\<close>

definition new_store :: store where
  "new_store = \<lparr>so_dirs = [], so_memory = None\<rparr>"

definition get_dir :: "store \<Rightarrow> string \<Rightarrow> session_dir option" where
  "get_dir st i = map_of (so_dirs st) i"

definition put_dir :: "store \<Rightarrow> string \<Rightarrow> session_dir \<Rightarrow> store" where
  "put_dir st i d = st\<lparr>so_dirs := AList.update i d (so_dirs st)\<rparr>"

text \<open>\<open>_ensure_dir\<close>: the directory as it is, or a fresh one.\<close>

definition ensured_dir :: "store \<Rightarrow> string \<Rightarrow> session_dir" where
  "ensured_dir st i = (case get_dir st i of None \<Rightarrow> \<lparr>sd_meta = NoMeta, sd_events = None\<rparr> | Some d \<Rightarrow> d)"

definition remove_session_dir :: "store \<Rightarrow> string \<Rightarrow> store" where
  "remove_session_dir st i = st\<lparr>so_dirs := AList.delete i (so_dirs st)\<rparr>"

section \<open>Identifiers\<close>

definition new_id :: "stamp \<Rightarrow> string" where
  "new_id moment = format_id moment False"

definition new_turn_id :: "stamp \<Rightarrow> string" where
  "new_turn_id moment = format_id moment True"

definition basename :: "string \<Rightarrow> string" where
  "basename p = last (split_on CHR ''/'' p)"

definition id_char :: "char \<Rightarrow> bool" where
  "id_char c = (let n = (of_char c :: nat) in
     (48 \<le> n \<and> n \<le> 57) \<or> (97 \<le> n \<and> n \<le> 122) \<or> (65 \<le> n \<and> n \<le> 90) \<or> c \<in> set ''-_'')"

definition validateID :: "string \<Rightarrow> (store_error, unit) result" where
  "validateID name =
     (if name = '''' then Inl (StoreValueError ''session id is required'')
      else if name \<in> {''.'', ''..''} \<or> name \<noteq> basename name \<or> startswith name ''_''
        then Inl (StoreValueError (''invalid session id: '' @ name))
      else if list_all id_char name then Inr ()
      else Inl (StoreValueError (''invalid session id: '' @ name)))"

definition fingerprint :: "(string \<Rightarrow> string) \<Rightarrow> message list \<Rightarrow> string" where
  "fingerprint sha256 ms =
     sha256 (concat (map (\<lambda>m. msg_content m @ [CHR 0x00]) (filter (\<lambda>m. msg_role m = ROLE_SYSTEM) ms)))"

section \<open>Metadata\<close>

definition read_meta :: "store \<Rightarrow> string \<Rightarrow> (store_error, stored_meta) result" where
  "read_meta st i = (case get_dir st i of
       None \<Rightarrow> Inl (StoreNotFound i)
     | Some d \<Rightarrow> (case sd_meta d of
           NoMeta \<Rightarrow> Inl (StoreNotFound i)
         | BadMeta \<Rightarrow> Inl (StoreDecodeError i)
         | MetaFile m \<Rightarrow> Inr m))"

definition write_meta :: "store \<Rightarrow> stored_meta \<Rightarrow> (store_error, store) result" where
  "write_meta st m = bind_result (validateID (sm_id m))
     (\<lambda>_. Inr (put_dir st (sm_id m) ((ensured_dir st (sm_id m))\<lparr>sd_meta := MetaFile m\<rparr>)))"

definition store_metadata :: "store \<Rightarrow> string \<Rightarrow> (store_error, stored_meta) result" where
  "store_metadata st i = bind_result (validateID i) (\<lambda>_. read_meta st i)"

definition set_current_turn :: "stamp \<Rightarrow> store \<Rightarrow> string \<Rightarrow> string \<Rightarrow> (store_error, store) result" where
  "set_current_turn moment st i turn =
     bind_result (validateID i) (\<lambda>_. bind_result (read_meta st i)
       (\<lambda>m. write_meta st (m\<lparr>sm_current_turn_id := turn, sm_updated_at := moment\<rparr>)))"

definition save_workspace_description ::
    "stamp \<Rightarrow> store \<Rightarrow> string \<Rightarrow> stored_workspace_spec \<Rightarrow> (store_error, store) result" where
  "save_workspace_description moment st i w = bind_result (read_meta st i)
     (\<lambda>m. write_meta st (m\<lparr>sm_workspace := Some w, sm_cwd := sw_cwd w, sm_updated_at := moment\<rparr>))"

definition store_rename :: "stamp \<Rightarrow> store \<Rightarrow> string \<Rightarrow> string \<Rightarrow> (store_error, store) result" where
  "store_rename moment st i title =
     bind_result (validateID i) (\<lambda>_.
       let t = py_strip title
       in if t = '''' then Inl (StoreValueError ''title is required'')
          else bind_result (read_meta st i)
            (\<lambda>m. write_meta st (m\<lparr>sm_title := t, sm_updated_at := moment\<rparr>)))"

definition store_delete :: "store \<Rightarrow> string \<Rightarrow> (store_error, store) result" where
  "store_delete st i = bind_result (validateID i) (\<lambda>_. Inr (remove_session_dir st i))"

section \<open>The log\<close>

definition fill_record :: "stamp \<Rightarrow> string \<Rightarrow> log_record \<Rightarrow> log_record" where
  "fill_record moment i r =
     (let r1 = (if lr_session_id r = '''' then r\<lparr>lr_session_id := i\<rparr> else r)
      in if isZeroTime (lr_time r1) then r1\<lparr>lr_time := moment\<rparr> else r1)"

definition add_event :: "store \<Rightarrow> string \<Rightarrow> log_record \<Rightarrow> store" where
  "add_event st i r = (let d = ensured_dir st i
     in put_dir st i (d\<lparr>sd_events := Some ((case sd_events d of None \<Rightarrow> [] | Some rs \<Rightarrow> rs) @ [r])\<rparr>))"

definition append_unlocked :: "stamp \<Rightarrow> store \<Rightarrow> string \<Rightarrow> log_record \<Rightarrow> (store_error, store) result" where
  "append_unlocked moment st i r =
     (if lr_type r = '''' then Inl (StoreValueError ''record type is required'')
      else case read_meta st i of
          Inl (StoreNotFound _) \<Rightarrow> Inr (add_event st i (fill_record moment i r))
        | Inl e \<Rightarrow> Inl e
        | Inr m \<Rightarrow>
            let r1 = r\<lparr>lr_session_id := i,
                  lr_turn_id := (if lr_turn_id r \<noteq> '''' then lr_turn_id r else sm_current_turn_id m)\<rparr>;
                st1 = (case write_meta st (m\<lparr>sm_updated_at := moment\<rparr>) of Inl _ \<Rightarrow> st | Inr st' \<Rightarrow> st')
            in Inr (add_event st1 i (fill_record moment i r1)))"

definition store_append :: "stamp \<Rightarrow> store \<Rightarrow> string \<Rightarrow> log_record \<Rightarrow> (store_error, store) result" where
  "store_append moment st i r = bind_result (validateID i) (\<lambda>_. append_unlocked moment st i r)"

definition records_unlocked :: "store \<Rightarrow> string \<Rightarrow> (store_error, log_record list) result" where
  "records_unlocked st i = (case get_dir st i of
       None \<Rightarrow> Inl (StoreNotFound i)
     | Some d \<Rightarrow> (case sd_events d of None \<Rightarrow> Inl (StoreNotFound i) | Some rs \<Rightarrow> Inr rs))"

definition store_records :: "store \<Rightarrow> string \<Rightarrow> (store_error, log_record list) result" where
  "store_records st i = bind_result (validateID i) (\<lambda>_. records_unlocked st i)"

definition store_messages :: "store \<Rightarrow> string \<Rightarrow> (store_error, message list) result" where
  "store_messages st i = bind_result (records_unlocked st i) (\<lambda>rs. Inr (messages_from_records rs))"

definition checkpoint_undo :: "store \<Rightarrow> string \<Rightarrow> (store_error, checkpoint \<times> message list \<times> nat) result" where
  "checkpoint_undo st i = bind_result (store_records st i) (\<lambda>rs.
     case undo_point rs of None \<Rightarrow> Inl (StoreNotFound ''no checkpoint to undo'') | Some p \<Rightarrow> Inr p)"

definition last_checkpoint :: "store \<Rightarrow> string \<Rightarrow> (store_error, checkpoint option) result" where
  "last_checkpoint st i = (case checkpoint_undo st i of
       Inl (StoreNotFound _) \<Rightarrow> Inr None | Inl e \<Rightarrow> Inl e | Inr (c, _, _) \<Rightarrow> Inr (Some c))"

definition truncate_after :: "store \<Rightarrow> string \<Rightarrow> int \<Rightarrow> (store_error, store) result" where
  "truncate_after st i keep = bind_result (store_records st i) (\<lambda>rs.
     Inr (put_dir st i ((ensured_dir st i)\<lparr>sd_events := Some (truncate_records rs keep)\<rparr>)))"

section \<open>Creation, listing, memory\<close>

definition create_appends :: "stamp \<Rightarrow> store \<Rightarrow> string \<Rightarrow> message list \<Rightarrow> (store_error, store) result" where
  "create_appends moment st i ms =
     bind_result (append_unlocked moment st i (new_record EVENT_SESSION_STARTED)) (\<lambda>st1.
       fold_result (\<lambda>s m. append_unlocked moment s i ((new_record EVENT_MESSAGE_APPENDED)\<lparr>lr_message := Some m\<rparr>)) st1 ms)"

definition completed_meta :: "(string \<Rightarrow> string) \<Rightarrow> stamp \<Rightarrow> stored_meta \<Rightarrow> message list \<Rightarrow> stored_meta" where
  "completed_meta sha256 moment m ms =
     (let m1 = (if isZeroTime (sm_created_at m) then m\<lparr>sm_created_at := moment\<rparr> else m);
          m2 = m1\<lparr>sm_updated_at := moment\<rparr>;
          m3 = (if sm_title m2 = '''' then m2\<lparr>sm_title := ''Untitled''\<rparr> else m2)
      in if sm_fingerprint m3 = '''' then m3\<lparr>sm_fingerprint := fingerprint sha256 ms\<rparr> else m3)"

text \<open>A failure removes the directory the creation started, and is raised.\<close>

definition store_create ::
    "(string \<Rightarrow> string) \<Rightarrow> stamp \<Rightarrow> store \<Rightarrow> stored_meta \<Rightarrow> message list \<Rightarrow> store \<times> (store_error, stored_meta) result" where
  "store_create sha256 moment st meta ms =
     (let m0 = (if sm_id meta = '''' then meta\<lparr>sm_id := new_id moment\<rparr> else meta)
      in case validateID (sm_id m0) of
          Inl e \<Rightarrow> (st, Inl e)
        | Inr _ \<Rightarrow>
            let m = completed_meta sha256 moment m0 ms; i = sm_id m
            in case bind_result (create_appends moment st i ms) (\<lambda>st1. write_meta st1 m) of
                Inl e \<Rightarrow> (remove_session_dir st i, Inl e)
              | Inr st2 \<Rightarrow> (st2, Inr m))"

record stored_summary =
  su_id :: string
  su_title :: string
  su_updated_at :: stamp
  su_provider :: string
  su_model :: string
  su_cwd :: string
  su_parent_id :: string

definition summary_of :: "stored_meta \<Rightarrow> stored_summary" where
  "summary_of m = \<lparr>su_id = sm_id m, su_title = sm_title m, su_updated_at = sm_updated_at m,
     su_provider = sm_provider m, su_model = sm_model m, su_cwd = sm_cwd m, su_parent_id = sm_parent_id m\<rparr>"

text \<open>
  A directory without readable metadata is skipped. \<open>sort(key, reverse=True)\<close> is stable, as
  sorting by the negated key is.
\<close>

definition store_list :: "store \<Rightarrow> stored_summary list" where
  "store_list st = sort_key (\<lambda>s. - int (stamp_key (su_updated_at s)))
     (concat (map (\<lambda>n. case read_meta st n of Inl _ \<Rightarrow> [] | Inr m \<Rightarrow> [summary_of m]) (sort (map fst (so_dirs st)))))"

definition load_memory :: "store \<Rightarrow> string list" where
  "load_memory st = (case so_memory st of None \<Rightarrow> [] | Some items \<Rightarrow> items)"

definition save_memory :: "store \<Rightarrow> string list \<Rightarrow> store" where
  "save_memory st items = st\<lparr>so_memory := Some items\<rparr>"

section \<open>Well-formed stores\<close>

text \<open>
  Directory names are distinct, and the metadata of a directory carries its name: the store
  writes \<open>meta.json\<close> into the directory the metadata names.
\<close>

definition store_ok :: "store \<Rightarrow> bool" where
  "store_ok st \<longleftrightarrow> distinct (map fst (so_dirs st))
     \<and> (\<forall>i d m. get_dir st i = Some d \<and> sd_meta d = MetaFile m \<longrightarrow> sm_id m = i)"

lemma get_put [simp]: "get_dir (put_dir st i d) j = (if i = j then Some d else get_dir st j)"
  by (simp add: get_dir_def put_dir_def update_conv')

lemma get_remove [simp]: "get_dir (remove_session_dir st i) j = (if i = j then None else get_dir st j)"
  by (simp add: get_dir_def remove_session_dir_def delete_conv')

lemma get_memory [simp]: "get_dir (save_memory st items) j = get_dir st j"
  by (simp add: get_dir_def save_memory_def)

lemma put_memory [simp]: "so_memory (put_dir st i d) = so_memory st"
  by (simp add: put_dir_def)

lemma store_ok_put:
  "store_ok st \<Longrightarrow> (\<And>m. sd_meta d = MetaFile m \<Longrightarrow> sm_id m = i) \<Longrightarrow> store_ok (put_dir st i d)"
  by (auto simp: store_ok_def) (simp add: put_dir_def distinct_update)

lemma store_ok_remove: "store_ok st \<Longrightarrow> store_ok (remove_session_dir st i)"
  by (auto simp: store_ok_def split: if_splits) (simp add: remove_session_dir_def distinct_delete)

lemma store_ok_new: "store_ok new_store"
  by (simp add: store_ok_def new_store_def get_dir_def)

lemma read_meta_id: "store_ok st \<Longrightarrow> read_meta st i = Inr m \<Longrightarrow> sm_id m = i"
  by (auto simp: read_meta_def store_ok_def split: option.splits meta_file.splits)

section \<open>A live session\<close>

text \<open>
  A session the store can serve: its identifier is valid, its metadata decodes and its log is
  there. \<open>log_of\<close> is the log, \<open>replayed\<close> the model context it rebuilds.
\<close>

definition log_of :: "store \<Rightarrow> string \<Rightarrow> log_record list" where
  "log_of st i = (case get_dir st i of None \<Rightarrow> [] | Some d \<Rightarrow> (case sd_events d of None \<Rightarrow> [] | Some rs \<Rightarrow> rs))"

definition replayed :: "store \<Rightarrow> string \<Rightarrow> message list" where
  "replayed st i = messages_from_records (log_of st i)"

definition live :: "store \<Rightarrow> string \<Rightarrow> bool" where
  "live st i \<longleftrightarrow> store_ok st \<and> validateID i = Inr ()
     \<and> (\<exists>m. read_meta st i = Inr m) \<and> (\<exists>rs. records_unlocked st i = Inr rs)"

lemma liveE:
  assumes "live st i"
  obtains m rs where "store_ok st" "validateID i = Inr ()"
    "get_dir st i = Some \<lparr>sd_meta = MetaFile m, sd_events = Some rs\<rparr>" "sm_id m = i"
    "read_meta st i = Inr m" "log_of st i = rs"
proof -
  from assms obtain m rs where a: "store_ok st" "validateID i = Inr ()" "read_meta st i = Inr m"
    "records_unlocked st i = Inr rs" by (auto simp: live_def)
  then obtain d where "get_dir st i = Some d" "sd_meta d = MetaFile m" "sd_events d = Some rs"
    by (auto simp: read_meta_def records_unlocked_def split: option.splits meta_file.splits)
  then have "get_dir st i = Some \<lparr>sd_meta = MetaFile m, sd_events = Some rs\<rparr>" "log_of st i = rs"
    by (simp_all add: log_of_def)
  then show thesis by (rule that [OF a(1,2) _ read_meta_id [OF a(1,3)] a(3)])
qed

lemma liveI:
  assumes "store_ok st" and "validateID i = Inr ()"
    and "get_dir st i = Some \<lparr>sd_meta = MetaFile m, sd_events = Some rs\<rparr>"
  shows "live st i" and "log_of st i = rs"
  using assms by (auto simp: live_def read_meta_def records_unlocked_def log_of_def)

lemma live_reads:
  assumes "live st i"
  shows "store_records st i = Inr (log_of st i)" and "records_unlocked st i = Inr (log_of st i)"
    and "store_messages st i = Inr (replayed st i)"
  using assms by (auto simp: live_def store_records_def store_messages_def log_of_def replayed_def
      records_unlocked_def split: option.splits)

lemma stamped_fill: "stamped_as r (fill_record moment i (r\<lparr>lr_session_id := s, lr_turn_id := t\<rparr>))"
proof -
  have "\<exists>a b c. r' = r\<lparr>lr_session_id := a, lr_turn_id := b, lr_time := c\<rparr>"
    if "lr_type r' = lr_type r" "lr_message r' = lr_message r" "lr_tool_call r' = lr_tool_call r"
      "lr_decision r' = lr_decision r" "lr_result r' = lr_result r" "lr_error r' = lr_error r"
      "lr_checkpoint r' = lr_checkpoint r" "lr_compact r' = lr_compact r" "lr_messages r' = lr_messages r" for r'
    using that by (intro exI [of _ "lr_session_id r'"] exI [of _ "lr_turn_id r'"] exI [of _ "lr_time r'"])
      (simp add: log_record.equality)
  then show ?thesis unfolding stamped_as_def
    by (rule meta_mp) (simp_all add: fill_record_def Let_def)
qed

text \<open>What one append does to a live session: the record at the end of its log, a new update time, nothing else.\<close>

lemma append_live:
  assumes l: "live st i" and t: "lr_type r \<noteq> ''''"
  obtains st' r' where "store_append moment st i r = Inr st'" "live st' i" "stamped_as r r'"
    "log_of st' i = log_of st i @ [r']" "\<And>j. j \<noteq> i \<Longrightarrow> get_dir st' j = get_dir st j"
    "so_memory st' = so_memory st"
proof -
  from l obtain m rs where ok: "store_ok st" and v: "validateID i = Inr ()"
    and d: "get_dir st i = Some \<lparr>sd_meta = MetaFile m, sd_events = Some rs\<rparr>"
    and m: "sm_id m = i" and rm: "read_meta st i = Inr m" and log: "log_of st i = rs" by (rule liveE)
  define m' where "m' = m\<lparr>sm_updated_at := moment\<rparr>"
  define r' where "r' = fill_record moment i (r\<lparr>lr_session_id := i,
    lr_turn_id := (if lr_turn_id r \<noteq> '''' then lr_turn_id r else sm_current_turn_id m)\<rparr>)"
  define st1 where "st1 = put_dir st i \<lparr>sd_meta = MetaFile m', sd_events = Some rs\<rparr>"
  define st' where "st' = put_dir st1 i \<lparr>sd_meta = MetaFile m', sd_events = Some (rs @ [r'])\<rparr>"
  have id': "sm_id m' = i" using m by (simp add: m'_def)
  have w: "write_meta st m' = Inr st1"
    using v id' d by (simp add: write_meta_def ensured_dir_def st1_def)
  have a: "store_append moment st i r = Inr st'"
    using v t rm w
    by (simp add: store_append_def append_unlocked_def m'_def [symmetric] Let_def r'_def [symmetric]
        add_event_def ensured_dir_def st'_def st1_def)
  have ok': "store_ok st'" unfolding st'_def st1_def using ok id' by (intro store_ok_put) auto
  have g: "get_dir st' i = Some \<lparr>sd_meta = MetaFile m', sd_events = Some (rs @ [r'])\<rparr>" by (simp add: st'_def)
  note live' = liveI [OF ok' v g]
  have others: "get_dir st' j = get_dir st j" if "j \<noteq> i" for j using that by (simp add: st'_def st1_def)
  have mem: "so_memory st' = so_memory st" by (simp add: st'_def st1_def)
  show thesis
    by (rule that [OF a live'(1) _ _ others mem]) (simp_all add: r'_def stamped_fill live'(2) log)
qed

text \<open>The store after an append to a live session, as a function.\<close>

definition appended :: "stamp \<Rightarrow> store \<Rightarrow> string \<Rightarrow> log_record \<Rightarrow> store" where
  "appended moment st i r = (case store_append moment st i r of Inl _ \<Rightarrow> st | Inr st' \<Rightarrow> st')"

section \<open>The transcript port\<close>

text \<open>
  What the session relies on when it saves: a record is accepted and the replayed context is
  the one the record makes of the old one. The messages a save of each kind leaves follow
  from that alone.
\<close>

locale transcript_port =
  fixes ok :: "'s \<Rightarrow> bool"
    and context_of :: "'s \<Rightarrow> message list"
    and save :: "'s \<Rightarrow> log_record \<Rightarrow> 's"
  assumes save_ok: "ok s \<Longrightarrow> lr_type r \<noteq> '''' \<Longrightarrow> ok (save s r)"
    and save_context: "ok s \<Longrightarrow> lr_type r \<noteq> '''' \<Longrightarrow> context_of (save s r) = replay_record (context_of s) r"
begin

lemma save_audit:
  assumes "ok s" and "lr_type r \<in> {EVENT_SESSION_STARTED, EVENT_APPROVAL_DECISION, EVENT_CANCEL, EVENT_ERROR, EVENT_CHECKPOINT}"
  shows "ok (save s r)" and "context_of (save s r) = context_of s"
proof -
  have "lr_type r \<noteq> ''''" using assms(2) by (auto simp: event_names)
  then show "ok (save s r)" and "context_of (save s r) = context_of s"
    using assms by (auto simp: save_ok save_context replay_record_def event_names)
qed

lemma save_appended:
  "ok s \<Longrightarrow> context_of (save s ((new_record EVENT_MESSAGE_APPENDED)\<lparr>lr_message := Some m\<rparr>)) = context_of s @ [m]"
  by (simp add: save_context replay_record_def new_record_def event_names)

lemma save_tool_result:
  "ok s \<Longrightarrow> context_of (save s ((new_record EVENT_TOOL_RESULT)\<lparr>lr_tool_call := Some c, lr_result := t\<rparr>))
     = context_of s @ [tool_message c t]"
  by (simp add: save_context replay_record_def new_record_def event_names)

lemma save_reset: "ok s \<Longrightarrow> context_of (save s (new_record EVENT_RESET)) = system_messages (context_of s)"
  by (simp add: save_context replay_record_def new_record_def event_names)

lemma save_replacement:
  "ok s \<Longrightarrow> context_of (save s ((new_record EVENT_CONTEXT_REPLACED)\<lparr>lr_messages := ms\<rparr>)) = ms"
  by (simp add: save_context replay_record_def new_record_def event_names)

lemma save_compaction:
  "ok s \<Longrightarrow> context_of (save s ((new_record EVENT_COMPACT)\<lparr>lr_compact := Some c\<rparr>)) = co_kept c"
  by (simp add: save_context replay_record_def new_record_def event_names)

lemma saves_ok:
  "ok s \<Longrightarrow> (\<And>r. r \<in> set rs \<Longrightarrow> lr_type r \<noteq> '''') \<Longrightarrow>
     ok (foldl save s rs) \<and> context_of (foldl save s rs) = foldl replay_record (context_of s) rs"
  by (induction rs arbitrary: s) (simp_all add: save_ok save_context)

end

text \<open>The store provides the port for each of its live sessions, at any time.\<close>

interpretation stored: transcript_port "\<lambda>st. live st i" "\<lambda>st. replayed st i" "\<lambda>st r. appended moment st i r"
  for i moment
proof
  fix s and r :: log_record
  assume a: "live s i" "lr_type r \<noteq> ''''"
  obtain st' r' where s: "store_append moment s i r = Inr st'" "live st' i" "stamped_as r r'"
    "log_of st' i = log_of s i @ [r']" using append_live [OF a] by metis
  then show "live (appended moment s i r) i" by (simp add: appended_def)
  show "replayed (appended moment s i r) i = replay_record (replayed s i) r"
    using s by (simp add: appended_def replayed_def replay_append replay_stamped)
qed

text \<open>So does a bare list of records, which is what the file holds.\<close>

interpretation listed: transcript_port "\<lambda>_. True" messages_from_records "\<lambda>rs r. rs @ [r]"
  by unfold_locales (simp_all add: replay_append)

section \<open>Identifiers are path components\<close>

lemma basename_id: "CHR ''/'' \<notin> set n \<Longrightarrow> basename n = n"
  by (simp add: basename_def split_on_last)

lemma id_char_facts: "id_char c \<Longrightarrow> c \<noteq> CHR ''/'' \<and> c \<noteq> CHR ''.''"
  by (auto simp: id_char_def Let_def)

lemma validateID_iff:
  "validateID n = Inr () \<longleftrightarrow> n \<noteq> '''' \<and> list_all id_char n \<and> hd n \<noteq> CHR ''_''"
proof (cases "list_all id_char n")
  case True
  then have "CHR ''/'' \<notin> set n" and dot: "CHR ''.'' \<notin> set n"
    by (auto simp: list_all_iff dest: id_char_facts)
  then have "basename n = n" by (simp add: basename_id)
  moreover have "n \<notin> {''.'', ''..''}" using dot by auto
  ultimately show ?thesis using True by (cases n) (auto simp: validateID_def startswith_def)
next
  case False
  then show ?thesis by (auto simp: validateID_def)
qed

lemma digit_id_char: "is_digit c \<Longrightarrow> id_char c \<and> c \<noteq> CHR ''_''"
  by (auto simp: is_digit_def id_char_def)

lemma pad_id_chars: "list_all id_char (pad w n)"
  by (auto simp: list_all_iff dest!: pad_digits digit_id_char)

lemma pad_head: "pad w n \<noteq> [] \<and> hd (pad w n) \<noteq> CHR ''_''"
proof -
  have "pad w n \<noteq> []" by (simp add: pad_def)
  then have "is_digit (hd (pad w n))" by (metis hd_in_set pad_digits)
  with \<open>pad w n \<noteq> []\<close> show ?thesis by (auto dest: digit_id_char)
qed

lemma new_id_valid: "validateID (new_id t) = Inr ()"
proof -
  have "hd (new_id t) = hd (pad 4 (st_year t))" "new_id t \<noteq> []"
    using pad_head [of 4 "st_year t"] by (simp_all add: new_id_def format_id_def)
  moreover have "list_all id_char (new_id t)"
    by (simp add: new_id_def format_id_def pad_id_chars list_all_append) (simp add: id_char_def)
  ultimately show ?thesis using pad_head [of 4 "st_year t"] by (simp add: validateID_iff)
qed

text \<open>
  The identifiers the store accepts are exactly the non-empty names of letters, digits,
  \<open>-\<close> and \<open>_\<close> that do not begin with \<open>_\<close>: joined to the sessions root each is one path
  component that is neither a dot segment nor the memory file, and every identifier the
  store issues is among them.
\<close>

theorem session_ids_safe:
  "(validateID n = Inr ()) = (n \<noteq> '''' \<and> list_all id_char n \<and> hd n \<noteq> CHR ''_'')
   \<and> validateID (new_id t) = Inr ()
   \<and> (validateID n = Inr () \<longrightarrow>
        CHR ''/'' \<notin> set n \<and> n \<notin> {''.'', ''..'', ''_memory.json''} \<and> basename n = n)"
proof -
  have "CHR ''/'' \<notin> set n \<and> CHR ''.'' \<notin> set n" if "list_all id_char n"
    using that by (auto simp: list_all_iff dest: id_char_facts)
  then show ?thesis by (auto simp: validateID_iff new_id_valid basename_id)
qed

theorem session_ids_safe_witness:
  "basename (new_id sample_stamp) = new_id sample_stamp"
  using session_ids_safe [of "new_id sample_stamp" sample_stamp] by blast

section \<open>Creation\<close>

text \<open>A directory that creation may still be writing: no metadata yet.\<close>

definition pending :: "store \<Rightarrow> string \<Rightarrow> bool" where
  "pending st i \<longleftrightarrow> (case get_dir st i of None \<Rightarrow> True | Some d \<Rightarrow> sd_meta d = NoMeta)"

lemma append_pending:
  assumes p: "pending st i" and ok: "store_ok st" and t: "lr_type r \<noteq> ''''"
  obtains st' r' where "append_unlocked moment st i r = Inr st'" "pending st' i" "store_ok st'"
    "stamped_as r r'" "get_dir st' i = Some \<lparr>sd_meta = NoMeta, sd_events = Some (log_of st i @ [r'])\<rparr>"
    "\<And>j. j \<noteq> i \<Longrightarrow> get_dir st' j = get_dir st j"
proof -
  define r' where "r' = fill_record moment i r"
  define st' where "st' = add_event st i r'"
  have m: "read_meta st i = Inl (StoreNotFound i)"
    using p by (auto simp: pending_def read_meta_def split: option.splits)
  have g: "get_dir st' i = Some \<lparr>sd_meta = NoMeta, sd_events = Some (log_of st i @ [r'])\<rparr>"
    using p by (auto simp: st'_def add_event_def ensured_dir_def pending_def log_of_def split: option.splits)
  have "sd_meta (ensured_dir st i) = NoMeta"
    using p by (auto simp: pending_def ensured_dir_def split: option.splits)
  then have ok': "store_ok st'"
    using ok by (auto simp: st'_def add_event_def Let_def intro!: store_ok_put)
  have s: "stamped_as r r'" using stamped_fill [where r = r and moment = moment and i = i and s = "lr_session_id r" and t = "lr_turn_id r"] by (simp add: r'_def)
  show thesis
    by (rule that [of st' r']) (use t m g ok' s in \<open>simp_all add: append_unlocked_def r'_def st'_def pending_def add_event_def Let_def\<close>)
qed

lemma append_messages_pending:
  assumes "pending st i" and "store_ok st" and "get_dir st i \<noteq> None \<or> ms \<noteq> []"
  shows "\<exists>st' rs. fold_result (\<lambda>s m. append_unlocked moment s i
        ((new_record EVENT_MESSAGE_APPENDED)\<lparr>lr_message := Some m\<rparr>)) st ms = Inr st' \<and> store_ok st'
     \<and> pending st' i \<and> log_of st' i = log_of st i @ rs
     \<and> messages_from_records (log_of st' i) = messages_from_records (log_of st i) @ ms
     \<and> (\<forall>j. j \<noteq> i \<longrightarrow> get_dir st' j = get_dir st j)"
  using assms
proof (induction ms arbitrary: st)
  case Nil
  then show ?case by (auto intro: exI [of _ "[]"])
next
  case (Cons m ms)
  let ?r = "(new_record EVENT_MESSAGE_APPENDED)\<lparr>lr_message := Some m\<rparr>"
  have "lr_type ?r \<noteq> ''''" by (simp add: new_record_def event_names)
  from append_pending [OF Cons.prems(1,2) this, of moment] obtain st1 r1 where
    a: "append_unlocked moment st i ?r = Inr st1" "pending st1 i" "store_ok st1" "stamped_as ?r r1"
      "get_dir st1 i = Some \<lparr>sd_meta = NoMeta, sd_events = Some (log_of st i @ [r1])\<rparr>"
      "\<And>j. j \<noteq> i \<Longrightarrow> get_dir st1 j = get_dir st j" by metis
  from a(5) have l: "log_of st1 i = log_of st i @ [r1]" by (simp add: log_of_def)
  have m: "messages_from_records (log_of st1 i) = messages_from_records (log_of st i) @ [m]"
    using a(4) by (simp add: l listed.save_appended replay_append replay_stamped)
      (simp add: replay_record_def new_record_def event_names)
  from Cons.IH [OF a(2,3)] a(5) obtain st' rs where
    "fold_result (\<lambda>s m. append_unlocked moment s i
        ((new_record EVENT_MESSAGE_APPENDED)\<lparr>lr_message := Some m\<rparr>)) st1 ms = Inr st'" "store_ok st'"
     "pending st' i" "log_of st' i = log_of st1 i @ rs"
     "messages_from_records (log_of st' i) = messages_from_records (log_of st1 i) @ ms"
     "\<forall>j. j \<noteq> i \<longrightarrow> get_dir st' j = get_dir st1 j" by blast
  then show ?case using a(1,6) l m by (auto intro: exI [of _ "r1 # rs"])
qed

lemma completed_meta_id [simp]: "sm_id (completed_meta sha moment m ms) = sm_id m"
  by (simp add: completed_meta_def Let_def)

lemma store_create_live:
  assumes ok: "store_ok st" and i: "i = (if sm_id meta = '''' then new_id moment else sm_id meta)"
    and valid: "validateID i = Inr ()" and fresh: "get_dir st i = None"
  shows "\<exists>st' m. store_create sha moment st meta ms = (st', Inr m) \<and> sm_id m = i \<and> live st' i
    \<and> store_messages st' i = Inr ms \<and> store_metadata st' i = Inr m \<and> summary_of m \<in> set (store_list st')
    \<and> (\<forall>j. j \<noteq> i \<longrightarrow> get_dir st' j = get_dir st j)"
proof -
  define m0 where "m0 = (if sm_id meta = '''' then meta\<lparr>sm_id := new_id moment\<rparr> else meta)"
  define m where "m = completed_meta sha moment m0 ms"
  have id0: "sm_id m0 = i" and id: "sm_id m = i" by (simp_all add: m_def m0_def i)
  have t: "lr_type (new_record EVENT_SESSION_STARTED) \<noteq> ''''" by (simp add: new_record_def event_names)
  have p: "pending st i" using fresh by (simp add: pending_def)
  obtain st1 r1 where a: "append_unlocked moment st i (new_record EVENT_SESSION_STARTED) = Inr st1"
    "pending st1 i" "store_ok st1" "stamped_as (new_record EVENT_SESSION_STARTED) r1"
    "get_dir st1 i = Some \<lparr>sd_meta = NoMeta, sd_events = Some (log_of st i @ [r1])\<rparr>"
    "\<And>j. j \<noteq> i \<Longrightarrow> get_dir st1 j = get_dir st j" using append_pending [OF p ok t, of moment] by metis
  have l1: "log_of st1 i = [r1]" using a(5) fresh by (simp add: log_of_def)
  then have c1: "messages_from_records (log_of st1 i) = []"
    using replay_stamped [OF a(4), of "[]"]
    by (simp add: messages_from_records_def) (simp add: replay_record_def new_record_def event_names)
  obtain st2 rs where b: "fold_result (\<lambda>s m. append_unlocked moment s i
        ((new_record EVENT_MESSAGE_APPENDED)\<lparr>lr_message := Some m\<rparr>)) st1 ms = Inr st2" "store_ok st2"
     "pending st2 i" "log_of st2 i = log_of st1 i @ rs" "messages_from_records (log_of st2 i) = ms"
     "\<forall>j. j \<noteq> i \<longrightarrow> get_dir st2 j = get_dir st1 j"
    using append_messages_pending [OF a(2,3), of ms moment] a(5) c1 by auto
  have "log_of st2 i \<noteq> []" using b(4) l1 by simp
  then obtain d where d: "get_dir st2 i = Some d" "sd_events d = Some (log_of st2 i)"
    by (auto simp: log_of_def split: option.splits)
  define st' where "st' = put_dir st2 i (d\<lparr>sd_meta := MetaFile m\<rparr>)"
  have w: "write_meta st2 m = Inr st'"
    using valid d id by (simp add: write_meta_def ensured_dir_def st'_def)
  have eq: "store_create sha moment st meta ms = (st', Inr m)"
    using a(1) b(1) w valid id id0
    by (simp add: store_create_def m0_def [symmetric] Let_def m_def [symmetric] create_appends_def)
  have ok': "store_ok st'" unfolding st'_def using b(2) id by (intro store_ok_put) auto
  have g: "get_dir st' i = Some \<lparr>sd_meta = MetaFile m, sd_events = Some (log_of st2 i)\<rparr>"
    using d by (simp add: st'_def)
  note lv = liveI [OF ok' valid g]
  have rm: "read_meta st' i = Inr m" using g by (simp add: read_meta_def)
  have "i \<in> set (map fst (so_dirs st'))"
    using g by (force simp: get_dir_def dest: map_of_SomeD)
  then have s: "summary_of m \<in> set (store_list st')"
    using rm by (force simp: store_list_def)
  have o: "get_dir st' j = get_dir st j" if "j \<noteq> i" for j
    using that b(6) a(6) by (simp add: st'_def)
  show ?thesis
    using eq id lv(1) live_reads(3) [OF lv(1)] lv(2) b(5) rm valid s o
    by (simp add: replayed_def store_metadata_def)
qed

text \<open>
  Creating a session under a fresh identifier succeeds and reads back: the stored context
  is the initial conversation, the metadata is what was returned, the session is listed, and
  no other session changed.
\<close>

theorem created_session_reads_back:
  assumes ok: "store_ok st" and i: "i = (if sm_id meta = '''' then new_id moment else sm_id meta)"
    and valid: "validateID i = Inr ()" and fresh: "get_dir st i = None"
  shows "\<exists>st' m. store_create sha moment st meta ms = (st', Inr m) \<and> sm_id m = i \<and> live st' i
    \<and> store_messages st' i = Inr ms \<and> store_metadata st' i = Inr m \<and> summary_of m \<in> set (store_list st')
    \<and> (\<forall>j. j \<noteq> i \<longrightarrow> get_dir st' j = get_dir st j)"
  by (rule store_create_live [OF assms])

theorem created_session_reads_back_witness:
  "\<exists>st' m. store_create (\<lambda>s. s) sample_stamp new_store
       \<lparr>sm_id = ''s-1'', sm_title = '''', sm_created_at = ZERO_TIME, sm_updated_at = ZERO_TIME, sm_provider = '''',
        sm_model = '''', sm_cwd = '''', sm_fingerprint = '''', sm_sources = [], sm_current_turn_id = '''',
        sm_parent_id = '''', sm_project_id = '''', sm_config_root = '''', sm_workspace = None\<rparr>
       [default_message] = (st', Inr m) \<and> store_messages st' ''s-1'' = Inr [default_message]"
proof -
  have v: "validateID ''s-1'' = Inr ()" by (simp add: validateID_iff id_char_def)
  have f: "get_dir new_store ''s-1'' = None" by (simp add: get_dir_def new_store_def)
  show ?thesis
    using created_session_reads_back [where st = new_store and i = "''s-1''" and moment = sample_stamp
        and sha = "\<lambda>s. s" and ms = "[default_message]" and meta = "\<lparr>sm_id = ''s-1'', sm_title = '''',
        sm_created_at = ZERO_TIME, sm_updated_at = ZERO_TIME, sm_provider = '''',
        sm_model = '''', sm_cwd = '''', sm_fingerprint = '''', sm_sources = [], sm_current_turn_id = '''',
        sm_parent_id = '''', sm_project_id = '''', sm_config_root = '''', sm_workspace = None\<rparr>",
        OF store_ok_new _ v f]
    by auto
qed

section \<open>Sessions do not interfere\<close>

text \<open>The operations on the session \<open>i\<close> that change files.\<close>

inductive store_step :: "string \<Rightarrow> store \<Rightarrow> store \<Rightarrow> bool" for i where
  step_append: "store_append moment st i r = Inr st' \<Longrightarrow> store_step i st st'"
| step_turn: "set_current_turn moment st i turn = Inr st' \<Longrightarrow> store_step i st st'"
| step_workspace: "save_workspace_description moment st i w = Inr st' \<Longrightarrow> store_step i st st'"
| step_rename: "store_rename moment st i title = Inr st' \<Longrightarrow> store_step i st st'"
| step_delete: "store_delete st i = Inr st' \<Longrightarrow> store_step i st st'"
| step_truncate: "truncate_after st i keep = Inr st' \<Longrightarrow> store_step i st st'"
| step_create: "store_create sha moment st meta ms = (st', out) \<Longrightarrow>
    i = (if sm_id meta = '''' then new_id moment else sm_id meta) \<Longrightarrow> store_step i st st'"
| step_memory: "store_step i st (save_memory st items)"

definition kept_apart :: "string \<Rightarrow> store \<Rightarrow> store \<Rightarrow> bool" where
  "kept_apart i st st' \<longleftrightarrow> store_ok st' \<and> (\<forall>j. j \<noteq> i \<longrightarrow> get_dir st' j = get_dir st j)"

lemma kept_apart_refl: "store_ok st \<Longrightarrow> kept_apart i st st"
  by (simp add: kept_apart_def)

lemma kept_apart_trans: "kept_apart i st st1 \<Longrightarrow> kept_apart i st1 st2 \<Longrightarrow> kept_apart i st st2"
  by (simp add: kept_apart_def)

lemma kept_apart_put:
  "store_ok st \<Longrightarrow> (\<And>m. sd_meta d = MetaFile m \<Longrightarrow> sm_id m = i) \<Longrightarrow> kept_apart i st (put_dir st i d)"
  by (simp add: kept_apart_def store_ok_put)

lemma kept_apart_remove: "store_ok st \<Longrightarrow> kept_apart i st (remove_session_dir st i)"
  by (simp add: kept_apart_def store_ok_remove)

lemma kept_apart_ok: "kept_apart i st st' \<Longrightarrow> store_ok st'"
  by (simp add: kept_apart_def)

lemma write_meta_apart: "store_ok st \<Longrightarrow> sm_id m = i \<Longrightarrow> write_meta st m = Inr st' \<Longrightarrow> kept_apart i st st'"
  by (auto simp: write_meta_def bind_result_Inr_iff intro!: kept_apart_put)

lemma rewrite_meta_apart:
  assumes "read_meta st i = Inr m" and "write_meta st m' = Inr st'" and "store_ok st" and "sm_id m' = sm_id m"
  shows "kept_apart i st st'"
  by (rule write_meta_apart [OF assms(3) _ assms(2)]) (simp add: assms(4) read_meta_id [OF assms(3,1)])

lemma ensured_meta: "store_ok st \<Longrightarrow> sd_meta (ensured_dir st i) = MetaFile m \<Longrightarrow> sm_id m = i"
  by (auto simp: ensured_dir_def store_ok_def split: option.splits)

lemma add_event_apart: "store_ok st \<Longrightarrow> kept_apart i st (add_event st i r)"
  by (auto simp: add_event_def Let_def intro!: kept_apart_put dest: ensured_meta)

lemma append_apart: "store_ok st \<Longrightarrow> append_unlocked moment st i r = Inr st' \<Longrightarrow> kept_apart i st st'"
proof -
  assume ok: "store_ok st" and a: "append_unlocked moment st i r = Inr st'"
  from a obtain st1 r1 where st': "st' = add_event st1 i r1" and
    st1: "st1 = st \<or> (\<exists>m. read_meta st i = Inr m \<and> write_meta st (m\<lparr>sm_updated_at := moment\<rparr>) = Inr st1)"
    by (auto simp: append_unlocked_def Let_def split: if_splits sum.splits store_error.splits)
  from st1 have "kept_apart i st st1"
  proof
    assume "\<exists>m. read_meta st i = Inr m \<and> write_meta st (m\<lparr>sm_updated_at := moment\<rparr>) = Inr st1"
    then obtain m where "read_meta st i = Inr m" "write_meta st (m\<lparr>sm_updated_at := moment\<rparr>) = Inr st1" by blast
    then show ?thesis by (rule rewrite_meta_apart [OF _ _ ok]) simp
  qed (simp add: ok kept_apart_refl)
  then show ?thesis unfolding st' using add_event_apart kept_apart_ok kept_apart_trans by blast
qed

lemma fold_append_apart:
  "store_ok st \<Longrightarrow> fold_result (\<lambda>s m. append_unlocked moment s i (f m)) st ms = Inr st' \<Longrightarrow> kept_apart i st st'"
proof (induction ms arbitrary: st)
  case (Cons m ms)
  then obtain st1 where a: "append_unlocked moment st i (f m) = Inr st1"
    and b: "fold_result (\<lambda>s m. append_unlocked moment s i (f m)) st1 ms = Inr st'"
    by (auto simp: bind_result_Inr_iff)
  have st1: "kept_apart i st st1" by (rule append_apart [OF Cons.prems(1) a])
  then show ?case using Cons.IH [OF kept_apart_ok [OF st1] b] by (rule kept_apart_trans)
qed (simp add: kept_apart_refl)

lemma create_apart:
  assumes ok: "store_ok st" and c: "store_create sha moment st meta ms = (st', out)"
    and i: "i = (if sm_id meta = '''' then new_id moment else sm_id meta)"
  shows "kept_apart i st st'"
proof -
  define m0 where "m0 = (if sm_id meta = '''' then meta\<lparr>sm_id := new_id moment\<rparr> else meta)"
  have id: "sm_id m0 = i" by (simp add: m0_def i)
  let ?m = "completed_meta sha moment m0 ms"
  let ?made = "bind_result (create_appends moment st i ms) (\<lambda>st1. write_meta st1 ?m)"
  from c have eq: "(st', out) = (case validateID i of Inl e \<Rightarrow> (st, Inl e)
      | Inr _ \<Rightarrow> (case ?made of Inl e \<Rightarrow> (remove_session_dir st i, Inl e) | Inr st2 \<Rightarrow> (st2, Inr ?m)))"
    unfolding store_create_def m0_def [symmetric] by (cases "validateID i") (auto simp: Let_def id split: sum.splits)
  show ?thesis
  proof (cases "validateID i")
    case (Inl e)
    with eq ok show ?thesis by (simp add: kept_apart_refl)
  next
    case (Inr u)
    show ?thesis
    proof (cases ?made)
      case (Inl e)
      with eq Inr ok show ?thesis by (simp add: kept_apart_remove)
    next
      case made: (Inr st2)
      then obtain st1 where a: "create_appends moment st i ms = Inr st1" and w: "write_meta st1 ?m = Inr st2"
        by (auto simp: bind_result_Inr_iff)
      from a obtain st0 where s0: "append_unlocked moment st i (new_record EVENT_SESSION_STARTED) = Inr st0"
        and s1: "fold_result (\<lambda>s m. append_unlocked moment s i
            ((new_record EVENT_MESSAGE_APPENDED)\<lparr>lr_message := Some m\<rparr>)) st0 ms = Inr st1"
        by (auto simp: create_appends_def bind_result_Inr_iff)
      have k0: "kept_apart i st st0" by (rule append_apart [OF ok s0])
      have k1: "kept_apart i st0 st1" by (rule fold_append_apart [OF kept_apart_ok [OF k0] s1])
      have "kept_apart i st1 st2" by (rule write_meta_apart [OF kept_apart_ok [OF k1] _ w]) (simp add: id)
      with k0 k1 have "kept_apart i st st2" by (blast intro: kept_apart_trans)
      with eq Inr made show ?thesis by simp
    qed
  qed
qed

lemma sessions_apart:
  assumes "store_step i st st'" and "store_ok st"
  shows "kept_apart i st st'"
proof -
  note ok = assms(2)
  from assms(1) show "kept_apart i st st'"
  proof cases
    case (step_append moment r)
    then show ?thesis using append_apart [OF ok] by (auto simp: store_append_def bind_result_Inr_iff)
  next
    case (step_turn moment turn)
    then obtain m where "read_meta st i = Inr m"
      "write_meta st (m\<lparr>sm_current_turn_id := turn, sm_updated_at := moment\<rparr>) = Inr st'"
      by (auto simp: set_current_turn_def bind_result_Inr_iff)
    then show ?thesis by (rule rewrite_meta_apart [OF _ _ ok]) simp
  next
    case (step_workspace moment w)
    then obtain m where "read_meta st i = Inr m"
      "write_meta st (m\<lparr>sm_workspace := Some w, sm_cwd := sw_cwd w, sm_updated_at := moment\<rparr>) = Inr st'"
      by (auto simp: save_workspace_description_def bind_result_Inr_iff)
    then show ?thesis by (rule rewrite_meta_apart [OF _ _ ok]) simp
  next
    case (step_rename moment title)
    then obtain m where "read_meta st i = Inr m"
      "write_meta st (m\<lparr>sm_title := py_strip title, sm_updated_at := moment\<rparr>) = Inr st'"
      by (auto simp: store_rename_def bind_result_Inr_iff Let_def split: if_splits)
    then show ?thesis by (rule rewrite_meta_apart [OF _ _ ok]) simp
  next
    case step_delete
    then show ?thesis using kept_apart_remove [OF ok] by (auto simp: store_delete_def bind_result_Inr_iff)
  next
    case (step_truncate keep)
    then show ?thesis
      by (auto simp: truncate_after_def bind_result_Inr_iff intro!: kept_apart_put [OF ok] dest: ensured_meta [OF ok])
  next
    case (step_create sha moment meta ms out)
    show ?thesis by (rule create_apart [OF ok step_create])
  next
    case step_memory
    then show ?thesis using ok by (simp add: kept_apart_def store_ok_def save_memory_def get_dir_def)
  qed
qed



text \<open>
  The session list holds one row for every directory whose metadata reads, and nothing
  else, with the most recently updated sessions first.
\<close>

theorem session_list_exact:
  "set (store_list st) = {summary_of m | i m. i \<in> set (map fst (so_dirs st)) \<and> read_meta st i = Inr m}
   \<and> sorted (map (\<lambda>s. - int (stamp_key (su_updated_at s))) (store_list st))"
proof
  have row: "set (case read_meta st n of Inl _ \<Rightarrow> [] | Inr m \<Rightarrow> [summary_of m]) = {summary_of m | m. read_meta st n = Inr m}"
    for n by (cases "read_meta st n") auto
  show "set (store_list st) = {summary_of m | i m. i \<in> set (map fst (so_dirs st)) \<and> read_meta st i = Inr m}"
    by (force simp: store_list_def row)
  show "sorted (map (\<lambda>s. - int (stamp_key (su_updated_at s))) (store_list st))"
    by (simp add: store_list_def)
qed

end
