(* ===== verification/SessionRepository.thy ===== *)
theory SessionRepository
  imports SessionStore Machine
begin

text \<open>
  The session's view of storage: the values of \<open>runtime/session/repository.py\<close> and the
  repository over the store (\<open>store/repository.py\<close>), which maps the two metadata shapes field
  by field and turns each thing a session saves into one record of the log.
\<close>

section \<open>Session values\<close>

definition WORKSPACE_ACCESS_READ :: string where "WORKSPACE_ACCESS_READ = ''read''"
definition WORKSPACE_ACCESS_READ_WRITE :: string where "WORKSPACE_ACCESS_READ_WRITE = ''read_write''"

record root_spec =
  rs_path :: string
  rs_access :: string

record workspace_spec =
  ws_primary_root :: string
  ws_cwd :: string
  ws_roots :: "root_spec list"

record metadata =
  md_id :: string
  md_title :: string
  md_provider :: string
  md_model :: string
  md_cwd :: string
  md_sources :: "string list"
  md_parent_id :: string
  md_project_id :: string
  md_config_root :: string
  md_workspace_spec :: "workspace_spec option"

definition default_metadata :: metadata where
  "default_metadata = \<lparr>md_id = '''', md_title = '''', md_provider = '''', md_model = '''', md_cwd = '''',
     md_sources = [], md_parent_id = '''', md_project_id = '''', md_config_root = '''', md_workspace_spec = None\<rparr>"

record summary =
  sy_id :: string
  sy_title :: string
  sy_updated_at :: "stamp option"
  sy_provider :: string
  sy_model :: string
  sy_cwd :: string
  sy_parent_id :: string

record file_snapshot =
  fs_path :: string
  fs_exists :: bool
  fs_content :: string
  fs_mode :: int

record audit_event =
  ae_type :: string
  ae_time :: "stamp option"
  ae_tool_call :: "tool_call option"
  ae_decision :: string
  ae_result :: string
  ae_error :: string

definition workspaceSpecPointer :: "workspace_spec \<Rightarrow> workspace_spec" where
  "workspaceSpecPointer w = \<lparr>ws_primary_root = ws_primary_root w, ws_cwd = ws_cwd w, ws_roots = ws_roots w\<rparr>"

section \<open>The two metadata shapes\<close>

definition toStoreWorkspaceSpec :: "workspace_spec option \<Rightarrow> stored_workspace_spec option" where
  "toStoreWorkspaceSpec w = (case w of None \<Rightarrow> None
     | Some s \<Rightarrow> Some \<lparr>sw_primary_root = ws_primary_root s, sw_cwd = ws_cwd s,
         sw_roots = map (\<lambda>r. \<lparr>sr_path = rs_path r, sr_access = rs_access r\<rparr>) (ws_roots s)\<rparr>)"

definition toSessionWorkspaceSpec :: "stored_workspace_spec option \<Rightarrow> workspace_spec option" where
  "toSessionWorkspaceSpec w = (case w of None \<Rightarrow> None
     | Some s \<Rightarrow> Some \<lparr>ws_primary_root = sw_primary_root s, ws_cwd = sw_cwd s,
         ws_roots = map (\<lambda>r. \<lparr>rs_path = sr_path r, rs_access = sr_access r\<rparr>) (sw_roots s)\<rparr>)"

definition toSessionMetadata :: "stored_meta \<Rightarrow> metadata" where
  "toSessionMetadata m = \<lparr>md_id = sm_id m, md_title = sm_title m, md_provider = sm_provider m,
     md_model = sm_model m, md_cwd = sm_cwd m, md_sources = sm_sources m, md_parent_id = sm_parent_id m,
     md_project_id = sm_project_id m, md_config_root = sm_config_root m,
     md_workspace_spec = toSessionWorkspaceSpec (sm_workspace m)\<rparr>"

definition toStoreMetadata :: "metadata \<Rightarrow> stored_meta" where
  "toStoreMetadata m = \<lparr>sm_id = md_id m, sm_title = md_title m, sm_created_at = ZERO_TIME,
     sm_updated_at = ZERO_TIME, sm_provider = md_provider m, sm_model = md_model m, sm_cwd = md_cwd m,
     sm_fingerprint = '''', sm_sources = md_sources m, sm_current_turn_id = '''',
     sm_parent_id = md_parent_id m, sm_project_id = md_project_id m, sm_config_root = md_config_root m,
     sm_workspace = toStoreWorkspaceSpec (md_workspace_spec m)\<rparr>"

definition to_stored_file :: "file_snapshot \<Rightarrow> stored_file" where
  "to_stored_file f = \<lparr>sf_path = fs_path f, sf_exists = fs_exists f, sf_content = fs_content f, sf_mode = fs_mode f\<rparr>"

definition to_session_file :: "stored_file \<Rightarrow> file_snapshot" where
  "to_session_file f = \<lparr>fs_path = sf_path f, fs_exists = sf_exists f, fs_content = sf_content f, fs_mode = sf_mode f\<rparr>"

lemma root_spec_eta: "\<lparr>rs_path = rs_path r, rs_access = rs_access r\<rparr> = r"
  by (cases r) simp

lemma workspace_spec_eta: "\<lparr>ws_primary_root = ws_primary_root w, ws_cwd = ws_cwd w, ws_roots = ws_roots w\<rparr> = w"
  by (cases w) simp

lemma workspace_spec_roundtrip: "toSessionWorkspaceSpec (toStoreWorkspaceSpec w) = w"
  by (cases w) (simp_all add: toSessionWorkspaceSpec_def toStoreWorkspaceSpec_def comp_def root_spec_eta
      workspace_spec_eta)

lemma stored_file_eta: "to_session_file (to_stored_file f) = f"
  by (cases f) (simp add: to_session_file_def to_stored_file_def)

lemma stored_file_roundtrip: "map (to_session_file \<circ> to_stored_file) fs = fs"
  by (simp add: comp_def stored_file_eta)

section \<open>Records\<close>

definition message_record :: "message \<Rightarrow> log_record" where
  "message_record m =
     (if msg_role m = ROLE_TOOL
      then (new_record EVENT_TOOL_RESULT)
        \<lparr>lr_tool_call := Some (default_tool_call\<lparr>tc_id := msg_tool_call_id m, tc_name := msg_tool_name m\<rparr>),
         lr_result := msg_content m\<rparr>
      else (new_record EVENT_MESSAGE_APPENDED)\<lparr>lr_message := Some m\<rparr>)"

fun decision_text :: "approval_decision \<Rightarrow> string" where
  "decision_text APPROVE_ONCE = ''once''"
| "decision_text APPROVE_ALWAYS = ''always''"
| "decision_text DENY_APPROVAL = ''deny''"

definition approval_record :: "approval_decision \<Rightarrow> tool_call option \<Rightarrow> log_record" where
  "approval_record d c = (new_record EVENT_APPROVAL_DECISION)\<lparr>lr_decision := decision_text d, lr_tool_call := c\<rparr>"

definition error_record :: "string \<Rightarrow> log_record" where
  "error_record e = (new_record EVENT_ERROR)\<lparr>lr_error := e\<rparr>"

definition cancel_record :: log_record where "cancel_record = new_record EVENT_CANCEL"

definition reset_record :: log_record where "reset_record = new_record EVENT_RESET"

definition replacement_record :: "message list \<Rightarrow> log_record" where
  "replacement_record ms = (new_record EVENT_CONTEXT_REPLACED)\<lparr>lr_messages := ms\<rparr>"

definition compaction_record :: "string \<Rightarrow> message list \<Rightarrow> message list \<Rightarrow> log_record" where
  "compaction_record s original kept =
     (new_record EVENT_COMPACT)\<lparr>lr_compact := Some \<lparr>co_summary = s, co_original = original, co_kept = kept\<rparr>\<rparr>"

definition checkpoint_record :: "stamp \<Rightarrow> tool_call \<Rightarrow> file_snapshot list \<Rightarrow> log_record" where
  "checkpoint_record moment c fs = (new_record EVENT_CHECKPOINT)\<lparr>lr_tool_call := Some c,
     lr_checkpoint := Some \<lparr>cp_id = new_turn_id moment, cp_files = map to_stored_file fs, cp_reason = tc_name c\<rparr>\<rparr>"

lemmas record_defs = message_record_def approval_record_def error_record_def cancel_record_def reset_record_def
  replacement_record_def compaction_record_def checkpoint_record_def

lemma record_types:
  "lr_type (message_record m) \<noteq> ''''" "lr_type (approval_record d c) = EVENT_APPROVAL_DECISION"
  "lr_type (error_record e) = EVENT_ERROR" "lr_type cancel_record = EVENT_CANCEL" "lr_type reset_record = EVENT_RESET"
  "lr_type (replacement_record ms) = EVENT_CONTEXT_REPLACED" "lr_type (compaction_record s o' k) = EVENT_COMPACT"
  "lr_type (checkpoint_record moment c' fs) = EVENT_CHECKPOINT"
  by (simp_all add: record_defs new_record_def event_names)

section \<open>The repository\<close>

definition repo_create ::
    "(string \<Rightarrow> string) \<Rightarrow> stamp \<Rightarrow> store \<Rightarrow> metadata \<Rightarrow> message list \<Rightarrow> store \<times> (store_error, metadata) result" where
  "repo_create sha256 moment st m ms =
     (let (st', out) = store_create sha256 moment st (toStoreMetadata m) ms
      in (st', case out of Inl e \<Rightarrow> Inl e | Inr stored \<Rightarrow> Inr (toSessionMetadata stored)))"

definition assign_new_turn_id :: "stamp \<Rightarrow> store \<Rightarrow> string \<Rightarrow> (store_error, store) result" where
  "assign_new_turn_id moment st i = set_current_turn moment st i (new_turn_id moment)"

definition save_message :: "stamp \<Rightarrow> store \<Rightarrow> string \<Rightarrow> message \<Rightarrow> (store_error, store) result" where
  "save_message moment st i m = store_append moment st i (message_record m)"

definition save_approval ::
    "stamp \<Rightarrow> store \<Rightarrow> string \<Rightarrow> approval_decision \<Rightarrow> tool_call option \<Rightarrow> (store_error, store) result" where
  "save_approval moment st i d c = store_append moment st i (approval_record d c)"

definition save_error :: "stamp \<Rightarrow> store \<Rightarrow> string \<Rightarrow> string option \<Rightarrow> (store_error, store) result" where
  "save_error moment st i e = (case e of None \<Rightarrow> Inr st | Some t \<Rightarrow> store_append moment st i (error_record t))"

definition save_cancel :: "stamp \<Rightarrow> store \<Rightarrow> string \<Rightarrow> (store_error, store) result" where
  "save_cancel moment st i = store_append moment st i cancel_record"

definition save_reset :: "stamp \<Rightarrow> store \<Rightarrow> string \<Rightarrow> (store_error, store) result" where
  "save_reset moment st i = store_append moment st i reset_record"

definition save_conversation_replacement ::
    "stamp \<Rightarrow> store \<Rightarrow> string \<Rightarrow> message list \<Rightarrow> (store_error, store) result" where
  "save_conversation_replacement moment st i ms = store_append moment st i (replacement_record ms)"

definition save_compaction ::
    "stamp \<Rightarrow> store \<Rightarrow> string \<Rightarrow> string \<Rightarrow> message list \<Rightarrow> message list \<Rightarrow> (store_error, store) result" where
  "save_compaction moment st i s original kept = store_append moment st i (compaction_record s original kept)"

definition save_checkpoint ::
    "stamp \<Rightarrow> store \<Rightarrow> string \<Rightarrow> tool_call \<Rightarrow> file_snapshot list \<Rightarrow> (store_error, store) result" where
  "save_checkpoint moment st i c fs =
     (if fs = [] then Inr st else store_append moment st i (checkpoint_record moment c fs))"

definition repo_list :: "store \<Rightarrow> summary list" where
  "repo_list st = map (\<lambda>s. \<lparr>sy_id = su_id s, sy_title = su_title s, sy_updated_at = Some (su_updated_at s),
     sy_provider = su_provider s, sy_model = su_model s, sy_cwd = su_cwd s, sy_parent_id = su_parent_id s\<rparr>) (store_list st)"

definition repo_load :: "store \<Rightarrow> string \<Rightarrow> (store_error, message list \<times> metadata) result" where
  "repo_load st i = bind_result (store_messages st i) (\<lambda>ms.
     bind_result (store_metadata st i) (\<lambda>m. Inr (ms, toSessionMetadata m)))"

definition audit_kinds :: "string list" where
  "audit_kinds = [EVENT_APPROVAL_DECISION, EVENT_TOOL_RESULT, EVENT_ERROR, EVENT_CANCEL]"

definition load_audit_events :: "store \<Rightarrow> string \<Rightarrow> (store_error, audit_event list) result" where
  "load_audit_events st i = bind_result (store_records st i) (\<lambda>rs. Inr (map
     (\<lambda>r. \<lparr>ae_type = lr_type r, ae_time = Some (lr_time r), ae_tool_call = lr_tool_call r,
        ae_decision = lr_decision r, ae_result = lr_result r, ae_error = lr_error r\<rparr>)
     (filter (\<lambda>r. lr_type r \<in> set audit_kinds) rs)))"

definition load_undo_point ::
    "store \<Rightarrow> string \<Rightarrow> (store_error, file_snapshot list \<times> message list \<times> nat) result" where
  "load_undo_point st i = bind_result (checkpoint_undo st i)
     (\<lambda>(c, ms, index). Inr (map to_session_file (cp_files c), ms, index))"

definition repo_save_workspace :: "stamp \<Rightarrow> store \<Rightarrow> string \<Rightarrow> workspace_spec \<Rightarrow> (store_error, store) result" where
  "repo_save_workspace moment st i w =
     save_workspace_description moment st i (the (toStoreWorkspaceSpec (Some w)))"

section \<open>Lemmas\<close>

text \<open>The messages a record stores without loss: a tool message is only its call and content.\<close>

definition storable :: "message \<Rightarrow> bool" where
  "storable m \<longleftrightarrow> (msg_role m = ROLE_TOOL \<longrightarrow>
     m = tool_message (default_tool_call\<lparr>tc_id := msg_tool_call_id m, tc_name := msg_tool_name m\<rparr>) (msg_content m))"

lemma storable_tool [simp]: "storable (tool_message c r)"
  by (simp add: storable_def tool_message_def default_message_def default_tool_call_def)

lemma storable_plain: "msg_role m \<noteq> ROLE_TOOL \<Longrightarrow> storable m"
  by (simp add: storable_def)

lemma replay_message_record:
  assumes "storable m" shows "replay_record ms (message_record m) = ms @ [m]"
proof (cases "msg_role m = ROLE_TOOL")
  case True
  define c where "c = default_tool_call\<lparr>tc_id := msg_tool_call_id m, tc_name := msg_tool_name m\<rparr>"
  from True assms have "m = tool_message c (msg_content m)" by (simp add: storable_def c_def)
  then show ?thesis
    by (simp add: message_record_def True c_def [symmetric] replay_record_def new_record_def event_names)
next
  case False
  then show ?thesis by (simp add: message_record_def replay_record_def new_record_def event_names)
qed

lemma replay_other_records:
  "replay_record ms reset_record = system_messages ms"
  "replay_record ms (replacement_record ns) = ns"
  "replay_record ms (compaction_record t os ks) = ks"
  by (simp_all add: reset_record_def replacement_record_def compaction_record_def replay_record_def
      new_record_def event_names)

lemma appended_eq:
  assumes "live st i" and "lr_type r \<noteq> ''''"
  shows "store_append moment st i r = Inr (appended moment st i r)"
  using append_live [OF assms, of moment] by (metis appended_def sum.case(2))

text \<open>Every save over a live session succeeds; the kind of its record says what it does to the context.\<close>

lemma saves_succeed:
  assumes "live st i"
  shows "save_message moment st i m = Inr (appended moment st i (message_record m))"
    and "save_approval moment st i d c = Inr (appended moment st i (approval_record d c))"
    and "save_cancel moment st i = Inr (appended moment st i cancel_record)"
    and "save_reset moment st i = Inr (appended moment st i reset_record)"
    and "save_conversation_replacement moment st i ms = Inr (appended moment st i (replacement_record ms))"
    and "save_compaction moment st i s ms ks = Inr (appended moment st i (compaction_record s ms ks))"
    and "fs \<noteq> [] \<Longrightarrow> save_checkpoint moment st i c' fs = Inr (appended moment st i (checkpoint_record moment c' fs))"
    and "save_error moment st i (Some e) = Inr (appended moment st i (error_record e))"
  using assms
  by (simp_all add: save_message_def save_approval_def save_cancel_def save_reset_def save_error_def
      save_conversation_replacement_def save_compaction_def save_checkpoint_def appended_eq record_types event_names)

lemma audit_saves:
  assumes "live st i" and "lr_type r \<in> {EVENT_APPROVAL_DECISION, EVENT_CANCEL, EVENT_ERROR, EVENT_CHECKPOINT}"
  shows "live (appended moment st i r) i" and "replayed (appended moment st i r) i = replayed st i"
  using stored.save_audit [OF assms(1)] assms(2) by auto

lemma content_saves:
  assumes "live st i"
  shows "live (appended moment st i (message_record m)) i"
    and "live (appended moment st i reset_record) i"
    and "live (appended moment st i (replacement_record ms)) i"
    and "live (appended moment st i (compaction_record s ms ks)) i"
    and "storable m \<Longrightarrow> replayed (appended moment st i (message_record m)) i = replayed st i @ [m]"
    and "replayed (appended moment st i reset_record) i = system_messages (replayed st i)"
    and "replayed (appended moment st i (replacement_record ms)) i = ms"
    and "replayed (appended moment st i (compaction_record s ms ks)) i = ks"
  using stored.save_ok [OF assms] stored.save_context [OF assms]
  by (simp_all add: record_types replay_message_record replay_other_records event_names)

section \<open>Properties\<close>

text \<open>
  The two metadata shapes lose nothing the session knows: mapping a session's metadata to
  the stored shape and back returns it, and so does creating a session under its identifier,
  except that an empty title becomes \<open>Untitled\<close>.
\<close>

theorem metadata_roundtrip:
  "toSessionMetadata (toStoreMetadata m) = m
   \<and> toSessionMetadata (completed_meta sha moment (toStoreMetadata m) ms)
       = m\<lparr>md_title := (if md_title m = '''' then ''Untitled'' else md_title m)\<rparr>
   \<and> map (to_session_file \<circ> to_stored_file) files = files"
  by (simp add: toSessionMetadata_def toStoreMetadata_def workspace_spec_roundtrip completed_meta_def Let_def
      stored_file_roundtrip)

text \<open>
  What a session saves comes back: over a live session a saved message is exactly one
  message at the end of the loaded context, an approval, an error, a cancel or a checkpoint
  leaves the context alone and shows up in the audit trail alone (a checkpoint nowhere), a
  reset keeps the system messages, a compaction its kept messages, a replacement its own.
\<close>

theorem saved_context:
  assumes live: "live st i" and "storable m"
    and "r \<in> {approval_record d c, error_record e, cancel_record, checkpoint_record moment c' fs}"
  shows "store_messages (appended moment st i (message_record m)) i = Inr (replayed st i @ [m])
    \<and> store_messages (appended moment st i r) i = Inr (replayed st i)
    \<and> store_messages (appended moment st i reset_record) i = Inr (system_messages (replayed st i))
    \<and> store_messages (appended moment st i (compaction_record s ms ks)) i = Inr ks
    \<and> store_messages (appended moment st i (replacement_record ms)) i = Inr ms"
proof -
  have "lr_type r \<in> {EVENT_APPROVAL_DECISION, EVENT_CANCEL, EVENT_ERROR, EVENT_CHECKPOINT}"
    using assms(3) by (auto simp: record_types)
  note a = audit_saves [OF live this, where moment = moment]
  note c = content_saves [OF live, where moment = moment]
  show ?thesis
    using live_reads(3) [OF a(1)] live_reads(3) [OF c(1)] live_reads(3) [OF c(2)] live_reads(3) [OF c(3)]
      live_reads(3) [OF c(4)] a(2) c(5) [OF assms(2)] c(6,7,8) by simp
qed

definition sample_store :: store where
  "sample_store = fst (repo_create (\<lambda>s. s) sample_stamp new_store (default_metadata\<lparr>md_id := ''s-1''\<rparr>) [default_message])"

lemma sample_store_live: "live sample_store ''s-1''"
proof -
  have v: "validateID ''s-1'' = Inr ()" by (simp add: validateID_iff id_char_def)
  have f: "get_dir new_store ''s-1'' = None" by (simp add: get_dir_def new_store_def)
  obtain st' m where "store_create (\<lambda>s. s) sample_stamp new_store
      (toStoreMetadata (default_metadata\<lparr>md_id := ''s-1''\<rparr>)) [default_message] = (st', Inr m)" "live st' ''s-1''"
    using store_create_live [OF store_ok_new _ v f, where sha = "\<lambda>s. s" and moment = sample_stamp
        and ms = "[default_message]" and meta = "toStoreMetadata (default_metadata\<lparr>md_id := ''s-1''\<rparr>)"]
    by (auto simp: toStoreMetadata_def)
  then show ?thesis by (simp add: sample_store_def repo_create_def)
qed

theorem saved_context_witness:
  "store_messages (appended sample_stamp sample_store ''s-1'' cancel_record) ''s-1'' = Inr (replayed sample_store ''s-1'')"
  using saved_context [OF sample_store_live, where m = default_message and r = cancel_record
      and moment = sample_stamp] by (auto simp: storable_def)

end
