(* ===== verification/Emitter.thy ===== *)
theory Emitter
  imports Engine
begin

text \<open>
  The notification stream of a turn (\<open>runtime/session/notifications.py\<close>) and the emitter that
  turns engine snapshots into it without repeating itself
  (\<open>runtime/session/snapshot_emitter.py\<close>). A put on the notification queue is an element
  at the end of a list; an emission is one step, as it is while the queue has room.
\<close>

section \<open>Notifications\<close>

datatype notification =
    StateChanged mstate
  | ToolApprovalRequested tool_call perm_request string int nat
  | is_ToolApprovalCleared: ToolApprovalCleared
  | StreamChunkReceived stream_chunk "message option"
  | is_MessageAppended: MessageAppended message
  | UsageReported usage
  | SessionErrorRaised string
  | is_NotificationsClosed: NotificationsClosed

section \<open>The emitter\<close>

record emitter =
  em_messages :: nat
  em_has_approval :: bool
  em_last_call :: "tool_call option"

definition new_emitter :: emitter where
  "new_emitter = \<lparr>em_messages = 0, em_has_approval = False, em_last_call = None\<rparr>"

definition markApprovalConsumed :: "emitter \<Rightarrow> emitter" where
  "markApprovalConsumed em = em\<lparr>em_last_call := None\<rparr>"

definition emitter_reset :: "emitter \<Rightarrow> nat \<Rightarrow> emitter" where
  "emitter_reset em n = em\<lparr>em_messages := n, em_has_approval := False, em_last_call := None\<rparr>"

definition view_permission :: "engine_view \<Rightarrow> perm_request" where
  "view_permission v = (case vw_pending_permission v of Some p \<Rightarrow> p | None \<Rightarrow> default_perm_request)"

text \<open>The state and the approval change, which come before the messages.\<close>

definition announce :: "emitter \<Rightarrow> engine_view \<Rightarrow> emitter \<times> notification list" where
  "announce em v =
     (case vw_pending_tool v of
        Some pending \<Rightarrow>
          if \<not> em_has_approval em \<or> em_last_call em = None \<or> em_last_call em \<noteq> Some pending
          then (em\<lparr>em_last_call := Some pending, em_has_approval := True\<rparr>,
                [StateChanged (vw_state v), ToolApprovalRequested pending (view_permission v)
                   (vw_batch_id v) (vw_batch_index v) (vw_batch_total v)])
          else (em, [StateChanged (vw_state v)])
      | None \<Rightarrow> (em\<lparr>em_has_approval := False, em_last_call := None\<rparr>,
          StateChanged (vw_state v) # (if em_has_approval em then [ToolApprovalCleared] else [])))"

text \<open>The messages this snapshot adds; a shorter conversation than last time starts over.\<close>

definition first_unemitted :: "emitter \<Rightarrow> message list \<Rightarrow> nat" where
  "first_unemitted em ms = (if em_messages em > length ms then 0 else em_messages em)"

definition unemitted :: "emitter \<Rightarrow> message list \<Rightarrow> message list" where
  "unemitted em ms = drop (first_unemitted em ms) ms"

text \<open>\<open>emit\<close> with a callback that does not raise.\<close>

definition emit :: "emitter \<Rightarrow> engine_view \<Rightarrow> emitter \<times> notification list" where
  "emit em v = (let (em1, ns) = announce em v
     in (em1\<lparr>em_messages := length (vw_messages v)\<rparr>, ns @ map MessageAppended (unemitted em (vw_messages v))))"

fun emit_all :: "emitter \<Rightarrow> engine_view list \<Rightarrow> emitter \<times> notification list" where
  "emit_all em [] = (em, [])"
| "emit_all em (v # vs) = (let (em1, ns) = emit em v; (em2, ns') = emit_all em1 vs in (em2, ns @ ns'))"

section \<open>Lemmas\<close>

lemma announce_messages: "em_messages (fst (announce em v)) = em_messages em"
  by (simp add: announce_def split: option.split)

lemma emit_counts [simp]: "em_messages (fst (emit em v)) = length (vw_messages v)"
  by (simp add: emit_def split_def Let_def)

definition appended_in :: "notification list \<Rightarrow> message list" where
  "appended_in ns = concat (map (\<lambda>n. case n of MessageAppended m \<Rightarrow> [m] | _ \<Rightarrow> []) ns)"

definition requested_in :: "notification list \<Rightarrow> tool_call list" where
  "requested_in ns = concat (map (\<lambda>n. case n of ToolApprovalRequested c _ _ _ _ \<Rightarrow> [c] | _ \<Rightarrow> []) ns)"

lemma appended_in_simps [simp]:
  "appended_in [] = []" "appended_in (ns @ ns') = appended_in ns @ appended_in ns'"
  "appended_in (map MessageAppended ms) = ms"
  by (induction ms) (simp_all add: appended_in_def)

lemma requested_in_simps [simp]:
  "requested_in [] = []" "requested_in (ns @ ns') = requested_in ns @ requested_in ns'"
  "requested_in (map MessageAppended ms) = []"
  by (induction ms) (simp_all add: requested_in_def)

lemma announce_appends_nothing [simp]: "appended_in (snd (announce em v)) = []"
  by (simp add: announce_def appended_in_def split: option.split)

lemma emit_appended: "appended_in (snd (emit em v)) = unemitted em (vw_messages v)"
  using announce_appends_nothing [of em v] by (cases "announce em v") (simp add: emit_def)

lemma emit_requested: "requested_in (snd (emit em v)) = requested_in (snd (announce em v))"
  by (cases "announce em v") (simp add: emit_def)

text \<open>Each snapshot's conversation extends the one before it, from what was already emitted.\<close>

fun extending :: "nat \<Rightarrow> engine_view list \<Rightarrow> bool" where
  "extending n [] = True"
| "extending n [v] = (n \<le> length (vw_messages v))"
| "extending n (v # w # vs) = (n \<le> length (vw_messages v)
     \<and> take (length (vw_messages v)) (vw_messages w) = vw_messages v \<and> extending (length (vw_messages v)) (w # vs))"

lemma emit_all_appended:
  "extending (em_messages em) vs \<Longrightarrow> vs \<noteq> [] \<Longrightarrow>
     appended_in (snd (emit_all em vs)) = drop (em_messages em) (vw_messages (last vs))
     \<and> take (length (vw_messages (hd vs))) (vw_messages (last vs)) = vw_messages (hd vs)"
proof (induction em vs rule: emit_all.induct)
  case (2 em v vs)
  obtain em1 ns where e: "emit em v = (em1, ns)" by fastforce
  have em1: "em_messages em1 = length (vw_messages v)" using e emit_counts [of em v] by simp
  show ?case
  proof (cases vs)
    case Nil
    then show ?thesis using e emit_appended [of em v] 2(2) by (simp add: unemitted_def first_unemitted_def)
  next
    case (Cons w us)
    with 2(2) have n: "em_messages em \<le> length (vw_messages v)"
      and p: "take (length (vw_messages v)) (vw_messages w) = vw_messages v"
      and x: "extending (em_messages em1) vs" by (simp_all add: em1)
    have "vs \<noteq> []" using Cons by simp
    have ih: "appended_in (snd (emit_all em1 vs)) = drop (length (vw_messages v)) (vw_messages (last vs))"
      "take (length (vw_messages w)) (vw_messages (last vs)) = vw_messages w"
      using "2.IH" [OF e [symmetric] refl x] Cons by (simp_all add: em1)
    have pre: "take (length (vw_messages v)) (vw_messages (last vs)) = vw_messages v"
      using p ih(2) by (metis length_take min.absorb_iff1 min.commute nat_le_linear take_all take_take)
    have "unemitted em (vw_messages v) = drop (em_messages em) (vw_messages v)"
      using n by (simp add: unemitted_def first_unemitted_def)
    moreover have "drop (em_messages em) (vw_messages v) @ drop (length (vw_messages v)) (vw_messages (last vs))
        = drop (em_messages em) (vw_messages (last vs))"
      by (metis append_take_drop_id drop_append n pre diff_is_0_eq drop_0)
    ultimately show ?thesis
      using e ih(1) pre emit_appended [of em v] \<open>vs \<noteq> []\<close> by (simp add: split_def Let_def)
  qed
qed simp

section \<open>Properties\<close>

text \<open>
  However often the engine is observed while its conversation grows, the stream carries
  every message it added exactly once, in order, and the emitter ends having counted them all.
\<close>

theorem messages_emitted_once:
  assumes "extending (em_messages em) (vs @ [v])"
  shows "appended_in (snd (emit_all em (vs @ [v]))) = drop (em_messages em) (vw_messages v)
    \<and> em_messages (fst (emit_all em (vs @ [v]))) = length (vw_messages v)"
proof -
  have "em_messages (fst (emit_all em (vs @ [v]))) = length (vw_messages v)"
    by (induction vs arbitrary: em) (simp_all add: split_def Let_def)
  with emit_all_appended [OF assms] show ?thesis by simp
qed

definition view_with :: "message list \<Rightarrow> tool_call option \<Rightarrow> engine_view" where
  "view_with ms c = \<lparr>vw_state = STATE_WAITING_APPROVAL, vw_messages = ms, vw_pending_tool = c,
     vw_pending_permission = None, vw_batch_id = '''', vw_batch_index = 0, vw_batch_total = 0,
     vw_streaming_message = None, vw_is_busy = False, vw_needs_input = True\<rparr>"

theorem messages_emitted_once_witness:
  "appended_in (snd (emit_all new_emitter [view_with [default_message] None, view_with [default_message, default_message] None]))
     = [default_message, default_message]"
  using messages_emitted_once [of new_emitter "[view_with [default_message] None]"
      "view_with [default_message, default_message] None"]
  by (simp add: view_with_def new_emitter_def)

text \<open>
  A pending call is announced once however often it is observed; after its decision was
  consumed an equal call is announced again; when nothing is pending any more the approval
  is cleared once. The state always comes first and the messages last.
\<close>

theorem approval_announced_once:
  "requested_in (snd (emit em (view_with ms (Some c)))) = (if em_has_approval em \<and> em_last_call em = Some c then [] else [c])
   \<and> requested_in (snd (emit (fst (emit em (view_with ms (Some c)))) (view_with ms' (Some c)))) = []
   \<and> requested_in (snd (emit (markApprovalConsumed (fst (emit em (view_with ms (Some c))))) (view_with ms' (Some c)))) = [c]
   \<and> (let em1 = fst (emit em (view_with ms (Some c))); (em2, ns) = emit em1 (view_with ms' None);
          (em3, ns') = emit em2 (view_with ms' None)
      in count_list ns ToolApprovalCleared = 1 \<and> count_list ns' ToolApprovalCleared = 0)
   \<and> hd (snd (emit em v)) = StateChanged (vw_state v)
   \<and> (\<exists>ns. snd (emit em v) = ns @ map MessageAppended (unemitted em (vw_messages v)) \<and> \<not> list_ex is_MessageAppended ns)"
proof -
  have no_clear: "count_list (map MessageAppended ns) ToolApprovalCleared = 0" for ns
    by (induction ns) auto
  have last: "\<exists>ns. snd (emit em v) = ns @ map MessageAppended (unemitted em (vw_messages v))
      \<and> \<not> list_ex is_MessageAppended ns"
    by (auto simp: emit_def announce_def split: option.split)
  show ?thesis
    by (intro conjI last)
      (auto simp: emit_def announce_def view_with_def requested_in_def markApprovalConsumed_def no_clear
        Let_def comp_def split: option.split)
qed

end
