(* ===== verification/Session.thy ===== *)
theory Session
  imports Emitter SessionRepository
begin

text \<open>
  The session (\<open>runtime/session\<close>: \<open>session.py\<close>, \<open>turn.py\<close>, \<open>history.py\<close>, \<open>persistence.py\<close>,
  \<open>checkpoint.py\<close>, \<open>attachments.py\<close>): its state over one engine, the stored transcript and the
  workspace, and every use case as a function from the old session to the new one and its
  outcome. A use case that can raise after it changed something returns the changed session
  beside the error.

  The workspace is a port, the record of functions below over a state of its own; the
  theory Workspace provides it. A use case is one step: the only suspension inside one is
  the model call of a compaction without a summary, so \<open>compact\<close> is in two parts.
\<close>

section \<open>State\<close>

record 'w workspace_port =
  wp_spec :: "'w \<Rightarrow> workspace_spec"
  wp_validate :: "'w \<Rightarrow> workspace_spec \<Rightarrow> (string, unit) result"
  wp_canonicalize :: "'w \<Rightarrow> workspace_spec \<Rightarrow> (string, workspace_spec) result"
  wp_activate :: "'w \<Rightarrow> workspace_spec \<Rightarrow> (string, 'w) result"
  wp_capture :: "'w \<Rightarrow> string list \<Rightarrow> (string, file_snapshot list) result"
  wp_restore :: "'w \<Rightarrow> file_snapshot list \<Rightarrow> 'w \<times> (string, unit) result"
  wp_attachment :: "'w \<Rightarrow> string \<Rightarrow> (string, attachment) result"

datatype session_error =
    SessionValueError string
  | SessionRuntimeError string
  | SessionStoreError store_error
  | SessionEngineError exc
  | SessionWorkspaceError string

record 'w session =
  ss_engine :: engine
  ss_emitter :: emitter
  ss_store :: "store option"
  ss_workspace :: "'w option"
  ss_meta :: metadata
  ss_mode :: string
  ss_rules :: permission_rules
  ss_active :: bool
  ss_observed :: bool
  ss_attachments :: "attachment list"
  ss_sent :: "notification list"

type_synonym ('w, 'a) outcome = "'w session \<times> (session_error, 'a) result"

definition new_session_base ::
    "engine \<Rightarrow> store option \<Rightarrow> 'w option \<Rightarrow> metadata \<Rightarrow> emitter \<Rightarrow> 'w session" where
  "new_session_base en st w m em = \<lparr>ss_engine = en, ss_emitter = em, ss_store = st, ss_workspace = w,
     ss_meta = m, ss_mode = '''', ss_rules = default_rules, ss_active = False, ss_observed = False,
     ss_attachments = [], ss_sent = []\<rparr>"

definition session_id :: "'w session \<Rightarrow> string" where
  "session_id s = md_id (ss_meta s)"

definition session_messages :: "'w session \<Rightarrow> message list" where
  "session_messages s = rd_messages (en_data (ss_engine s))"

text \<open>\<open>_tryLock\<close>, the body, \<open>_unlock\<close>: every locked use case begins with one refusal.\<close>

definition locked :: "'w session \<Rightarrow> ('w session \<Rightarrow> ('w, 'a) outcome) \<Rightarrow> ('w, 'a) outcome" where
  "locked s body =
     (if ss_active s then (s, Inl (SessionRuntimeError ''session is already running a turn''))
      else case body (s\<lparr>ss_active := True\<rparr>) of (s', out) \<Rightarrow> (s'\<lparr>ss_active := False\<rparr>, out))"

definition with_store :: "'w session \<Rightarrow> (store \<Rightarrow> ('w, 'a) outcome) \<Rightarrow> ('w, 'a) outcome" where
  "with_store s body = (case ss_store s of
       None \<Rightarrow> (s, Inl (SessionValueError ''session store is not configured''))
     | Some st \<Rightarrow> body st)"

text \<open>A write through the repository of the active session; none configured is not an error.\<close>

definition persist ::
    "'w session \<Rightarrow> (store \<Rightarrow> string \<Rightarrow> (store_error, store) result) \<Rightarrow> ('w, unit) outcome" where
  "persist s write = (case ss_store s of
       None \<Rightarrow> (s, Inr ())
     | Some st \<Rightarrow> (case write st (session_id s) of
           Inl e \<Rightarrow> (s, Inl (SessionStoreError e))
         | Inr st' \<Rightarrow> (s\<lparr>ss_store := Some st'\<rparr>, Inr ())))"

definition and_then :: "('w, 'a) outcome \<Rightarrow> ('w session \<Rightarrow> 'a \<Rightarrow> ('w, 'b) outcome) \<Rightarrow> ('w, 'b) outcome" where
  "and_then r f = (case r of (s, Inl e) \<Rightarrow> (s, Inl e) | (s, Inr x) \<Rightarrow> f s x)"

lemma and_then_simps [simp]:
  "and_then (s, Inl e) f = (s, Inl e)" "and_then (s, Inr x) f = f s x"
  by (simp_all add: and_then_def)

section \<open>Emission and persistence\<close>

definition persistTurnBoundary :: "stamp \<Rightarrow> 'w session \<Rightarrow> ('w, unit) outcome" where
  "persistTurnBoundary moment s = persist s (assign_new_turn_id moment)"

definition persistMessage :: "stamp \<Rightarrow> 'w session \<Rightarrow> message \<Rightarrow> ('w, unit) outcome" where
  "persistMessage moment s m = persist s (\<lambda>st i. save_message moment st i m)"

definition persistApproval :: "stamp \<Rightarrow> 'w session \<Rightarrow> approval_decision \<Rightarrow> tool_call \<Rightarrow> ('w, unit) outcome" where
  "persistApproval moment s d c = persist s (\<lambda>st i. save_approval moment st i d (Some c))"

definition persistError :: "stamp \<Rightarrow> 'w session \<Rightarrow> string option \<Rightarrow> ('w, unit) outcome" where
  "persistError moment s e = (case e of None \<Rightarrow> (s, Inr ()) | Some t \<Rightarrow> persist s (\<lambda>st i. save_error moment st i (Some t)))"

fun emit_messages :: "stamp \<Rightarrow> 'w session \<Rightarrow> message list \<Rightarrow> ('w, unit) outcome" where
  "emit_messages moment s [] = (s, Inr ())"
| "emit_messages moment s (m # ms) =
     and_then (persistMessage moment (s\<lparr>ss_sent := ss_sent s @ [MessageAppended m]\<rparr>) m)
       (\<lambda>s' _. emit_messages moment s' ms)"

text \<open>\<open>emitSnapshot\<close>: the emitter counts the messages only once all of them are through.\<close>

definition emitSnapshot :: "stamp \<Rightarrow> 'w session \<Rightarrow> ('w, unit) outcome" where
  "emitSnapshot moment s =
     (let v = engine_snapshot (ss_engine s); (em, ns) = announce (ss_emitter s) v;
          start = first_unemitted em (vw_messages v);
          s1 = s\<lparr>ss_emitter := em\<lparr>em_messages := start\<rparr>, ss_sent := ss_sent s @ ns\<rparr>
      in and_then (emit_messages moment s1 (drop start (vw_messages v)))
           (\<lambda>s2 _. (s2\<lparr>ss_emitter := (ss_emitter s2)\<lparr>em_messages := length (vw_messages v)\<rparr>\<rparr>, Inr ())))"

text \<open>\<open>_notify_state_observer\<close>: the observer of the running turn, if there is one.\<close>

definition notify_observer :: "stamp \<Rightarrow> 'w session \<Rightarrow> ('w, unit) outcome" where
  "notify_observer moment s = (if ss_observed s then emitSnapshot moment s else (s, Inr ()))"

section \<open>A turn\<close>

text \<open>
  \<open>run_turn\<close> up to the engine's turn: the lock, the turn boundary, the observer, the staged
  attachments. A boundary that cannot be written ends the turn before it began; either way
  the stream is closed.
\<close>

definition close_stream :: "'w session \<Rightarrow> 'w session" where
  "close_stream s = s\<lparr>ss_sent := ss_sent s @ [NotificationsClosed]\<rparr>"

definition turn_begin :: "stamp \<Rightarrow> 'w session \<Rightarrow> ('w, attachment list) outcome" where
  "turn_begin moment s =
     (if ss_active s then (close_stream s, Inl (SessionRuntimeError ''session is already running a turn''))
      else case persistTurnBoundary moment (s\<lparr>ss_active := True\<rparr>) of
          (s1, Inl e) \<Rightarrow> (close_stream (s1\<lparr>ss_active := False\<rparr>), Inl e)
        | (s1, Inr _) \<Rightarrow> (s1\<lparr>ss_observed := True, ss_attachments := []\<rparr>, Inr (ss_attachments s1)))"

definition failTurn :: "stamp \<Rightarrow> 'w session \<Rightarrow> string \<Rightarrow> ('w, unit) outcome" where
  "failTurn moment s failure =
     persistError moment (s\<lparr>ss_sent := ss_sent s @ [SessionErrorRaised failure]\<rparr>) (Some failure)"

text \<open>
  The two synchronous callbacks of the engine, while the queue has room; a full queue drops
  the notification.
\<close>

definition on_usage :: "'w session \<Rightarrow> usage option \<Rightarrow> 'w session" where
  "on_usage s u = (case u of None \<Rightarrow> s | Some x \<Rightarrow> s\<lparr>ss_sent := ss_sent s @ [UsageReported x]\<rparr>)"

definition onStreamChunk :: "'w session \<Rightarrow> stream_chunk \<Rightarrow> 'w session" where
  "onStreamChunk s chunk = s\<lparr>ss_sent := ss_sent s
     @ [StreamChunkReceived chunk (vw_streaming_message (engine_snapshot (ss_engine s)))]\<rparr>"

text \<open>What follows the engine's turn: report a failure, emit what is left, clear the observer, unlock, close.\<close>

definition turn_end :: "stamp \<Rightarrow> 'w session \<Rightarrow> string option \<Rightarrow> ('w, unit) outcome" where
  "turn_end moment s failure =
     (case and_then (case failure of None \<Rightarrow> (s, Inr ()) | Some t \<Rightarrow> failTurn moment s t)
         (\<lambda>s1 _. emitSnapshot moment s1) of
        (s2, out) \<Rightarrow> (close_stream (s2\<lparr>ss_observed := False, ss_active := False\<rparr>), out))"

text \<open>The approval waiter: the decision is persisted and the emitter re-armed before the engine sees it.\<close>

definition approval_decided :: "stamp \<Rightarrow> 'w session \<Rightarrow> tool_call \<Rightarrow> approval_decision \<Rightarrow> ('w, approval_decision) outcome" where
  "approval_decided moment s c d = and_then (persistApproval moment s d c)
     (\<lambda>s1 _. (s1\<lparr>ss_emitter := markApprovalConsumed (ss_emitter s1)\<rparr>, Inr d))"

text \<open>\<open>waitApproval\<close> once one of the two events happened.\<close>

datatype approval_input = Decided approval_decision | ApprovalsClosed | RunDone

definition waitApproval :: "nat \<Rightarrow> exc \<Rightarrow> exc option \<Rightarrow> approval_input \<Rightarrow> (exc, approval_decision) result" where
  "waitApproval fresh dismissed ctx_error i = (case i of
       Decided d \<Rightarrow> Inr d
     | ApprovalsClosed \<Rightarrow> Inl (case ctx_error of Some e \<Rightarrow> e | None \<Rightarrow> dismissed)
     | RunDone \<Rightarrow> Inl (plain_exc fresh CancelledC ''run cancelled''))"

section \<open>Checkpoints and attachments\<close>

definition checkpoint_args :: "(string \<Rightarrow> json option) \<Rightarrow> string \<Rightarrow> (string \<times> json) list option" where
  "checkpoint_args json_loads input = (case json_loads input of Some (JObject kvs) \<Rightarrow> Some kvs | _ \<Rightarrow> None)"

definition checkpointPaths :: "(string \<Rightarrow> json option) \<Rightarrow> tool_call \<Rightarrow> string list" where
  "checkpointPaths json_loads c =
     (if tc_name c = ''write_file'' \<or> tc_name c = ''apply_patch''
      then (case checkpoint_args json_loads (tc_input c) of
              None \<Rightarrow> []
            | Some kvs \<Rightarrow> (case map_of kvs ''path'' of
                  Some (JString p) \<Rightarrow> if p \<noteq> '''' then [p] else []
                | _ \<Rightarrow> []))
      else [])"

definition session_checkpoint ::
    "'w workspace_port \<Rightarrow> (string \<Rightarrow> json option) \<Rightarrow> stamp \<Rightarrow> 'w session \<Rightarrow> tool_call \<Rightarrow> ('w, unit) outcome" where
  "session_checkpoint wp json_loads moment s c =
     (case (ss_store s, ss_workspace s) of
        (Some _, Some w) \<Rightarrow>
          (let paths = checkpointPaths json_loads c
           in if paths = [] then (s, Inr ())
              else case wp_capture wp w paths of
                  Inl e \<Rightarrow> (s, Inl (SessionWorkspaceError e))
                | Inr fs \<Rightarrow> persist s (\<lambda>st i. save_checkpoint moment st i c fs))
      | _ \<Rightarrow> (s, Inr ()))"

definition attach :: "'w workspace_port \<Rightarrow> 'w session \<Rightarrow> string \<Rightarrow> ('w, attachment) outcome" where
  "attach wp s path = (case ss_workspace s of
       None \<Rightarrow> (s, Inl (SessionRuntimeError ''attachments are unavailable''))
     | Some w \<Rightarrow> (case wp_attachment wp w path of
           Inl e \<Rightarrow> (s, Inl (SessionWorkspaceError e))
         | Inr a \<Rightarrow> (s\<lparr>ss_attachments := ss_attachments s @ [a]\<rparr>, Inr a)))"

definition pending_attachments :: "'w session \<Rightarrow> attachment list" where
  "pending_attachments s = ss_attachments s"

end
