(* ===== verification/SessionHistory.thy ===== *)
theory SessionHistory
  imports Session
begin

text \<open>
  The use cases that rewrite the conversation (\<open>runtime/session/history.py\<close>) and the lifecycle
  of a session (\<open>runtime/session/session.py\<close>): compaction and memory as functions on message
  lists, then each use case over the session, in the order it writes the store, the engine
  and the emitter.
\<close>

section \<open>Conversations\<close>

definition system_message :: "string \<Rightarrow> message" where
  "system_message t = default_message\<lparr>msg_role := ROLE_SYSTEM, msg_content := t\<rparr>"

definition is_system :: "message \<Rightarrow> bool" where
  "is_system m = (msg_role m = ROLE_SYSTEM)"

definition nonSystemMessageCount :: "message list \<Rightarrow> nat" where
  "nonSystemMessageCount ms = length (filter (\<lambda>m. \<not> is_system m) ms)"

text \<open>The widening loop: back to the nearest message that is not a tool result.\<close>

fun widen :: "message list \<Rightarrow> nat \<Rightarrow> nat" where
  "widen rest 0 = 0"
| "widen rest (Suc n) = (if msg_role (rest ! Suc n) = ROLE_TOOL then widen rest n else Suc n)"

definition compactedMessages :: "message list \<Rightarrow> string \<Rightarrow> nat \<Rightarrow> message list" where
  "compactedMessages ms summary keepNewest =
     (let system = filter is_system ms; rest = filter (\<lambda>m. \<not> is_system m) ms
      in if length rest \<le> keepNewest then system @ rest
         else system @ [system_message (''Conversation summary:'' @ [newline] @ summary)]
           @ drop (widen rest (length rest - keepNewest)) rest)"

definition MEMORY_SYSTEM_PREFIX :: string where
  "MEMORY_SYSTEM_PREFIX = ''Cross-session memory:'' @ [newline]"

definition is_memory :: "message \<Rightarrow> bool" where
  "is_memory m = (msg_role m = ROLE_SYSTEM \<and> startswith (msg_content m) MEMORY_SYSTEM_PREFIX)"

definition memory_message :: "string list \<Rightarrow> message" where
  "memory_message items =
     system_message (MEMORY_SYSTEM_PREFIX @ ''- '' @ join_with ([newline] @ ''- '') items)"

definition withMemoryContext :: "message list \<Rightarrow> string list \<Rightarrow> message list" where
  "withMemoryContext ms items =
     (let kept = filter (\<lambda>m. msg_role m \<noteq> ROLE_SYSTEM \<or> \<not> startswith (msg_content m) MEMORY_SYSTEM_PREFIX) ms
      in if items \<noteq> [] then memory_message items # kept else kept)"

definition savedWorkspaceSpec :: "metadata \<Rightarrow> (session_error, workspace_spec \<times> bool) result" where
  "savedWorkspaceSpec m = (case md_workspace_spec m of
       Some w \<Rightarrow> Inr (workspaceSpecPointer w, False)
     | None \<Rightarrow>
         if md_cwd m = ''''
         then Inl (SessionValueError ''saved workspace is no longer valid: legacy session has no cwd'')
         else Inr (\<lparr>ws_primary_root = md_cwd m, ws_cwd = md_cwd m,
           ws_roots = [\<lparr>rs_path = md_cwd m, rs_access = WORKSPACE_ACCESS_READ_WRITE\<rparr>]\<rparr>, True))"

definition with_workspace :: "metadata \<Rightarrow> workspace_spec \<Rightarrow> metadata" where
  "with_workspace m w = m\<lparr>md_cwd := ws_cwd w, md_workspace_spec := Some (workspaceSpecPointer w)\<rparr>"

definition spec_from_workspace :: "'w workspace_port \<Rightarrow> 'w option \<Rightarrow> workspace_spec option" where
  "spec_from_workspace wp w = (case w of None \<Rightarrow> None | Some x \<Rightarrow> Some (workspaceSpecPointer (wp_spec wp x)))"

section \<open>Listing, forking, memory\<close>

definition rearmEmitter :: "nat \<Rightarrow> emitter" where
  "rearmEmitter n = new_emitter\<lparr>em_messages := n\<rparr>"

text \<open>The engine's conversation replaced; the engine lock is free whenever a task suspends.\<close>

definition install :: "'w session \<Rightarrow> message list \<Rightarrow> emitter \<Rightarrow> 'w session" where
  "install s ms em = s\<lparr>ss_engine := replace_messages (ss_engine s) ms, ss_emitter := em\<rparr>"

definition list_sessions :: "'w session \<Rightarrow> (session_error, summary list) result" where
  "list_sessions s = (case ss_store s of
       None \<Rightarrow> Inl (SessionValueError ''session store is not configured'') | Some st \<Rightarrow> Inr (repo_list st))"

definition fork_metadata :: "'w workspace_port \<Rightarrow> 'w session \<Rightarrow> string \<Rightarrow> metadata" where
  "fork_metadata wp s title =
     (let current = ss_meta s;
          t = (if py_strip title = '''' then md_title current @ '' (fork)'' else py_strip title)
      in \<lparr>md_id = '''', md_title = t, md_provider = md_provider current, md_model = md_model current,
          md_cwd = md_cwd current, md_sources = md_sources current, md_parent_id = md_id current,
          md_project_id = md_project_id current, md_config_root = md_config_root current,
          md_workspace_spec = spec_from_workspace wp (ss_workspace s)\<rparr>)"

definition fork_with ::
    "'w workspace_port \<Rightarrow> (string \<Rightarrow> string) \<Rightarrow> stamp \<Rightarrow> string \<Rightarrow> 'w session \<Rightarrow> store \<Rightarrow> ('w, metadata) outcome" where
  "fork_with wp sha256 moment title s st =
     (let ms = session_messages s
      in case repo_create sha256 moment st (fork_metadata wp s title) ms of
          (st', Inl e) \<Rightarrow> (s\<lparr>ss_store := Some st'\<rparr>, Inl (SessionStoreError e))
        | (st', Inr created) \<Rightarrow>
            ((install s ms (rearmEmitter (length ms)))\<lparr>ss_store := Some st', ss_meta := created\<rparr>, Inr created))"

definition session_fork ::
    "'w workspace_port \<Rightarrow> (string \<Rightarrow> string) \<Rightarrow> stamp \<Rightarrow> 'w session \<Rightarrow> string \<Rightarrow> ('w, metadata) outcome" where
  "session_fork wp sha256 moment s0 title =
     locked s0 (\<lambda>s. with_store s (fork_with wp sha256 moment title s))"

definition memories :: "'w session \<Rightarrow> (session_error, string list) result" where
  "memories s = (case ss_store s of
       None \<Rightarrow> Inl (SessionValueError ''session store is not configured'') | Some st \<Rightarrow> Inr (load_memory st))"

definition replaceMemoryContext :: "stamp \<Rightarrow> 'w session \<Rightarrow> string list \<Rightarrow> ('w, unit) outcome" where
  "replaceMemoryContext moment s items =
     (let kept = withMemoryContext (session_messages s) items
      in and_then (persist s (\<lambda>st i. save_conversation_replacement moment st i kept))
           (\<lambda>s1 _. (install s1 kept (emitter_reset (ss_emitter s1) (length kept)), Inr ())))"

definition remember_with :: "stamp \<Rightarrow> string \<Rightarrow> 'w session \<Rightarrow> store \<Rightarrow> ('w, unit) outcome" where
  "remember_with moment v s st =
     (let items = load_memory st
      in if v \<in> set items then (s, Inr ())
         else replaceMemoryContext moment (s\<lparr>ss_store := Some (save_memory st (items @ [v]))\<rparr>) (items @ [v]))"

definition session_remember :: "stamp \<Rightarrow> 'w session \<Rightarrow> string \<Rightarrow> ('w, unit) outcome" where
  "session_remember moment s0 text =
     (let v = py_strip text
      in if v = '''' then (s0, Inl (SessionValueError ''memory text is required''))
         else locked s0 (\<lambda>s. with_store s (remember_with moment v s)))"

definition forget_with :: "stamp \<Rightarrow> 'w session \<Rightarrow> store \<Rightarrow> ('w, unit) outcome" where
  "forget_with moment s st = replaceMemoryContext moment (s\<lparr>ss_store := Some (save_memory st [])\<rparr>) []"

definition forget_memories :: "stamp \<Rightarrow> 'w session \<Rightarrow> ('w, unit) outcome" where
  "forget_memories moment s0 = locked s0 (\<lambda>s. with_store s (forget_with moment s))"

section \<open>Resume\<close>

definition workspace_error :: "string \<Rightarrow> string \<Rightarrow> session_error" where
  "workspace_error prefix e = SessionValueError (prefix @ e)"

definition resume_spec ::
    "'w workspace_port \<Rightarrow> 'w \<Rightarrow> metadata \<Rightarrow> (session_error, workspace_spec \<times> bool) result" where
  "resume_spec wp w meta = bind_result (savedWorkspaceSpec meta) (\<lambda>(spec, legacy).
     bind_result (if legacy
       then (case wp_canonicalize wp w spec of
              Inl e \<Rightarrow> Inl (workspace_error ''saved workspace is no longer valid: '' e) | Inr c \<Rightarrow> Inr c)
       else Inr spec) (\<lambda>spec'.
     case wp_validate wp w spec' of
       Inl e \<Rightarrow> Inl (workspace_error ''saved workspace is no longer valid: '' e)
     | Inr _ \<Rightarrow> Inr (spec', legacy)))"

text \<open>The writes of a resume and the switch, once the workspace has been checked.\<close>

definition resume_commit ::
    "'w workspace_port \<Rightarrow> stamp \<Rightarrow> string \<Rightarrow> 'w session \<Rightarrow> store \<Rightarrow> 'w \<Rightarrow> message list \<Rightarrow> metadata
      \<Rightarrow> workspace_spec \<times> bool \<Rightarrow> ('w, unit) outcome" where
  "resume_commit wp moment i s st w ms0 meta checked = (case checked of (spec, legacy) \<Rightarrow>
     (case (if legacy then repo_save_workspace moment st i spec else Inr st) of
        Inl e \<Rightarrow> (s, Inl (SessionStoreError e))
      | Inr st1 \<Rightarrow>
        (let ms = withMemoryContext ms0 (load_memory st1)
         in case save_conversation_replacement moment st1 i ms of
              Inl e \<Rightarrow> (s\<lparr>ss_store := Some st1\<rparr>, Inl (SessionStoreError e))
            | Inr st2 \<Rightarrow>
              (case wp_activate wp w spec of
                 Inl e \<Rightarrow> (s\<lparr>ss_store := Some st2\<rparr>,
                   Inl (workspace_error ''saved workspace is no longer valid: '' e))
               | Inr w' \<Rightarrow>
                   ((install s ms (rearmEmitter (length ms)))\<lparr>ss_store := Some st2,
                      ss_workspace := Some w', ss_meta := with_workspace meta spec\<rparr>, Inr ())))))"

definition resume_with :: "'w workspace_port \<Rightarrow> stamp \<Rightarrow> string \<Rightarrow> 'w session \<Rightarrow> store \<Rightarrow> ('w, unit) outcome" where
  "resume_with wp moment i s st =
     (case repo_load st i of
        Inl e \<Rightarrow> (s, Inl (SessionStoreError e))
      | Inr (ms0, meta) \<Rightarrow>
        (case ss_workspace s of
           None \<Rightarrow> (s, Inl (SessionValueError ''workspace is not configured''))
         | Some w \<Rightarrow>
           (case resume_spec wp w meta of
              Inl e \<Rightarrow> (s, Inl e)
            | Inr checked \<Rightarrow> resume_commit wp moment i s st w ms0 meta checked)))"

definition session_resume :: "'w workspace_port \<Rightarrow> stamp \<Rightarrow> 'w session \<Rightarrow> string \<Rightarrow> ('w, unit) outcome" where
  "session_resume wp moment s0 i = locked s0 (\<lambda>s. with_store s (resume_with wp moment i s))"

definition session_rename :: "stamp \<Rightarrow> 'w session \<Rightarrow> string \<Rightarrow> string \<Rightarrow> ('w, unit) outcome" where
  "session_rename moment s i title = with_store s (\<lambda>st. case store_rename moment st i title of
       Inl e \<Rightarrow> (s, Inl (SessionStoreError e)) | Inr st' \<Rightarrow> (s\<lparr>ss_store := Some st'\<rparr>, Inr ()))"

definition delete_session :: "'w session \<Rightarrow> string \<Rightarrow> ('w, unit) outcome" where
  "delete_session s i = with_store s (\<lambda>st.
     if i = session_id s then (s, Inl (SessionValueError ''cannot delete active session''))
     else case store_delete st i of
       Inl e \<Rightarrow> (s, Inl (SessionStoreError e)) | Inr st' \<Rightarrow> (s\<lparr>ss_store := Some st'\<rparr>, Inr ()))"

section \<open>Compaction and undo\<close>

text \<open>
  \<open>compact\<close> up to the summary: what it has to summarise, or \<open>None\<close> when there is nothing to
  do; the lock stays taken while the model is asked.
\<close>

definition compact_start :: "'w session \<Rightarrow> int \<Rightarrow> ('w, (message list \<times> nat) option) outcome" where
  "compact_start s keepNewest =
     (if ss_active s then (s, Inl (SessionRuntimeError ''session is already running a turn''))
      else with_store s (\<lambda>_.
        let current = session_messages s; k = nat (if keepNewest < 1 then 4 else keepNewest)
        in if current = [] \<or> nonSystemMessageCount current \<le> k then (s, Inr None)
           else (s\<lparr>ss_active := True\<rparr>, Inr (Some (current, k)))))"

text \<open>\<open>compact_summary\<close> after the model replied.\<close>

definition compact_summary :: "model_response \<Rightarrow> (session_error, string) result" where
  "compact_summary reply =
     (let summary = py_strip (mr_content reply);
          summary' = (if summary = '''' then py_strip (mr_reasoning reply) else summary)
      in if summary' = '''' then Inl (SessionValueError ''compact summary is empty'') else Inr summary')"

definition compact_finish ::
    "stamp \<Rightarrow> 'w session \<Rightarrow> message list \<Rightarrow> nat \<Rightarrow> (session_error, string) result \<Rightarrow> ('w, unit) outcome" where
  "compact_finish moment s current k summary =
     (case (case summary of Inl e \<Rightarrow> (s, Inl e)
          | Inr t \<Rightarrow> (let kept = compactedMessages current t k
              in and_then (persist s (\<lambda>st i. save_compaction moment st i t current kept))
                   (\<lambda>s1 _. (install s1 kept ((ss_emitter s1)\<lparr>em_messages := length kept\<rparr>), Inr ())))) of
        (s', out) \<Rightarrow> (s'\<lparr>ss_active := False\<rparr>, out))"

text \<open>\<open>compact\<close> with a summary of the user's own never suspends.\<close>

definition compact_with :: "stamp \<Rightarrow> 'w session \<Rightarrow> string \<Rightarrow> int \<Rightarrow> ('w, unit) outcome" where
  "compact_with moment s text keepNewest = (case compact_start s keepNewest of
       (s1, Inl e) \<Rightarrow> (s1, Inl e)
     | (s1, Inr None) \<Rightarrow> (s1, Inr ())
     | (s1, Inr (Some (current, k))) \<Rightarrow> compact_finish moment s1 current k (Inr (py_strip text)))"

definition undo_with :: "'w workspace_port \<Rightarrow> 'w session \<Rightarrow> store \<Rightarrow> ('w, unit) outcome" where
  "undo_with wp s st =
     (case ss_workspace s of
        None \<Rightarrow> (s, Inl (SessionValueError ''workspace is not configured''))
      | Some w \<Rightarrow>
        (case load_undo_point st (session_id s) of
           Inl _ \<Rightarrow> (s, Inl (SessionValueError ''no checkpoint to undo''))
         | Inr (files, ms, index) \<Rightarrow>
           (case wp_restore wp w files of
              (w', Inl e) \<Rightarrow> (s\<lparr>ss_workspace := Some w'\<rparr>, Inl (SessionWorkspaceError e))
            | (w', Inr _) \<Rightarrow>
              (case truncate_after st (session_id s) (int index) of
                 Inl e \<Rightarrow> (s\<lparr>ss_workspace := Some w'\<rparr>, Inl (SessionStoreError e))
               | Inr st' \<Rightarrow>
                   ((install s ms ((ss_emitter s)\<lparr>em_messages := length ms\<rparr>))
                      \<lparr>ss_store := Some st', ss_workspace := Some w'\<rparr>, Inr ())))))"

definition session_undo :: "'w workspace_port \<Rightarrow> 'w session \<Rightarrow> ('w, unit) outcome" where
  "session_undo wp s0 = locked s0 (\<lambda>s. with_store s (undo_with wp s))"

section \<open>Lifecycle\<close>

text \<open>
  The end of an engine command: the observer, then the loop, which finds the queue the
  command cleared empty and the machine idle.
\<close>

definition after_command ::
    "nat \<Rightarrow> stamp \<Rightarrow> 'w session \<Rightarrow> engine \<times> (exc, nat) result \<Rightarrow> ('w, unit) outcome" where
  "after_command fresh moment s command = (case command of
       (en, Inl x) \<Rightarrow> (s\<lparr>ss_engine := en\<rparr>, Inl (SessionEngineError x))
     | (en, Inr _) \<Rightarrow> and_then (notify_observer moment (s\<lparr>ss_engine := en\<rparr>))
         (\<lambda>s1 _. case loop_pop fresh (ss_engine s1) (rc_run_id (en_runs (ss_engine s1))) of
             (en1, LoopBroken x) \<Rightarrow> (s1\<lparr>ss_engine := en1\<rparr>, Inl (SessionEngineError x))
           | (en1, _) \<Rightarrow> (s1\<lparr>ss_engine := en1\<rparr>, Inr ())))"

definition session_cancel :: "nat \<Rightarrow> stamp \<Rightarrow> 'w session \<Rightarrow> ('w, unit) outcome" where
  "session_cancel fresh moment s =
     and_then (after_command fresh moment s (cmd_cancel fresh (ss_engine s)))
       (\<lambda>s1 _. persist s1 (save_cancel moment))"

definition session_reset :: "nat \<Rightarrow> stamp \<Rightarrow> 'w session \<Rightarrow> ('w, unit) outcome" where
  "session_reset fresh moment s =
     and_then (persist s (save_reset moment)) (\<lambda>s1 _.
     and_then (after_command fresh moment s1 (cmd_reset fresh (ss_engine s1))) (\<lambda>s2 _.
       (s2\<lparr>ss_emitter := emitter_reset (ss_emitter s2) (length (session_messages s2))\<rparr>, Inr ())))"

definition replace_conversation :: "stamp \<Rightarrow> 'w session \<Rightarrow> message list \<Rightarrow> ('w, unit) outcome" where
  "replace_conversation moment s0 ms = locked s0 (\<lambda>s.
     and_then (persist s (\<lambda>st i. save_conversation_replacement moment st i ms))
       (\<lambda>s1 _. (install s1 ms (emitter_reset (ss_emitter s1) (length ms)), Inr ())))"

definition configure_permissions :: "'w session \<Rightarrow> string \<Rightarrow> permission_rules \<Rightarrow> 'w session" where
  "configure_permissions s m r = s\<lparr>ss_mode := m, ss_rules := r\<rparr>"

definition auto_approve_tools :: "'w session \<Rightarrow> bool" where
  "auto_approve_tools s = (ss_mode s = PERMISSION_MODE_BYPASS)"

definition set_permission_mode :: "nat \<Rightarrow> 'w session \<Rightarrow> string \<Rightarrow> ('w, unit) outcome" where
  "set_permission_mode fresh s mode0 =
     (let m = (if mode0 = '''' then PERMISSION_MODE_ASK else mode0)
      in if \<not> valid_permission_mode m
         then (s, Inl (SessionValueError (''invalid permission mode: '' @ m)))
         else case set_permission_policy fresh (ss_engine s) m (ss_rules s) of
             Inl x \<Rightarrow> (s, Inl (SessionEngineError x))
           | Inr en \<Rightarrow> (s\<lparr>ss_engine := en, ss_mode := m\<rparr>, Inr ()))"

text \<open>\<open>close\<close>: cancel, then every closer in reverse order; each failure is kept.\<close>

definition close_failures :: "(exc option) list \<Rightarrow> exc list" where
  "close_failures closers = List.map_filter (\<lambda>c. c) (rev closers)"

definition session_close :: "nat \<Rightarrow> stamp \<Rightarrow> 'w session \<Rightarrow> exc option list \<Rightarrow> ('w, exc list) outcome" where
  "session_close fresh moment s closers =
     and_then (session_cancel fresh moment s) (\<lambda>s1 _. (s1, Inr (close_failures closers)))"

definition new_persistent_session :: "engine \<Rightarrow> store option \<Rightarrow> 'w option \<Rightarrow> metadata \<Rightarrow> 'w session" where
  "new_persistent_session en st w m =
     new_session_base en st w m (new_emitter\<lparr>em_messages := length (rd_messages (en_data en))\<rparr>)"

definition create_persistent_session ::
    "'w workspace_port \<Rightarrow> (string \<Rightarrow> string) \<Rightarrow> stamp \<Rightarrow> engine \<Rightarrow> store \<Rightarrow> 'w option \<Rightarrow> metadata \<Rightarrow> message list
      \<Rightarrow> store \<times> (session_error, 'w session) result" where
  "create_persistent_session wp sha256 moment en st w m initial = (case w of
       None \<Rightarrow> (st, Inl (SessionValueError ''workspace is not configured''))
     | Some x \<Rightarrow>
         (let spec = wp_spec wp x in
          case wp_validate wp x spec of
            Inl e \<Rightarrow> (st, Inl (SessionWorkspaceError e))
          | Inr _ \<Rightarrow> (case repo_create sha256 moment st (with_workspace m spec) initial of
                (st', Inl e) \<Rightarrow> (st', Inl (SessionStoreError e))
              | (st', Inr created) \<Rightarrow> (st', Inr (new_persistent_session en (Some st') w created)))))"

end
