(* ===== verification/SessionInvariant.thy ===== *)
theory SessionInvariant
  imports SessionHistory EngineSystem
begin

text \<open>
  A running session and its stored transcript agree. At every moment the log of the active
  session replays to exactly the messages the emitter has counted, and what is not counted
  yet can still be stored without loss; every use case and every critical section of the
  engine keeps that, so the end of a turn leaves the log equal to the conversation.
\<close>

section \<open>What the engine adds to a conversation\<close>

definition loggable :: "message \<Rightarrow> bool" where
  "loggable m \<longleftrightarrow> storable m \<and> msg_role m \<noteq> ROLE_SYSTEM"

definition grows :: "engine \<Rightarrow> engine \<Rightarrow> bool" where
  "grows en en' \<longleftrightarrow> (valid_data (en_data en) \<longrightarrow> valid_data (en_data en'))
     \<and> (\<exists>ns. rd_messages (en_data en') = rd_messages (en_data en) @ ns \<and> list_all loggable ns)"

lemma grows_refl [simp]: "grows en en"
  by (simp add: grows_def)

lemma grows_same_data: "en_data en' = en_data en \<Longrightarrow> grows en en'"
  by (simp add: grows_def)

lemma loggable_tool [simp]: "loggable (tool_message c r)"
  by (simp add: loggable_def)

lemma loggable_plain: "msg_role m \<in> {ROLE_USER, ROLE_ASSISTANT} \<Longrightarrow> loggable m"
  by (auto simp: loggable_def storable_def)

lemma next_data_grows:
  assumes "e \<noteq> ResetRequested"
  shows "\<exists>ns. rd_messages (next_data d e) = rd_messages d @ ns \<and> list_all loggable ns"
proof -
  have "list_all loggable (interrupted_message d)" by (simp add: interrupted_message_def loggable_plain)
  moreover have "list_all loggable (map (\<lambda>(c, r). tool_message c r) as)" for as by (induction as) auto
  ultimately show ?thesis using assms
    by (cases e) (auto simp: add_message_def advanced_def abandoned_def cleared_def loggable_plain)
qed

lemma committed_grows:
  "accepts (en_data en) e \<Longrightarrow> valid_data (en_data en) \<Longrightarrow> e \<noteq> ResetRequested \<Longrightarrow> grows en (committed en e)"
  using next_data_grows [of e "en_data en"] next_data_valid [of "en_data en" e]
  by (simp add: grows_def committed_def)

lemma dispatch_locked_grows:
  assumes "dispatch_locked f en ctx e = (en', out)" and "e \<noteq> ResetRequested"
  shows "grows en en'"
  using assms(1)
proof (cases rule: dispatch_locked_cases)
  case (turn h c run_ctx)
  have "grows (en\<lparr>en_heap := h, en_runs := c\<rparr>) (committed (en\<lparr>en_heap := h, en_runs := c\<rparr>) e)"
    by (rule committed_grows) (simp_all add: turn assms(2))
  then show ?thesis using turn by (simp add: grows_def)
qed (simp_all add: committed_grows assms(2))

lemma dispatch_event_grows:
  "dispatch_event f en ctx e = (en', out) \<Longrightarrow> e \<noteq> ResetRequested \<Longrightarrow> grows en en'"
  by (auto simp: dispatch_event_def dispatch_locked_grows split: if_splits)

lemma resolve_never_resets: "resolve f w p st res input = Inr e \<Longrightarrow> e \<noteq> ResetRequested"
  by (cases "(f, w, p, st, res, input)" rule: resolve.cases)
    (auto simp: resolve_model_reply_def resolveToolCall_def Let_def
      split: if_splits option.splits tool_decision.splits approval_decision.splits
      elim!: resolve_approval.elims)

lemma complete_action_grows:
  assumes "complete_action f w specs en c = (en', out)" shows "grows en en'"
  using assms
proof (cases rule: complete_action_cases)
  case (applied e)
  then have "grows en (committed en e)" by (intro committed_grows resolve_never_resets)
  then show ?thesis using applied by (simp add: grows_def)
qed simp_all

lemma record_stream_chunk_grows: "grows en (record_stream_chunk en r chunk)"
proof (cases "record_stream_chunk en r chunk = en")
  case False
  let ?t = "\<lparr>tr_next_state = rd_state (en_data en), tr_changes = [AppendStreamingAssistant chunk],
    tr_plan = default_action_plan\<rparr>"
  from False obtain d where d: "apply_runtime_data_changes (en_data en) ?t = Inr d"
    and m: "en_data (record_stream_chunk en r chunk) = d"
    by (auto simp: record_stream_chunk_def commit_transition_def bind_result_def Let_def
        split: if_splits sum.splits)
  from d have "rd_messages d = rd_messages (en_data en)"
    by (auto simp: apply_changes_Inr_iff bind_result_Inr_iff split: if_splits)
  then show ?thesis using apply_changes_valid [OF d] m by (simp add: grows_def)
qed simp

text \<open>Every critical section of the engine but a reset and a replacement.\<close>

inductive engine_move :: "engine \<Rightarrow> engine \<Rightarrow> bool" where
  move_dispatch: "dispatch_locked f en ctx e = (en', out) \<Longrightarrow> e \<noteq> ResetRequested \<Longrightarrow> engine_move en en'"
| move_complete: "complete_action f w specs en c = (en', out) \<Longrightarrow> engine_move en en'"
| move_fail: "fail_action f dismissed en ctx x = (en', out) \<Longrightarrow> engine_move en en'"
| move_pop: "loop_pop f en r = (en', out) \<Longrightarrow> engine_move en en'"
| move_chunk: "engine_move en (record_stream_chunk en r chunk)"

lemma loop_pop_data: "loop_pop f en r = (en', out) \<Longrightarrow> en_data en' = en_data en"
  by (auto simp: loop_pop_def split: prod.splits option.splits if_splits)

lemma fail_action_grows: "fail_action f dismissed en ctx x = (en', out) \<Longrightarrow> grows en en'"
proof -
  assume a: "fail_action f dismissed en ctx x = (en', out)"
  show ?thesis
  proof (cases "is_cancellation dismissed x")
    case True
    with a have "dispatch_event f (engine_cancel_run en) ctx CancelRequested = (en', out)"
      by (simp add: fail_action_def)
    then have "grows (engine_cancel_run en) en'" by (rule dispatch_event_grows) simp
    then show ?thesis by (simp add: grows_def)
  next
    case False
    with a have "dispatch_event f en ctx (ErrorOccurred (Some x)) = (en', out)" by (simp add: fail_action_def)
    then show ?thesis by (rule dispatch_event_grows) simp
  qed
qed

lemma engine_move_grows: "engine_move en en' \<Longrightarrow> grows en en'"
  by (induction rule: engine_move.induct)
    (auto intro: dispatch_locked_grows complete_action_grows fail_action_grows record_stream_chunk_grows
      grows_same_data loop_pop_data)

lemma cmd_cancel_grows: "cmd_cancel f en = (en', out) \<Longrightarrow> grows en en'"
proof -
  assume a: "cmd_cancel f en = (en', out)"
  obtain en1 c where l: "live_context (engine_cancel_run en) = (en1, c)" by fastforce
  with a have "dispatch_event f en1 c CancelRequested = (en', out)" by (simp add: cmd_cancel_def)
  then have "grows en1 en'" by (rule dispatch_event_grows) simp
  with live_context_frame [OF l] show ?thesis by (simp add: grows_def)
qed

text \<open>A reset and a replacement.\<close>

lemma cmd_reset_data:
  assumes "valid_data (en_data en)" and "cmd_reset f en = (en', out)"
  shows "valid_data (en_data en')" and "rd_messages (en_data en') = system_messages (rd_messages (en_data en))"
    and "\<exists>c. out = Inr c" and "loop_pop f en' r = (engine_finish_run en' r, LoopFinished)"
proof -
  obtain en1 c where l: "live_context (engine_invalidate_run (engine_cancel_run en)) = (en1, c)" by fastforce
  have d: "en_data en1 = en_data en" using live_context_frame [OF l] by simp
  have acc: "accepts (en_data en1) ResetRequested"
    using assms(1) by (cases "rd_state (en_data en)") (simp_all add: accepts_def d valid_data_iff)
  obtain dec where t: "calculate_transition en1 ResetRequested = Inr dec"
    using calculate_Inl [of en1 ResetRequested] assms(1) d acc by auto
  have c: "commit_transition en1 dec = Inr (committed en1 ResetRequested)"
    by (rule commit_calculated [OF t]) simp
  have "(en', out) = (committed en1 ResetRequested, Inr c)"
    using assms(2) l t c calculate_Inr(3) [OF t]
    by (simp add: cmd_reset_def dispatch_event_def dispatch_locked_def clear_plan_def)
  then show "valid_data (en_data en')" "rd_messages (en_data en') = system_messages (rd_messages (en_data en))"
    "\<exists>c. out = Inr c" "loop_pop f en' r = (engine_finish_run en' r, LoopFinished)"
    using next_data_valid [of "en_data en1" ResetRequested] acc assms(1) d
    by (simp_all add: committed_def cleared_def clear_plan_def loop_pop_def pop_action_def clear_queue_def enqueue_all_def)
qed

lemma replace_messages_data:
  "valid_data (en_data (replace_messages en ms))" "rd_messages (en_data (replace_messages en ms)) = ms"
  by (simp_all add: replace_messages_def Let_def valid_data_iff no_tools_def no_streaming_def)

section \<open>The invariant\<close>

definition log_synced :: "store \<Rightarrow> string \<Rightarrow> nat \<Rightarrow> message list \<Rightarrow> bool" where
  "log_synced st i n ms \<longleftrightarrow> live st i \<and> n \<le> length ms \<and> replayed st i = take n ms \<and> list_all loggable (drop n ms)"

definition synced :: "'w session \<Rightarrow> bool" where
  "synced s \<longleftrightarrow> valid_data (en_data (ss_engine s))
     \<and> (\<forall>st. ss_store s = Some st \<longrightarrow> log_synced st (session_id s) (em_messages (ss_emitter s)) (session_messages s))"

lemma syncedD:
  assumes "synced s"
  shows "valid_data (en_data (ss_engine s))"
    and "ss_store s = Some st \<Longrightarrow> log_synced st (session_id s) (em_messages (ss_emitter s)) (session_messages s)"
  using assms by (simp_all add: synced_def)

lemma log_synced_whole: "live st i \<Longrightarrow> replayed st i = ms \<Longrightarrow> log_synced st i (length ms) ms"
  by (simp add: log_synced_def)

lemma log_synced_audit:
  "log_synced st i n ms \<Longrightarrow> lr_type r \<in> {EVENT_APPROVAL_DECISION, EVENT_CANCEL, EVENT_ERROR, EVENT_CHECKPOINT} \<Longrightarrow>
     log_synced (appended moment st i r) i n ms"
  using audit_saves [of st i r moment] by (simp add: log_synced_def)

lemma live_transfer:
  assumes "live st i" and "store_ok st'" and "get_dir st' i = get_dir st i"
  shows "live st' i" and "log_of st' i = log_of st i"
  using assms by (auto simp: live_def read_meta_def records_unlocked_def log_of_def)

lemma log_synced_transfer:
  "log_synced st i n ms \<Longrightarrow> store_ok st' \<Longrightarrow> get_dir st' i = get_dir st i \<Longrightarrow> log_synced st' i n ms"
  using live_transfer [of st i st'] by (simp add: log_synced_def replayed_def)

lemma log_synced_grows:
  "log_synced st i n ms \<Longrightarrow> list_all loggable ns \<Longrightarrow> log_synced st i n (ms @ ns)"
  by (simp add: log_synced_def)

text \<open>The parts of a session the invariant does not read.\<close>

lemma synced_frame:
  "synced s \<Longrightarrow> ss_engine s' = ss_engine s \<Longrightarrow> ss_store s' = ss_store s \<Longrightarrow> session_id s' = session_id s \<Longrightarrow>
     em_messages (ss_emitter s') = em_messages (ss_emitter s) \<Longrightarrow> synced s'"
  by (simp add: synced_def session_messages_def)

lemma synced_flags [simp]:
  "synced (s\<lparr>ss_active := a\<rparr>) = synced s" "synced (s\<lparr>ss_observed := a\<rparr>) = synced s"
  "synced (s\<lparr>ss_sent := ns\<rparr>) = synced s" "synced (s\<lparr>ss_attachments := as\<rparr>) = synced s"
  "synced (s\<lparr>ss_workspace := w\<rparr>) = synced s" "synced (close_stream s) = synced s"
  by (simp_all add: synced_def session_messages_def session_id_def close_stream_def)

lemma synced_engine:
  assumes "synced s" and "grows (ss_engine s) en"
  shows "synced (s\<lparr>ss_engine := en\<rparr>)"
  using assms log_synced_grows by (fastforce simp: synced_def grows_def session_messages_def session_id_def)

section \<open>Persisting\<close>

lemma persist_append:
  assumes s: "synced s" and t: "lr_type r \<noteq> ''''"
    and w: "\<And>st. live st (session_id s) \<Longrightarrow> wr st (session_id s) = Inr (appended moment st (session_id s) r)"
  shows "persist s wr = (s\<lparr>ss_store := map_option (\<lambda>st. appended moment st (session_id s) r) (ss_store s)\<rparr>, Inr ())"
  using s w by (auto simp: persist_def synced_def log_synced_def split: option.split)

lemma synced_audit:
  assumes "synced s" and "lr_type r \<in> {EVENT_APPROVAL_DECISION, EVENT_CANCEL, EVENT_ERROR, EVENT_CHECKPOINT}"
  shows "synced (s\<lparr>ss_store := map_option (\<lambda>st. appended moment st (session_id s) r) (ss_store s)\<rparr>)"
  using assms log_synced_audit [OF _ assms(2)]
  by (auto simp: synced_def session_messages_def session_id_def)

lemma persist_audit:
  assumes "synced s" and "lr_type r \<in> {EVENT_APPROVAL_DECISION, EVENT_CANCEL, EVENT_ERROR, EVENT_CHECKPOINT}"
    and "\<And>st. live st (session_id s) \<Longrightarrow> wr st (session_id s) = Inr (appended moment st (session_id s) r)"
    and "persist s wr = (s', out)"
  shows "out = Inr () \<and> synced s' \<and> ss_emitter s' = ss_emitter s \<and> ss_engine s' = ss_engine s
    \<and> ss_observed s' = ss_observed s \<and> ss_active s' = ss_active s"
proof -
  have "lr_type r \<noteq> ''''" using assms(2) by (auto simp: event_names)
  have "persist s wr = (s\<lparr>ss_store := map_option (\<lambda>st. appended moment st (session_id s) r) (ss_store s)\<rparr>, Inr ())"
    by (rule persist_append) (use assms(1,3) \<open>lr_type r \<noteq> ''''\<close> in auto)
  with assms(4) synced_audit [OF assms(1,2), of moment] show ?thesis by auto
qed

text \<open>Emission: every message not counted yet is stored, in order, and counted.\<close>

definition logged_all :: "stamp \<Rightarrow> store \<Rightarrow> string \<Rightarrow> message list \<Rightarrow> store" where
  "logged_all moment st i ms = foldl (\<lambda>st m. appended moment st i (message_record m)) st ms"

lemma logged_all_live:
  "live st i \<Longrightarrow> live (logged_all moment st i ms) i
     \<and> (list_all storable ms \<longrightarrow> replayed (logged_all moment st i ms) i = replayed st i @ ms)"
proof (induction ms arbitrary: st)
  case (Cons m ms)
  from Cons.IH [OF content_saves(1) [OF Cons.prems]] content_saves(5) [OF Cons.prems]
  show ?case by (auto simp: logged_all_def)
qed (simp add: logged_all_def)

lemma loggable_storable: "list_all loggable ms \<Longrightarrow> list_all storable ms"
  by (auto simp: list_all_iff loggable_def)

lemma emit_messages_eq:
  assumes "\<And>st. ss_store s = Some st \<Longrightarrow> live st (session_id s)"
  shows "emit_messages moment s ms =
    (s\<lparr>ss_store := map_option (\<lambda>st. logged_all moment st (session_id s) ms) (ss_store s),
       ss_sent := ss_sent s @ map MessageAppended ms\<rparr>, Inr ())"
  using assms
proof (induction ms arbitrary: s)
  case Nil
  show ?case by (cases "ss_store s") (simp_all add: logged_all_def)
next
  case (Cons m ms)
  define s2 where "s2 = s\<lparr>ss_sent := ss_sent s @ [MessageAppended m],
    ss_store := map_option (\<lambda>st. appended moment st (session_id s) (message_record m)) (ss_store s)\<rparr>"
  have p: "persistMessage moment (s\<lparr>ss_sent := ss_sent s @ [MessageAppended m]\<rparr>) m = (s2, Inr ())"
    using Cons.prems saves_succeed(1)
    by (cases "ss_store s") (simp_all add: persistMessage_def persist_def s2_def session_id_def)
  have "live st (session_id s2)" if "ss_store s2 = Some st" for st
    using that content_saves(1) [OF Cons.prems] by (auto simp: s2_def session_id_def)
  from Cons.IH [OF this] show ?case
    by (cases "ss_store s") (simp_all add: p, simp_all add: s2_def session_id_def logged_all_def)
qed

lemma emitSnapshot_synced:
  assumes "synced s" and "emitSnapshot moment s = (s', out)" and n: "em_messages (ss_emitter s) \<le> length (session_messages s)"
  shows "out = Inr () \<and> synced s' \<and> em_messages (ss_emitter s') = length (session_messages s')
    \<and> ss_engine s' = ss_engine s \<and> ss_observed s' = ss_observed s \<and> ss_active s' = ss_active s
    \<and> session_id s' = session_id s \<and> (ss_store s' = None \<longleftrightarrow> ss_store s = None)"
proof -
  obtain em ns where a: "announce (ss_emitter s) (engine_snapshot (ss_engine s)) = (em, ns)" by fastforce
  have vm: "vw_messages (engine_snapshot (ss_engine s)) = session_messages s"
    by (simp add: engine_snapshot_def session_messages_def Let_def)
  define start where "start = em_messages (ss_emitter s)"
  define new where "new = drop start (session_messages s)"
  have "em_messages em = em_messages (ss_emitter s)"
    using announce_messages [of "ss_emitter s" "engine_snapshot (ss_engine s)"] a by simp
  with n have st: "first_unemitted em (session_messages s) = start"
    by (simp add: first_unemitted_def start_def)
  define s1 where "s1 = s\<lparr>ss_emitter := em\<lparr>em_messages := start\<rparr>, ss_sent := ss_sent s @ ns\<rparr>"
  have "live st (session_id s1)" if "ss_store s1 = Some st" for st
    using that assms(1) by (simp add: s1_def synced_def log_synced_def session_id_def)
  note e = emit_messages_eq [OF this, where moment = moment and ms = new]
  have s': "out = Inr ()" "ss_engine s' = ss_engine s" "ss_observed s' = ss_observed s" "ss_active s' = ss_active s"
    "session_id s' = session_id s" "em_messages (ss_emitter s') = length (session_messages s)"
    "ss_store s' = map_option (\<lambda>st. logged_all moment st (session_id s) new) (ss_store s)"
    using assms(2) by (auto simp: emitSnapshot_def a vm st s1_def [symmetric] Let_def e new_def [symmetric])
      (simp_all add: s1_def session_id_def)
  have m: "session_messages s' = session_messages s" by (simp add: session_messages_def s')
  have "log_synced st' (session_id s) (length (session_messages s)) (session_messages s)"
    if "ss_store s' = Some st'" for st'
  proof -
    from that s'(7) obtain st0 where st0: "ss_store s = Some st0" "st' = logged_all moment st0 (session_id s) new" by auto
    then have l: "log_synced st0 (session_id s) start (session_messages s)"
      using assms(1) by (simp add: synced_def start_def)
    then have "live st' (session_id s) \<and> replayed st' (session_id s) = replayed st0 (session_id s) @ new"
      using logged_all_live [of st0 "session_id s" moment new] st0(2) loggable_storable
      by (simp add: log_synced_def new_def)
    with l show ?thesis by (intro log_synced_whole) (simp_all add: log_synced_def new_def)
  qed
  then have "synced s'" using assms(1) s' m by (simp add: synced_def)
  with s' m show ?thesis by simp
qed

section \<open>Each use case\<close>

definition counted :: "'w session \<Rightarrow> bool" where
  "counted s \<longleftrightarrow> synced s \<and> em_messages (ss_emitter s) \<le> length (session_messages s)"

lemma counted_flags [simp]:
  "counted (s\<lparr>ss_active := a\<rparr>) = counted s" "counted (s\<lparr>ss_observed := a\<rparr>) = counted s"
  "counted (s\<lparr>ss_sent := ns\<rparr>) = counted s" "counted (s\<lparr>ss_attachments := as\<rparr>) = counted s"
  "counted (s\<lparr>ss_workspace := w\<rparr>) = counted s" "counted (close_stream s) = counted s"
  by (simp_all add: counted_def) (simp_all add: session_messages_def close_stream_def)

lemma counted_emitter: "counted s \<Longrightarrow> em_messages em = em_messages (ss_emitter s) \<Longrightarrow> counted (s\<lparr>ss_emitter := em\<rparr>)"
  by (simp add: counted_def synced_def session_messages_def session_id_def)

lemma counted_synced: "counted s \<Longrightarrow> synced s"
  by (simp add: counted_def)

lemma counted_engine: "counted s \<Longrightarrow> grows (ss_engine s) en \<Longrightarrow> counted (s\<lparr>ss_engine := en\<rparr>)"
  using synced_engine [of s en] by (auto simp: counted_def session_messages_def grows_def)

lemma counted_emit:
  "counted s \<Longrightarrow> emitSnapshot moment s = (s', out) \<Longrightarrow>
     out = Inr () \<and> counted s' \<and> em_messages (ss_emitter s') = length (session_messages s')
     \<and> ss_engine s' = ss_engine s \<and> ss_observed s' = ss_observed s \<and> ss_active s' = ss_active s"
  using emitSnapshot_synced [of s moment s' out] by (auto simp: counted_def)

lemma counted_notify:
  "counted s \<Longrightarrow> notify_observer moment s = (s', out) \<Longrightarrow> out = Inr () \<and> counted s' \<and> ss_engine s' = ss_engine s"
  using counted_emit [of s moment s' out] by (auto simp: notify_observer_def split: if_splits)

lemma counted_audit:
  assumes "counted s" and "lr_type r \<in> {EVENT_APPROVAL_DECISION, EVENT_CANCEL, EVENT_ERROR, EVENT_CHECKPOINT}"
    and "\<And>st. live st (session_id s) \<Longrightarrow> wr st (session_id s) = Inr (appended moment st (session_id s) r)"
    and "persist s wr = (s', out)"
  shows "out = Inr () \<and> counted s' \<and> ss_emitter s' = ss_emitter s \<and> ss_engine s' = ss_engine s"
proof -
  note p = persist_audit [OF counted_synced [OF assms(1)] assms(2,3,4)]
  then have "session_messages s' = session_messages s" by (simp add: session_messages_def)
  with p assms(1) show ?thesis by (simp add: counted_def)
qed

text \<open>A new turn identifier and a new workspace description are invisible to the log.\<close>

lemma write_meta_live:
  assumes "live st i" and "read_meta st i = Inr m" and "sm_id m' = sm_id m"
  shows "\<exists>st'. write_meta st m' = Inr st' \<and> live st' i \<and> log_of st' i = log_of st i"
proof -
  from assms(1) obtain m0 rs where l: "store_ok st" "validateID i = Inr ()"
    "get_dir st i = Some \<lparr>sd_meta = MetaFile m0, sd_events = Some rs\<rparr>" "sm_id m0 = i" "read_meta st i = Inr m0"
    "log_of st i = rs" by (rule liveE)
  have id: "sm_id m' = i" using assms(2,3) l(4,5) by simp
  define st' where "st' = put_dir st i \<lparr>sd_meta = MetaFile m', sd_events = Some rs\<rparr>"
  have w: "write_meta st m' = Inr st'" using l(2,3) id by (simp add: write_meta_def ensured_dir_def st'_def)
  have "store_ok st'" unfolding st'_def by (rule store_ok_put) (use l(1) id in auto)
  then have "live st' i" "log_of st' i = rs"
    using liveI [of st' i m' rs] l(2) by (simp_all add: st'_def)
  with w l(6) show ?thesis by (intro exI [of _ st']) simp
qed

lemma live_meta: "live st i \<Longrightarrow> validateID i = Inr () \<and> (\<exists>m. read_meta st i = Inr m)"
  by (simp add: live_def)

lemma set_turn_live:
  assumes "live st i"
  shows "\<exists>st'. set_current_turn moment st i t = Inr st' \<and> live st' i \<and> log_of st' i = log_of st i"
proof -
  from live_meta [OF assms] obtain m where m: "validateID i = Inr ()" "read_meta st i = Inr m" by blast
  from write_meta_live [OF assms m(2), of "m\<lparr>sm_current_turn_id := t, sm_updated_at := moment\<rparr>"]
  show ?thesis by (simp add: set_current_turn_def m)
qed

lemma save_workspace_live:
  assumes "live st i"
  shows "\<exists>st'. repo_save_workspace moment st i w = Inr st' \<and> live st' i \<and> log_of st' i = log_of st i"
proof -
  from live_meta [OF assms] obtain m where m: "read_meta st i = Inr m" by blast
  from write_meta_live [OF assms m] show ?thesis
    by (simp add: repo_save_workspace_def save_workspace_description_def m)
qed

lemma live_memory [simp]: "live (save_memory st items) i = live st i"
  by (simp add: live_def read_meta_def records_unlocked_def store_ok_def) (simp add: save_memory_def)

lemma replayed_memory [simp]: "replayed (save_memory st items) i = replayed st i"
  by (simp add: replayed_def log_of_def)

lemma counted_store:
  assumes "counted s" and "\<And>st'. st = Some st' \<Longrightarrow>
      \<exists>st0. ss_store s = Some st0 \<and> live st' (session_id s) \<and> replayed st' (session_id s) = replayed st0 (session_id s)"
  shows "counted (s\<lparr>ss_store := st\<rparr>)"
  using assms by (fastforce simp: counted_def synced_def log_synced_def session_messages_def session_id_def)

text \<open>The installed conversation is the replayed one, and all of it is counted.\<close>

lemma counted_install:
  assumes "em_messages em = length ms" and "\<And>st'. st = Some st' \<Longrightarrow> live st' (md_id meta) \<and> replayed st' (md_id meta) = ms"
  shows "counted ((install s ms em)\<lparr>ss_store := st, ss_meta := meta\<rparr>)"
  using assms log_synced_whole [of _ "md_id meta" ms]
  by (auto simp: counted_def synced_def install_def session_messages_def session_id_def replace_messages_data)

lemma counted_installed:
  assumes "em_messages em = length ms" and "\<And>st'. ss_store s = Some st' \<Longrightarrow> live st' (session_id s) \<and> replayed st' (session_id s) = ms"
  shows "counted (install s ms em)"
  using counted_install [OF assms(1), of "ss_store s" "ss_meta s" s] assms(2)
  by (simp add: install_def session_id_def)

lemma locked_outcome:
  assumes "locked s body = (s', out)" and "counted s"
    and "\<And>s1 out1. body (s\<lparr>ss_active := True\<rparr>) = (s1, out1) \<Longrightarrow> counted s1"
  shows "counted s'"
  using assms by (auto simp: locked_def split: if_splits prod.splits)

lemma with_store_outcome:
  assumes "with_store s body = (s', out)" and "counted s"
    and "\<And>st. ss_store s = Some st \<Longrightarrow> body st = (s', out) \<Longrightarrow> counted s'"
  shows "counted s'"
  using assms by (auto simp: with_store_def split: option.splits)

lemma counted_live: "counted s \<Longrightarrow> ss_store s = Some st \<Longrightarrow> live st (session_id s)"
  by (simp add: counted_def synced_def log_synced_def)

text \<open>A save that says what the conversation is now, and the conversation installed.\<close>

lemma persist_content:
  assumes "counted s" and "lr_type r \<noteq> ''''"
    and "\<And>st. live st (session_id s) \<Longrightarrow> wr st (session_id s) = Inr (appended moment st (session_id s) r)"
    and "\<And>st. live st (session_id s) \<Longrightarrow> replay_record (replayed st (session_id s)) r = ms"
  shows "\<exists>s1. persist s wr = (s1, Inr ()) \<and> (\<forall>em. em_messages em = length ms \<longrightarrow> counted (install s1 ms em))"
proof -
  define s1 where "s1 = s\<lparr>ss_store := map_option (\<lambda>st. appended moment st (session_id s) r) (ss_store s)\<rparr>"
  have p: "persist s wr = (s1, Inr ())"
    unfolding s1_def by (rule persist_append) (use assms counted_synced in auto)
  have "counted (install s1 ms em)" if em: "em_messages em = length ms" for em
  proof (rule counted_installed [OF em])
    fix st' assume "ss_store s1 = Some st'"
    then obtain st where st: "ss_store s = Some st" "st' = appended moment st (session_id s) r" by (auto simp: s1_def)
    have l: "live st (session_id s)" by (rule counted_live [OF assms(1) st(1)])
    show "live st' (session_id s1) \<and> replayed st' (session_id s1) = ms"
      using stored.save_ok [OF l assms(2), of moment] stored.save_context [OF l assms(2), of moment] assms(4) [OF l] st(2)
      by (simp add: s1_def session_id_def)
  qed
  with p show ?thesis by blast
qed

lemma counted_replacement:
  assumes c: "counted s"
    and e: "and_then (persist s (\<lambda>st i. save_conversation_replacement moment st i ms))
      (\<lambda>s1 _. (install s1 ms (emitter_reset (ss_emitter s1) (length ms)), Inr ())) = (s', out)"
  shows "counted s' \<and> out = Inr ()"
proof -
  have "\<exists>s1. persist s (\<lambda>st i. save_conversation_replacement moment st i ms) = (s1, Inr ())
      \<and> (\<forall>em. em_messages em = length ms \<longrightarrow> counted (install s1 ms em))"
    by (rule persist_content [OF c, where r = "replacement_record ms" and moment = moment])
      (simp_all add: record_types event_names saves_succeed replay_other_records)
  with e show ?thesis by (auto simp: emitter_reset_def)
qed

lemma counted_turn_begin:
  assumes c: "counted s" and b: "turn_begin moment s = (s', out)"
  shows "counted s'"
proof (cases "ss_active s")
  case True
  with b c show ?thesis by (auto simp: turn_begin_def)
next
  case False
  obtain st1 where p: "persistTurnBoundary moment (s\<lparr>ss_active := True\<rparr>) = (s\<lparr>ss_active := True, ss_store := st1\<rparr>, Inr ())"
    and k: "counted (s\<lparr>ss_store := st1\<rparr>)"
  proof (cases "ss_store s")
    case None
    have "counted (s\<lparr>ss_store := None\<rparr>)" using c by (rule counted_store) simp
    with None show thesis
      by (intro that [of None]) (simp_all add: persistTurnBoundary_def persist_def)
  next
    case (Some st)
    from set_turn_live [OF counted_live [OF c Some]] obtain st' where
      "assign_new_turn_id moment st (session_id s) = Inr st'" "live st' (session_id s)"
      "log_of st' (session_id s) = log_of st (session_id s)" by (auto simp: assign_new_turn_id_def)
    with Some show thesis
      by (intro that [of "Some st'"] counted_store [OF c])
        (simp_all add: persistTurnBoundary_def persist_def session_id_def replayed_def)
  qed
  from k have "counted (s\<lparr>ss_store := st1, ss_active := True, ss_observed := True, ss_attachments := []\<rparr>)" by simp
  moreover have "s' = s\<lparr>ss_store := st1, ss_active := True, ss_observed := True, ss_attachments := []\<rparr>"
    using b False p by (auto simp: turn_begin_def)
  ultimately show ?thesis by simp
qed

lemma counted_error:
  assumes "counted s" and "failTurn moment s t = (s', out)" shows "out = Inr () \<and> counted s'"
proof -
  have c: "counted (s\<lparr>ss_sent := ss_sent s @ [SessionErrorRaised t]\<rparr>)" using assms(1) by simp
  have "out = Inr () \<and> counted s' \<and> ss_emitter s' = ss_emitter (s\<lparr>ss_sent := ss_sent s @ [SessionErrorRaised t]\<rparr>)
      \<and> ss_engine s' = ss_engine (s\<lparr>ss_sent := ss_sent s @ [SessionErrorRaised t]\<rparr>)"
    by (rule counted_audit [OF c, where r = "error_record t" and moment = moment
        and wr = "\<lambda>st i. save_error moment st i (Some t)"])
      (use assms(2) in \<open>simp_all add: failTurn_def persistError_def record_types saves_succeed\<close>)
  then show ?thesis by blast
qed

lemma counted_turn_end:
  assumes c: "counted s" and e: "turn_end moment s failure = (s', out)"
  shows "out = Inr () \<and> counted s' \<and> em_messages (ss_emitter s') = length (session_messages s')
    \<and> \<not> ss_active s' \<and> \<not> ss_observed s'"
proof -
  obtain s1 where r: "(case failure of None \<Rightarrow> (s, Inr ()) | Some t \<Rightarrow> failTurn moment s t) = (s1, Inr ())"
    and s1: "counted s1"
    using c counted_error [OF c, of moment] by (cases failure; cases "failTurn moment s (the failure)") auto
  obtain s2 out2 where em: "emitSnapshot moment s1 = (s2, out2)" by fastforce
  note k = counted_emit [OF s1 em]
  have "s' = close_stream (s2\<lparr>ss_observed := False, ss_active := False\<rparr>)" "out = Inr ()"
    using e k em by (auto simp: turn_end_def r)
  then show ?thesis using k by (simp add: close_stream_def) (simp add: session_messages_def counted_def synced_def session_id_def)
qed

lemma counted_approval:
  assumes c: "counted s" and a: "approval_decided moment s call d = (s', out)" shows "counted s'"
proof -
  obtain s1 out1 where p: "persistApproval moment s d call = (s1, out1)" by fastforce
  have k: "out1 = Inr () \<and> counted s1 \<and> ss_emitter s1 = ss_emitter s \<and> ss_engine s1 = ss_engine s"
    by (rule counted_audit [OF c, where r = "approval_record d (Some call)" and moment = moment
        and wr = "\<lambda>st i. save_approval moment st i d (Some call)"])
      (use p in \<open>simp_all add: persistApproval_def record_types saves_succeed\<close>)
  then have "s' = s1\<lparr>ss_emitter := markApprovalConsumed (ss_emitter s1)\<rparr>"
    using a p by (simp add: approval_decided_def)
  with k show ?thesis by (simp add: counted_emitter markApprovalConsumed_def)
qed

lemma counted_checkpoint:
  assumes c: "counted s" and a: "session_checkpoint wp jl moment s call = (s', out)" shows "counted s'"
proof -
  have "counted s'" if p: "persist s (\<lambda>st i. save_checkpoint moment st i call fs) = (s', out)" for fs
  proof (cases "fs = []")
    case True
    then have "\<exists>st. s' = s\<lparr>ss_store := st\<rparr> \<and> st = ss_store s"
      using p by (auto simp: persist_def save_checkpoint_def split: option.splits)
    with c show ?thesis by (metis session.surjective session.update_convs(3))
  next
    case False
    have "out = Inr () \<and> counted s' \<and> ss_emitter s' = ss_emitter s \<and> ss_engine s' = ss_engine s"
      by (rule counted_audit [OF c, where r = "checkpoint_record moment call fs" and moment = moment
          and wr = "\<lambda>st i. save_checkpoint moment st i call fs"])
        (use p False in \<open>simp_all add: record_types saves_succeed\<close>)
    then show ?thesis by blast
  qed
  with a c show ?thesis
    by (auto simp: session_checkpoint_def Let_def split: option.splits sum.splits if_splits)
qed

lemma counted_attach: "counted s \<Longrightarrow> attach wp s p = (s', out) \<Longrightarrow> counted s'"
  by (auto simp: attach_def split: option.splits sum.splits)

lemma counted_replace:
  assumes c: "counted s" and r: "replace_conversation moment s ms = (s', out)" shows "counted s'"
  using r unfolding replace_conversation_def
  by (rule locked_outcome [OF _ c]) (use c in \<open>auto dest: counted_replacement [rotated]\<close>)

lemma counted_memory:
  "counted s \<Longrightarrow> ss_store s = Some st \<Longrightarrow> counted (s\<lparr>ss_store := Some (save_memory st items)\<rparr>)"
  by (rule counted_store) (auto simp: counted_live)

lemma counted_replaceMemory:
  assumes "counted s" and "replaceMemoryContext moment s items = (s', out)" shows "counted s'"
proof -
  have "and_then (persist s (\<lambda>st i. save_conversation_replacement moment st i (withMemoryContext (session_messages s) items)))
      (\<lambda>s1 _. (install s1 (withMemoryContext (session_messages s) items)
        (emitter_reset (ss_emitter s1) (length (withMemoryContext (session_messages s) items))), Inr ())) = (s', out)"
    using assms(2) by (simp add: replaceMemoryContext_def Let_def)
  from counted_replacement [OF assms(1) this] show ?thesis by blast
qed

text \<open>A use case under the lock and with a store: its body decides.\<close>

lemma counted_locked_store:
  assumes c: "counted s" and r: "locked s (\<lambda>s. with_store s (body s)) = (s', out)"
    and b: "\<And>t st s1. counted t \<Longrightarrow> ss_store t = Some st \<Longrightarrow> session_id t = session_id s \<Longrightarrow>
      ss_store s = Some st \<Longrightarrow> body t st = (s1, out) \<Longrightarrow> counted s1"
  shows "counted s'"
proof (cases "ss_active s")
  case True
  with c r show ?thesis by (simp add: locked_def)
next
  case False
  define t where "t = s\<lparr>ss_active := True\<rparr>"
  have t: "counted t" "session_id t = session_id s" "ss_store t = ss_store s"
    using c by (simp_all add: t_def session_id_def)
  obtain s1 out1 where w: "with_store t (body t) = (s1, out1)" by fastforce
  with r False have s': "s' = s1\<lparr>ss_active := False\<rparr>" "out1 = out" by (simp_all add: locked_def t_def)
  have "counted s1"
  proof (cases "ss_store s")
    case None
    with w t show ?thesis by (auto simp: with_store_def)
  next
    case (Some st)
    with w t s'(2) show ?thesis by (auto simp: with_store_def intro: b)
  qed
  with s' show ?thesis by simp
qed

lemma counted_remember:
  assumes "counted s" and r: "session_remember moment s text = (s', out)" shows "counted s'"
proof (cases "py_strip text = ''''")
  case True
  with assms show ?thesis by (simp add: session_remember_def)
next
  case False
  with r have "locked s (\<lambda>s. with_store s (remember_with moment (py_strip text) s)) = (s', out)"
    by (simp add: session_remember_def)
  with assms(1) show ?thesis
    by (rule counted_locked_store)
      (auto simp: remember_with_def Let_def split: if_splits intro: counted_replaceMemory [OF counted_memory])
qed

lemma counted_forget: "counted s \<Longrightarrow> forget_memories moment s = (s', out) \<Longrightarrow> counted s'"
  unfolding forget_memories_def
  by (erule (1) counted_locked_store) (auto simp: forget_with_def intro: counted_replaceMemory [OF counted_memory])

lemma counted_fork:
  assumes c: "counted s" and r: "session_fork wp sha moment s title = (s', out)"
    and fresh: "\<And>st. ss_store s = Some st \<Longrightarrow> get_dir st (new_id moment) = None"
  shows "counted s'"
  using c r [unfolded session_fork_def]
proof (rule counted_locked_store)
  fix t st s1
  assume t: "counted t" "ss_store t = Some st" and s: "ss_store s = Some st"
    and b: "fork_with wp sha moment title t st = (s1, out)"
  let ?ms = "session_messages t"
  have ok: "store_ok st" using counted_live [OF t] by (simp add: live_def)
  have "sm_id (toStoreMetadata (fork_metadata wp t title)) = ''''"
    by (simp add: toStoreMetadata_def fork_metadata_def Let_def)
  then obtain st' m where k: "store_create sha moment st (toStoreMetadata (fork_metadata wp t title)) ?ms = (st', Inr m)"
    "sm_id m = new_id moment" "live st' (new_id moment)" "store_messages st' (new_id moment) = Inr ?ms"
    using store_create_live [OF ok _ new_id_valid fresh [OF s], where sha = sha and moment = moment and ms = ?ms
        and meta = "toStoreMetadata (fork_metadata wp t title)"] by auto
  have "replayed st' (new_id moment) = ?ms" using k(4) live_reads(3) [OF k(3)] by simp
  moreover have "s1 = (install t ?ms (rearmEmitter (length ?ms)))\<lparr>ss_store := Some st', ss_meta := toSessionMetadata m\<rparr>"
    using b k(1) by (simp add: fork_with_def Let_def repo_create_def)
  ultimately show "counted s1"
    using k by (auto intro!: counted_install simp: rearmEmitter_def toSessionMetadata_def)
qed

text \<open>A store operation that keeps the active session live with the same context.\<close>

lemma counted_other_session:
  assumes c: "counted s" and st: "ss_store s = Some st" and k: "kept_apart i st st'" and i: "i \<noteq> session_id s"
  shows "counted (s\<lparr>ss_store := Some st'\<rparr>)"
  by (rule counted_store [OF c])
    (use live_transfer [OF counted_live [OF c st]] k i st in \<open>auto simp: kept_apart_def replayed_def\<close>)

lemma counted_rename:
  assumes c: "counted s" and r: "session_rename moment s i title = (s', out)" shows "counted s'"
proof (cases "\<exists>st st'. ss_store s = Some st \<and> store_rename moment st i title = Inr st'")
  case False
  with c r show ?thesis by (auto simp: session_rename_def with_store_def split: option.splits sum.splits)
next
  case True
  then obtain st st' where st: "ss_store s = Some st" and n: "store_rename moment st i title = Inr st'" by blast
  with r have s': "s' = s\<lparr>ss_store := Some st'\<rparr>" by (simp add: session_rename_def with_store_def)
  note l = counted_live [OF c st]
  show ?thesis
  proof (cases "i = session_id s")
    case True
    obtain m where m: "read_meta st i = Inr m"
      "write_meta st (m\<lparr>sm_title := py_strip title, sm_updated_at := moment\<rparr>) = Inr st'"
      using n by (auto simp: store_rename_def bind_result_Inr_iff Let_def split: if_splits)
    from write_meta_live [OF l m(1) [unfolded True], of "m\<lparr>sm_title := py_strip title, sm_updated_at := moment\<rparr>"] m(2)
    show ?thesis unfolding s' by (intro counted_store [OF c]) (simp add: replayed_def st)
  next
    case False
    have ok: "store_ok st" using l by (simp add: live_def)
    show ?thesis unfolding s'
      by (rule counted_other_session [OF c st sessions_apart [OF step_rename [OF n] ok] False])
  qed
qed

lemma counted_delete:
  assumes c: "counted s" and r: "delete_session s i = (s', out)" shows "counted s'"
proof (cases "i \<noteq> session_id s \<and> (\<exists>st st'. ss_store s = Some st \<and> store_delete st i = Inr st')")
  case False
  with c r show ?thesis by (auto simp: delete_session_def with_store_def split: option.splits sum.splits if_splits)
next
  case True
  then obtain st st' where st: "ss_store s = Some st" and n: "store_delete st i = Inr st'" and i: "i \<noteq> session_id s" by blast
  with r have s': "s' = s\<lparr>ss_store := Some st'\<rparr>" by (simp add: delete_session_def with_store_def)
  have ok: "store_ok st" using counted_live [OF c st] by (simp add: live_def)
  show ?thesis unfolding s' by (rule counted_other_session [OF c st sessions_apart [OF step_delete [OF n] ok] i])
qed

lemma repo_load_live:
  assumes "repo_load st i = Inr (ms, meta)" and "store_ok st"
  shows "live st i" and "ms = replayed st i" and "md_id meta = i"
proof -
  from assms(1) obtain m where r: "store_messages st i = Inr ms" "validateID i = Inr ()" "read_meta st i = Inr m"
    "meta = toSessionMetadata m"
    by (auto simp: repo_load_def store_metadata_def bind_result_Inr_iff)
  then show l: "live st i" using assms(2) by (auto simp: live_def store_messages_def bind_result_Inr_iff)
  then show "ms = replayed st i" using r(1) live_reads(3) [OF l] by simp
  show "md_id meta = i" using r(3,4) read_meta_id [OF assms(2) r(3)] by (simp add: toSessionMetadata_def)
qed

lemma replacement_apart:
  "live st i \<Longrightarrow> kept_apart i st (appended moment st i (replacement_record ms))"
proof -
  assume l: "live st i"
  then have "store_append moment st i (replacement_record ms) = Inr (appended moment st i (replacement_record ms))"
    by (rule appended_eq) (simp add: record_types event_names)
  from sessions_apart [OF step_append [OF this]] l show ?thesis by (simp add: live_def)
qed

lemma counted_resume:
  assumes c: "counted s" and r: "session_resume wp moment s i = (s', out)"
    and g: "is_ok out \<or> i \<noteq> session_id s"
  shows "counted s'"
  using c r [unfolded session_resume_def]
proof (rule counted_locked_store)
  fix t st s1
  assume t: "counted t" "ss_store t = Some st" "session_id t = session_id s"
    and b: "resume_with wp moment i t st = (s1, out)"
  have ok: "store_ok st" using counted_live [OF t(1,2)] by (simp add: live_def)
  consider (refused) "s1 = t"
    | (checked) ms0 meta w spec legacy where "repo_load st i = Inr (ms0, meta)" "ss_workspace t = Some w"
        "resume_spec wp w meta = Inr (spec, legacy)"
    using b unfolding resume_with_def by (fastforce split: sum.splits option.splits prod.splits)
  then show "counted s1"
  proof cases
    case refused
    with t(1) show ?thesis by simp
  next
    case (checked ms0 meta w spec legacy)
    note a = checked
    note ld = repo_load_live [OF a(1) ok]
    obtain st1 where st1: "(if legacy then repo_save_workspace moment st i spec else Inr st) = Inr st1" "live st1 i"
      "kept_apart i st st1"
    proof (cases legacy)
      case True
      from save_workspace_live [OF ld(1), of moment spec] obtain st1 where
        w: "repo_save_workspace moment st i spec = Inr st1" "live st1 i" by blast
      have "kept_apart i st st1"
        using sessions_apart [OF step_workspace ok] w(1) unfolding repo_save_workspace_def by blast
      with w True that show thesis by simp
    next
      case False
      with ld(1) kept_apart_refl [OF ok] that show thesis by simp
    qed
    define ms where "ms = withMemoryContext ms0 (load_memory st1)"
    define st2 where "st2 = appended moment st1 i (replacement_record ms)"
    have sv: "save_conversation_replacement moment st1 i ms = Inr st2"
      using saves_succeed(5) [OF st1(2)] by (simp add: st2_def)
    have st2: "live st2 i" "replayed st2 i = ms" "kept_apart i st st2"
      using content_saves(3,7) [OF st1(2)] kept_apart_trans [OF st1(3) replacement_apart [OF st1(2)]]
      by (simp_all add: st2_def)
    show ?thesis
    proof (cases "wp_activate wp w spec")
      case (Inl e)
      with b a st1(1) sv have s1: "s1 = t\<lparr>ss_store := Some st2\<rparr>" and "\<not> is_ok out"
        by (auto simp: resume_with_def resume_commit_def ms_def Let_def)
      with g have "i \<noteq> session_id t" using t(3) by simp
      with s1 show ?thesis using counted_other_session [OF t(1,2) st2(3)] by simp
    next
      case (Inr w')
      with b a st1(1) sv have s1: "s1 = (install t ms (rearmEmitter (length ms)))\<lparr>ss_store := Some st2,
          ss_workspace := Some w', ss_meta := with_workspace meta spec\<rparr>"
        by (auto simp: resume_with_def resume_commit_def ms_def Let_def)
      have "counted ((install t ms (rearmEmitter (length ms)))\<lparr>ss_store := Some st2, ss_meta := with_workspace meta spec\<rparr>)"
        by (rule counted_install) (use st2 ld(3) in \<open>auto simp: rearmEmitter_def with_workspace_def\<close>)
      then have "counted ((install t ms (rearmEmitter (length ms)))\<lparr>ss_store := Some st2,
          ss_meta := with_workspace meta spec\<rparr>\<lparr>ss_workspace := Some w'\<rparr>)"
        unfolding counted_flags .
      moreover have "s1 = (install t ms (rearmEmitter (length ms)))\<lparr>ss_store := Some st2,
          ss_meta := with_workspace meta spec\<rparr>\<lparr>ss_workspace := Some w'\<rparr>"
        unfolding s1 by (cases "install t ms (rearmEmitter (length ms))") simp
      ultimately show ?thesis by simp
    qed
  qed
qed

lemma counted_compact_start: "counted s \<Longrightarrow> compact_start s k = (s', out) \<Longrightarrow> counted s'"
  by (auto simp: compact_start_def with_store_def Let_def split: if_splits option.splits)

lemma counted_compact_finish:
  assumes c: "counted s" and r: "compact_finish moment s current k summary = (s', out)" shows "counted s'"
proof (cases summary)
  case (Inl e)
  with c r show ?thesis by (auto simp: compact_finish_def)
next
  case (Inr t)
  define kept where "kept = compactedMessages current t k"
  have "\<exists>s1. persist s (\<lambda>st i. save_compaction moment st i t current kept) = (s1, Inr ())
      \<and> (\<forall>em. em_messages em = length kept \<longrightarrow> counted (install s1 kept em))"
    by (rule persist_content [OF c, where r = "compaction_record t current kept" and moment = moment])
      (simp_all add: record_types event_names saves_succeed replay_other_records)
  then obtain s1 where p: "persist s (\<lambda>st i. save_compaction moment st i t current kept) = (s1, Inr ())"
    "counted (install s1 kept ((ss_emitter s1)\<lparr>em_messages := length kept\<rparr>))" by auto
  then have "s' = (install s1 kept ((ss_emitter s1)\<lparr>em_messages := length kept\<rparr>))\<lparr>ss_active := False\<rparr>"
    using r Inr by (auto simp: compact_finish_def kept_def Let_def)
  with p(2) show ?thesis by simp
qed

lemma counted_compact_with: "counted s \<Longrightarrow> compact_with moment s text k = (s', out) \<Longrightarrow> counted s'"
  by (auto simp: compact_with_def split: prod.splits sum.splits option.splits
      dest: counted_compact_start counted_compact_finish)

lemma undo_point_live:
  assumes l: "live st i" and u: "load_undo_point st i = Inr (files, ms, index)"
  shows "\<exists>st'. truncate_after st i (int index) = Inr st' \<and> live st' i \<and> replayed st' i = ms"
proof -
  from l obtain m rs where k: "store_ok st" "validateID i = Inr ()"
    "get_dir st i = Some \<lparr>sd_meta = MetaFile m, sd_events = Some rs\<rparr>" "sm_id m = i" "log_of st i = rs" by (rule liveE)
  have rec: "store_records st i = Inr rs" using live_reads(1) [OF l] k(5) by simp
  with u obtain cp where p: "undo_point rs = Some (cp, ms, index)"
    by (auto simp: load_undo_point_def checkpoint_undo_def bind_result_Inr_iff split: option.splits)
  define st' where "st' = put_dir st i \<lparr>sd_meta = MetaFile m, sd_events = Some (truncate_records rs (int index))\<rparr>"
  have t: "truncate_after st i (int index) = Inr st'"
    using rec k(3) by (simp add: truncate_after_def ensured_dir_def st'_def)
  have "store_ok st'" unfolding st'_def by (rule store_ok_put) (use k in auto)
  then have "live st' i" "log_of st' i = truncate_records rs (int index)"
    using liveI [of st' i m "truncate_records rs (int index)"] k(2) by (simp_all add: st'_def)
  then show ?thesis using t truncate_at_point(1,2) [OF p] by (intro exI [of _ st']) (simp add: replayed_def)
qed

lemma counted_undo:
  assumes c: "counted s" and r: "session_undo wp s = (s', out)" shows "counted s'"
  using c r [unfolded session_undo_def]
proof (rule counted_locked_store)
  fix t st s1
  assume t: "counted t" "ss_store t = Some st" and b: "undo_with wp t st = (s1, out)"
  show "counted s1"
  proof (cases "\<exists>w files ms index w'. ss_workspace t = Some w \<and> load_undo_point st (session_id t) = Inr (files, ms, index)
      \<and> wp_restore wp w files = (w', Inr ())")
    case False
    with b t(1) show ?thesis by (auto simp: undo_with_def split: option.splits sum.splits prod.splits)
  next
    case True
    then obtain w files ms index w' where a: "ss_workspace t = Some w"
      "load_undo_point st (session_id t) = Inr (files, ms, index)" "wp_restore wp w files = (w', Inr ())" by blast
    from undo_point_live [OF counted_live [OF t] a(2)] obtain st' where
      st': "truncate_after st (session_id t) (int index) = Inr st'" "live st' (session_id t)"
      "replayed st' (session_id t) = ms" by blast
    let ?s = "(install t ms ((ss_emitter t)\<lparr>em_messages := length ms\<rparr>))\<lparr>ss_store := Some st'\<rparr>"
    have "counted (?s\<lparr>ss_meta := ss_meta t\<rparr>)"
      by (rule counted_install) (use st' in \<open>auto simp: session_id_def\<close>)
    moreover have "?s\<lparr>ss_meta := ss_meta t\<rparr> = ?s" by (simp add: install_def)
    ultimately have "counted (?s\<lparr>ss_workspace := Some w'\<rparr>)" by simp
    moreover have "s1 = ?s\<lparr>ss_workspace := Some w'\<rparr>" using b a st'(1) by (simp add: undo_with_def)
    ultimately show ?thesis by simp
  qed
qed

lemma counted_after_command:
  assumes c: "counted (s\<lparr>ss_engine := en\<rparr>)" and r: "after_command f moment s (en, out0) = (s', out)"
  shows "counted s' \<and> (\<forall>x. out0 = Inr x \<longrightarrow> en_data (ss_engine s') = en_data en)"
proof (cases out0)
  case (Inl x)
  with c r show ?thesis by (auto simp: after_command_def)
next
  case (Inr ctx)
  obtain s1 out1 where n: "notify_observer moment (s\<lparr>ss_engine := en\<rparr>) = (s1, out1)" by fastforce
  have k: "out1 = Inr ()" "counted s1" "ss_engine s1 = en" using counted_notify [OF c n] by auto
  obtain en1 p where l: "loop_pop f en (rc_run_id (en_runs en)) = (en1, p)" by fastforce
  have "s' = s1\<lparr>ss_engine := en1\<rparr>"
    using r Inr n k l by (auto simp: after_command_def split: pop_outcome.splits)
  moreover have "counted (s1\<lparr>ss_engine := en1\<rparr>)"
    by (rule counted_engine [OF k(2)]) (simp add: k(3) grows_same_data loop_pop_data [OF l])
  ultimately show ?thesis using loop_pop_data [OF l] by simp
qed

lemma counted_cancel:
  assumes c: "counted s" and r: "session_cancel f moment s = (s', out)" shows "counted s'"
proof -
  obtain en out0 where e: "cmd_cancel f (ss_engine s) = (en, out0)" by fastforce
  obtain s1 out1 where a: "after_command f moment s (en, out0) = (s1, out1)" by fastforce
  have "counted (s\<lparr>ss_engine := en\<rparr>)" by (rule counted_engine [OF c cmd_cancel_grows [OF e]])
  from counted_after_command [OF this a] have s1: "counted s1" by blast
  show ?thesis
  proof (cases out1)
    case (Inl x)
    with r e a s1 show ?thesis by (simp add: session_cancel_def)
  next
    case (Inr u)
    with r e a have p: "persist s1 (save_cancel moment) = (s', out)" by (simp add: session_cancel_def)
    have "out = Inr () \<and> counted s' \<and> ss_emitter s' = ss_emitter s1 \<and> ss_engine s' = ss_engine s1"
      by (rule counted_audit [OF s1, where r = cancel_record and moment = moment and wr = "save_cancel moment"])
        (use p in \<open>simp_all add: record_types saves_succeed\<close>)
    then show ?thesis by blast
  qed
qed

text \<open>A reset outside a turn: nothing observes the engine, so nothing is emitted twice.\<close>

lemma counted_reset:
  assumes c: "counted s" and o: "\<not> ss_observed s" and r: "session_reset f moment s = (s', out)"
  shows "counted s'"
proof -
  let ?st = "map_option (\<lambda>st. appended moment st (session_id s) reset_record) (ss_store s)"
  define s1 where "s1 = s\<lparr>ss_store := ?st\<rparr>"
  have v: "valid_data (en_data (ss_engine s))" using c by (simp add: counted_def synced_def)
  have p: "persist s (save_reset moment) = (s1, Inr ())"
    unfolding s1_def
    by (rule persist_append [OF counted_synced [OF c]]) (simp_all add: record_types event_names saves_succeed)
  obtain en out0 where e: "cmd_reset f (ss_engine s) = (en, out0)" by fastforce
  note d = cmd_reset_data [OF v e]
  then obtain ctx where out0: "out0 = Inr ctx" by blast
  define en1 where "en1 = engine_finish_run en (rc_run_id (en_runs en))"
  have l: "loop_pop f en (rc_run_id (en_runs en)) = (en1, LoopFinished)" unfolding en1_def by (rule d(4))
  have d1: "en_data en1 = en_data en" by (rule loop_pop_data [OF l])
  let ?s2 = "s1\<lparr>ss_engine := en1\<rparr>"
  let ?S = "system_messages (session_messages s)"
  have m2: "session_messages ?s2 = ?S" using d(2) d1 by (simp add: session_messages_def)
  have final: "s' = ?s2\<lparr>ss_emitter := emitter_reset (ss_emitter s) (length ?S)\<rparr>"
    using r p e out0 l o m2
    by (simp add: session_reset_def after_command_def notify_observer_def s1_def)
  have log: "live st' (session_id s) \<and> replayed st' (session_id s) = ?S" if st': "?st = Some st'" for st'
  proof -
    from st' obtain st where st: "ss_store s = Some st" "st' = appended moment st (session_id s) reset_record" by auto
    have k: "log_synced st (session_id s) (em_messages (ss_emitter s)) (session_messages s)"
      using c st(1) by (simp add: counted_def synced_def)
    have "system_messages (drop (em_messages (ss_emitter s)) (session_messages s)) = []"
      using k by (auto simp: log_synced_def system_messages_def loggable_def list_all_iff filter_empty_conv)
    then have "system_messages (take (em_messages (ss_emitter s)) (session_messages s)) = ?S"
      by (metis append_Nil2 append_take_drop_id filter_append system_messages_def)
    then show ?thesis using k content_saves(2,6) [of st "session_id s"] st(2) by (simp add: log_synced_def)
  qed
  have m3: "session_messages s' = ?S" and i3: "session_id s' = session_id s" and st3: "ss_store s' = ?st"
    and em3: "em_messages (ss_emitter s') = length ?S" and v3: "valid_data (en_data (ss_engine s'))"
    using m2 d(1) d1 unfolding final
    by (simp_all add: session_messages_def session_id_def s1_def emitter_reset_def)
  have "log_synced st' (session_id s') (em_messages (ss_emitter s')) (session_messages s')"
    if "ss_store s' = Some st'" for st'
    unfolding m3 i3 em3 using log [of st'] that st3 by (intro log_synced_whole) simp_all
  then show ?thesis using v3 m3 em3 by (simp add: counted_def synced_def)
qed

section \<open>Every order of use cases\<close>

lemma counted_mode:
  assumes "counted s" and "set_permission_mode f s m = (s', out)" shows "counted s'"
proof -
  have "en_data en = en_data (ss_engine s)" if "set_permission_policy f (ss_engine s) x (ss_rules s) = Inr en" for x en
    using that by (auto simp: set_permission_policy_def split: if_splits)
  then have "s' = s \<or> (\<exists>en x. en_data en = en_data (ss_engine s) \<and> s' = s\<lparr>ss_engine := en, ss_mode := x\<rparr>)"
    using assms(2) by (auto simp: set_permission_mode_def Let_def split: if_splits sum.splits)
  with assms(1) show ?thesis by (auto simp: counted_def synced_def session_messages_def session_id_def)
qed

lemma counted_configure: "counted s \<Longrightarrow> counted (configure_permissions s m r)"
  by (simp add: counted_def synced_def session_messages_def session_id_def configure_permissions_def)

text \<open>
  One step of a session: a critical section of its engine, a notification of the observer, or
  a use case. A fork draws an identifier not in the store; a resume that fails to activate a
  workspace is of another session; a reset comes outside an observed turn. No other order is
  imposed: the lock decides which use case is refused.
\<close>

definition fresh_session :: "'w session \<Rightarrow> stamp \<Rightarrow> bool" where
  "fresh_session s moment = (case ss_store s of None \<Rightarrow> True | Some st \<Rightarrow> get_dir st (new_id moment) = None)"

inductive session_step :: "'w workspace_port \<Rightarrow> 'w session \<Rightarrow> 'w session \<Rightarrow> bool" for wp where
  use_engine: "engine_move (ss_engine s) en \<Longrightarrow> session_step wp s (s\<lparr>ss_engine := en\<rparr>)"
| use_notify: "notify_observer moment s = (s', out) \<Longrightarrow> session_step wp s s'"
| use_chunk: "session_step wp s (onStreamChunk s chunk)"
| use_usage: "session_step wp s (on_usage s u)"
| use_turn: "turn_begin moment s = (s', out1) \<Longrightarrow> session_step wp s s'"
| use_turn_end: "turn_end moment s failure = (s', out) \<Longrightarrow> session_step wp s s'"
| use_approval: "approval_decided moment s c d = (s', out2) \<Longrightarrow> session_step wp s s'"
| use_checkpoint: "session_checkpoint wp json_loads moment s c = (s', out) \<Longrightarrow> session_step wp s s'"
| use_attach: "attach wp s path = (s', out3) \<Longrightarrow> session_step wp s s'"
| use_fork: "session_fork wp sha256 moment s title = (s', out4) \<Longrightarrow> fresh_session s moment \<Longrightarrow> session_step wp s s'"
| use_remember: "session_remember moment s text = (s', out) \<Longrightarrow> session_step wp s s'"
| use_forget: "forget_memories moment s = (s', out) \<Longrightarrow> session_step wp s s'"
| use_resume: "session_resume wp moment s i = (s', out) \<Longrightarrow> is_ok out \<or> i \<noteq> session_id s \<Longrightarrow> session_step wp s s'"
| use_rename: "session_rename moment s i title = (s', out) \<Longrightarrow> session_step wp s s'"
| use_delete: "delete_session s i = (s', out) \<Longrightarrow> session_step wp s s'"
| use_compact: "compact_with moment s text k = (s', out) \<Longrightarrow> session_step wp s s'"
| use_compact_start: "compact_start s k = (s', out5) \<Longrightarrow> session_step wp s s'"
| use_compact_finish: "compact_finish moment s current n summary = (s', out) \<Longrightarrow> session_step wp s s'"
| use_undo: "session_undo wp s = (s', out) \<Longrightarrow> session_step wp s s'"
| use_cancel: "session_cancel f moment s = (s', out) \<Longrightarrow> session_step wp s s'"
| use_reset: "session_reset f moment s = (s', out) \<Longrightarrow> \<not> ss_observed s \<Longrightarrow> session_step wp s s'"
| use_replace: "replace_conversation moment s ms = (s', out) \<Longrightarrow> session_step wp s s'"
| use_mode: "set_permission_mode f s m = (s', out) \<Longrightarrow> session_step wp s s'"
| use_configure: "session_step wp s (configure_permissions s m r)"

lemma counted_callbacks: "counted s \<Longrightarrow> counted (onStreamChunk s chunk)" "counted s \<Longrightarrow> counted (on_usage s u)"
  by (simp_all add: onStreamChunk_def on_usage_def split: option.split)

lemmas counted_cases =
  counted_turn_begin counted_approval counted_checkpoint counted_attach counted_remember counted_forget
  counted_resume counted_rename counted_delete counted_compact_with counted_compact_start counted_compact_finish
  counted_undo counted_cancel counted_reset counted_replace counted_mode

lemma counted_step: "session_step wp s s' \<Longrightarrow> counted s \<Longrightarrow> counted s'"
proof (induction rule: session_step.induct)
  case (use_engine s en)
  then show ?case by (rule counted_engine [OF _ engine_move_grows, rotated])
next
  case (use_notify moment s s' out)
  with counted_notify [of s moment s' out] show ?case by blast
next
  case (use_turn_end moment s failure s' out)
  with counted_turn_end [of s moment failure s' out] show ?case by blast
next
  case (use_fork sha256 moment s title s' out4)
  from use_fork(3,1) show ?case
    by (rule counted_fork) (use use_fork(2) in \<open>simp add: fresh_session_def\<close>)
qed (auto intro: counted_cases counted_configure counted_callbacks)

inductive session_reaches :: "'w workspace_port \<Rightarrow> 'w session \<Rightarrow> 'w session \<Rightarrow> bool" for wp s0 where
  reaches_start: "session_reaches wp s0 s0"
| reaches_step: "session_reaches wp s0 s \<Longrightarrow> session_step wp s s' \<Longrightarrow> session_reaches wp s0 s'"

lemma counted_reaches: "session_reaches wp s0 s \<Longrightarrow> counted s0 \<Longrightarrow> counted s"
  by (induction rule: session_reaches.induct) (auto intro: counted_step)

text \<open>A session opened over a stored conversation that its engine holds.\<close>

lemma counted_new_session:
  assumes "valid_data (en_data en)" and "live st (md_id m)" and "replayed st (md_id m) = rd_messages (en_data en)"
  shows "counted (new_persistent_session en (Some st) w m)"
  using log_synced_whole [OF assms(2,3)] assms(1)
  by (simp add: counted_def synced_def new_persistent_session_def new_session_base_def session_messages_def session_id_def)

section \<open>Properties\<close>


definition sample_session :: "unit session" where
  "sample_session = new_persistent_session (new_engine (new_default_policy) [default_message]) (Some sample_store) None
     (default_metadata\<lparr>md_id := ''s-1''\<rparr>)"

lemma sample_store_replays: "replayed sample_store ''s-1'' = [default_message]"
proof -
  have v: "validateID ''s-1'' = Inr ()" by (simp add: validateID_iff id_char_def)
  have f: "get_dir new_store ''s-1'' = None" by (simp add: get_dir_def new_store_def)
  obtain st' m where "store_create (\<lambda>s. s) sample_stamp new_store
      (toStoreMetadata (default_metadata\<lparr>md_id := ''s-1''\<rparr>)) [default_message] = (st', Inr m)"
    "store_messages st' ''s-1'' = Inr [default_message]"
    using store_create_live [OF store_ok_new _ v f, where sha = "\<lambda>s. s" and moment = sample_stamp
        and ms = "[default_message]" and meta = "toStoreMetadata (default_metadata\<lparr>md_id := ''s-1''\<rparr>)"]
    by (auto simp: toStoreMetadata_def)
  then have "store_messages sample_store ''s-1'' = Inr [default_message]" by (simp add: sample_store_def repo_create_def)
  with live_reads(3) [OF sample_store_live] show ?thesis by simp
qed


end
