(* ===== verification/Conversations.thy ===== *)
theory Conversations
  imports SessionHistory Transcript
begin

text \<open>
  What compaction and the memory context do to a conversation: both are rewrites that must
  keep every system message and leave a transcript the provider accepts.
\<close>

section \<open>System messages and the scan\<close>

lemma is_system_filter: "filter is_system ms = system_messages ms"
  unfolding system_messages_def by (rule filter_cong) (simp_all add: is_system_def)

lemma scan_without:
  assumes "\<And>m. m \<in> set ms \<Longrightarrow> \<not> P m \<Longrightarrow> msg_role m = ROLE_SYSTEM" and "scan owed ms = Some x"
  shows "scan owed (filter P ms) = Some x"
  using assms by (induction owed ms rule: scan.induct) (auto split: if_splits list.splits)

lemma scan_from_question:
  assumes "scan [] (old @ kept) = Some []" and "kept = [] \<or> msg_role (hd kept) \<noteq> ROLE_TOOL"
  shows "scan [] kept = Some []"
proof (cases kept)
  case (Cons m ms)
  from assms(1) obtain owed where o: "scan [] old = Some owed" "scan owed kept = Some []"
    by (auto simp: scan_append Option.bind_eq_Some_conv)
  with assms(2) Cons have "owed = []" by (auto split: if_splits)
  with o show ?thesis by simp
qed simp

lemma scan_system_prefix:
  assumes "\<forall>m \<in> set sys. msg_role m = ROLE_SYSTEM"
  shows "scan [] (sys @ ms) = scan [] ms"
  using assms by (induction sys) auto

section \<open>The widening loop\<close>

lemma widen_le: "widen rest n \<le> n"
  by (induction n) auto

lemma widen_question: "widen rest n = 0 \<or> msg_role (rest ! widen rest n) \<noteq> ROLE_TOOL"
  by (induction n) auto

lemma widen_passed: "widen rest n < j \<Longrightarrow> j \<le> n \<Longrightarrow> msg_role (rest ! j) = ROLE_TOOL"
proof (induction n)
  case (Suc n)
  then show ?case by (cases "j = Suc n") (auto split: if_splits)
qed simp

text \<open>The part kept past the \<open>k\<close> newest: tool results, behind the message that asked for them.\<close>

lemma widen_kept:
  assumes "k < length rest"
  defines "kept \<equiv> drop (widen rest (length rest - k)) rest"
  shows "k \<le> length kept" and "list_all (\<lambda>m. msg_role m = ROLE_TOOL) (take (length kept - k) (tl kept))"
    and "widen rest (length rest - k) = 0 \<or> kept = [] \<or> msg_role (hd kept) \<noteq> ROLE_TOOL"
proof -
  let ?n = "length rest - k" let ?w = "widen rest ?n"
  have w: "?w \<le> ?n" by (rule widen_le)
  with assms show "k \<le> length kept" by simp
  show "list_all (\<lambda>m. msg_role m = ROLE_TOOL) (take (length kept - k) (tl kept))"
    unfolding list_all_length
  proof (intro allI impI)
    fix j assume j: "j < length (take (length kept - k) (tl kept))"
    then have b: "j < length rest - ?w - k" "Suc (?w + j) < length rest" by (auto simp: kept_def)
    have "take (length kept - k) (tl kept) ! j = rest ! Suc (?w + j)"
      using j b by (simp add: kept_def nth_tl)
    moreover have "msg_role (rest ! Suc (?w + j)) = ROLE_TOOL"
      by (rule widen_passed [of rest ?n]) (use b in simp_all)
    ultimately show "msg_role (take (length kept - k) (tl kept) ! j) = ROLE_TOOL" by simp
  qed
  show "?w = 0 \<or> kept = [] \<or> msg_role (hd kept) \<noteq> ROLE_TOOL"
    using widen_question [of rest ?n] by (auto simp: kept_def hd_drop_conv_nth)
qed

section \<open>Properties\<close>

text \<open>
  C8. Compaction keeps every system message, in order and in front; it changes nothing else
  when there are at most \<open>k\<close> other messages; otherwise one summary stands for the older
  ones and at least the \<open>k\<close> newest follow it, more only by tool results and the message
  that asked for them. A transcript the provider accepts stays one.
\<close>

theorem compaction_keeps_transcript:
  assumes "complete_transcript ms"
  shows "complete_transcript (compactedMessages ms summary k)
    \<and> (if nonSystemMessageCount ms \<le> k
       then compactedMessages ms summary k = system_messages ms @ filter (\<lambda>m. \<not> is_system m) ms
       else \<exists>old kept. filter (\<lambda>m. \<not> is_system m) ms = old @ kept
         \<and> compactedMessages ms summary k
           = system_messages ms @ [system_message (''Conversation summary:'' @ [newline] @ summary)] @ kept
         \<and> k \<le> length kept \<and> list_all (\<lambda>m. msg_role m = ROLE_TOOL) (take (length kept - k) (tl kept)))"
proof -
  let ?rest = "filter (\<lambda>m. \<not> is_system m) ms"
  let ?summary = "system_message (''Conversation summary:'' @ [newline] @ summary)"
  have sys: "\<forall>m \<in> set (system_messages ms). msg_role m = ROLE_SYSTEM" by (simp add: system_messages_def)
  have rest: "scan [] ?rest = Some []"
    by (rule scan_without) (use assms in \<open>auto simp: is_system_def complete_transcript_def\<close>)
  show ?thesis
  proof (cases "nonSystemMessageCount ms \<le> k")
    case True
    then have "compactedMessages ms summary k = system_messages ms @ ?rest"
      by (simp add: compactedMessages_def nonSystemMessageCount_def is_system_filter Let_def)
    with True rest show ?thesis by (simp add: complete_transcript_def scan_system_prefix [OF sys])
  next
    case False
    define w where "w = widen ?rest (length ?rest - k)"
    have long: "k < length ?rest" using False by (simp add: nonSystemMessageCount_def)
    note kept = widen_kept [OF long, folded w_def]
    have eq: "compactedMessages ms summary k = system_messages ms @ [?summary] @ drop w ?rest"
      using False by (simp add: compactedMessages_def nonSystemMessageCount_def is_system_filter Let_def w_def)
    have "scan [] (drop w ?rest) = Some []"
    proof (cases "w = 0")
      case True
      with rest show ?thesis by simp
    next
      case False
      from rest have "scan [] (take w ?rest @ drop w ?rest) = Some []" by simp
      then show ?thesis by (rule scan_from_question) (use kept(3) False in simp)
    qed
    moreover have "\<forall>m \<in> set (system_messages ms @ [?summary]). msg_role m = ROLE_SYSTEM"
      using sys by (simp add: system_message_def)
    ultimately have "complete_transcript (compactedMessages ms summary k)"
      using scan_system_prefix [of "system_messages ms @ [?summary]" "drop w ?rest"]
      by (simp add: eq complete_transcript_def)
    moreover have "?rest = take w ?rest @ drop w ?rest" by simp
    ultimately show ?thesis
      unfolding if_not_P [OF False] using eq kept(1,2) by blast
  qed
qed

definition sample_exchange :: "message list" where
  "sample_exchange = [system_message ''rules'', default_message\<lparr>msg_role := ROLE_USER, msg_content := ''go''\<rparr>,
     default_message\<lparr>msg_role := ROLE_ASSISTANT, msg_tool_calls := Some [sample_call, sample_other]\<rparr>,
     tool_message sample_call ''one'', tool_message sample_other ''two'']"

theorem compaction_keeps_transcript_witness:
  "complete_transcript sample_exchange \<and> complete_transcript (compactedMessages sample_exchange ''s'' 1)
   \<and> length (compactedMessages sample_exchange ''s'' 1) = 5"
proof -
  have "complete_transcript sample_exchange"
    by (simp add: sample_exchange_def complete_transcript_def system_message_def default_message_def msg_calls_def
        sample_call_def sample_other_def tool_message_def)
  moreover from compaction_keeps_transcript [OF this, of "''s''" 1]
  have "complete_transcript (compactedMessages sample_exchange ''s'' 1)" by blast
  moreover have "length (compactedMessages sample_exchange ''s'' 1) = 5" by code_simp
  ultimately show ?thesis by blast
qed

text \<open>
  The memory context is replaced, never accumulated: after any number of rewrites one
  system message in front carries exactly the newest items (none when there are none),
  every other message is where it was, and an accepted transcript stays one.
\<close>

theorem memory_context_replaced:
  assumes "complete_transcript ms"
  shows "withMemoryContext (withMemoryContext ms xs) ys = withMemoryContext ms ys
    \<and> filter is_memory (withMemoryContext ms xs) = (if xs = [] then [] else [memory_message xs])
    \<and> filter (\<lambda>m. \<not> is_memory m) (withMemoryContext ms xs) = filter (\<lambda>m. \<not> is_memory m) ms
    \<and> complete_transcript (withMemoryContext ms xs)"
proof -
  have mem: "is_memory (memory_message zs)" for zs
    by (simp add: is_memory_def memory_message_def system_message_def startswith_def)
  have kept: "withMemoryContext ms zs = (if zs = [] then [] else [memory_message zs]) @ filter (\<lambda>m. \<not> is_memory m) ms" for ms zs
    by (simp add: withMemoryContext_def is_memory_def)
  have "complete_transcript (filter (\<lambda>m. \<not> is_memory m) ms)"
    unfolding complete_transcript_def
    by (rule scan_without) (use assms in \<open>auto simp: is_memory_def complete_transcript_def\<close>)
  then have "complete_transcript (withMemoryContext ms xs)"
    by (simp add: kept complete_transcript_def memory_message_def system_message_def)
  then show ?thesis by (simp add: kept mem)
qed

theorem memory_context_replaced_witness:
  "withMemoryContext (withMemoryContext sample_exchange [''a'']) [''b''] = withMemoryContext sample_exchange [''b'']"
proof -
  have "complete_transcript sample_exchange"
    by (simp add: sample_exchange_def complete_transcript_def system_message_def default_message_def msg_calls_def
        sample_call_def sample_other_def tool_message_def)
  from memory_context_replaced [OF this, of "[''a'']" "[''b'']"] show ?thesis by blast
qed

end
