(* ===== verification/ModelAdapters.thy ===== *)
theory ModelAdapters
  imports Transcript
begin

text \<open>
  The provider adapters (\<open>llm/claude.py\<close>, \<open>llm/openai.py\<close>, \<open>llm/deepseek.py\<close>,
  \<open>llm/factory.py\<close>): the translation of a conversation to each wire format, and the
  assembly of a streamed reply. The providers' SDKs only deliver the events; \<open>json.loads\<close>
  and the decoding of a base64 text are arguments.
\<close>

section \<open>Claude: the request\<close>

datatype block =
    TextBlock string
  | ImageBlock string string
  | DocumentBlock string
  | ToolUseBlock string string json
  | is_ToolResult: ToolResultBlock string string

record message_param =
  mp_role :: string
  mp_content :: "block list"

definition split_system_messages :: "message list \<Rightarrow> string \<times> message list" where
  "split_system_messages ms = foldl (\<lambda>(system, conversation) m.
     if msg_role m = ROLE_SYSTEM
     then ((if system \<noteq> '''' then system @ [newline, newline] else system) @ msg_content m, conversation)
     else (system, conversation @ [m])) ('''', []) ms"

definition attachment_blocks :: "(string \<Rightarrow> string option) \<Rightarrow> attachment \<Rightarrow> block list" where
  "attachment_blocks b64_text a =
     (if startswith (at_mime a) ''image/'' then [ImageBlock (at_mime a) (at_data a)]
      else if at_mime a = ''application/pdf'' then [DocumentBlock (at_data a)]
      else if startswith (at_mime a) ''text/''
      then (case b64_text (at_data a) of None \<Rightarrow> []
            | Some decoded \<Rightarrow> [TextBlock (''Attachment '' @ at_name a @ '':'' @ [newline] @ decoded)])
      else [TextBlock (''Attached file: '' @ at_name a @ '' ('' @ at_mime a @ '')'')])"

definition tool_use_block :: "(string \<Rightarrow> json option) \<Rightarrow> tool_call \<Rightarrow> block" where
  "tool_use_block json_loads c = ToolUseBlock (tc_id c) (tc_name c)
     (case json_loads (tc_input c) of None \<Rightarrow> JObject [] | Some v \<Rightarrow> v)"

definition claude_message ::
    "(string \<Rightarrow> json option) \<Rightarrow> (string \<Rightarrow> string option) \<Rightarrow> message \<Rightarrow> message_param list" where
  "claude_message json_loads b64_text m = (case msg_role m of
       ROLE_USER \<Rightarrow> [\<lparr>mp_role = ''user'', mp_content =
         TextBlock (msg_content m) # concat (map (attachment_blocks b64_text) (msg_attachments m))\<rparr>]
     | ROLE_ASSISTANT \<Rightarrow>
         (let blocks = (if msg_content m \<noteq> '''' then [TextBlock (msg_content m)] else [])
            @ map (tool_use_block json_loads) (msg_calls m)
          in if blocks \<noteq> [] then [\<lparr>mp_role = ''assistant'', mp_content = blocks\<rparr>] else [])
     | ROLE_TOOL \<Rightarrow> [\<lparr>mp_role = ''user'', mp_content = [ToolResultBlock (msg_tool_call_id m) (msg_content m)]\<rparr>]
     | _ \<Rightarrow> [])"

text \<open>The loop of \<open>merge_adjacent_messages\<close> with its current message.\<close>

fun merge_from :: "message_param \<Rightarrow> message_param list \<Rightarrow> message_param list" where
  "merge_from current [] = [current]"
| "merge_from current (m # ms) =
     (if mp_role current = mp_role m
      then merge_from \<lparr>mp_role = mp_role current, mp_content = mp_content current @ mp_content m\<rparr> ms
      else current # merge_from m ms)"

fun merge_adjacent_messages :: "message_param list \<Rightarrow> message_param list" where
  "merge_adjacent_messages [] = []"
| "merge_adjacent_messages (m # ms) = merge_from m ms"

definition to_claude_messages ::
    "(string \<Rightarrow> json option) \<Rightarrow> (string \<Rightarrow> string option) \<Rightarrow> message list \<Rightarrow> message_param list" where
  "to_claude_messages json_loads b64_text ms =
     merge_adjacent_messages (concat (map (claude_message json_loads b64_text) ms))"

definition claude_schema :: "tool_spec \<Rightarrow> (string \<times> json) list" where
  "claude_schema t = dict_set (case ts_parameters t of Some (JObject kvs) \<Rightarrow> kvs | _ \<Rightarrow> []) ''type'' (JString ''object'')"

definition to_claude_tools :: "tool_spec list \<Rightarrow> (string \<times> string \<times> (string \<times> json) list) list" where
  "to_claude_tools ts = map (\<lambda>t. (ts_name t, ts_description t, claude_schema t)) ts"

section \<open>Claude: the streamed reply\<close>

definition CLAUDE_TRUNCATED :: string where
  "CLAUDE_TRUNCATED = ''llm output truncated by the token limit (stop_reason=max_tokens); ''
     @ ''raise the model'' @ [CHR 0x27] @ ''s max output or shorten the conversation''"

datatype claude_event =
    MessageStart int
  | ToolUseStart string string
  | OtherBlockStart
  | TextDelta string
  | ThinkingDelta string
  | InputJSONDelta string
  | BlockStop
  | MessageDelta "string option" int
  | OtherEvent

record claude_stream =
  cs_answer :: string
  cs_reasoning :: string
  cs_calls :: "tool_call list"
  cs_id :: string
  cs_name :: string
  cs_input :: string
  cs_stop :: "string option"
  cs_input_tokens :: int
  cs_output_tokens :: int

definition new_claude_stream :: claude_stream where
  "new_claude_stream = \<lparr>cs_answer = '''', cs_reasoning = '''', cs_calls = [], cs_id = '''', cs_name = '''',
     cs_input = '''', cs_stop = None, cs_input_tokens = 0, cs_output_tokens = 0\<rparr>"

fun claude_event_step :: "claude_stream \<Rightarrow> claude_event \<Rightarrow> claude_stream" where
  "claude_event_step s (MessageStart n) = s\<lparr>cs_input_tokens := n\<rparr>"
| "claude_event_step s (ToolUseStart i n) = s\<lparr>cs_id := i, cs_name := n\<rparr>"
| "claude_event_step s (TextDelta t) = s\<lparr>cs_answer := cs_answer s @ t\<rparr>"
| "claude_event_step s (ThinkingDelta t) = s\<lparr>cs_reasoning := cs_reasoning s @ t\<rparr>"
| "claude_event_step s (InputJSONDelta t) = s\<lparr>cs_input := cs_input s @ t\<rparr>"
| "claude_event_step s BlockStop =
     (if cs_id s \<noteq> ''''
      then s\<lparr>cs_calls := cs_calls s @ [\<lparr>tc_id = cs_id s, tc_name = cs_name s, tc_input = cs_input s\<rparr>],
             cs_id := '''', cs_name := '''', cs_input := ''''\<rparr>
      else s)"
| "claude_event_step s (MessageDelta r n) = s\<lparr>cs_stop := r, cs_output_tokens := n\<rparr>"
| "claude_event_step s _ = s"

text \<open>What each event hands to \<open>on_stream_chunk\<close>.\<close>

fun claude_chunk :: "claude_event \<Rightarrow> stream_chunk list" where
  "claude_chunk (TextDelta t) = [\<lparr>sc_content_delta = t, sc_reasoning_delta = ''''\<rparr>]"
| "claude_chunk (ThinkingDelta t) = [\<lparr>sc_content_delta = '''', sc_reasoning_delta = t\<rparr>]"
| "claude_chunk _ = []"

definition claude_response :: "claude_stream \<Rightarrow> (string, model_response) result" where
  "claude_response s =
     (if cs_stop s = Some ''max_tokens'' then Inl CLAUDE_TRUNCATED
      else Inr \<lparr>mr_content = cs_answer s, mr_reasoning = cs_reasoning s, mr_tool_calls = cs_calls s,
        mr_usage = (if cs_input_tokens s > 0 \<or> cs_output_tokens s > 0
          then Some \<lparr>us_input_tokens = cs_input_tokens s, us_output_tokens = cs_output_tokens s,
            us_total_tokens = cs_input_tokens s + cs_output_tokens s\<rparr> else None)\<rparr>)"

definition claude_next :: "claude_event list \<Rightarrow> (string, model_response) result \<times> stream_chunk list" where
  "claude_next es = (claude_response (foldl claude_event_step new_claude_stream es), concat (map claude_chunk es))"

section \<open>OpenAI: the request\<close>

datatype openai_part = TextPart string | ImagePart string | FilePart string string

datatype openai_content = PlainContent string | PartsContent "openai_part list"

datatype openai_message =
    OpenAISystem string
  | OpenAIAssistant string "string option" "tool_call list option"
  | OpenAITool string string
  | OpenAIUser openai_content

definition assistant_message :: "string \<Rightarrow> string \<Rightarrow> tool_call list \<Rightarrow> openai_message" where
  "assistant_message content reasoning calls = OpenAIAssistant content
     (if reasoning \<noteq> '''' then Some reasoning else None) (if calls \<noteq> [] then Some calls else None)"

definition openai_attachment :: "attachment \<Rightarrow> openai_part" where
  "openai_attachment a =
     (if startswith (at_mime a) ''image/''
      then ImagePart (''data:'' @ at_mime a @ '';base64,'' @ at_data a)
      else FilePart (at_data a) (at_name a))"

definition openai_user_message :: "message \<Rightarrow> openai_message" where
  "openai_user_message m = OpenAIUser
     (if msg_attachments m = [] then PlainContent (msg_content m)
      else PartsContent (TextPart (msg_content m) # map openai_attachment (msg_attachments m)))"

definition to_openai_message :: "message \<Rightarrow> openai_message" where
  "to_openai_message m = (case msg_role m of
       ROLE_SYSTEM \<Rightarrow> OpenAISystem (msg_content m)
     | ROLE_ASSISTANT \<Rightarrow> assistant_message (msg_content m) (msg_reasoning m) (msg_calls m)
     | ROLE_TOOL \<Rightarrow> OpenAITool (msg_content m) (msg_tool_call_id m)
     | _ \<Rightarrow> openai_user_message m)"

definition to_openai_messages :: "message list \<Rightarrow> openai_message list" where
  "to_openai_messages ms = map to_openai_message ms"

definition to_openai_tools :: "tool_spec list \<Rightarrow> (string \<times> string \<times> json option) list" where
  "to_openai_tools ts = map (\<lambda>t. (ts_name t, ts_description t, ts_parameters t)) ts"

section \<open>OpenAI: the streamed reply\<close>

definition OPENAI_TRUNCATED :: string where
  "OPENAI_TRUNCATED = ''llm output truncated by the token limit (finish_reason=length); ''
     @ ''raise the model'' @ [CHR 0x27] @ ''s max output or shorten the conversation''"

text \<open>A fragment of a call and a choice; an absent text is the empty one, which the loop treats alike.\<close>

record call_delta =
  dl_index :: int
  dl_id :: string
  dl_name :: string
  dl_arguments :: string

record choice =
  ch_content :: string
  ch_refusal :: string
  ch_extras :: "(string \<times> json) list"
  ch_finish :: "string option"
  ch_tool_calls :: "call_delta list"

record openai_chunk =
  oc_usage :: "usage option"
  oc_choices :: "choice list"

record openai_stream =
  os_content :: string
  os_reasoning :: string
  os_refusal :: string
  os_finish :: "string option"
  os_saw_choice :: bool
  os_usage :: "usage option"
  os_builders :: "(int \<times> tool_call) list"

definition new_openai_stream :: openai_stream where
  "new_openai_stream = \<lparr>os_content = '''', os_reasoning = '''', os_refusal = '''', os_finish = None,
     os_saw_choice = False, os_usage = None, os_builders = []\<rparr>"

definition nonempty_text :: "json option \<Rightarrow> string option" where
  "nonempty_text v = (case v of Some (JString t) \<Rightarrow> if t \<noteq> '''' then Some t else None | _ \<Rightarrow> None)"

definition reasoning_delta :: "(string \<times> json) list \<Rightarrow> string" where
  "reasoning_delta extras =
     (case List.map_filter (\<lambda>k. nonempty_text (map_of extras k)) [''reasoning_content'', ''reasoning'', ''thinking''] of
        [] \<Rightarrow> '''' | t # _ \<Rightarrow> t)"

definition extend_builder :: "tool_call \<Rightarrow> call_delta \<Rightarrow> tool_call" where
  "extend_builder b d = \<lparr>tc_id = (if dl_id d \<noteq> '''' then dl_id d else tc_id b),
     tc_name = (if dl_name d \<noteq> '''' then dl_name d else tc_name b), tc_input = tc_input b @ dl_arguments d\<rparr>"

definition add_delta :: "(int \<times> tool_call) list \<Rightarrow> call_delta \<Rightarrow> (int \<times> tool_call) list" where
  "add_delta bs d = dict_set bs (dl_index d)
     (extend_builder (case map_of bs (dl_index d) of None \<Rightarrow> default_tool_call | Some b \<Rightarrow> b) d)"

definition choice_step :: "openai_stream \<Rightarrow> choice \<Rightarrow> openai_stream" where
  "choice_step s c = s\<lparr>os_saw_choice := True, os_content := os_content s @ ch_content c,
     os_reasoning := os_reasoning s @ reasoning_delta (ch_extras c), os_refusal := os_refusal s @ ch_refusal c,
     os_finish := (case ch_finish c of None \<Rightarrow> os_finish s | Some r \<Rightarrow> Some r),
     os_builders := foldl add_delta (os_builders s) (ch_tool_calls c)\<rparr>"

definition openai_chunk_step :: "openai_stream \<Rightarrow> openai_chunk \<Rightarrow> openai_stream" where
  "openai_chunk_step s c = foldl choice_step
     (case oc_usage c of None \<Rightarrow> s | Some u \<Rightarrow> s\<lparr>os_usage := Some u\<rparr>) (oc_choices c)"

definition choice_chunk :: "choice \<Rightarrow> stream_chunk list" where
  "choice_chunk c = (if ch_content c \<noteq> '''' \<or> reasoning_delta (ch_extras c) \<noteq> ''''
     then [\<lparr>sc_content_delta = ch_content c, sc_reasoning_delta = reasoning_delta (ch_extras c)\<rparr>] else [])"

definition openai_response :: "openai_stream \<Rightarrow> (string, model_response) result" where
  "openai_response s =
     (if \<not> os_saw_choice s then Inl ''llm returned no choices''
      else if os_finish s = Some ''length'' then Inl OPENAI_TRUNCATED
      else if os_refusal s \<noteq> '''' then Inl (''llm refused the request: '' @ os_refusal s)
      else Inr \<lparr>mr_content = os_content s, mr_reasoning = os_reasoning s,
        mr_tool_calls = map snd (sort_key fst (os_builders s)),
        mr_usage = (case os_usage s of None \<Rightarrow> None
          | Some u \<Rightarrow> if us_input_tokens u > 0 \<or> us_output_tokens u > 0 then Some u else None)\<rparr>)"

definition openai_next :: "openai_chunk list \<Rightarrow> (string, model_response) result \<times> stream_chunk list" where
  "openai_next cs = (openai_response (foldl openai_chunk_step new_openai_stream cs),
     concat (map (\<lambda>c. concat (map choice_chunk (oc_choices c))) cs))"

section \<open>Providers\<close>

record provider_config =
  pc_base_url :: string
  pc_api_key :: string
  pc_model :: string

definition default_config :: provider_config where
  "default_config = \<lparr>pc_base_url = '''', pc_api_key = '''', pc_model = ''''\<rparr>"

definition or_default :: "string \<Rightarrow> string \<Rightarrow> string" where
  "or_default a b = (if a \<noteq> '''' then a else b)"

definition with_defaults :: "provider_config \<Rightarrow> provider_config \<Rightarrow> provider_config" where
  "with_defaults cfg d = \<lparr>pc_base_url = or_default (pc_base_url cfg) (pc_base_url d),
     pc_api_key = or_default (pc_api_key cfg) (pc_api_key d), pc_model = or_default (pc_model cfg) (pc_model d)\<rparr>"

definition DEFAULT_PROVIDER :: string where
  "DEFAULT_PROVIDER = ''deepseek''"

text \<open>The configuration each built-in factory hands to its client.\<close>

definition claude_config :: "provider_config \<Rightarrow> provider_config" where
  "claude_config cfg = with_defaults cfg (default_config\<lparr>pc_model := ''claude-3-7-sonnet-20250219''\<rparr>)"

definition openai_config :: "provider_config \<Rightarrow> provider_config" where
  "openai_config cfg = with_defaults cfg (default_config\<lparr>pc_model := ''gpt-4o''\<rparr>)"

definition deepseek_config :: "provider_config \<Rightarrow> provider_config" where
  "deepseek_config cfg = with_defaults cfg (default_config\<lparr>pc_base_url := ''https://api.deepseek.com'',
     pc_model := ''deepseek-reasoner''\<rparr>)"

text \<open>The registry: a name to the factory of a model, here of the model's configuration.\<close>

type_synonym 'm model_registry = "(string \<times> (provider_config \<Rightarrow> 'm)) list"

definition register_configured :: "'m model_registry \<Rightarrow> string \<Rightarrow> (provider_config \<Rightarrow> 'm) \<Rightarrow> 'm model_registry" where
  "register_configured r provider factory = dict_set r provider factory"

definition registry_create :: "'m model_registry \<Rightarrow> string \<Rightarrow> provider_config \<Rightarrow> (string, 'm) result" where
  "registry_create r provider cfg =
     (let p = (if provider = '''' then DEFAULT_PROVIDER else provider)
      in case map_of r p of None \<Rightarrow> Inl (''unknown llm provider: '' @ p) | Some f \<Rightarrow> Inr (f cfg))"

definition new_default_model_registry :: "provider_config model_registry" where
  "new_default_model_registry = register_configured (register_configured (register_configured []
     ''deepseek'' deepseek_config) ''openai'' openai_config) ''claude'' claude_config"

definition model_display_name :: "string \<Rightarrow> provider_config \<Rightarrow> string" where
  "model_display_name provider cfg =
     (if pc_model cfg \<noteq> '''' then pc_model cfg
      else let p = (if provider = '''' then DEFAULT_PROVIDER else provider)
        in if p = ''deepseek'' then ''deepseek-reasoner''
           else if p = ''openai'' then ''gpt-4o''
           else if p = ''claude'' then ''claude-3-7-sonnet-20250219'' else p)"

section \<open>What the Messages API demands\<close>

definition tool_uses :: "block list \<Rightarrow> string list" where
  "tool_uses bs = concat (map (\<lambda>b. case b of ToolUseBlock i _ _ \<Rightarrow> [i] | _ \<Rightarrow> []) bs)"

definition tool_results :: "block list \<Rightarrow> string list" where
  "tool_results bs = concat (map (\<lambda>b. case b of ToolResultBlock i _ \<Rightarrow> [i] | _ \<Rightarrow> []) bs)"

definition results_lead :: "block list \<Rightarrow> bool" where
  "results_lead bs = list_all (\<lambda>b. \<not> is_ToolResult b) (dropWhile is_ToolResult bs)"

text \<open>
  Messages of alternating roles; the calls of an assistant message are answered by exactly
  the results that lead the user message right behind it, in order.
\<close>

fun wire_ok :: "string list \<Rightarrow> message_param list \<Rightarrow> bool" where
  "wire_ok owed [] \<longleftrightarrow> owed = []"
| "wire_ok owed (m # ms) \<longleftrightarrow>
     (if mp_role m = ''user''
      then tool_uses (mp_content m) = [] \<and> tool_results (mp_content m) = owed \<and> results_lead (mp_content m) \<and> wire_ok [] ms
      else owed = [] \<and> tool_results (mp_content m) = [] \<and> wire_ok (tool_uses (mp_content m)) ms)"

lemma tool_blocks_append [simp]:
  "tool_uses (as @ bs) = tool_uses as @ tool_uses bs" "tool_results (as @ bs) = tool_results as @ tool_results bs"
  "tool_uses [] = []" "tool_results [] = []"
  by (simp_all add: tool_uses_def tool_results_def)

lemma tool_blocks_Cons [simp]:
  "tool_uses (TextBlock t # bs) = tool_uses bs" "tool_results (TextBlock t # bs) = tool_results bs"
  "tool_uses (ToolResultBlock i t # bs) = tool_uses bs" "tool_results (ToolResultBlock i t # bs) = i # tool_results bs"
  by (simp_all add: tool_uses_def tool_results_def)

lemma tool_use_blocks [simp]:
  "tool_uses (map (tool_use_block jl) cs) = map tc_id cs" "tool_results (map (tool_use_block jl) cs) = []"
  by (induction cs) (simp_all add: tool_uses_def tool_results_def tool_use_block_def)

lemma no_results_iff: "tool_results bs = [] \<longleftrightarrow> list_all (\<lambda>b. \<not> is_ToolResult b) bs"
  by (induction bs) (simp_all add: tool_results_def split: block.split)

lemma attachment_blocks_plain [simp]:
  "tool_uses (concat (map (attachment_blocks b64) as)) = []" "tool_results (concat (map (attachment_blocks b64) as)) = []"
  by (induction as) (simp_all add: attachment_blocks_def split: option.split,
      simp_all add: tool_uses_def tool_results_def)

lemma results_lead_append:
  "list_all is_ToolResult rs \<Longrightarrow> list_all (\<lambda>b. \<not> is_ToolResult b) ts \<Longrightarrow> results_lead (rs @ ts)"
  by (induction rs) (auto simp: results_lead_def list_all_iff dest: set_dropWhileD)

section \<open>Merging keeps the answers in place\<close>

abbreviation claude_params ::
    "(string \<Rightarrow> json option) \<Rightarrow> (string \<Rightarrow> string option) \<Rightarrow> message list \<Rightarrow> message_param list" where
  "claude_params jl b64 ms \<equiv> concat (map (claude_message jl b64) ms)"

text \<open>
  The current message of the merge, while the calls \<open>owed\<close> are still to be answered by the
  messages behind it: \<open>due\<close> is what its own predecessor has to have asked for.
\<close>

definition open_wire :: "message_param \<Rightarrow> string list \<Rightarrow> string list \<Rightarrow> bool" where
  "open_wire cur owed due \<longleftrightarrow>
     (if mp_role cur = ''user''
      then tool_uses (mp_content cur) = [] \<and> results_lead (mp_content cur)
        \<and> (owed = [] \<or> list_all is_ToolResult (mp_content cur)) \<and> due = tool_results (mp_content cur) @ owed
      else mp_role cur = ''assistant'' \<and> tool_results (mp_content cur) = [] \<and> tool_uses (mp_content cur) = owed \<and> due = [])"

lemma open_wire_closes:
  "open_wire cur owed due \<Longrightarrow> mp_role cur = ''user'' \<longrightarrow> owed = [] \<Longrightarrow> wire_ok owed ps \<Longrightarrow> wire_ok due (cur # ps)"
  by (auto simp: open_wire_def split: if_splits)

lemma results_lead_plain:
  assumes "results_lead as" and "list_all (\<lambda>b. \<not> is_ToolResult b) bs"
  shows "results_lead (as @ bs)"
proof -
  have "list_all (\<lambda>b. \<not> is_ToolResult b) (dropWhile is_ToolResult bs)"
    using assms(2) by (induction bs) auto
  with assms show ?thesis by (simp add: results_lead_def dropWhile_append)
qed

lemma results_lead_behind: "list_all is_ToolResult as \<Longrightarrow> results_lead (as @ bs) = results_lead bs"
  by (induction as) (simp_all add: results_lead_def)

lemma open_wire_joins:
  assumes "open_wire cur owed due" and "open_wire p owed' owed" and "mp_role cur = mp_role p"
  shows "open_wire \<lparr>mp_role = mp_role cur, mp_content = mp_content cur @ mp_content p\<rparr> owed' due"
proof (cases "mp_role p = ''user''")
  case True
  show ?thesis
  proof (cases "owed = []")
    case False
    with assms True have "list_all is_ToolResult (mp_content cur)" by (simp add: open_wire_def)
    with assms True show ?thesis by (simp add: open_wire_def results_lead_behind)
  next
    case no: True
    with assms True have "list_all (\<lambda>b. \<not> is_ToolResult b) (mp_content p)"
      by (simp add: open_wire_def no_results_iff)
    with assms True no show ?thesis by (simp add: open_wire_def results_lead_plain)
  qed
next
  case False
  with assms show ?thesis by (simp add: open_wire_def)
qed

lemma plain_leads: "tool_results bs = [] \<Longrightarrow> results_lead bs"
  using results_lead_append [of "[]" bs] by (simp add: no_results_iff)

lemma next_param:
  assumes "scan owed (m # ms) = Some []"
  shows "claude_message jl b64 m = [] \<and> owed = [] \<and> scan [] ms = Some []
    \<or> (\<exists>p owed'. claude_message jl b64 m = [p] \<and> open_wire p owed' owed \<and> scan owed' ms = Some [])"
proof (cases "msg_role m")
  case ROLE_TOOL
  with assms obtain owed' where "owed = msg_tool_call_id m # owed'" "scan owed' ms = Some []"
    by (auto split: list.splits if_splits)
  with ROLE_TOOL show ?thesis by (simp add: claude_message_def open_wire_def results_lead_def)
next
  case ROLE_ASSISTANT
  let ?bs = "(if msg_content m \<noteq> '''' then [TextBlock (msg_content m)] else []) @ map (tool_use_block jl) (msg_calls m)"
  from assms ROLE_ASSISTANT have o: "owed = []" "scan (map tc_id (msg_calls m)) ms = Some []" by (auto split: if_splits)
  have c: "claude_message jl b64 m = (if ?bs \<noteq> [] then [\<lparr>mp_role = ''assistant'', mp_content = ?bs\<rparr>] else [])"
    using ROLE_ASSISTANT by (simp add: claude_message_def Let_def)
  have "open_wire \<lparr>mp_role = ''assistant'', mp_content = ?bs\<rparr> (map tc_id (msg_calls m)) owed"
    using o(1) by (simp add: open_wire_def)
  with o show ?thesis by (cases "?bs = []") (auto simp: c)
qed (use assms in \<open>auto simp: claude_message_def open_wire_def plain_leads split: if_splits\<close>)

lemma wire_ok_merge:
  "open_wire cur owed due \<Longrightarrow> scan owed ms = Some [] \<Longrightarrow> wire_ok due (merge_from cur (claude_params jl b64 ms))"
proof (induction ms arbitrary: cur owed due)
  case Nil
  then show ?case using open_wire_closes [of cur owed due "[]"] by simp
next
  case (Cons m ms)
  from next_param [OF Cons.prems(2), of jl b64] consider
      (dropped) "claude_message jl b64 m = []" "owed = []" "scan [] ms = Some []"
    | (param) p owed' where "claude_message jl b64 m = [p]" "open_wire p owed' owed" "scan owed' ms = Some []"
    by blast
  then show ?case
  proof cases
    case dropped
    with Cons show ?thesis by simp
  next
    case (param p owed')
    show ?thesis
    proof (cases "mp_role cur = mp_role p")
      case True
      from Cons.IH [OF open_wire_joins [OF Cons.prems(1) param(2) True] param(3)] True param(1) show ?thesis by simp
    next
      case False
      then have "mp_role cur = ''user'' \<longrightarrow> owed = []" using param(2) by (auto simp: open_wire_def)
      from open_wire_closes [OF Cons.prems(1) this Cons.IH [OF param(2,3)]] False param(1) show ?thesis by simp
    qed
  qed
qed

lemma claude_message_nonempty: "p \<in> set (claude_message jl b64 m) \<Longrightarrow> mp_content p \<noteq> []"
  by (cases "msg_role m") (auto simp: claude_message_def Let_def split: if_splits)

lemma params_nonempty: "p \<in> set (claude_params jl b64 ms) \<Longrightarrow> mp_content p \<noteq> []"
  using claude_message_nonempty by auto

lemma merge_from_alternates:
  "mp_content cur \<noteq> [] \<Longrightarrow> (\<And>p. p \<in> set ps \<Longrightarrow> mp_content p \<noteq> []) \<Longrightarrow>
     successively (\<lambda>a b. mp_role a \<noteq> mp_role b) (merge_from cur ps) \<and> list_all (\<lambda>p. mp_content p \<noteq> []) (merge_from cur ps)
     \<and> merge_from cur ps \<noteq> [] \<and> mp_role (hd (merge_from cur ps)) = mp_role cur"
proof (induction cur ps rule: merge_from.induct)
  case (2 cur m ms)
  then show ?case by (cases "merge_from m ms") auto
qed simp

lemma system_prefix_folds:
  "foldl (\<lambda>(system, conversation) m.
     if msg_role m = ROLE_SYSTEM
     then ((if system \<noteq> '''' then system @ [newline, newline] else system) @ msg_content m, conversation)
     else (system, conversation @ [m])) (sys, conv) ms = (sys', conv') \<Longrightarrow>
   conv' = conv @ filter (\<lambda>m. msg_role m \<noteq> ROLE_SYSTEM) ms"
proof (induction ms arbitrary: sys conv)
  case (Cons m ms)
  then show ?case
    using Cons.IH [of "(if sys \<noteq> '''' then sys @ [newline, newline] else sys) @ msg_content m" conv]
      Cons.IH [of sys "conv @ [m]"] by (cases "msg_role m = ROLE_SYSTEM") simp_all
qed simp

lemma split_system_conversation: "snd (split_system_messages ms) = filter (\<lambda>m. msg_role m \<noteq> ROLE_SYSTEM) ms"
  using system_prefix_folds [of "''''" "[]" ms "fst (split_system_messages ms)" "snd (split_system_messages ms)"]
  by (simp add: split_system_messages_def)

lemma params_of_conversation:
  "claude_params jl b64 (filter (\<lambda>m. msg_role m \<noteq> ROLE_SYSTEM) ms) = claude_params jl b64 ms"
  by (induction ms) (simp_all add: claude_message_def)

lemma scan_start: "scan [] ms = Some [] \<Longrightarrow> wire_ok [] (merge_adjacent_messages (claude_params jl b64 ms))"
proof (induction ms)
  case (Cons m ms)
  from next_param [OF Cons.prems, of jl b64] show ?case
  proof
    assume "\<exists>p owed'. claude_message jl b64 m = [p] \<and> open_wire p owed' [] \<and> scan owed' ms = Some []"
    then obtain p owed' where "claude_message jl b64 m = [p]" "open_wire p owed' []" "scan owed' ms = Some []" by blast
    with wire_ok_merge [of p owed' "[]" ms jl b64] show ?thesis by simp
  qed (use Cons.IH in simp)
qed simp

section \<open>Properties\<close>


definition sample_turns :: "message list" where
  "sample_turns = [default_message\<lparr>msg_role := ROLE_SYSTEM, msg_content := ''rules''\<rparr>,
     default_message\<lparr>msg_role := ROLE_USER, msg_content := ''go''\<rparr>,
     default_message\<lparr>msg_role := ROLE_ASSISTANT, msg_tool_calls := Some [sample_call, sample_other]\<rparr>,
     tool_message sample_call ''one'', tool_message sample_other ''two'',
     default_message\<lparr>msg_role := ROLE_USER, msg_content := ''and now''\<rparr>]"


section \<open>Assembling a streamed reply\<close>

text \<open>The blocks of a Claude reply and the events they are streamed as.\<close>

datatype reply_block = ReplyText "string list" | ReplyThinking "string list" | ReplyToolUse string string "string list"

fun block_events :: "reply_block \<Rightarrow> claude_event list" where
  "block_events (ReplyText ts) = OtherBlockStart # map TextDelta ts @ [BlockStop]"
| "block_events (ReplyThinking ts) = OtherBlockStart # map ThinkingDelta ts @ [BlockStop]"
| "block_events (ReplyToolUse i n fs) = ToolUseStart i n # map InputJSONDelta fs @ [BlockStop]"

fun reply_text :: "reply_block \<Rightarrow> string" where
  "reply_text (ReplyText ts) = concat ts" | "reply_text _ = ''''"

fun reply_thinking :: "reply_block \<Rightarrow> string" where
  "reply_thinking (ReplyThinking ts) = concat ts" | "reply_thinking _ = ''''"

fun reply_calls :: "reply_block \<Rightarrow> tool_call list" where
  "reply_calls (ReplyToolUse i n fs) = [\<lparr>tc_id = i, tc_name = n, tc_input = concat fs\<rparr>]" | "reply_calls _ = []"

lemma claude_deltas:
  "foldl claude_event_step s (map TextDelta ts) = s\<lparr>cs_answer := cs_answer s @ concat ts\<rparr>"
  "foldl claude_event_step s (map ThinkingDelta ts) = s\<lparr>cs_reasoning := cs_reasoning s @ concat ts\<rparr>"
  "foldl claude_event_step s (map InputJSONDelta ts) = s\<lparr>cs_input := cs_input s @ concat ts\<rparr>"
  by (induction ts arbitrary: s) simp_all

lemma claude_block:
  assumes "cs_id s = ''''" and "cs_input s = ''''" and "\<And>i n fs. b = ReplyToolUse i n fs \<Longrightarrow> i \<noteq> ''''"
  shows "\<exists>n. foldl claude_event_step s (block_events b) = s\<lparr>cs_answer := cs_answer s @ reply_text b,
    cs_reasoning := cs_reasoning s @ reply_thinking b, cs_calls := cs_calls s @ reply_calls b, cs_name := n\<rparr>"
proof (cases b)
  case (ReplyToolUse i n fs)
  with assms show ?thesis by (intro exI [of _ "''''"]) (simp add: claude_deltas)
qed (use assms in \<open>simp_all add: claude_deltas, (intro exI [of _ "cs_name s"], simp)+\<close>)

lemma claude_blocks:
  assumes "cs_id s = ''''" and "cs_input s = ''''" and "\<And>i n fs. ReplyToolUse i n fs \<in> set bs \<Longrightarrow> i \<noteq> ''''"
  shows "\<exists>n. foldl claude_event_step s (concat (map block_events bs)) = s\<lparr>cs_answer := cs_answer s @ concat (map reply_text bs),
    cs_reasoning := cs_reasoning s @ concat (map reply_thinking bs),
    cs_calls := cs_calls s @ concat (map reply_calls bs), cs_name := n\<rparr>"
  using assms
proof (induction bs arbitrary: s)
  case Nil
  show ?case by (intro exI [of _ "cs_name s"]) simp
next
  case (Cons b bs)
  from claude_block [of s b] Cons.prems obtain n where
    b: "foldl claude_event_step s (block_events b) = s\<lparr>cs_answer := cs_answer s @ reply_text b,
      cs_reasoning := cs_reasoning s @ reply_thinking b, cs_calls := cs_calls s @ reply_calls b, cs_name := n\<rparr>" by auto
  have "\<exists>n'. foldl claude_event_step (foldl claude_event_step s (block_events b)) (concat (map block_events bs))
      = (foldl claude_event_step s (block_events b))\<lparr>cs_answer := cs_answer (foldl claude_event_step s (block_events b)) @ concat (map reply_text bs),
        cs_reasoning := cs_reasoning (foldl claude_event_step s (block_events b)) @ concat (map reply_thinking bs),
        cs_calls := cs_calls (foldl claude_event_step s (block_events b)) @ concat (map reply_calls bs), cs_name := n'\<rparr>"
    by (rule Cons.IH) (use b Cons.prems in auto)
  then show ?case by (auto simp: b)
qed

lemma claude_chunk_texts:
  "concat (map sc_content_delta (concat (map claude_chunk (block_events b)))) = reply_text b"
  "concat (map sc_reasoning_delta (concat (map claude_chunk (block_events b)))) = reply_thinking b"
proof -
  have "concat (map sc_content_delta (concat (map claude_chunk (map TextDelta ts)))) = concat ts"
    "concat (map sc_content_delta (concat (map claude_chunk (map ThinkingDelta ts)))) = ''''"
    "concat (map sc_reasoning_delta (concat (map claude_chunk (map ThinkingDelta ts)))) = concat ts"
    "concat (map sc_reasoning_delta (concat (map claude_chunk (map TextDelta ts)))) = ''''"
    "concat (map claude_chunk (map InputJSONDelta ts)) = []" for ts by (induction ts) auto
  then show "concat (map sc_content_delta (concat (map claude_chunk (block_events b)))) = reply_text b"
    "concat (map sc_reasoning_delta (concat (map claude_chunk (block_events b)))) = reply_thinking b"
    by (cases b; simp)+
qed

text \<open>
  A streamed Claude reply is assembled into its blocks: the texts, the reasoning and one
  call per tool block with its input in one piece, whatever the blocks and the fragments
  are; the chunks shown while it streams add up to the same texts; and a reply cut off by
  the token limit is an error, never a call with half an input.
\<close>

theorem claude_reply_assembled:
  assumes "\<And>i n fs. ReplyToolUse i n fs \<in> set bs \<Longrightarrow> i \<noteq> ''''"
  shows "case claude_next (MessageStart input_tokens # concat (map block_events bs) @ [MessageDelta stop output_tokens]) of
    (out, chunks) \<Rightarrow>
      out = (if stop = Some ''max_tokens'' then Inl CLAUDE_TRUNCATED
        else Inr \<lparr>mr_content = concat (map reply_text bs), mr_reasoning = concat (map reply_thinking bs),
          mr_tool_calls = concat (map reply_calls bs),
          mr_usage = (if input_tokens > 0 \<or> output_tokens > 0 then Some \<lparr>us_input_tokens = input_tokens,
            us_output_tokens = output_tokens, us_total_tokens = input_tokens + output_tokens\<rparr> else None)\<rparr>)
      \<and> concat (map sc_content_delta chunks) = concat (map reply_text bs)
      \<and> concat (map sc_reasoning_delta chunks) = concat (map reply_thinking bs)"
proof -
  let ?s = "new_claude_stream\<lparr>cs_input_tokens := input_tokens\<rparr>"
  obtain n where n: "foldl claude_event_step ?s (concat (map block_events bs)) = ?s\<lparr>cs_answer := cs_answer ?s @ concat (map reply_text bs),
    cs_reasoning := cs_reasoning ?s @ concat (map reply_thinking bs),
    cs_calls := cs_calls ?s @ concat (map reply_calls bs), cs_name := n\<rparr>"
    using claude_blocks [of ?s bs] assms by (auto simp: new_claude_stream_def)
  have "concat (map sc_content_delta (concat (map claude_chunk (concat (map block_events bs))))) = concat (map reply_text bs)"
    by (induction bs) (simp_all add: claude_chunk_texts)
  moreover have "concat (map sc_reasoning_delta (concat (map claude_chunk (concat (map block_events bs))))) = concat (map reply_thinking bs)"
    by (induction bs) (simp_all add: claude_chunk_texts)
  ultimately show ?thesis
    using n by (simp add: claude_next_def claude_response_def) (simp add: new_claude_stream_def)
qed

theorem claude_reply_assembled_witness:
  "fst (claude_next (MessageStart 3 # concat (map block_events [ReplyText [''Hel'', ''lo''], ReplyToolUse ''t1'' ''bash'' [''{'', ''}'']])
     @ [MessageDelta (Some ''tool_use'') 4]))
   = Inr \<lparr>mr_content = ''Hello'', mr_reasoning = '''', mr_tool_calls = [\<lparr>tc_id = ''t1'', tc_name = ''bash'', tc_input = ''{}''\<rparr>],
       mr_usage = Some \<lparr>us_input_tokens = 3, us_output_tokens = 4, us_total_tokens = 7\<rparr>\<rparr>"
  using claude_reply_assembled [where bs = "[ReplyText [''Hel'', ''lo''], ReplyToolUse ''t1'' ''bash'' [''{'', ''}'']]"
      and input_tokens = 3 and stop = "Some ''tool_use''" and output_tokens = 4]
  by (auto split: prod.splits)

text \<open>The fragments of one call, in the order they came.\<close>

definition fragments_of :: "call_delta list \<Rightarrow> int \<Rightarrow> call_delta list" where
  "fragments_of ds i = filter (\<lambda>d. dl_index d = i) ds"

definition assembled :: "call_delta list \<Rightarrow> int \<Rightarrow> tool_call" where
  "assembled ds i = foldl extend_builder default_tool_call (fragments_of ds i)"

lemma add_deltas:
  assumes "distinct (map fst bs)" and "\<And>i. map_of bs i = (if i \<in> dl_index ` set ds then Some (assembled ds i) else None)"
  shows "distinct (map fst (foldl add_delta bs es))
    \<and> (\<forall>i. map_of (foldl add_delta bs es) i
         = (if i \<in> dl_index ` set (ds @ es) then Some (assembled (ds @ es) i) else None))"
  using assms
proof (induction es arbitrary: bs ds)
  case (Cons e es)
  have "distinct (map fst (add_delta bs e))" using Cons.prems(1) by (simp add: add_delta_def dict_set_keys)
  moreover have "filter (\<lambda>d. dl_index d = dl_index e) ds = []" if "dl_index e \<notin> dl_index ` set ds"
    using that unfolding filter_empty_conv by (metis imageI)
  then have "map_of (add_delta bs e) i = (if i \<in> dl_index ` set (ds @ [e]) then Some (assembled (ds @ [e]) i) else None)" for i
    using Cons.prems(2) by (auto simp: add_delta_def dict_set_map assembled_def fragments_of_def filter_empty_conv)
  ultimately show ?case using Cons.IH [of "add_delta bs e" "ds @ [e]"] by simp
qed simp

lemma map_sorted_builders:
  assumes "distinct (map fst bs)" and "set (map fst bs) = set ks"
  shows "map snd (sort_key fst bs) = map (\<lambda>i. the (map_of bs i)) (sort (remdups ks))"
proof -
  have "map fst (sort_key fst bs) = sort (remdups ks)"
    by (rule sorted_distinct_set_unique) (use assms in \<open>simp_all add: distinct_map\<close>)
  note keys = this [symmetric]
  have "map snd (sort_key fst bs) = map (\<lambda>p. the (map_of bs (fst p))) (sort_key fst bs)"
    using assms(1) by (intro map_cong) auto
  then show ?thesis by (simp add: keys comp_def)
qed

lemma assembled_input: "tc_input (assembled ds i) = concat (map dl_arguments (fragments_of ds i))"
proof -
  have "tc_input (foldl extend_builder b fs) = tc_input b @ concat (map dl_arguments fs)" for b fs
    by (induction fs arbitrary: b) (simp_all add: extend_builder_def)
  then show ?thesis by (simp add: assembled_def default_tool_call_def)
qed

definition all_choices :: "openai_chunk list \<Rightarrow> choice list" where
  "all_choices cs = concat (map oc_choices cs)"

definition all_deltas :: "openai_chunk list \<Rightarrow> call_delta list" where
  "all_deltas cs = concat (map ch_tool_calls (all_choices cs))"

lemma choices_fold:
  "os_content (foldl choice_step s cs) = os_content s @ concat (map ch_content cs)"
  "os_reasoning (foldl choice_step s cs) = os_reasoning s @ concat (map (\<lambda>c. reasoning_delta (ch_extras c)) cs)"
  "os_builders (foldl choice_step s cs) = foldl add_delta (os_builders s) (concat (map ch_tool_calls cs))"
  "os_saw_choice (foldl choice_step s cs) = (os_saw_choice s \<or> cs \<noteq> [])"
  "os_usage (foldl choice_step s cs) = os_usage s"
  by (induction cs arbitrary: s) (simp_all add: choice_step_def)

lemma chunks_fold:
  "os_content (foldl openai_chunk_step s cs) = os_content s @ concat (map ch_content (all_choices cs))"
  "os_reasoning (foldl openai_chunk_step s cs) = os_reasoning s @ concat (map (\<lambda>c. reasoning_delta (ch_extras c)) (all_choices cs))"
  "os_builders (foldl openai_chunk_step s cs) = foldl add_delta (os_builders s) (all_deltas cs)"
  "os_saw_choice (foldl openai_chunk_step s cs) = (os_saw_choice s \<or> all_choices cs \<noteq> [])"
  by (induction cs arbitrary: s)
    (simp_all add: openai_chunk_step_def choices_fold all_choices_def all_deltas_def split: option.split)

lemma openai_chunk_texts:
  "concat (map sc_content_delta (snd (openai_next cs))) = concat (map ch_content (all_choices cs))"
  "concat (map sc_reasoning_delta (snd (openai_next cs))) = concat (map (\<lambda>c. reasoning_delta (ch_extras c)) (all_choices cs))"
proof -
  have c: "concat (map sc_content_delta (concat (map choice_chunk xs))) = concat (map ch_content xs)"
    "concat (map sc_reasoning_delta (concat (map choice_chunk xs))) = concat (map (\<lambda>c. reasoning_delta (ch_extras c)) xs)" for xs
    by (induction xs) (auto simp: choice_chunk_def)
  have "snd (openai_next cs) = concat (map choice_chunk (all_choices cs))"
    by (induction cs) (simp_all add: openai_next_def all_choices_def)
  then show "concat (map sc_content_delta (snd (openai_next cs))) = concat (map ch_content (all_choices cs))"
    "concat (map sc_reasoning_delta (snd (openai_next cs))) = concat (map (\<lambda>c. reasoning_delta (ch_extras c)) (all_choices cs))"
    by (simp_all only: c)
qed

text \<open>
  An OpenAI reply that is returned holds every text in order and one call per index, by
  ascending index and not by arrival: its input is the fragments of that index in their
  order, however the fragments of several calls interleave. The chunks shown while it
  streams add up to the same texts, and no reply is an answer without a choice.
\<close>

theorem openai_reply_assembled:
  "(case fst (openai_next cs) of Inl e \<Rightarrow> (e = ''llm returned no choices'') = (all_choices cs = [])
    | Inr r \<Rightarrow> all_choices cs \<noteq> []
       \<and> mr_content r = concat (map sc_content_delta (snd (openai_next cs)))
       \<and> mr_content r = concat (map ch_content (all_choices cs))
       \<and> mr_reasoning r = concat (map sc_reasoning_delta (snd (openai_next cs)))
       \<and> mr_tool_calls r = map (assembled (all_deltas cs)) (sort (remdups (map dl_index (all_deltas cs)))))
   \<and> tc_input (assembled (all_deltas cs) i) = concat (map dl_arguments (filter (\<lambda>d. dl_index d = i) (all_deltas cs)))"
proof -
  let ?ds = "all_deltas cs" and ?s = "foldl openai_chunk_step new_openai_stream cs"
  let ?bs = "os_builders ?s"
  have bs: "?bs = foldl add_delta [] ?ds" by (simp add: chunks_fold new_openai_stream_def)
  have b: "distinct (map fst ?bs)"
    "\<And>i. map_of ?bs i = (if i \<in> dl_index ` set ?ds then Some (assembled ?ds i) else None)"
    using add_deltas [of "[]" "[]" ?ds] by (simp_all add: bs)
  have "dom (map_of ?bs) = dl_index ` set ?ds" by (auto simp: dom_def b(2))
  then have "set (map fst ?bs) = set (map dl_index ?ds)" by (simp add: dom_map_of_conv_image_fst)
  from map_sorted_builders [OF b(1) this] have calls: "map snd (sort_key fst ?bs) = map (assembled ?ds) (sort (remdups (map dl_index ?ds)))"
    by (simp add: b(2))
  show ?thesis
    using calls chunks_fold [of new_openai_stream cs] openai_chunk_texts [of cs] assembled_input [of ?ds i]
    by (auto simp: openai_next_def openai_response_def fragments_of_def new_openai_stream_def OPENAI_TRUNCATED_def
        split: if_splits)
qed

end
