(* ===== verification/FileTree.thy ===== *)
theory FileTree
  imports Paths
begin

text \<open>
  The file system behind \<open>os\<close> and \<open>os.path\<close> (POSIX), as far as the workspace uses it: a tree
  of directories, regular files and symbolic links, resolution of a path with its links, and
  the calls that read, create, write and remove files. A node is addressed by the list of its
  names below the root. Permissions are not checked; a call that fails says with which
  \<open>OSError\<close>.
\<close>

section \<open>The tree\<close>

datatype node =
    DirNode
  | FileNode string int
  | is_LinkNode: LinkNode string

type_synonym tree = "(string list \<times> node) list"

datatype os_error =
    FileNotFoundError
  | NotADirectoryError
  | IsADirectoryError
  | FileExistsError
  | SymlinkLoopError

definition node_at :: "tree \<Rightarrow> string list \<Rightarrow> node option" where
  "node_at fs p = (if p = [] then Some DirNode else map_of fs p)"

text \<open>\<open>lstat\<close> of a name in a directory that has been resolved.\<close>

definition lstat_child :: "tree \<Rightarrow> string list \<Rightarrow> string \<Rightarrow> (os_error, node) result" where
  "lstat_child fs d c = (case node_at fs d of
       Some DirNode \<Rightarrow> (case node_at fs (d @ [c]) of None \<Rightarrow> Inl FileNotFoundError | Some n \<Rightarrow> Inr n)
     | Some (FileNode _ _) \<Rightarrow> Inl NotADirectoryError
     | _ \<Rightarrow> Inl FileNotFoundError)"

definition link_base :: "string list \<Rightarrow> string \<Rightarrow> string list" where
  "link_base d target = (if isabs target then [] else d)"

definition idle_links :: "tree \<Rightarrow> string list list \<Rightarrow> nat" where
  "idle_links fs active = length (filter (\<lambda>(p, n). p \<notin> set active) fs)"

lemma idle_links_less:
  assumes "lstat_child fs d c = Inr n" and "d @ [c] \<notin> set active"
  shows "idle_links fs ((d @ [c]) # active) < idle_links fs active"
proof -
  have "(d @ [c], n) \<in> set fs"
    using assms(1) by (auto simp: lstat_child_def node_at_def dest: map_of_SomeD split: option.splits node.splits)
  then obtain xs ys where fs: "fs = xs @ (d @ [c], n) # ys" by (auto simp: in_set_conv_decomp)
  have "length (filter (\<lambda>(p, n). p \<notin> set ((d @ [c]) # active)) zs) \<le> length (filter (\<lambda>(p, n). p \<notin> set active) zs)" for zs :: tree
    by (induction zs) auto
  from this [of xs] this [of ys] show ?thesis using assms(2) by (simp add: idle_links_def fs)
qed

text \<open>
  Resolution as \<open>realpath(strict=True)\<close> does it: \<open>..\<close> drops the last name, a missing name
  fails, a link is replaced by its target, and a link met while it is being followed is a
  loop.
\<close>

function follow :: "tree \<Rightarrow> string list list \<Rightarrow> string list \<Rightarrow> string list \<Rightarrow> (os_error, string list) result" where
  "follow fs active path [] = Inr path"
| "follow fs active path (c # cs) =
     (if c = '''' \<or> c = ''.'' then follow fs active path cs
      else if c = ''..'' then follow fs active (butlast path) cs
      else case lstat_child fs path c of
          Inl e \<Rightarrow> Inl e
        | Inr (LinkNode target) \<Rightarrow>
            if path @ [c] \<in> set active then Inl SymlinkLoopError
            else (case follow fs ((path @ [c]) # active) (link_base path target) (split_on CHR ''/'' target) of
                Inl e \<Rightarrow> Inl e | Inr p \<Rightarrow> follow fs active p cs)
        | Inr _ \<Rightarrow> follow fs active (path @ [c]) cs)"
  by pat_completeness auto
termination
  by (relation "measures [\<lambda>(fs, active, path, cs). idle_links fs active, \<lambda>(fs, active, path, cs). length cs]")
    (auto dest: idle_links_less)

text \<open>Where an open that may create its last name ends; without \<open>O_NOFOLLOW\<close> a link there is followed.\<close>

function open_target :: "tree \<Rightarrow> bool \<Rightarrow> string list list \<Rightarrow> string list \<Rightarrow> string list \<Rightarrow> (os_error, string list) result" where
  "open_target fs nofollow active path cs =
     (if cs = [] \<or> last cs \<in> {'''', ''.'', ''..''} then follow fs active path cs
      else case follow fs active path (butlast cs) of
          Inl e \<Rightarrow> Inl e
        | Inr d \<Rightarrow> (case lstat_child fs d (last cs) of
              Inl FileNotFoundError \<Rightarrow> Inr (d @ [last cs])
            | Inl e \<Rightarrow> Inl e
            | Inr (LinkNode target) \<Rightarrow>
                if nofollow \<or> d @ [last cs] \<in> set active then Inl SymlinkLoopError
                else open_target fs nofollow ((d @ [last cs]) # active) (link_base d target) (split_on CHR ''/'' target)
            | Inr _ \<Rightarrow> Inr (d @ [last cs])))"
  by pat_completeness auto
termination
  by (relation "measure (\<lambda>(fs, nofollow, active, path, cs). idle_links fs active)") (auto dest: idle_links_less)

declare open_target.simps [simp del]

section \<open>Paths as text\<close>

definition path_text :: "string list \<Rightarrow> string" where
  "path_text cs = ''/'' @ join_with ''/'' cs"

definition realpath :: "tree \<Rightarrow> string \<Rightarrow> (os_error, string) result" where
  "realpath fs p = (case follow fs [] [] (split_on CHR ''/'' p) of Inl e \<Rightarrow> Inl e | Inr cs \<Rightarrow> Inr (path_text cs))"

definition stat_node :: "tree \<Rightarrow> string \<Rightarrow> (os_error, node) result" where
  "stat_node fs p = (case follow fs [] [] (split_on CHR ''/'' p) of
       Inl e \<Rightarrow> Inl e
     | Inr cs \<Rightarrow> (case node_at fs cs of None \<Rightarrow> Inl FileNotFoundError | Some n \<Rightarrow> Inr n))"

definition isdir :: "tree \<Rightarrow> string \<Rightarrow> bool" where
  "isdir fs p = (stat_node fs p = Inr DirNode)"

text \<open>\<open>posixpath.dirname\<close> and \<open>basename\<close>: the text before and after the last slash.\<close>

definition path_basename :: "string \<Rightarrow> string" where
  "path_basename p = rev (takeWhile (\<lambda>c. c \<noteq> CHR ''/'') (rev p))"

definition dirname :: "string \<Rightarrow> string" where
  "dirname p = (let head = take (length p - length (path_basename p)) p
     in if list_all (\<lambda>c. c = CHR ''/'') head then head else rev (dropWhile (\<lambda>c. c = CHR ''/'') (rev head)))"

section \<open>Changing the tree\<close>

definition tree_set :: "tree \<Rightarrow> string list \<Rightarrow> node \<Rightarrow> tree" where
  "tree_set fs p n = dict_set fs p n"

definition tree_remove :: "tree \<Rightarrow> string list \<Rightarrow> tree" where
  "tree_remove fs p = filter (\<lambda>(q, n). q \<noteq> p) fs"

text \<open>\<open>os.open(O_WRONLY|O_CREAT|O_TRUNC [|O_NOFOLLOW], mode)\<close> and the write of the content.\<close>

definition write_open :: "tree \<Rightarrow> bool \<Rightarrow> string \<Rightarrow> string \<Rightarrow> int \<Rightarrow> (os_error, tree) result" where
  "write_open fs nofollow p content mode =
     (case open_target fs nofollow [] [] (split_on CHR ''/'' p) of
        Inl e \<Rightarrow> Inl e
      | Inr t \<Rightarrow> (case node_at fs t of
            Some DirNode \<Rightarrow> Inl IsADirectoryError
          | Some (FileNode _ m) \<Rightarrow> Inr (tree_set fs t (FileNode content m))
          | _ \<Rightarrow> Inr (tree_set fs t (FileNode content mode))))"

text \<open>\<open>os.remove\<close>: the last name itself, never what a link there points to.\<close>

definition remove_file :: "tree \<Rightarrow> string \<Rightarrow> (os_error, tree) result" where
  "remove_file fs p =
     (let cs = split_on CHR ''/'' p in case follow fs [] [] (butlast cs) of
        Inl e \<Rightarrow> Inl e
      | Inr d \<Rightarrow> (case lstat_child fs d (last cs) of
            Inl e \<Rightarrow> Inl e
          | Inr DirNode \<Rightarrow> Inl IsADirectoryError
          | Inr _ \<Rightarrow> Inr (tree_remove fs (d @ [last cs]))))"

text \<open>\<open>os.mkdir\<close> and \<open>os.makedirs(exist_ok=True)\<close> of an absolute path given by its names.\<close>

definition mkdir :: "tree \<Rightarrow> string list \<Rightarrow> (os_error, tree) result" where
  "mkdir fs cs = (if cs = [] then Inl FileExistsError
     else case follow fs [] [] (butlast cs) of
        Inl e \<Rightarrow> Inl e
      | Inr d \<Rightarrow> (case lstat_child fs d (last cs) of
            Inl FileNotFoundError \<Rightarrow> Inr (tree_set fs (d @ [last cs]) DirNode)
          | Inl e \<Rightarrow> Inl e
          | Inr _ \<Rightarrow> Inl FileExistsError))"

definition is_dir_at :: "tree \<Rightarrow> string list \<Rightarrow> bool" where
  "is_dir_at fs cs = (case follow fs [] [] cs of Inl _ \<Rightarrow> False | Inr d \<Rightarrow> node_at fs d = Some DirNode)"

definition mkdir_ok :: "tree \<Rightarrow> string list \<Rightarrow> tree \<times> (os_error, unit) result" where
  "mkdir_ok fs cs = (case mkdir fs cs of
       Inr fs' \<Rightarrow> (fs', Inr ())
     | Inl e \<Rightarrow> (fs, if is_dir_at fs cs then Inr () else Inl e))"

function makedirs :: "tree \<Rightarrow> string list \<Rightarrow> tree \<times> (os_error, unit) result" where
  "makedirs fs cs =
     (if length cs \<le> 1 \<or> is_ok (follow fs [] [] (butlast cs)) then mkdir_ok fs cs
      else case makedirs fs (butlast cs) of
          (fs1, Inl FileExistsError) \<Rightarrow> mkdir_ok fs1 cs
        | (fs1, Inl e) \<Rightarrow> (fs1, Inl e)
        | (fs1, Inr _) \<Rightarrow> mkdir_ok fs1 cs)"
  by pat_completeness auto
termination by (relation "measure (\<lambda>(fs, cs). length cs)") auto

declare makedirs.simps [simp del]

section \<open>Real paths\<close>

definition clean_name :: "string \<Rightarrow> bool" where
  "clean_name c \<longleftrightarrow> c \<notin> {'''', ''.'', ''..''} \<and> CHR ''/'' \<notin> set c"

abbreviation clean_names :: "string list \<Rightarrow> bool" where
  "clean_names cs \<equiv> list_all clean_name cs"

text \<open>A node reached through directories only, and no link itself.\<close>

definition real_path :: "tree \<Rightarrow> string list \<Rightarrow> bool" where
  "real_path fs p \<longleftrightarrow> clean_names p \<and> (\<forall>k < length p. node_at fs (take k p) = Some DirNode)
     \<and> (\<exists>n. node_at fs p = Some n \<and> \<not> is_LinkNode n)"

lemma real_root [simp]: "real_path fs []"
  by (simp add: real_path_def node_at_def)

lemma real_butlast: "real_path fs p \<Longrightarrow> real_path fs (butlast p)"
proof (cases p rule: rev_cases)
  case (snoc q x)
  assume "real_path fs p"
  then have "clean_names q" and k: "\<And>k. k < Suc (length q) \<Longrightarrow> node_at fs (take k (q @ [x])) = Some DirNode"
    by (auto simp: real_path_def snoc)
  moreover have "node_at fs (take k q) = Some DirNode" if "k \<le> length q" for k using k [of k] that by simp
  moreover from k [of "length q"] have "node_at fs q = Some DirNode" by simp
  ultimately show ?thesis by (simp add: real_path_def snoc)
qed simp

lemma real_child:
  assumes "real_path fs d" and "lstat_child fs d c = Inr n" and "\<not> is_LinkNode n" and "clean_name c"
  shows "real_path fs (d @ [c])"
proof -
  have "node_at fs d = Some DirNode" "node_at fs (d @ [c]) = Some n"
    using assms(2) by (auto simp: lstat_child_def split: option.splits node.splits)
  with assms show ?thesis by (auto simp: real_path_def less_Suc_eq)
qed

lemma lstat_real:
  assumes "real_path fs (d @ c # cs)"
  shows "\<exists>n. lstat_child fs d c = Inr n \<and> \<not> is_LinkNode n" and "real_path fs (d @ [c])" and "clean_name c"
proof -
  have d: "node_at fs d = Some DirNode" using assms by (auto simp: real_path_def dest: spec [of _ "length d"])
  have n: "\<exists>n. node_at fs (d @ [c]) = Some n \<and> \<not> is_LinkNode n"
  proof (cases cs)
    case (Cons x xs)
    with assms have "node_at fs (d @ [c]) = Some DirNode" by (auto simp: real_path_def dest: spec [of _ "Suc (length d)"])
    then show ?thesis by simp
  qed (use assms in \<open>simp add: real_path_def\<close>)
  with d show "\<exists>n. lstat_child fs d c = Inr n \<and> \<not> is_LinkNode n" by (auto simp: lstat_child_def)
  have "node_at fs (take k (d @ [c])) = Some DirNode" if "k < length (d @ [c])" for k
    using assms that by (auto simp: real_path_def dest: spec [of _ k])
  with n assms show "real_path fs (d @ [c])" "clean_name c" by (auto simp: real_path_def)
qed

lemma resolve_real:
  "follow fs active path cs = Inr q \<Longrightarrow> real_path fs path \<Longrightarrow> list_all (\<lambda>c. CHR ''/'' \<notin> set c) cs \<Longrightarrow> real_path fs q"
proof (induction fs active path cs arbitrary: q rule: follow.induct)
  case (2 fs active path c cs)
  show ?case
  proof (cases "c \<in> {'''', ''.'', ''..''}")
    case True
    with 2 show ?thesis by (auto simp: real_butlast split: if_splits)
  next
    case False
    with "2.prems"(3) have clean: "clean_name c" by (simp add: clean_name_def)
    show ?thesis
    proof (cases "lstat_child fs path c")
      case (Inr n)
      show ?thesis
      proof (cases n)
        case (LinkNode target)
        with Inr False "2.prems"(1) obtain p where
          p: "path @ [c] \<notin> set active" "follow fs ((path @ [c]) # active) (link_base path target) (split_on CHR ''/'' target) = Inr p"
            "follow fs active p cs = Inr q" by (auto split: if_splits sum.splits)
        have "real_path fs (link_base path target)" using "2.prems"(2) by (simp add: link_base_def)
        then have "real_path fs p"
          using "2.IH"(5) [OF _ _ Inr LinkNode p(1,2)] False split_on_sep_free by (fastforce simp: list_all_iff)
        then show ?thesis using "2.IH"(6) [OF _ _ Inr LinkNode p(1,2,3)] False "2.prems"(3) by simp
      qed (use 2 Inr False real_child [OF "2.prems"(2) Inr _ clean] in \<open>auto\<close>)
    qed (use 2 False in \<open>auto\<close>)
  qed
qed simp

lemma resolve_append:
  "follow fs active path (xs @ ys) = bind_result (follow fs active path xs) (\<lambda>p. follow fs active p ys)"
proof (induction xs arbitrary: path)
  case (Cons x xs)
  then show ?case by (auto split: sum.split node.split)
qed simp

lemma resolve_self: "real_path fs (path @ cs) \<Longrightarrow> follow fs active path cs = Inr (path @ cs)"
proof (induction cs arbitrary: path)
  case (Cons c cs)
  from lstat_real [OF Cons.prems] obtain n where n: "lstat_child fs path c = Inr n" "\<not> is_LinkNode n" "clean_name c" by blast
  with Cons.IH [of "path @ [c]"] Cons.prems show ?case by (cases n) (auto simp: clean_name_def)
qed simp

lemma open_target_slash:
  assumes "cs \<noteq> []"
  shows "open_target fs nofollow active path ('''' # cs) = open_target fs nofollow active path cs"
proof -
  have l: "last ('''' # cs) = last cs" and b: "butlast ('''' # cs) = '''' # butlast cs" using assms by simp_all
  have r: "follow fs active path ('''' # ds) = follow fs active path ds" for ds by simp
  show ?thesis
    unfolding open_target.simps [of fs nofollow active path "'''' # cs"] open_target.simps [of fs nofollow active path cs] l b r
    using assms by simp
qed

text \<open>What the kernel opens through a real directory without following a link in the last name.\<close>

lemma open_target_real:
  assumes "real_path fs d" and "clean_name c"
  shows "open_target fs nofollow active [] (d @ [c]) =
    (case lstat_child fs d c of
       Inl FileNotFoundError \<Rightarrow> Inr (d @ [c])
     | Inl e \<Rightarrow> Inl e
     | Inr (LinkNode target) \<Rightarrow>
         if nofollow \<or> d @ [c] \<in> set active then Inl SymlinkLoopError
         else open_target fs nofollow ((d @ [c]) # active) (link_base d target) (split_on CHR ''/'' target)
     | Inr _ \<Rightarrow> Inr (d @ [c]))"
  using assms resolve_self [of fs "[]" d active]
  unfolding open_target.simps [of fs nofollow active "[]" "d @ [c]"] last_snoc butlast_snoc
  by (simp add: clean_name_def)

section \<open>The text of a path\<close>

lemma path_text_parts: "clean_names cs \<Longrightarrow> split_on CHR ''/'' (path_text cs) = '''' # (if cs = [] then [''''] else cs)"
  using split_on_join [of cs "CHR ''/''"]
  by (auto simp: path_text_def list_all_iff clean_name_def)

lemma resolve_path_text: "clean_names cs \<Longrightarrow> follow fs [] [] (split_on CHR ''/'' (path_text cs)) = follow fs [] [] cs"
  by (simp add: path_text_parts)

lemma realpath_path_text:
  "clean_names cs \<Longrightarrow> realpath fs (path_text cs) = (case follow fs [] [] cs of Inl e \<Rightarrow> Inl e | Inr q \<Rightarrow> Inr (path_text q))"
  by (simp only: realpath_def resolve_path_text)

lemma isabs_path_text [simp]: "isabs (path_text cs)"
  by (simp add: isabs_def path_text_def startswith_def)

end
