(* ===== verification/WorkspaceContext.thy ===== *)
theory WorkspaceContext
  imports FileTree "HOL-Library.Sublist"
begin

text \<open>
  The file access policy of one session (\<open>workspace/context.py\<close>): a canonical primary root,
  a canonical working directory and the roots it may reach. The process working directory
  and the file system are one argument, the world.
\<close>

section \<open>The policy\<close>

definition ACCESS_READ :: string where "ACCESS_READ = ''read''"
definition ACCESS_READ_WRITE :: string where "ACCESS_READ_WRITE = ''read_write''"

record ctx_root =
  rt_path :: string
  rt_access :: string

record ctx_policy =
  cx_primaryRoot :: string
  cx_cwd :: string
  cx_roots :: "ctx_root list"

record os_world =
  ow_cwd :: string
  ow_tree :: tree

datatype ws_error = WorkspaceOSError os_error | WorkspaceValueError string | WorkspaceDirError string

definition os_result :: "(os_error, 'a) result \<Rightarrow> (ws_error, 'a) result" where
  "os_result r = (case r of Inl e \<Rightarrow> Inl (WorkspaceOSError e) | Inr x \<Rightarrow> Inr x)"

definition canonicalDirectory :: "os_world \<Rightarrow> string \<Rightarrow> (ws_error, string) result" where
  "canonicalDirectory w p = bind_result (os_result (realpath (ow_tree w) (abspath (ow_cwd w) p))) (\<lambda>resolved.
     if \<not> isdir (ow_tree w) resolved then Inl (WorkspaceDirError (''workspace root is not a directory: '' @ p))
     else Inr (normpath resolved))"

lemma dirname_prefix: "\<exists>s. p = dirname p @ s"
proof -
  define head where "head = take (length p - length (path_basename p)) p"
  have p: "p = head @ drop (length p - length (path_basename p)) p" by (simp add: head_def)
  have "rev head = takeWhile (\<lambda>c. c = CHR ''/'') (rev head) @ dropWhile (\<lambda>c. c = CHR ''/'') (rev head)" by simp
  then have "head = rev (dropWhile (\<lambda>c. c = CHR ''/'') (rev head)) @ rev (takeWhile (\<lambda>c. c = CHR ''/'') (rev head))"
    by (metis rev_append rev_rev_ident)
  then have "\<exists>s. head = dirname p @ s"
    unfolding dirname_def head_def [symmetric] Let_def by (cases "list_all (\<lambda>c. c = CHR ''/'') head") auto
  with p show ?thesis by (metis append_assoc)
qed

lemma dirname_shorter: "dirname p \<noteq> p \<Longrightarrow> length (dirname p) < length p"
  using dirname_prefix [of p] by (metis append_Nil2 length_append length_greater_0_conv less_add_same_cancel1)

text \<open>The loop of \<open>canonicalNearest\<close>.\<close>

function nearest :: "tree \<Rightarrow> string \<Rightarrow> string \<Rightarrow> (ws_error, string) result" where
  "nearest fs current missing =
     (case realpath fs current of
        Inr resolved \<Rightarrow> Inr (normpath (path_join resolved missing))
      | Inl FileNotFoundError \<Rightarrow>
          if dirname current = current then Inr (normpath (path_join current missing))
          else nearest fs (dirname current) (path_join (path_basename current) missing)
      | Inl e \<Rightarrow> Inl (WorkspaceOSError e))"
  by pat_completeness auto
termination by (relation "measure (\<lambda>(fs, current, missing). length current)") (auto dest: dirname_shorter)

declare nearest.simps [simp del]

definition canonicalNearest :: "tree \<Rightarrow> string \<Rightarrow> (ws_error, string) result" where
  "canonicalNearest fs p = nearest fs (normpath p) ''''"

definition resolve_path :: "os_world \<Rightarrow> ctx_policy \<Rightarrow> string \<Rightarrow> (ws_error, string) result" where
  "resolve_path w cx p =
     (if p = '''' then Inl (WorkspaceValueError ''path is required'')
      else canonicalNearest (ow_tree w) (abspath (ow_cwd w) (if isabs p then p else path_join (cx_cwd cx) p)))"

definition contains_relative :: "string \<Rightarrow> bool" where
  "contains_relative rel \<longleftrightarrow> rel \<noteq> ''..'' \<and> \<not> startswith rel ''../'' \<and> \<not> isabs rel"

definition canAccess :: "os_world \<Rightarrow> ctx_policy \<Rightarrow> string \<Rightarrow> bool \<Rightarrow> bool" where
  "canAccess w cx p wr = list_ex (\<lambda>r. \<not> (wr \<and> rt_access r \<noteq> ACCESS_READ_WRITE)
     \<and> (case relpath (ow_cwd w) p (rt_path r) of Inl _ \<Rightarrow> False | Inr rel \<Rightarrow> contains_relative rel)) (cx_roots cx)"

definition can_read :: "os_world \<Rightarrow> ctx_policy \<Rightarrow> string \<Rightarrow> bool" where
  "can_read w cx p = (case resolve_path w cx p of Inl _ \<Rightarrow> False | Inr q \<Rightarrow> canAccess w cx q False)"

definition can_write :: "os_world \<Rightarrow> ctx_policy \<Rightarrow> string \<Rightarrow> bool" where
  "can_write w cx p = (case resolve_path w cx p of Inl _ \<Rightarrow> False | Inr q \<Rightarrow> canAccess w cx q True)"

fun normalized_roots :: "os_world \<Rightarrow> ctx_root list \<Rightarrow> (ws_error, ctx_root list) result" where
  "normalized_roots w [] = Inr []"
| "normalized_roots w (r # rs) =
     (if rt_access r \<noteq> ACCESS_READ \<and> rt_access r \<noteq> ACCESS_READ_WRITE
      then Inl (WorkspaceValueError ''invalid workspace root access'')
      else bind_result (canonicalDirectory w (rt_path r)) (\<lambda>p.
        bind_result (normalized_roots w rs) (\<lambda>rest. Inr (\<lparr>rt_path = p, rt_access = rt_access r\<rparr> # rest))))"

definition new_access_context :: "os_world \<Rightarrow> string \<Rightarrow> string \<Rightarrow> ctx_root list \<Rightarrow> (ws_error, ctx_policy) result" where
  "new_access_context w primaryRoot cwd roots =
     (if primaryRoot = '''' \<or> cwd = '''' then Inl (WorkspaceValueError ''workspace primary root and cwd are required'')
      else bind_result (canonicalDirectory w primaryRoot) (\<lambda>primary.
        bind_result (canonicalDirectory w cwd) (\<lambda>working.
        bind_result (normalized_roots w roots) (\<lambda>normalized.
          if normalized = [] then Inl (WorkspaceValueError ''workspace requires at least one root'')
          else let cx = \<lparr>cx_primaryRoot = primary, cx_cwd = working, cx_roots = normalized\<rparr>
            in if \<not> canAccess w cx primary False then Inl (WorkspaceValueError ''workspace primary root is not readable'')
               else if \<not> canAccess w cx working False then Inl (WorkspaceValueError ''workspace cwd is not readable'')
               else Inr cx))))"

definition new_default_context :: "os_world \<Rightarrow> string \<Rightarrow> (ws_error, ctx_policy) result" where
  "new_default_context w root = new_access_context w root root [\<lparr>rt_path = root, rt_access = ACCESS_READ_WRITE\<rparr>]"

section \<open>The text of an absolute path\<close>

text \<open>An absolute path as \<open>normpath\<close> leaves it: two leading slashes are a root of their own.\<close>

definition rooted_text :: "string \<Rightarrow> string list \<Rightarrow> string" where
  "rooted_text root cs = root @ join_with ''/'' cs"

definition is_root :: "string \<Rightarrow> bool" where
  "is_root r \<longleftrightarrow> r = ''/'' \<or> r = ''//''"

lemma path_text_rooted: "path_text = rooted_text ''/''"
  by (rule ext) (simp add: path_text_def rooted_text_def)

lemma slash_root [simp]: "is_root ''/''"
  by (simp add: is_root_def)

lemma clean_sep_free: "clean_names cs \<Longrightarrow> list_all (\<lambda>c. CHR ''/'' \<notin> set c) cs"
  by (auto simp: list_all_iff clean_name_def)

lemma split_joined: "clean_names cs \<Longrightarrow> split_on CHR ''/'' (join_with ''/'' cs) = (if cs = [] then [''''] else cs)"
  using split_on_join [of cs "CHR ''/''"] clean_sep_free [of cs] by auto

lemma joined_start: "clean_names cs \<Longrightarrow> \<not> startswith (join_with ''/'' cs) ''/''"
proof (cases cs)
  case (Cons c r)
  assume "clean_names cs"
  with Cons have "c \<noteq> ''''" "CHR ''/'' \<notin> set c" by (simp_all add: clean_name_def)
  then show ?thesis by (cases c; cases r) (auto simp: Cons startswith_def)
qed (simp add: startswith_def)

lemma norm_clean: "clean_names cs \<Longrightarrow> norm_comps True (if cs = [] then [''''] else cs) = cs"
proof -
  assume "clean_names cs"
  then have "'''' \<notin> set cs" "''.'' \<notin> set cs" "''..'' \<notin> set cs" by (auto simp: list_all_iff clean_name_def)
  from norm_names [OF this, of True "[]"] show ?thesis by (simp add: norm_comps_def norm_step_def)
qed

lemma normpath_rooted: "is_root root \<Longrightarrow> clean_names cs \<Longrightarrow> normpath (rooted_text root cs) = rooted_text root cs"
proof -
  assume r: "is_root root" and c: "clean_names cs"
  have "splitroot (root @ join_with ''/'' cs) = (root, join_with ''/'' cs)"
    by (rule splitroot_again) (use r joined_start [OF c] in \<open>auto simp: is_root_def\<close>)
  moreover have "root @ join_with ''/'' cs \<noteq> ''''" "root \<noteq> ''''" using r by (auto simp: is_root_def)
  ultimately show ?thesis using split_joined [OF c] norm_clean [OF c]
    by (simp add: normpath_def rooted_text_def)
qed

lemma split_on_trailing: "split_on sep (s @ [sep]) = split_on sep s @ [[]]"
  by (induction s) (auto split: list.split)

lemma normpath_trailing:
  assumes "is_root root" and c: "clean_names cs" and "cs \<noteq> []"
  shows "normpath (rooted_text root cs @ ''/'') = rooted_text root cs"
proof -
  let ?j = "join_with ''/'' cs"
  have "?j \<noteq> ''''" using assms(3) c by (cases cs) (auto simp: clean_name_def join_with_Cons split: if_splits, cases "tl cs", auto)
  then have "\<not> startswith (?j @ ''/'') ''/''" using joined_start [OF c] by (cases ?j) (auto simp: startswith_def)
  then have "splitroot (root @ ?j @ ''/'') = (root, ?j @ ''/'')"
    using splitroot_again [of root "?j @ ''/''"] assms(1) by (auto simp: is_root_def)
  moreover have "norm_comps True (cs @ ['''']) = norm_comps True cs"
    by (simp add: norm_comps_def norm_step_def)
  moreover have "norm_comps True cs = cs" using norm_clean [OF c] assms(3) by simp
  ultimately show ?thesis using split_joined [OF c] split_on_trailing [of "CHR ''/''" ?j] assms(1,3)
    by (auto simp: normpath_def rooted_text_def is_root_def)
qed

lemma normpath_absolute:
  assumes "isabs p"
  shows "\<exists>root cs. normpath p = rooted_text root cs \<and> is_root root \<and> clean_names cs"
proof -
  obtain root rest where sr: "splitroot p = (root, rest)" by fastforce
  then have r: "is_root root" using assms by (auto simp: splitroot_def isabs_def is_root_def split: if_splits)
  define cs where "cs = norm_comps True (split_on CHR ''/'' rest)"
  have "clean_names cs"
    using kept_ok_norm_comps [of True "split_on CHR ''/'' rest"] norm_comps_sep_free [of True rest]
    by (auto simp: cs_def clean_name_def list_all_iff kept_ok_def)
  moreover have "p \<noteq> ''''" "root \<noteq> ''''" using assms r by (auto simp: isabs_def startswith_def is_root_def)
  then have "normpath p = rooted_text root cs" by (simp add: normpath_def sr cs_def rooted_text_def)
  ultimately show ?thesis using r by blast
qed

lemma abspath_rooted: "is_root root \<Longrightarrow> clean_names cs \<Longrightarrow> abspath pwd (rooted_text root cs) = rooted_text root cs"
  using normpath_rooted [of root cs] by (auto simp: abspath_def isabs_def rooted_text_def is_root_def startswith_def)

lemma path_parts_text: "clean_names cs \<Longrightarrow> path_parts (path_text cs) = cs"
  by (auto simp: path_parts_def path_text_parts list_all_iff clean_name_def intro!: filter_True)

lemma resolve_rooted:
  "is_root root \<Longrightarrow> clean_names cs \<Longrightarrow> follow fs [] [] (split_on CHR ''/'' (rooted_text root cs)) = follow fs [] [] cs"
  using split_joined [of cs] by (auto simp: is_root_def rooted_text_def)

lemma realpath_rooted:
  "is_root root \<Longrightarrow> clean_names cs \<Longrightarrow>
     realpath fs (rooted_text root cs) = (case follow fs [] [] cs of Inl e \<Rightarrow> Inl e | Inr q \<Rightarrow> Inr (path_text q))"
  by (simp only: realpath_def resolve_rooted)

lemma joined_snoc: "join_with ''/'' (cs @ [c]) = (if cs = [] then c else join_with ''/'' cs @ ''/'' @ c)"
  by (induction cs) (auto simp: join_with_Cons)

lemma joined_end: "clean_names cs \<Longrightarrow> cs \<noteq> [] \<Longrightarrow> join_with ''/'' cs \<noteq> '''' \<and> last (join_with ''/'' cs) \<noteq> CHR ''/''"
proof (cases cs rule: rev_cases)
  case (snoc ds c)
  assume "clean_names cs"
  then have "c \<noteq> ''''" "CHR ''/'' \<notin> set c" by (simp_all add: snoc clean_name_def)
  then show ?thesis by (auto simp: snoc joined_snoc last_append dest: last_in_set)
qed simp

lemma basename_rooted:
  assumes "is_root root" and "clean_names (cs @ [c])"
  shows "path_basename (rooted_text root (cs @ [c])) = c" and "dirname (rooted_text root (cs @ [c])) = rooted_text root cs"
proof -
  have c: "CHR ''/'' \<notin> set c" and cs: "clean_names cs" using assms(2) by (simp_all add: clean_name_def)
  define head where "head = root @ (if cs = [] then '''' else join_with ''/'' cs @ ''/'')"
  have p: "rooted_text root (cs @ [c]) = head @ c" by (simp add: head_def rooted_text_def joined_snoc)
  have "head \<noteq> ''''" "last head = CHR ''/''" using assms(1) by (auto simp: head_def is_root_def)
  then obtain h where h: "head = h @ ''/''" by (metis append_butlast_last_id)
  have "takeWhile (\<lambda>x. x \<noteq> CHR ''/'') (rev c @ CHR ''/'' # rev h) = rev c"
    using c by (subst takeWhile_append2) auto
  then have "takeWhile (\<lambda>x. x \<noteq> CHR ''/'') (rev (head @ c)) = rev c" by (simp add: h)
  then show b: "path_basename (rooted_text root (cs @ [c])) = c" by (simp add: path_basename_def p)
  show "dirname (rooted_text root (cs @ [c])) = rooted_text root cs"
  proof (cases "cs = []")
    case True
    with assms(1) b show ?thesis by (auto simp: dirname_def Let_def p head_def rooted_text_def is_root_def)
  next
    case False
    from joined_end [OF cs False] obtain j x where j: "join_with ''/'' cs = j @ [x]" "x \<noteq> CHR ''/''"
      by (metis append_butlast_last_id)
    then have head: "head = root @ j @ [x] @ ''/''" using False by (simp add: head_def)
    have "take (length (head @ c) - length c) (head @ c) = head" by simp
    moreover have "\<not> list_all (\<lambda>x. x = CHR ''/'') head" using j(2) by (simp add: head)
    moreover have "dropWhile (\<lambda>x. x = CHR ''/'') (rev head) = rev (root @ j @ [x])" using j(2) by (simp add: head)
    ultimately have "dirname (head @ c) = rev (rev (root @ j @ [x]))"
      unfolding dirname_def b [unfolded p] Let_def by (simp only: if_False)
    then show ?thesis unfolding p by (simp add: rooted_text_def j(1))
  qed
qed

section \<open>Canonical paths\<close>

text \<open>
  What \<open>canonicalNearest\<close> returns: a real path, then names below it of which the first
  cannot be resolved because something is missing, the name itself or what its link names.
\<close>

definition canonical :: "tree \<Rightarrow> string list \<Rightarrow> bool" where
  "canonical fs cs \<longleftrightarrow> (\<exists>q rest. cs = q @ rest \<and> real_path fs q \<and> clean_names rest
     \<and> (rest = [] \<or> follow fs [] q [hd rest] = Inl FileNotFoundError))"

lemma canonical_clean: "canonical fs cs \<Longrightarrow> clean_names cs"
  by (auto simp: canonical_def real_path_def)

text \<open>The names not resolved yet, as the loop keeps them.\<close>

definition suffix_text :: "string list \<Rightarrow> string" where
  "suffix_text ss = (if ss = [] then '''' else join_with ''/'' ss @ ''/'')"

lemma endswith_slash: "endswith s ''/'' \<longleftrightarrow> s \<noteq> '''' \<and> last s = CHR ''/''"
  by (cases s rule: rev_cases) (auto simp: endswith_def startswith_def)

lemma suffix_relative: "clean_names ss \<Longrightarrow> \<not> isabs (suffix_text ss)"
proof (cases "ss = []")
  case False
  assume c: "clean_names ss"
  from joined_end [OF c False] joined_start [OF c] False show ?thesis
    by (cases "join_with ''/'' ss") (auto simp: suffix_text_def isabs_def startswith_def)
qed (simp add: suffix_text_def isabs_def startswith_def)

lemma suffix_step:
  assumes "clean_name c" and "clean_names ss"
  shows "path_join c (suffix_text ss) = suffix_text (c # ss)"
proof -
  have "c \<noteq> ''''" "last c \<noteq> CHR ''/''" using assms(1) by (auto simp: clean_name_def dest: last_in_set)
  then show ?thesis using suffix_relative [OF assms(2)]
    by (cases ss) (auto simp: path_join_def endswith_slash suffix_text_def)
qed

lemma joined_append:
  "ss \<noteq> [] \<Longrightarrow> join_with ''/'' (q @ ss) = (if q = [] then '''' else join_with ''/'' q @ ''/'') @ join_with ''/'' ss"
  by (induction q) (auto simp: join_with_Cons)

text \<open>Behind a resolved directory the names not resolved only adds its names.\<close>

lemma join_suffix_text:
  assumes "clean_names q" and "clean_names ss" and "q @ ss \<noteq> []"
  shows "path_join (path_text q) (suffix_text ss) = path_text (q @ ss) @ ''/''"
proof -
  have "endswith (path_text q) ''/'' \<longleftrightarrow> q = []"
    using joined_end [OF assms(1)] by (auto simp: endswith_slash path_text_def)
  then have "path_join (path_text q) (suffix_text ss)
      = (if q = [] then path_text q else path_text q @ ''/'') @ suffix_text ss"
    using suffix_relative [OF assms(2)] by (simp add: path_join_def path_text_def)
  also have "\<dots> = path_text (q @ ss) @ ''/''"
    using assms(3) joined_append [of ss q] by (cases "ss = []") (simp_all add: suffix_text_def path_text_def)
  finally show ?thesis .
qed

lemma join_suffix:
  assumes "clean_names q" and "clean_names ss"
  shows "normpath (path_join (path_text q) (suffix_text ss)) = path_text (q @ ss)"
proof (cases "q @ ss = []")
  case True
  then have "path_join (path_text q) (suffix_text ss) = ''/''"
    by (simp add: path_join_def suffix_text_def path_text_def endswith_slash isabs_def startswith_def)
  with True normpath_rooted [of "''/''" "[]"] show ?thesis by (simp add: path_text_rooted rooted_text_def)
next
  case False
  with join_suffix_text [OF assms False] normpath_trailing [of "''/''" "q @ ss"] assms show ?thesis
    by (simp add: path_text_rooted)
qed

lemma nearest_resolved:
  assumes "is_root root" and "clean_names cs" and "clean_names ss" and "follow fs [] [] cs = Inr q"
  shows "nearest fs (rooted_text root cs) (suffix_text ss) = Inr (path_text (q @ ss))"
proof -
  have "real_path fs q" by (rule resolve_real [OF assms(4)]) (use assms(2) clean_sep_free in simp_all)
  then have "clean_names q" by (simp add: real_path_def)
  with assms realpath_rooted [OF assms(1,2), of fs] join_suffix [of q ss] show ?thesis
    by (simp add: nearest.simps [of fs "rooted_text root cs"])
qed

lemma nearest_missing:
  assumes "is_root root" and "clean_names (cs @ [c])" and "clean_names ss" and "follow fs [] [] (cs @ [c]) = Inl FileNotFoundError"
  shows "nearest fs (rooted_text root (cs @ [c])) (suffix_text ss) = nearest fs (rooted_text root cs) (suffix_text (c # ss))"
proof -
  have "rooted_text root cs \<noteq> rooted_text root (cs @ [c])"
    using assms(2) by (auto simp: rooted_text_def joined_snoc clean_name_def)
  with assms realpath_rooted [OF assms(1,2), of fs] basename_rooted [OF assms(1,2)] suffix_step [of c ss]
  show ?thesis by (simp add: nearest.simps [of fs "rooted_text root (cs @ [c])"])
qed

lemma nearest_canonical:
  "is_root root \<Longrightarrow> clean_names cs \<Longrightarrow> clean_names ss \<Longrightarrow> nearest fs (rooted_text root cs) (suffix_text ss) = Inr p \<Longrightarrow>
     ss = [] \<or> follow fs [] [] (cs @ [hd ss]) = Inl FileNotFoundError \<Longrightarrow> \<exists>ds. p = path_text ds \<and> canonical fs ds"
proof (induction cs arbitrary: ss rule: rev_induct)
  case Nil
  then have "p = path_text ss" using nearest_resolved [of root "[]" ss fs "[]"] by simp
  moreover have "ss = [] \<or> follow fs [] [] [hd ss] = Inl FileNotFoundError" using Nil.prems(5) unfolding append_Nil .
  then have "canonical fs ([] @ ss)" unfolding canonical_def using Nil.prems(3) real_root by blast
  ultimately show ?case unfolding append_Nil by blast
next
  case (snoc c cs)
  show ?case
  proof (cases "follow fs [] [] (cs @ [c])")
    case (Inr q)
    with snoc.prems nearest_resolved [OF snoc.prems(1,2,3) Inr] have "p = path_text (q @ ss)" by simp
    moreover have "real_path fs q" by (rule resolve_real [OF Inr real_root clean_sep_free [OF snoc.prems(2)]])
    moreover have "ss = [] \<or> follow fs [] q [hd ss] = Inl FileNotFoundError"
      using snoc.prems(5) resolve_append [of fs "[]" "[]" "cs @ [c]" "[hd ss]"] Inr by auto
    ultimately show ?thesis using snoc.prems(3) unfolding canonical_def by blast
  next
    case (Inl e)
    have e: "e = FileNotFoundError"
      using snoc.prems(4) realpath_rooted [OF snoc.prems(1,2), of fs] Inl
      by (cases e) (auto simp: nearest.simps [of fs "rooted_text root (cs @ [c])"])
    with snoc.prems nearest_missing [OF snoc.prems(1-3)] Inl
    have "nearest fs (rooted_text root cs) (suffix_text (c # ss)) = Inr p" by simp
    with snoc.IH [of "c # ss"] snoc.prems Inl e show ?thesis by simp
  qed
qed

text \<open>A canonical path is its own canonical form.\<close>

lemma resolve_beyond:
  assumes "real_path fs q" and "follow fs [] q [r] = Inl FileNotFoundError"
  shows "follow fs [] [] (q @ r # rs) = Inl FileNotFoundError"
  using resolve_append [of fs "[]" "[]" q "[r]"] resolve_append [of fs "[]" "[]" "q @ [r]" rs]
    resolve_self [of fs "[]" q "[]"] assms by simp

lemma nearest_self:
  assumes "real_path fs q" and "clean_names (rest @ ss)" and "rest = [] \<or> follow fs [] q [hd rest] = Inl FileNotFoundError"
  shows "nearest fs (path_text (q @ rest)) (suffix_text ss) = Inr (path_text (q @ rest @ ss))"
  using assms(2,3)
proof (induction rest arbitrary: ss rule: rev_induct)
  case Nil
  have "clean_names q" using assms(1) by (simp add: real_path_def)
  with nearest_resolved [of "''/''" q ss fs q] resolve_self [of fs "[]" q "[]"] assms(1) Nil show ?case
    by (simp add: path_text_rooted)
next
  case (snoc c rest)
  have q: "clean_names q" using assms(1) by (simp add: real_path_def)
  have m: "follow fs [] [] ((q @ rest) @ [c]) = Inl FileNotFoundError"
    using snoc.prems(2) resolve_beyond [OF assms(1), of c "[]"] resolve_beyond [OF assms(1), of "hd rest" "tl rest @ [c]"]
    by (cases rest) auto
  have cl: "clean_names ((q @ rest) @ [c])" "clean_names ss" using q snoc.prems(1) by simp_all
  have "nearest fs (path_text (q @ rest @ [c])) (suffix_text ss) = nearest fs (path_text (q @ rest)) (suffix_text (c # ss))"
    using nearest_missing [OF slash_root cl m] by (simp add: path_text_rooted)
  also have "\<dots> = Inr (path_text (q @ rest @ (c # ss)))"
  proof (rule snoc.IH)
    show "clean_names (rest @ c # ss)" using snoc.prems(1) by simp
    show "rest = [] \<or> follow fs [] q [hd rest] = Inl FileNotFoundError" using snoc.prems(2) by (cases rest) auto
  qed
  finally show ?case by simp
qed

lemma canonicalNearest_self: "canonical fs cs \<Longrightarrow> canonicalNearest fs (path_text cs) = Inr (path_text cs)"
  using nearest_self [of fs _ _ "[]"] normpath_rooted [of "''/''" cs] canonical_clean [of fs cs]
  by (auto simp: canonical_def canonicalNearest_def path_text_rooted suffix_text_def)

lemma canonicalNearest_canonical:
  assumes "isabs p" and "canonicalNearest fs p = Inr s"
  shows "\<exists>cs. s = path_text cs \<and> canonical fs cs"
proof -
  obtain root cs where "normpath p = rooted_text root cs" "is_root root" "clean_names cs" using normpath_absolute [OF assms(1)] by blast
  with nearest_canonical [of root cs "[]" fs s] assms(2) show ?thesis
    by (simp add: canonicalNearest_def suffix_text_def)
qed

section \<open>Containment\<close>

lemma common_prefix_take: "common_prefix xs ys = take (length (common_prefix xs ys)) xs"
  by (induction xs ys rule: common_prefix.induct) auto

lemma common_prefix_all: "length (common_prefix xs ys) = length xs \<longleftrightarrow> prefix xs ys"
  by (induction xs ys rule: common_prefix.induct) auto

lemma common_prefix_le: "length (common_prefix xs ys) \<le> length xs"
  by (induction xs ys rule: common_prefix.induct) auto

lemma relpath_text:
  assumes "clean_names cs" and "clean_names rs"
  shows "relpath pwd (path_text cs) (path_text rs) = Inr (let i = length (common_prefix rs cs);
    rel = replicate (length rs - i) ''..'' @ drop i cs in if rel = [] then ''.'' else join_with ''/'' rel)"
proof -
  have "path_text cs \<noteq> ''''" by (simp add: path_text_def)
  then show ?thesis using assms abspath_rooted [of "''/''" cs pwd] abspath_rooted [of "''/''" rs pwd]
    by (simp add: relpath_def path_parts_text path_text_rooted [symmetric] Let_def)
qed

lemma joined_dots: "clean_names cs \<Longrightarrow> cs \<noteq> [] \<Longrightarrow> contains_relative (join_with ''/'' cs)"
proof (cases cs)
  case (Cons c r)
  assume c: "clean_names cs" and "cs \<noteq> []"
  have "\<not> isabs (join_with ''/'' cs)" using joined_start [OF c] by (simp add: isabs_def)
  moreover from c Cons have k: "c \<noteq> ''..''" "CHR ''/'' \<notin> set c" "c \<noteq> ''''" by (simp_all add: clean_name_def)
  have "join_with ''/'' cs \<noteq> ''..''"
    using k by (cases r) (auto simp: Cons join_with_Cons append_eq_Cons_conv)
  moreover have "\<not> startswith (join_with ''/'' cs) ''../''"
  proof
    assume "startswith (join_with ''/'' cs) ''../''"
    then obtain t where t: "join_with ''/'' cs = ''../'' @ t" by (auto simp: startswith_iff)
    have c1: "takeWhile (\<lambda>x. x \<noteq> CHR ''/'') (c @ CHR ''/'' # z) = c" for z
      using k(2) by (subst takeWhile_append2) auto
    have "takeWhile (\<lambda>x. x \<noteq> CHR ''/'') c = c" using k(2) by (auto simp: takeWhile_eq_all_conv)
    with c1 have "takeWhile (\<lambda>x. x \<noteq> CHR ''/'') (join_with ''/'' cs) = c"
      by (cases r) (simp_all add: Cons join_with_Cons)
    with t k(1) show False by simp
  qed
  ultimately show ?thesis by (simp add: contains_relative_def)
qed simp

lemma contains_iff_prefix:
  assumes "clean_names cs" and "clean_names rs"
  shows "(case relpath pwd (path_text cs) (path_text rs) of Inl _ \<Rightarrow> False | Inr rel \<Rightarrow> contains_relative rel) \<longleftrightarrow> prefix rs cs"
proof -
  define i where "i = length (common_prefix rs cs)"
  show ?thesis
  proof (cases "prefix rs cs")
    case True
    then have i: "i = length rs" using common_prefix_all [of rs cs] by (simp add: i_def)
    have "clean_names (drop i cs)" using assms(1) by (auto simp: list_all_iff dest: in_set_dropD)
    then show ?thesis using True i joined_dots [of "drop i cs"] relpath_text [OF assms, of pwd]
      by (cases "drop i cs = []") (simp_all add: i_def [symmetric] contains_relative_def startswith_def isabs_def)
  next
    case False
    then have "i < length rs" using common_prefix_all [of rs cs] common_prefix_le [of rs cs] by (auto simp: i_def le_less)
    then obtain n where n: "length rs - i = Suc n" by (metis Suc_diff_Suc)
    have "\<not> contains_relative (join_with ''/'' (replicate (length rs - i) ''..'' @ drop i cs))"
      by (cases "replicate n ''..'' @ drop i cs") (auto simp: n contains_relative_def startswith_def)
    moreover have "\<not> (length rs \<le> i \<and> length cs \<le> i)" using \<open>i < length rs\<close> by simp
    ultimately show ?thesis using False relpath_text [OF assms, of pwd] n \<open>i < length rs\<close>
      by (simp add: i_def [symmetric] Let_def)
  qed
qed

text \<open>A policy whose paths are canonical text, as \<open>new_access_context\<close> builds them.\<close>

definition text_of :: "string list \<Rightarrow> string \<Rightarrow> bool" where
  "text_of cs p \<longleftrightarrow> p = path_text cs \<and> clean_names cs"

definition policy_ok :: "ctx_policy \<Rightarrow> bool" where
  "policy_ok cx \<longleftrightarrow> (\<exists>cs. text_of cs (cx_cwd cx)) \<and> (\<exists>cs. text_of cs (cx_primaryRoot cx))
     \<and> (\<forall>r \<in> set (cx_roots cx). \<exists>cs. text_of cs (rt_path r))"

definition root_names :: "ctx_root \<Rightarrow> string list" where
  "root_names r = path_parts (rt_path r)"

lemma canAccess_iff:
  assumes "\<forall>r \<in> set (cx_roots cx). \<exists>cs. text_of cs (rt_path r)" and "clean_names cs"
  shows "canAccess w cx (path_text cs) wr \<longleftrightarrow>
    (\<exists>r \<in> set (cx_roots cx). (wr \<longrightarrow> rt_access r = ACCESS_READ_WRITE) \<and> prefix (root_names r) cs)"
proof -
  have "(case relpath (ow_cwd w) (path_text cs) (rt_path r) of Inl _ \<Rightarrow> False | Inr rel \<Rightarrow> contains_relative rel)
      \<longleftrightarrow> prefix (root_names r) cs" if "r \<in> set (cx_roots cx)" for r
    using assms that contains_iff_prefix [OF assms(2)] by (auto simp: text_of_def root_names_def path_parts_text)
  then show ?thesis unfolding canAccess_def list_ex_iff by blast
qed

lemma canonicalDirectory_real:
  assumes "canonicalDirectory w p = Inr s"
  shows "\<exists>cs. text_of cs s \<and> real_path (ow_tree w) cs \<and> node_at (ow_tree w) cs = Some DirNode"
proof -
  from assms obtain resolved where r: "realpath (ow_tree w) (abspath (ow_cwd w) p) = Inr resolved"
    "isdir (ow_tree w) resolved" "s = normpath resolved"
    by (auto simp: canonicalDirectory_def bind_result_Inr_iff os_result_def split: if_splits sum.splits)
  then obtain cs where cs: "follow (ow_tree w) [] [] (split_on CHR ''/'' (abspath (ow_cwd w) p)) = Inr cs" "resolved = path_text cs"
    by (auto simp: realpath_def split: sum.splits)
  have real: "real_path (ow_tree w) cs"
    by (rule resolve_real [OF cs(1)]) (auto simp: list_all_iff dest: split_on_sep_free)
  then have "clean_names cs" by (simp add: real_path_def)
  moreover from this have "node_at (ow_tree w) cs = Some DirNode"
    using r(2) cs(2) resolve_path_text [of cs "ow_tree w"] resolve_self [of "ow_tree w" "[]" cs "[]"] real
    by (simp add: isdir_def stat_node_def split: option.splits)
  moreover have "s = path_text cs" using r(3) cs(2) normpath_rooted [of "''/''" cs] calculation(1) by (simp add: path_text_rooted)
  ultimately show ?thesis using real by (auto simp: text_of_def)
qed

lemma normalized_roots_ok:
  "normalized_roots w rs = Inr ns \<Longrightarrow> length ns = length rs \<and> map rt_access ns = map rt_access rs
     \<and> (\<forall>r \<in> set ns. (\<exists>cs. text_of cs (rt_path r) \<and> real_path (ow_tree w) cs \<and> node_at (ow_tree w) cs = Some DirNode)
         \<and> rt_access r \<in> {ACCESS_READ, ACCESS_READ_WRITE})
     \<and> (\<forall>i < length rs. canonicalDirectory w (rt_path (rs ! i)) = Inr (rt_path (ns ! i)))"
proof (induction rs arbitrary: ns)
  case (Cons r rs)
  then obtain p rest where p: "canonicalDirectory w (rt_path r) = Inr p" "normalized_roots w rs = Inr rest"
    "ns = \<lparr>rt_path = p, rt_access = rt_access r\<rparr> # rest" "rt_access r \<in> {ACCESS_READ, ACCESS_READ_WRITE}"
    by (auto simp: bind_result_Inr_iff split: if_splits)
  with Cons.IH [OF p(2)] canonicalDirectory_real [OF p(1)] show ?case by (auto simp: nth_Cons split: nat.split)
qed simp

lemma new_access_context_ok:
  assumes "new_access_context w primary cwd roots = Inr cx"
  shows "policy_ok cx" and "canAccess w cx (cx_primaryRoot cx) False" and "canAccess w cx (cx_cwd cx) False"
    and "canonicalDirectory w primary = Inr (cx_primaryRoot cx)" and "canonicalDirectory w cwd = Inr (cx_cwd cx)"
    and "normalized_roots w roots = Inr (cx_roots cx)" and "cx_roots cx \<noteq> []"
  using assms normalized_roots_ok [of w roots "cx_roots cx"] canonicalDirectory_real [of w primary]
    canonicalDirectory_real [of w cwd]
  by (auto simp: new_access_context_def bind_result_Inr_iff policy_ok_def Let_def split: if_splits; blast)+

text \<open>A path resolved by a policy is canonical, and resolves to itself.\<close>

lemma resolve_path_canonical:
  assumes "policy_ok cx" and "resolve_path w cx p = Inr s"
  shows "\<exists>cs. s = path_text cs \<and> canonical (ow_tree w) cs"
proof -
  let ?p = "abspath (ow_cwd w) (if isabs p then p else path_join (cx_cwd cx) p)"
  have "isabs (path_join (cx_cwd cx) p)" if "\<not> isabs p"
    using assms(1) that by (auto simp: policy_ok_def text_of_def path_join_def path_text_def isabs_def startswith_def)
  then have "isabs (if isabs p then p else path_join (cx_cwd cx) p)" by simp
  moreover from this obtain root cs where "?p = rooted_text root cs" "is_root root"
    using normpath_absolute by (metis abspath_def)
  then have "isabs ?p" by (auto simp: is_root_def rooted_text_def isabs_def startswith_def)
  ultimately show ?thesis
    using canonicalNearest_canonical [of ?p "ow_tree w" s] assms(2) by (simp add: resolve_path_def split: if_splits)
qed

lemma resolve_path_self: "canonical (ow_tree w) cs \<Longrightarrow> resolve_path w cx (path_text cs) = Inr (path_text cs)"
proof -
  assume c: "canonical (ow_tree w) cs"
  have "path_text cs \<noteq> ''''" by (simp add: path_text_def)
  then show ?thesis
    using canonicalNearest_self [OF c] abspath_rooted [of "''/''" cs "ow_cwd w"] canonical_clean [OF c]
    by (simp add: resolve_path_def path_text_rooted [symmetric])
qed

text \<open>Opening a canonical path for writing without following a link in its last name.\<close>

lemma canonical_directory:
  assumes "canonical fs (d @ [c])" and "follow fs [] [] d \<noteq> Inl FileNotFoundError"
  shows "real_path fs d"
proof -
  from assms(1) obtain q rest where q: "d @ [c] = q @ rest" "real_path fs q"
    "rest = [] \<or> follow fs [] q [hd rest] = Inl FileNotFoundError" by (auto simp: canonical_def)
  show ?thesis
  proof (cases rest rule: rev_cases)
    case Nil
    then have "real_path fs (d @ [c])" using q(1,2) by simp
    from real_butlast [OF this] show ?thesis by simp
  next
    case (snoc rs r)
    then have d: "d = q @ rs" using q(1) by simp
    have "rs = []"
    proof (rule ccontr)
      assume "rs \<noteq> []"
      with d snoc q(3) resolve_beyond [OF q(2), of "hd rs" "tl rs"] assms(2) show False by simp
    qed
    with d q(2) show ?thesis by simp
  qed
qed

lemma open_target_canonical:
  assumes "canonical fs cs" and "open_target fs True [] [] (split_on CHR ''/'' (path_text cs)) = Inr x"
  shows "x = cs"
proof -
  have clean: "clean_names cs" using canonical_clean [OF assms(1)] .
  have parts: "split_on CHR ''/'' (path_text cs) = '''' # (if cs = [] then [''''] else cs)" by (rule path_text_parts [OF clean])
  show ?thesis
  proof (cases cs rule: rev_cases)
    case Nil
    with assms(2) parts show ?thesis by (simp add: open_target.simps [of fs True "[]" "[]" "['''', '''']"])
  next
    case (snoc d c)
    have c: "clean_name c" using clean by (simp add: snoc)
    have o: "open_target fs True [] [] (d @ [c]) = Inr x"
      using assms(2) parts open_target_slash [of "d @ [c]" fs True "[]" "[]"] by (simp add: snoc)
    then have "follow fs [] [] d \<noteq> Inl FileNotFoundError"
      using c unfolding open_target.simps [of fs True "[]" "[]" "d @ [c]"] by (auto simp: clean_name_def)
    then have "real_path fs d" using canonical_directory assms(1) snoc by simp
    from open_target_real [OF this c, of True "[]"] o show ?thesis
      by (auto simp: snoc split: sum.splits os_error.splits node.splits)
  qed
qed

lemma open_canonical:
  assumes "canonical fs cs" and "write_open fs True (path_text cs) content mode = Inr fs'"
  shows "\<exists>m. fs' = tree_set fs cs (FileNode content m)"
proof -
  from assms(2) obtain x where "open_target fs True [] [] (split_on CHR ''/'' (path_text cs)) = Inr x"
    "\<exists>m. fs' = tree_set fs x (FileNode content m)"
    by (auto simp: write_open_def split: sum.splits option.splits node.splits)
  with open_target_canonical [OF assms(1)] show ?thesis by blast
qed

section \<open>Properties\<close>

text \<open>
  C17. The policy decides by whole names. A path resolves to a canonical path: real
  directories first and no link among them; it may be read exactly when it lies under a root,
  and written exactly when it lies under a writable root, in the order of names and not of
  letters, whatever dots, links and missing parts the path was given with. Resolving again
  changes nothing, and a file a tool writes there without following a link is exactly the
  node that was checked.
\<close>

theorem access_contained:
  assumes "policy_ok cx" and "resolve_path w cx p = Inr s"
  shows "\<exists>cs. s = path_text cs \<and> canonical (ow_tree w) cs \<and> resolve_path w cx s = Inr s
    \<and> can_read w cx p = (\<exists>r \<in> set (cx_roots cx). prefix (root_names r) cs)
    \<and> can_write w cx p = (\<exists>r \<in> set (cx_roots cx). rt_access r = ACCESS_READ_WRITE \<and> prefix (root_names r) cs)
    \<and> (case write_open (ow_tree w) True s content mode of Inl _ \<Rightarrow> True
       | Inr fs' \<Rightarrow> \<exists>m. fs' = tree_set (ow_tree w) cs (FileNode content m))"
proof -
  from resolve_path_canonical [OF assms] obtain cs where cs: "s = path_text cs" "canonical (ow_tree w) cs" by blast
  have roots: "\<forall>r \<in> set (cx_roots cx). \<exists>cs. text_of cs (rt_path r)" using assms(1) by (simp add: policy_ok_def)
  note a = canAccess_iff [OF roots canonical_clean [OF cs(2)], of w]
  have "\<exists>m. fs' = tree_set (ow_tree w) cs (FileNode content m)" if "write_open (ow_tree w) True s content mode = Inr fs'" for fs'
    by (rule open_canonical [OF cs(2)]) (use that cs(1) in simp)
  then show ?thesis using a cs resolve_path_self [OF cs(2)] assms(2)
    by (intro exI [of _ cs]) (auto simp: can_read_def can_write_def split: sum.split)
qed

definition sample_tree :: tree where
  "sample_tree = [([''w''], DirNode), ([''w'', ''a''], FileNode ''x'' 420), ([''w2''], DirNode),
     ([''w'', ''out''], LinkNode ''/w2''), ([''w'', ''gone''], LinkNode ''/w2/new'')]"

definition sample_os_world :: os_world where
  "sample_os_world = \<lparr>ow_cwd = ''/'', ow_tree = sample_tree\<rparr>"

definition sample_policy :: ctx_policy where
  "sample_policy = \<lparr>cx_primaryRoot = ''/w'', cx_cwd = ''/w'', cx_roots = [\<lparr>rt_path = ''/w'', rt_access = ACCESS_READ_WRITE\<rparr>]\<rparr>"

lemma sample_policy_ok: "policy_ok sample_policy"
  by (auto simp: policy_ok_def sample_policy_def text_of_def path_text_def clean_name_def intro!: exI [of _ "[''w'']"])

theorem access_contained_witness:
  "resolve_path sample_os_world sample_policy ''out/x'' = Inr ''/w2/x''
   \<and> \<not> can_write sample_os_world sample_policy ''out/x'' \<and> resolve_path sample_os_world sample_policy ''/w2/x'' = Inr ''/w2/x''"
proof -
  have r: "resolve_path sample_os_world sample_policy ''out/x'' = Inr ''/w2/x''" by code_simp
  have "\<not> can_write sample_os_world sample_policy ''out/x''" by code_simp
  with r access_contained [OF sample_policy_ok r, of "''''" 0] show ?thesis by blast
qed

end
