(* ===== verification/Workspace.thy ===== *)
theory Workspace
  imports WorkspaceContext Session
begin

text \<open>
  The switchable workspace of a session (\<open>workspace/workspace.py\<close>) over the file tree: the
  binding, attachments, exports, checkpoints, and the durable description a resume checks.
  Its operations are the port the session uses. The text codecs, base64 and the wording of an
  \<open>OSError\<close> are one argument.
\<close>

section \<open>The binding\<close>

record py_text =
  pt_decode :: "string \<Rightarrow> string"
  pt_encode :: "string \<Rightarrow> string"
  pt_base64 :: "string \<Rightarrow> string"
  pt_os_error :: "os_error \<Rightarrow> string"

record ws_binding =
  wk_world :: os_world
  wk_context :: "ctx_policy option"

definition ws_tree :: "ws_binding \<Rightarrow> tree" where
  "ws_tree wk = ow_tree (wk_world wk)"

definition with_tree :: "ws_binding \<Rightarrow> tree \<Rightarrow> ws_binding" where
  "with_tree wk fs = wk\<lparr>wk_world := (wk_world wk)\<lparr>ow_tree := fs\<rparr>\<rparr>"

definition get_primary_root :: "ws_binding \<Rightarrow> string" where
  "get_primary_root wk = (case wk_context wk of None \<Rightarrow> '''' | Some cx \<Rightarrow> cx_primaryRoot cx)"

definition get_cwd :: "ws_binding \<Rightarrow> string" where
  "get_cwd wk = (case wk_context wk of None \<Rightarrow> '''' | Some cx \<Rightarrow> cx_cwd cx)"

definition bound_resolve_path :: "ws_binding \<Rightarrow> string \<Rightarrow> (ws_error, string) result" where
  "bound_resolve_path wk p = (case wk_context wk of
       None \<Rightarrow> Inl (WorkspaceValueError ''workspace context is not configured'')
     | Some cx \<Rightarrow> resolve_path (wk_world wk) cx p)"

definition bound_can_read :: "ws_binding \<Rightarrow> string \<Rightarrow> bool" where
  "bound_can_read wk p = (case wk_context wk of None \<Rightarrow> False | Some cx \<Rightarrow> can_read (wk_world wk) cx p)"

definition bound_can_write :: "ws_binding \<Rightarrow> string \<Rightarrow> bool" where
  "bound_can_write wk p = (case wk_context wk of None \<Rightarrow> False | Some cx \<Rightarrow> can_write (wk_world wk) cx p)"

definition readable :: "ws_binding \<Rightarrow> string \<Rightarrow> (ws_error, string) result" where
  "readable wk p = bind_result (bound_resolve_path wk p) (\<lambda>s.
     if bound_can_read wk s then Inr s else Inl (WorkspaceValueError ''path is outside readable workspace roots''))"

definition writable :: "ws_binding \<Rightarrow> string \<Rightarrow> (ws_error, string) result" where
  "writable wk p = bind_result (bound_resolve_path wk p) (\<lambda>s.
     if bound_can_write wk s then Inr s else Inl (WorkspaceValueError ''path is outside writable workspace roots''))"

section \<open>Checkpoints\<close>

definition capture_file :: "py_text \<Rightarrow> tree \<Rightarrow> string \<Rightarrow> (ws_error, file_snapshot) result" where
  "capture_file pt fs p = (case stat_node fs p of
       Inl FileNotFoundError \<Rightarrow> Inr \<lparr>fs_path = p, fs_exists = False, fs_content = '''', fs_mode = 0\<rparr>
     | Inl e \<Rightarrow> Inl (WorkspaceOSError e)
     | Inr (FileNode content mode) \<Rightarrow> Inr \<lparr>fs_path = p, fs_exists = True, fs_content = pt_decode pt content, fs_mode = mode\<rparr>
     | Inr _ \<Rightarrow> Inl (WorkspaceOSError IsADirectoryError))"

fun capture_paths :: "py_text \<Rightarrow> ws_binding \<Rightarrow> string list \<Rightarrow> (ws_error, file_snapshot list) result" where
  "capture_paths pt wk [] = Inr []"
| "capture_paths pt wk (p # ps) = bind_result (writable wk p) (\<lambda>s. bind_result (capture_file pt (ws_tree wk) s) (\<lambda>f.
     bind_result (capture_paths pt wk ps) (\<lambda>rest. Inr (f # rest))))"

text \<open>One file put back; what was done before an error stays done.\<close>

definition restore_file :: "py_text \<Rightarrow> ws_binding \<Rightarrow> file_snapshot \<Rightarrow> ws_binding \<times> (ws_error, unit) result" where
  "restore_file pt wk f = (case writable wk (fs_path f) of
       Inl e \<Rightarrow> (wk, Inl e)
     | Inr p \<Rightarrow>
         if \<not> fs_exists f
         then (case remove_file (ws_tree wk) p of
                 Inl FileNotFoundError \<Rightarrow> (wk, Inr ())
               | Inl e \<Rightarrow> (wk, Inl (WorkspaceOSError e))
               | Inr fs \<Rightarrow> (with_tree wk fs, Inr ()))
         else (case makedirs (ws_tree wk) (path_parts (dirname p)) of
                 (fs1, Inl e) \<Rightarrow> (with_tree wk fs1, Inl (WorkspaceOSError e))
               | (fs1, Inr _) \<Rightarrow>
                   (case write_open fs1 False p (pt_encode pt (fs_content f)) (if fs_mode f \<noteq> 0 then fs_mode f else 420) of
                      Inl e \<Rightarrow> (with_tree wk fs1, Inl (WorkspaceOSError e))
                    | Inr fs2 \<Rightarrow> (with_tree wk fs2, Inr ()))))"

fun restore_files :: "py_text \<Rightarrow> ws_binding \<Rightarrow> file_snapshot list \<Rightarrow> ws_binding \<times> (ws_error, unit) result" where
  "restore_files pt wk [] = (wk, Inr ())"
| "restore_files pt wk (f # files) = (case restore_file pt wk f of
       (wk1, Inl e) \<Rightarrow> (wk1, Inl e) | (wk1, Inr _) \<Rightarrow> restore_files pt wk1 files)"

section \<open>Attachments and exports\<close>

definition bytes_of :: "nat list \<Rightarrow> string" where
  "bytes_of ns = map char_of ns"

definition is_binary_byte :: "char \<Rightarrow> bool" where
  "is_binary_byte c = (let n = (of_char c :: nat) in n < 32 \<and> n \<notin> {9, 10, 12, 13, 27})"

definition isBinary :: "string \<Rightarrow> bool" where
  "isBinary content = list_ex is_binary_byte content"

definition detectContentType :: "string \<Rightarrow> string" where
  "detectContentType content =
     (let head = take 512 content
      in if startswith head (bytes_of [137, 80, 78, 71, 13, 10, 26, 10]) then ''image/png''
         else if startswith head (bytes_of [255, 216, 255]) then ''image/jpeg''
         else if startswith head ''GIF87a'' \<or> startswith head ''GIF89a'' then ''image/gif''
         else if startswith head ''%PDF-'' then ''application/pdf''
         else if startswith head (bytes_of [80, 75, 3, 4]) then ''application/zip''
         else if startswith head (bytes_of [31, 139, 8]) then ''application/x-gzip''
         else if startswith head ''BM'' then ''image/bmp''
         else if length head \<ge> 12 \<and> take 4 head = ''RIFF'' \<and> take 4 (drop 8 head) = ''WEBP'' then ''image/webp''
         else if isBinary head then ''application/octet-stream''
         else ''text/plain; charset=utf-8'')"

definition read_attachment :: "py_text \<Rightarrow> ws_binding \<Rightarrow> string \<Rightarrow> (ws_error, attachment) result" where
  "read_attachment pt wk path = bind_result (readable wk path) (\<lambda>p.
     bind_result (capture_file pt (ws_tree wk) p) (\<lambda>_.
       case stat_node (ws_tree wk) p of
         Inl e \<Rightarrow> Inl (WorkspaceOSError e)
       | Inr (FileNode content mode) \<Rightarrow>
           if length content > 10485760 then Inl (WorkspaceValueError ''attachment exceeds 10 MiB'')
           else Inr \<lparr>at_name = path_basename p, at_mime = detectContentType content, at_data = pt_base64 pt content\<rparr>
       | Inr _ \<Rightarrow> Inl (WorkspaceOSError IsADirectoryError)))"

text \<open>\<open>os.replace\<close> of a file written beside it: the name itself is replaced, link or not.\<close>

definition replace_file :: "tree \<Rightarrow> string \<Rightarrow> string \<Rightarrow> int \<Rightarrow> (os_error, tree) result" where
  "replace_file fs p content mode =
     (let cs = path_parts p in case follow fs [] [] (butlast cs) of
        Inl e \<Rightarrow> Inl e
      | Inr d \<Rightarrow> (case lstat_child fs d (last cs) of
            Inr DirNode \<Rightarrow> Inl IsADirectoryError
          | Inl NotADirectoryError \<Rightarrow> Inl NotADirectoryError
          | _ \<Rightarrow> Inr (tree_set fs (d @ [last cs]) (FileNode content mode))))"

definition write_export :: "ws_binding \<Rightarrow> string \<Rightarrow> string \<Rightarrow> ws_binding \<times> (ws_error, string) result" where
  "write_export wk relative content = (case writable wk relative of
       Inl e \<Rightarrow> (wk, Inl e)
     | Inr p \<Rightarrow> (case makedirs (ws_tree wk) (path_parts (dirname p)) of
           (fs1, Inl e) \<Rightarrow> (with_tree wk fs1, Inl (WorkspaceOSError e))
         | (fs1, Inr _) \<Rightarrow> (case replace_file fs1 p content 384 of
               Inl e \<Rightarrow> (with_tree wk fs1, Inl (WorkspaceOSError e))
             | Inr fs2 \<Rightarrow> (with_tree wk fs2, Inr p))))"

section \<open>The durable description\<close>

definition toSessionAccess :: "string \<Rightarrow> string" where
  "toSessionAccess a = (if a = ACCESS_READ_WRITE then WORKSPACE_ACCESS_READ_WRITE else WORKSPACE_ACCESS_READ)"

definition fromSessionAccess :: "string \<Rightarrow> (ws_error, string) result" where
  "fromSessionAccess a =
     (if a = WORKSPACE_ACCESS_READ then Inr ACCESS_READ
      else if a = WORKSPACE_ACCESS_READ_WRITE then Inr ACCESS_READ_WRITE
      else Inl (WorkspaceValueError ''invalid saved workspace access mode''))"

definition specFromContext :: "ctx_policy \<Rightarrow> workspace_spec" where
  "specFromContext cx = \<lparr>ws_primary_root = cx_primaryRoot cx, ws_cwd = cx_cwd cx,
     ws_roots = map (\<lambda>r. \<lparr>rs_path = rt_path r, rs_access = toSessionAccess (rt_access r)\<rparr>) (cx_roots cx)\<rparr>"

fun context_roots :: "root_spec list \<Rightarrow> (ws_error, ctx_root list) result" where
  "context_roots [] = Inr []"
| "context_roots (r # rs) =
     (if \<not> isabs (rs_path r) then Inl (WorkspaceValueError ''workspace spec root is not absolute'')
      else bind_result (fromSessionAccess (rs_access r)) (\<lambda>a.
        bind_result (context_roots rs) (\<lambda>rest. Inr (\<lparr>rt_path = rs_path r, rt_access = a\<rparr> # rest))))"

definition buildContext :: "os_world \<Rightarrow> workspace_spec \<Rightarrow> (ws_error, ctx_policy) result" where
  "buildContext w spec =
     (if \<not> isabs (ws_primary_root spec) \<or> \<not> isabs (ws_cwd spec) \<or> ws_roots spec = []
      then Inl (WorkspaceValueError ''workspace spec requires absolute primary root, cwd, and roots'')
      else bind_result (context_roots (ws_roots spec)) (\<lambda>roots.
        new_access_context w (ws_primary_root spec) (ws_cwd spec) roots))"

definition samePath :: "os_world \<Rightarrow> string \<Rightarrow> string \<Rightarrow> bool" where
  "samePath w saved resolved = (relpath (ow_cwd w) (normpath resolved) (normpath saved) = Inr ''.'')"

definition contextFromSpec :: "os_world \<Rightarrow> workspace_spec \<Rightarrow> (ws_error, ctx_policy) result" where
  "contextFromSpec w spec = bind_result (buildContext w spec) (\<lambda>cx.
     if \<not> samePath w (ws_primary_root spec) (cx_primaryRoot cx) \<or> \<not> samePath w (ws_cwd spec) (cx_cwd cx)
     then Inl (WorkspaceValueError ''saved workspace primary root or cwd resolves to a different path'')
     else if list_ex (\<lambda>(r, n). \<not> samePath w (rs_path r) (rt_path n)) (zip (ws_roots spec) (cx_roots cx))
     then Inl (WorkspaceValueError ''saved workspace root resolves to a different path'')
     else Inr cx)"

definition bound_spec :: "ws_binding \<Rightarrow> workspace_spec" where
  "bound_spec wk = (case wk_context wk of
       None \<Rightarrow> \<lparr>ws_primary_root = '''', ws_cwd = '''', ws_roots = []\<rparr> | Some cx \<Rightarrow> specFromContext cx)"

definition bound_validate :: "ws_binding \<Rightarrow> workspace_spec \<Rightarrow> (ws_error, unit) result" where
  "bound_validate wk spec = bind_result (contextFromSpec (wk_world wk) spec) (\<lambda>_. Inr ())"

definition bound_canonicalize :: "ws_binding \<Rightarrow> workspace_spec \<Rightarrow> (ws_error, workspace_spec) result" where
  "bound_canonicalize wk spec = bind_result (buildContext (wk_world wk) spec) (\<lambda>cx. Inr (specFromContext cx))"

definition bound_activate :: "ws_binding \<Rightarrow> workspace_spec \<Rightarrow> (ws_error, ws_binding) result" where
  "bound_activate wk spec = bind_result (contextFromSpec (wk_world wk) spec) (\<lambda>cx. Inr (wk\<lparr>wk_context := Some cx\<rparr>))"

section \<open>The session's port\<close>

fun ws_error_text :: "py_text \<Rightarrow> ws_error \<Rightarrow> string" where
  "ws_error_text pt (WorkspaceOSError e) = pt_os_error pt e"
| "ws_error_text pt (WorkspaceValueError t) = t"
| "ws_error_text pt (WorkspaceDirError t) = t"

definition told :: "py_text \<Rightarrow> (ws_error, 'a) result \<Rightarrow> (string, 'a) result" where
  "told pt r = (case r of Inl e \<Rightarrow> Inl (ws_error_text pt e) | Inr x \<Rightarrow> Inr x)"

definition workspace_of :: "py_text \<Rightarrow> ws_binding workspace_port" where
  "workspace_of pt = \<lparr>wp_spec = bound_spec, wp_validate = \<lambda>wk spec. told pt (bound_validate wk spec),
     wp_canonicalize = \<lambda>wk spec. told pt (bound_canonicalize wk spec),
     wp_activate = \<lambda>wk spec. told pt (bound_activate wk spec), wp_capture = \<lambda>wk ps. told pt (capture_paths pt wk ps),
     wp_restore = \<lambda>wk files. (case restore_files pt wk files of (wk', out) \<Rightarrow> (wk', told pt out)),
     wp_attachment = \<lambda>wk p. told pt (read_attachment pt wk p)\<rparr>"

section \<open>Nodes after a change\<close>

lemma node_at_set: "node_at (tree_set fs p n) q = (if q = p \<and> p \<noteq> [] then Some n else node_at fs q)"
  by (simp add: node_at_def tree_set_def dict_set_map)

lemma map_of_remove: "map_of (filter (\<lambda>(q, n). q \<noteq> p) fs) q = (if q = p then None else map_of fs q)"
  by (induction fs) auto

lemma node_at_remove: "node_at (tree_remove fs p) q = (if q = p \<and> p \<noteq> [] then None else node_at fs q)"
  by (simp add: node_at_def tree_remove_def map_of_remove)

lemma with_tree_simps [simp]:
  "ws_tree (with_tree wk fs) = fs" "wk_context (with_tree wk fs) = wk_context wk" "with_tree (with_tree wk fs) fs' = with_tree wk fs'"
  "with_tree wk (ws_tree wk) = wk" "ow_tree (wk_world wk) = ws_tree wk"
  by (simp_all add: with_tree_def ws_tree_def)

text \<open>A place where a file is or can be: below real directories, and no directory or link itself.\<close>

definition plain_at :: "tree \<Rightarrow> string list \<Rightarrow> bool" where
  "plain_at fs cs \<longleftrightarrow> cs \<noteq> [] \<and> clean_names cs \<and> (\<forall>k < length cs. node_at fs (take k cs) = Some DirNode)
     \<and> (case node_at fs cs of None \<Rightarrow> True | Some (FileNode _ _) \<Rightarrow> True | _ \<Rightarrow> False)"

lemma plain_parts:
  assumes "plain_at fs (d @ [c])"
  shows "real_path fs d" and "clean_name c" and "node_at fs d = Some DirNode"
    and "lstat_child fs d c = (case node_at fs (d @ [c]) of None \<Rightarrow> Inl FileNotFoundError | Some n \<Rightarrow> Inr n)"
proof -
  have k: "node_at fs (take k d) = Some DirNode" if "k \<le> length d" for k
    using assms that by (auto simp: plain_at_def dest: spec [of _ k])
  from k [of "length d"] show d: "node_at fs d = Some DirNode" by simp
  then show "real_path fs d" "clean_name c" using assms k by (simp_all add: real_path_def plain_at_def)
  from d show "lstat_child fs d c = (case node_at fs (d @ [c]) of None \<Rightarrow> Inl FileNotFoundError | Some n \<Rightarrow> Inr n)"
    by (simp add: lstat_child_def)
qed

lemma plain_canonical:
  assumes "plain_at fs cs" shows "canonical fs cs"
proof (cases cs rule: rev_cases)
  case (snoc d c)
  note p = plain_parts [OF assms [unfolded snoc]]
  show ?thesis
  proof (cases "node_at fs cs")
    case None
    then have "follow fs [] d [c] = Inl FileNotFoundError"
      using p(2,4) by (simp add: snoc clean_name_def)
    then show ?thesis using p(1,2) unfolding snoc canonical_def
      by (intro exI [of _ d] exI [of _ "[c]"]) simp
  next
    case (Some n)
    then have "real_path fs cs" using assms by (auto simp: plain_at_def real_path_def split: node.splits)
    then show ?thesis unfolding canonical_def by (intro exI [of _ cs] exI [of _ "[]"]) simp
  qed
qed (use assms in \<open>simp add: plain_at_def\<close>)

lemma plain_target:
  assumes "plain_at fs cs"
  shows "open_target fs nofollow [] [] (split_on CHR ''/'' (path_text cs)) = Inr cs"
proof (cases cs rule: rev_cases)
  case (snoc d c)
  note p = plain_parts [OF assms [unfolded snoc]]
  have "clean_names cs" using assms by (simp add: plain_at_def)
  then have "split_on CHR ''/'' (path_text cs) = '''' # d @ [c]" by (simp add: path_text_parts snoc)
  then show ?thesis
    using open_target_slash [of "d @ [c]" fs nofollow "[]" "[]"] open_target_real [OF p(1,2), of nofollow "[]"] p(4) assms
    by (auto simp: snoc plain_at_def split: option.splits node.splits)
qed (use assms in \<open>simp add: plain_at_def\<close>)

lemma plain_remove:
  assumes "plain_at fs cs"
  shows "remove_file fs (path_text cs) = (case node_at fs cs of None \<Rightarrow> Inl FileNotFoundError | Some _ \<Rightarrow> Inr (tree_remove fs cs))"
proof (cases cs rule: rev_cases)
  case (snoc d c)
  note p = plain_parts [OF assms [unfolded snoc]]
  have "clean_names cs" using assms by (simp add: plain_at_def)
  then have "split_on CHR ''/'' (path_text cs) = '''' # d @ [c]" by (simp add: path_text_parts snoc)
  then show ?thesis using resolve_self [of fs "[]" d "[]"] p(1,4) assms
    by (auto simp: remove_file_def snoc Let_def butlast_append plain_at_def split: option.splits node.splits)
qed (use assms in \<open>simp add: plain_at_def\<close>)

text \<open>Directories that are there are left as they are.\<close>

lemma makedirs_real:
  assumes "real_path fs d" and "node_at fs d = Some DirNode"
  shows "makedirs fs d = (fs, Inr ())"
proof -
  have dir: "is_dir_at fs d" using resolve_self [of fs "[]" d "[]"] assms by (simp add: is_dir_at_def)
  have "mkdir fs d = Inl FileExistsError"
  proof (cases d rule: rev_cases)
    case (snoc d' c)
    from real_butlast [OF assms(1)] have r: "real_path fs d'" by (simp add: snoc)
    from lstat_real [of fs d' c "[]"] assms(1) obtain n where "lstat_child fs d' c = Inr n" by (auto simp: snoc)
    with r resolve_self [of fs "[]" d' "[]"] show ?thesis by (simp add: mkdir_def snoc)
  qed (simp add: mkdir_def)
  moreover have "is_ok (follow fs [] [] (butlast d))"
    using resolve_self [of fs "[]" "butlast d" "[]"] real_butlast [OF assms(1)] by simp
  ultimately show ?thesis using dir by (simp add: makedirs.simps [of fs d] mkdir_ok_def)
qed

section \<open>Putting files back\<close>

definition write_root :: "ctx_policy \<Rightarrow> string list \<Rightarrow> bool" where
  "write_root cx cs \<longleftrightarrow> (\<exists>r \<in> set (cx_roots cx). rt_access r = ACCESS_READ_WRITE \<and> prefix (root_names r) cs)"

lemma writable_iff:
  assumes "wk_context wk = Some cx" and "policy_ok cx"
  shows "writable wk p = Inr s \<Longrightarrow> \<exists>cs. s = path_text cs \<and> canonical (ws_tree wk) cs \<and> write_root cx cs"
    and "canonical (ws_tree wk) cs \<Longrightarrow> write_root cx cs \<Longrightarrow> writable wk (path_text cs) = Inr (path_text cs)"
proof -
  have roots: "\<forall>r \<in> set (cx_roots cx). \<exists>cs. text_of cs (rt_path r)" using assms(2) by (simp add: policy_ok_def)
  have w: "can_write (wk_world wk) cx (path_text cs) = write_root cx cs" if "canonical (ws_tree wk) cs" for cs
    using resolve_path_self [of "wk_world wk" cs cx] canAccess_iff [OF roots canonical_clean, OF that, of "wk_world wk" True] that
    by (simp add: can_write_def write_root_def)
  show "\<exists>cs. s = path_text cs \<and> canonical (ws_tree wk) cs \<and> write_root cx cs" if "writable wk p = Inr s"
  proof -
    from that assms(1) have "resolve_path (wk_world wk) cx p = Inr s" "can_write (wk_world wk) cx s"
      by (auto simp: writable_def bound_resolve_path_def bound_can_write_def bind_result_Inr_iff split: if_splits)
    with resolve_path_canonical [OF assms(2)] w show ?thesis by (metis with_tree_simps(5))
  qed
  show "writable wk (path_text cs) = Inr (path_text cs)" if "canonical (ws_tree wk) cs" "write_root cx cs"
    using that w [OF that(1)] resolve_path_self [of "wk_world wk" cs cx] assms(1)
    by (simp add: writable_def bound_resolve_path_def bound_can_write_def)
qed

definition put_back :: "py_text \<Rightarrow> file_snapshot \<Rightarrow> node option \<Rightarrow> bool" where
  "put_back pt f n = (if fs_exists f then \<exists>m. n = Some (FileNode (pt_encode pt (fs_content f)) m) else n = None)"

lemma restore_plain:
  assumes "wk_context wk = Some cx" and "policy_ok cx" and "plain_at (ws_tree wk) cs" and "write_root cx cs"
    and "fs_path f = path_text cs"
  shows "\<exists>fs'. restore_file pt wk f = (with_tree wk fs', Inr ()) \<and> (\<forall>q. q \<noteq> cs \<longrightarrow> node_at fs' q = node_at (ws_tree wk) q)
    \<and> put_back pt f (node_at fs' cs)"
proof -
  let ?fs = "ws_tree wk"
  have cs: "cs \<noteq> []" "clean_names cs" using assms(3) by (simp_all add: plain_at_def)
  have w: "writable wk (fs_path f) = Inr (path_text cs)"
    using writable_iff(2) [OF assms(1,2) plain_canonical [OF assms(3)] assms(4)] assms(5) by simp
  show ?thesis
  proof (cases "fs_exists f")
    case False
    show ?thesis
    proof (cases "node_at ?fs cs")
      case None
      with False show ?thesis
        by (intro exI [of _ ?fs]) (simp add: restore_file_def w plain_remove [OF assms(3)] put_back_def)
    next
      case (Some n)
      with False show ?thesis
        by (intro exI [of _ "tree_remove ?fs cs"])
          (simp add: restore_file_def w plain_remove [OF assms(3)] put_back_def cs node_at_remove)
    qed
  next
    case True
    obtain d c where dc: "cs = d @ [c]" using cs(1) by (metis append_butlast_last_id)
    note p = plain_parts [OF assms(3) [unfolded dc]]
    have "dirname (path_text cs) = path_text d"
      using basename_rooted(2) [OF slash_root, of d c] cs(2) by (simp add: dc path_text_rooted)
    then have m: "makedirs ?fs (path_parts (dirname (path_text cs))) = (?fs, Inr ())"
      using makedirs_real [OF p(1,3)] path_parts_text [of d] cs(2) by (simp add: dc)
    let ?mode = "if fs_mode f \<noteq> 0 then fs_mode f else 420" and ?content = "pt_encode pt (fs_content f)"
    from assms(3) consider "node_at ?fs cs = None" | t m where "node_at ?fs cs = Some (FileNode t m)"
      by (auto simp: plain_at_def split: option.splits node.splits)
    then have "\<exists>m. write_open ?fs False (path_text cs) ?content ?mode = Inr (tree_set ?fs cs (FileNode ?content m))"
      by cases (auto simp: write_open_def plain_target [OF assms(3)])
    then obtain mode where "write_open ?fs False (path_text cs) ?content ?mode = Inr (tree_set ?fs cs (FileNode ?content mode))" ..
    with True m show ?thesis
      by (intro exI [of _ "tree_set ?fs cs (FileNode ?content mode)"])
        (simp add: restore_file_def w put_back_def cs node_at_set)
  qed
qed

lemma plain_kept:
  assumes "plain_at fs cs" and "plain_at fs ds" and "\<And>q. q \<noteq> cs \<Longrightarrow> node_at fs' q = node_at fs q" and "put_back pt f (node_at fs' cs)"
  shows "plain_at fs' ds"
proof -
  have "node_at fs' (take k ds) = Some DirNode" if "k < length ds" for k
  proof -
    from that assms(2) have d: "node_at fs (take k ds) = Some DirNode" by (simp add: plain_at_def)
    then have "take k ds \<noteq> cs" using assms(1) by (auto simp: plain_at_def)
    with d assms(3) show ?thesis by simp
  qed
  moreover have "case node_at fs' ds of None \<Rightarrow> True | Some (FileNode _ _) \<Rightarrow> True | _ \<Rightarrow> False"
    using assms(2,4) assms(3) [of ds] by (cases "ds = cs") (auto simp: plain_at_def put_back_def split: if_splits)
  ultimately show ?thesis using assms(2) by (simp add: plain_at_def)
qed

text \<open>What a checkpoint holds: writable canonical paths, each with the snapshot of the tree at the time.\<close>

definition snapshot_of :: "py_text \<Rightarrow> tree \<Rightarrow> ctx_policy \<Rightarrow> file_snapshot \<Rightarrow> bool" where
  "snapshot_of pt fs cx f \<longleftrightarrow> (\<exists>cs. fs_path f = path_text cs \<and> clean_names cs \<and> write_root cx cs) \<and> capture_file pt fs (fs_path f) = Inr f"

lemma capture_paths_snapshots:
  assumes "wk_context wk = Some cx" and "policy_ok cx"
  shows "capture_paths pt wk ps = Inr files \<Longrightarrow> list_all (snapshot_of pt (ws_tree wk) cx) files"
proof (induction ps arbitrary: files)
  case (Cons p ps)
  then obtain s f rest where s: "writable wk p = Inr s" and f: "capture_file pt (ws_tree wk) s = Inr f"
    and rest: "capture_paths pt wk ps = Inr rest" and files: "files = f # rest"
    by (auto simp: bind_result_Inr_iff)
  from writable_iff(1) [OF assms s] obtain cs where cs: "s = path_text cs" "canonical (ws_tree wk) cs" "write_root cx cs" by blast
  from f have "fs_path f = s"
    by (auto simp: capture_file_def split: sum.splits node.splits os_error.splits)
  with cs f canonical_clean [OF cs(2)] have "snapshot_of pt (ws_tree wk) cx f" unfolding snapshot_of_def by auto
  with Cons.IH [OF rest] files show ?case by simp
qed simp

lemma snapshot_of_path:
  "snapshot_of pt fs cx f \<Longrightarrow> snapshot_of pt fs cx g \<Longrightarrow> fs_path f = fs_path g \<Longrightarrow> f = g"
  by (auto simp: snapshot_of_def)

abbreviation place :: "file_snapshot \<Rightarrow> string list" where
  "place f \<equiv> path_parts (fs_path f)"

lemma place_text:
  assumes "snapshot_of pt fs cx f"
  shows "fs_path f = path_text (place f) \<and> write_root cx (place f)"
proof -
  from assms obtain cs where "fs_path f = path_text cs" "clean_names cs" "write_root cx cs" by (auto simp: snapshot_of_def)
  then show ?thesis by (simp add: path_parts_text)
qed

lemma restore_snapshots:
  assumes "wk_context wk = Some cx" and "policy_ok cx"
  shows "list_all (snapshot_of pt fs0 cx) files \<Longrightarrow> \<forall>f \<in> set files. plain_at fs (place f) \<Longrightarrow>
    \<exists>fs'. restore_files pt (with_tree wk fs) files = (with_tree wk fs', Inr ())
      \<and> (\<forall>f \<in> set files. put_back pt f (node_at fs' (place f)))
      \<and> (\<forall>q. q \<notin> place ` set files \<longrightarrow> node_at fs' q = node_at fs q)"
proof (induction files arbitrary: fs)
  case Nil
  show ?case by (intro exI [of _ fs]) simp
next
  case (Cons f files)
  let ?wk = "with_tree wk fs"
  have f: "fs_path f = path_text (place f)" "write_root cx (place f)" using place_text Cons.prems(1) by auto
  have ctx: "wk_context ?wk = Some cx" "plain_at (ws_tree ?wk) (place f)" using assms Cons.prems(2) by auto
  from restore_plain [OF ctx(1) assms(2) ctx(2) f(2,1), of pt] obtain fs2
    where one: "restore_file pt ?wk f = (with_tree wk fs2, Inr ())"
      and same: "\<And>q. q \<noteq> place f \<Longrightarrow> node_at fs2 q = node_at fs q" and put: "put_back pt f (node_at fs2 (place f))" by auto
  have "\<forall>g \<in> set files. plain_at fs2 (place g)"
    using plain_kept [OF _ _ same put] Cons.prems(2) by simp
  with Cons.IH [of fs2] Cons.prems(1) obtain fs' where rest: "restore_files pt (with_tree wk fs2) files = (with_tree wk fs', Inr ())"
    and puts: "\<forall>g \<in> set files. put_back pt g (node_at fs' (place g))"
    and same': "\<forall>q. q \<notin> place ` set files \<longrightarrow> node_at fs' q = node_at fs2 q" by auto
  have "put_back pt f (node_at fs' (place f))"
  proof (cases "place f \<in> place ` set files")
    case True
    then obtain g where g: "g \<in> set files" "place g = place f" by auto
    with Cons.prems(1) place_text [of pt fs0 cx g] f(1) have "fs_path g = fs_path f" by (auto simp: list_all_iff)
    with g Cons.prems(1) have "g = f" by (auto simp: list_all_iff intro: snapshot_of_path)
    with g puts show ?thesis by simp
  next
    case False
    with same' put show ?thesis by simp
  qed
  with one rest puts same same' show ?case by (intro exI [of _ fs']) simp
qed

definition as_captured :: "py_text \<Rightarrow> (os_error, node) result \<Rightarrow> node option \<Rightarrow> bool" where
  "as_captured pt r n = (case r of
       Inl _ \<Rightarrow> n = None
     | Inr (FileNode content mode) \<Rightarrow> (case n of Some (FileNode t _) \<Rightarrow> t = pt_encode pt (pt_decode pt content) | _ \<Rightarrow> False)
     | Inr _ \<Rightarrow> False)"

lemma put_back_captured:
  "capture_file pt fs p = Inr f \<Longrightarrow> put_back pt f n \<Longrightarrow> as_captured pt (stat_node fs p) n"
  by (auto simp: capture_file_def put_back_def as_captured_def split: sum.splits node.splits os_error.splits)


section \<open>The durable description of a context\<close>

definition is_directory_text :: "tree \<Rightarrow> string \<Rightarrow> bool" where
  "is_directory_text fs p \<longleftrightarrow> (\<exists>cs. text_of cs p \<and> real_path fs cs \<and> node_at fs cs = Some DirNode)"

lemma is_directory_text_isabs: "is_directory_text fs p \<Longrightarrow> isabs p"
  by (auto simp: is_directory_text_def text_of_def path_text_def isabs_def startswith_def)

lemma canonicalDirectory_self:
  assumes "is_directory_text (ws_tree wk) p" shows "canonicalDirectory (wk_world wk) p = Inr p"
proof -
  from assms obtain cs where cs: "p = path_text cs" "clean_names cs" "real_path (ws_tree wk) cs" "node_at (ws_tree wk) cs = Some DirNode"
    by (auto simp: is_directory_text_def text_of_def)
  have f: "follow (ws_tree wk) [] [] cs = Inr cs" using resolve_self [of "ws_tree wk" "[]" cs "[]"] cs(3) by simp
  have "abspath (ow_cwd (wk_world wk)) p = p" "normpath p = p"
    using abspath_rooted [of "''/''" cs] normpath_rooted [of "''/''" cs] cs(1,2) by (simp_all add: path_text_rooted)
  moreover have "realpath (ws_tree wk) p = Inr p" "isdir (ws_tree wk) p"
    using realpath_rooted [of "''/''" cs "ws_tree wk"] f cs resolve_path_text [OF cs(2)]
    by (simp_all add: path_text_rooted [symmetric] isdir_def stat_node_def)
  ultimately show ?thesis by (simp add: canonicalDirectory_def os_result_def)
qed

lemma samePath_self: "is_directory_text fs p \<Longrightarrow> samePath w p p"
proof -
  have "length (common_prefix cs cs) = length cs" for cs :: "string list" by (simp add: common_prefix_all)
  then show "is_directory_text fs p \<Longrightarrow> samePath w p p"
    using normpath_rooted [of "''/''"] relpath_text
    by (auto simp: samePath_def is_directory_text_def text_of_def path_text_rooted [symmetric])
qed

definition saved_roots :: "ctx_root list \<Rightarrow> root_spec list" where
  "saved_roots ns = map (\<lambda>r. \<lparr>rs_path = rt_path r, rs_access = toSessionAccess (rt_access r)\<rparr>) ns"

abbreviation known_root :: "tree \<Rightarrow> ctx_root \<Rightarrow> bool" where
  "known_root fs r \<equiv> is_directory_text fs (rt_path r) \<and> rt_access r \<in> {ACCESS_READ, ACCESS_READ_WRITE}"

lemma access_roundtrip: "a \<in> {ACCESS_READ, ACCESS_READ_WRITE} \<Longrightarrow> fromSessionAccess (toSessionAccess a) = Inr a"
  by (auto simp: fromSessionAccess_def toSessionAccess_def ACCESS_READ_def ACCESS_READ_WRITE_def
    WORKSPACE_ACCESS_READ_def WORKSPACE_ACCESS_READ_WRITE_def)

lemma saved_roots_again:
  "\<forall>r \<in> set ns. known_root (ws_tree wk) r \<Longrightarrow>
     context_roots (saved_roots ns) = Inr ns \<and> normalized_roots (wk_world wk) ns = Inr ns
     \<and> \<not> list_ex (\<lambda>(r, n). \<not> samePath (wk_world wk) (rs_path r) (rt_path n)) (zip (saved_roots ns) ns)"
proof (induction ns)
  case (Cons n ns)
  then show ?case
    using canonicalDirectory_self [of wk "rt_path n"] samePath_self [of "ws_tree wk" "rt_path n"]
      is_directory_text_isabs [of "ws_tree wk" "rt_path n"] access_roundtrip [of "rt_access n"]
    by (auto simp: saved_roots_def)
qed (simp add: saved_roots_def)

text \<open>A context that was built once is built again from its description, and passes the identity check.\<close>

lemma context_again:
  fixes wk :: ws_binding
  assumes "new_access_context (wk_world wk) primary cwd roots = Inr cx"
  shows "buildContext (wk_world wk) (specFromContext cx) = Inr cx" and "contextFromSpec (wk_world wk) (specFromContext cx) = Inr cx"
proof -
  note ok = new_access_context_ok [OF assms]
  have dir: "is_directory_text (ws_tree wk) (cx_primaryRoot cx)" "is_directory_text (ws_tree wk) (cx_cwd cx)"
    using canonicalDirectory_real [OF ok(4)] canonicalDirectory_real [OF ok(5)] by (simp_all add: is_directory_text_def)
  then have ne: "cx_primaryRoot cx \<noteq> ''''" "cx_cwd cx \<noteq> ''''" by (auto simp: is_directory_text_def text_of_def path_text_def)
  have roots: "\<forall>r \<in> set (cx_roots cx). known_root (ws_tree wk) r"
    using normalized_roots_ok [OF ok(6)] by (simp add: is_directory_text_def)
  note again = saved_roots_again [OF roots, unfolded saved_roots_def]
  have same: "\<lparr>cx_primaryRoot = cx_primaryRoot cx, cx_cwd = cx_cwd cx, cx_roots = cx_roots cx\<rparr> = cx" by simp
  show b: "buildContext (wk_world wk) (specFromContext cx) = Inr cx"
    using dir again ok(2,3,7) ne canonicalDirectory_self

    by (simp add: buildContext_def specFromContext_def is_directory_text_isabs new_access_context_def Let_def same)
  show "contextFromSpec (wk_world wk) (specFromContext cx) = Inr cx"
    using b again dir samePath_self by (simp add: contextFromSpec_def) (simp add: specFromContext_def)
qed

text \<open>
  What \<open>canonicalize\<close> returns is accepted: \<open>validate\<close> and \<open>activate\<close> take it on the same file
  system, the activated binding describes itself by exactly that, canonicalizing it again changes
  nothing, and every path the activated policy resolves is one the policy stands by.
\<close>
theorem canonicalized_spec_accepted:
  assumes "bound_canonicalize wk spec = Inr saved"
  shows "bound_validate wk saved = Inr () \<and> bound_canonicalize wk saved = Inr saved
    \<and> (\<exists>cx. bound_activate wk saved = Inr (wk\<lparr>wk_context := Some cx\<rparr>) \<and> policy_ok cx
        \<and> bound_spec (wk\<lparr>wk_context := Some cx\<rparr>) = saved)"
proof -
  from assms obtain cx where b: "buildContext (wk_world wk) spec = Inr cx" and saved: "saved = specFromContext cx"
    by (auto simp: bound_canonicalize_def bind_result_Inr_iff)
  from b obtain roots where n: "new_access_context (wk_world wk) (ws_primary_root spec) (ws_cwd spec) roots = Inr cx"
    by (auto simp: buildContext_def bind_result_Inr_iff split: if_splits)
  show ?thesis using context_again [OF n] new_access_context_ok(1) [OF n]
    by (auto simp: saved bound_validate_def bound_canonicalize_def bound_activate_def bound_spec_def)
qed

section \<open>Examples\<close>

definition plain_text :: py_text where
  "plain_text = \<lparr>pt_decode = \<lambda>s. s, pt_encode = \<lambda>s. s, pt_base64 = \<lambda>s. s, pt_os_error = \<lambda>e. ''''\<rparr>"

definition sample_binding :: ws_binding where
  "sample_binding = \<lparr>wk_world = sample_os_world, wk_context = Some sample_policy\<rparr>"

definition sample_spec :: workspace_spec where
  "sample_spec = \<lparr>ws_primary_root = ''/w/../w'', ws_cwd = ''/w/'', ws_roots = [\<lparr>rs_path = ''/w/.'', rs_access = WORKSPACE_ACCESS_READ_WRITE\<rparr>]\<rparr>"

theorem canonicalized_spec_accepted_witness:
  "bound_canonicalize sample_binding sample_spec = Inr (bound_spec sample_binding)
   \<and> bound_validate sample_binding (bound_spec sample_binding) = Inr ()"
proof -
  have "bound_canonicalize sample_binding sample_spec = Inr (bound_spec sample_binding)" by code_simp
  with canonicalized_spec_accepted [OF this] show ?thesis by blast
qed

definition later_tree :: tree where
  "later_tree = [([''w''], DirNode), ([''w'', ''a''], FileNode ''changed'' 420), ([''w'', ''new''], FileNode ''made later'' 420)]"


text \<open>
  An undo can leave the workspace. \<open>/w/gone\<close> was captured as a file; a command then put a link
  to a missing file outside every root in its place. The policy reads the dangling link as a
  missing name of the writable root, so \<open>restore\<close> passes its check and opens the path
  following the link: it creates \<open>/w2/new\<close>, which the policy itself refuses to write.
\<close>
theorem restore_follows_dangling_link:
  "let before = with_tree sample_binding (tree_set sample_tree [''w'', ''gone''] (FileNode ''x'' 420)) in
   \<exists>f. capture_paths plain_text before [''gone''] = Inr [f]
     \<and> bound_can_write sample_binding ''/w/gone'' \<and> \<not> bound_can_write sample_binding ''/w2/new''
     \<and> node_at (ws_tree sample_binding) [''w2'', ''new''] = None
     \<and> snd (restore_files plain_text sample_binding [f]) = Inr ()
     \<and> node_at (ws_tree (fst (restore_files plain_text sample_binding [f]))) [''w2'', ''new''] = Some (FileNode ''x'' 420)"
proof -
  let ?f = "\<lparr>fs_path = ''/w/gone'', fs_exists = True, fs_content = ''x'', fs_mode = 420\<rparr> :: file_snapshot"
  let ?before = "with_tree sample_binding (tree_set sample_tree [''w'', ''gone''] (FileNode ''x'' 420))"
  have "capture_paths plain_text ?before [''gone''] = Inr [?f]"
    "bound_can_write sample_binding ''/w/gone''" "\<not> bound_can_write sample_binding ''/w2/new''"
    "node_at (ws_tree sample_binding) [''w2'', ''new''] = None"
    "snd (restore_files plain_text sample_binding [?f]) = Inr ()"
    "node_at (ws_tree (fst (restore_files plain_text sample_binding [?f]))) [''w2'', ''new''] = Some (FileNode ''x'' 420)"
    by code_simp+
  then show ?thesis unfolding Let_def by blast
qed

end
