(* ===== verification/JsonCodec.thy ===== *)
theory JsonCodec
  imports ApprovalStore Timestamps
begin

text \<open>
  The JSON codec of the value types (\<open>jsonutil.py\<close>). A dataclass is described by its fields:
  the JSON key, \<open>omitempty\<close>, the annotation and the default. Decoding follows \<open>_decode\<close> case by
  case, its coercions included: a scalar annotation calls the class on whatever value is
  there. \<open>json.loads\<close> is not part of it; the text of \<open>json.dumps\<close> is. What \<open>int\<close> does with a
  float that is not integral, and the parser of time stamps, are arguments.
\<close>

section \<open>Python texts\<close>

text \<open>\<open>repr\<close> of a \<open>str\<close>.\<close>

definition repr_char :: "char \<Rightarrow> char \<Rightarrow> string" where
  "repr_char quote c = (let n = of_char c :: nat in
     if c = quote \<or> c = CHR 0x5C then [CHR 0x5C, c]
     else if n = 9 then [CHR 0x5C, CHR ''t''] else if n = 10 then [CHR 0x5C, CHR ''n'']
     else if n = 13 then [CHR 0x5C, CHR ''r'']
     else if n < 32 \<or> (127 \<le> n \<and> n \<le> 160) \<or> n = 173 then [CHR 0x5C, CHR ''x'', hex_digit (n div 16), hex_digit (n mod 16)]
     else [c])"

definition py_repr :: "string \<Rightarrow> string" where
  "py_repr s = (let quote = if CHR 0x27 \<in> set s \<and> CHR 0x22 \<notin> set s then CHR 0x22 else CHR 0x27
     in quote # concat (map (repr_char quote) s) @ [quote])"

text \<open>\<open>repr\<close> and \<open>str\<close> of what \<open>json.loads\<close> returns.\<close>

fun json_repr :: "json \<Rightarrow> string" where
  "json_repr JNull = ''None''"
| "json_repr (JBool b) = (if b then ''True'' else ''False'')"
| "json_repr (JInt i) = dec_int i"
| "json_repr (JFloat _ text) = text"
| "json_repr (JString s) = py_repr s"
| "json_repr (JList xs) = ''['' @ join_with '', '' (map json_repr xs) @ '']''"
| "json_repr (JObject kvs) = ''{'' @ join_with '', '' (map (\<lambda>(k, v). py_repr k @ '': '' @ json_repr v) kvs) @ ''}''"

definition json_str :: "json \<Rightarrow> string" where
  "json_str v = (case v of JString s \<Rightarrow> s | _ \<Rightarrow> json_repr v)"

text \<open>\<open>int\<close> of a text: spaces around, a sign, digits with single underscores between them.\<close>

definition is_digit :: "char \<Rightarrow> bool" where
  "is_digit c \<longleftrightarrow> c \<in> set ''0123456789''"

fun digits_ok :: "bool \<Rightarrow> string \<Rightarrow> bool" where
  "digits_ok after [] = after"
| "digits_ok after (c # cs) = (if is_digit c then digits_ok True cs else c = CHR ''_'' \<and> after \<and> digits_ok False cs)"

definition int_of_text :: "string \<Rightarrow> int option" where
  "int_of_text s =
     (let t = py_strip s; neg = startswith t ''-''; body = if neg \<or> startswith t ''+'' then drop 1 t else t
      in if digits_ok False body then
           (let n = int (undec (filter (\<lambda>c. c \<noteq> CHR ''_'') body)) in Some (if neg then - n else n))
         else None)"

section \<open>Values and annotations\<close>

datatype pyval =
    PNone
  | PBool bool
  | PInt int
  | PStr string
  | PTime stamp
  | PSeq "pyval list"
  | PDict "(string \<times> pyval) list"
  | PData "((string \<times> bool) \<times> pyval) list"

text \<open>\<open>list[t]\<close> and \<open>tuple[t, ...]\<close> are \<open>TSeq\<close>; \<open>t | None\<close> is \<open>TOption\<close>; a \<open>str\<close> subclass is \<open>TStr\<close>.\<close>

datatype ty =
    TBool
  | TInt
  | TStr
  | TTime
  | TOption ty
  | TSeq ty
  | TDict ty
  | TData "((string \<times> bool) \<times> ty \<times> pyval option) list"

datatype decode_error = DecodeTypeError | DecodeValueError | DecodeOverflowError | DecodeAttributeError

section \<open>Encoding\<close>

fun is_zero :: "pyval \<Rightarrow> bool" where
  "is_zero PNone = True"
| "is_zero (PBool b) = (\<not> b)"
| "is_zero (PInt i) = (i = 0)"
| "is_zero (PStr s) = (s = '''')"
| "is_zero (PSeq vs) = (vs = [])"
| "is_zero (PDict kvs) = (kvs = [])"
| "is_zero _ = False"

fun to_json_value :: "(stamp \<Rightarrow> string) \<Rightarrow> pyval \<Rightarrow> json" where
  "to_json_value ft PNone = JNull"
| "to_json_value ft (PBool b) = JBool b"
| "to_json_value ft (PInt i) = JInt i"
| "to_json_value ft (PStr s) = JString s"
| "to_json_value ft (PTime t) = JString (ft t)"
| "to_json_value ft (PSeq vs) = JList (map (to_json_value ft) vs)"
| "to_json_value ft (PDict kvs) = JObject (sort_key fst (map (\<lambda>(k, v). (k, to_json_value ft v)) kvs))"
| "to_json_value ft (PData fs) = JObject (concat (map (\<lambda>f.
     if snd (fst f) \<and> is_zero (snd f) then [] else [(fst (fst f), to_json_value ft (snd f))]) fs))"

text \<open>\<open>json.dumps\<close> of what \<open>to_json_value\<close> returns: compact, or with an indent of two spaces.\<close>

fun dumps_compact :: "json \<Rightarrow> string" where
  "dumps_compact JNull = ''null''"
| "dumps_compact (JBool b) = (if b then ''true'' else ''false'')"
| "dumps_compact (JInt i) = dec_int i"
| "dumps_compact (JFloat _ text) = text"
| "dumps_compact (JString s) = json_quote s"
| "dumps_compact (JList xs) = ''['' @ join_with '','' (map dumps_compact xs) @ '']''"
| "dumps_compact (JObject kvs) = ''{'' @ join_with '','' (map (\<lambda>(k, v). json_quote k @ '':'' @ dumps_compact v) kvs) @ ''}''"

definition indent_line :: "nat \<Rightarrow> string" where
  "indent_line n = newline # replicate (2 * n) CHR '' ''"

fun dumps_indented :: "nat \<Rightarrow> json \<Rightarrow> string" where
  "dumps_indented n (JList xs) = (if xs = [] then ''[]'' else
     ''['' @ indent_line (Suc n) @ join_with ('','' @ indent_line (Suc n)) (map (dumps_indented (Suc n)) xs) @ indent_line n @ '']'')"
| "dumps_indented n (JObject kvs) = (if kvs = [] then ''{}'' else
     ''{'' @ indent_line (Suc n) @ join_with ('','' @ indent_line (Suc n))
       (map (\<lambda>(k, v). json_quote k @ '': '' @ dumps_indented (Suc n) v) kvs) @ indent_line n @ ''}'')"
| "dumps_indented n v = dumps_compact v"

section \<open>Decoding\<close>

fun traverse :: "('a \<Rightarrow> ('e, 'b) result) \<Rightarrow> 'a list \<Rightarrow> ('e, 'b list) result" where
  "traverse f [] = Inr []"
| "traverse f (x # xs) = bind_result (f x) (\<lambda>y. bind_result (traverse f xs) (\<lambda>ys. Inr (y # ys)))"

lemma traverse_cong [fundef_cong]: "xs = ys \<Longrightarrow> (\<And>x. x \<in> set ys \<Longrightarrow> f x = g x) \<Longrightarrow> traverse f xs = traverse g ys"
  by (induction xs arbitrary: ys) auto

record json_env =
  je_float_int :: "string \<Rightarrow> (decode_error, int) result"
  je_parse_time :: "json \<Rightarrow> (decode_error, stamp) result"

fun decode_bool :: "json \<Rightarrow> bool" where
  "decode_bool (JBool b) = b"
| "decode_bool (JInt i) = (i \<noteq> 0)"
| "decode_bool (JFloat (Some i) _) = (i \<noteq> 0)"
| "decode_bool (JFloat None _) = True"
| "decode_bool (JString s) = (s \<noteq> '''')"
| "decode_bool (JList xs) = (xs \<noteq> [])"
| "decode_bool (JObject kvs) = (kvs \<noteq> [])"
| "decode_bool JNull = False"

fun decode_int :: "json_env \<Rightarrow> json \<Rightarrow> (decode_error, int) result" where
  "decode_int env (JBool b) = Inr (if b then 1 else 0)"
| "decode_int env (JInt i) = Inr i"
| "decode_int env (JFloat (Some i) _) = Inr i"
| "decode_int env (JFloat None text) = je_float_int env text"
| "decode_int env (JString s) = (case int_of_text s of None \<Rightarrow> Inl DecodeValueError | Some i \<Rightarrow> Inr i)"
| "decode_int env _ = Inl DecodeTypeError"

text \<open>Iterating over a decoded value, and \<open>key in data\<close> with \<open>data[key]\<close>.\<close>

fun json_items :: "json \<Rightarrow> (decode_error, json list) result" where
  "json_items (JList xs) = Inr xs"
| "json_items (JString s) = Inr (map (\<lambda>c. JString [c]) s)"
| "json_items (JObject kvs) = Inr (map (\<lambda>(k, v). JString k) kvs)"
| "json_items _ = Inl DecodeTypeError"

fun field_value :: "json \<Rightarrow> string \<Rightarrow> (decode_error, json option) result" where
  "field_value (JObject kvs) key = Inr (map_of kvs key)"
| "field_value (JList xs) key = (if JString key \<in> set xs then Inl DecodeTypeError else Inr None)"
| "field_value (JString s) key = (if contains key s then Inl DecodeTypeError else Inr None)"
| "field_value _ key = Inl DecodeTypeError"

lemma field_size: "f \<in> set fs \<Longrightarrow> size (fst (snd f)) < Suc (size_list (size_prod (\<lambda>x. 0) (size_prod size (\<lambda>x. 0))) fs)"
  by (induction fs) (auto split: prod.split)

function decode :: "json_env \<Rightarrow> ty \<Rightarrow> json \<Rightarrow> (decode_error, pyval) result" where
  "decode env (TOption t) j = (if j = JNull then Inr PNone else decode env t j)"
| "decode env (TSeq t) j = (if j = JNull then Inr (PSeq []) else bind_result (json_items j) (\<lambda>xs.
     bind_result (traverse (\<lambda>x. decode env t x) xs) (\<lambda>vs. Inr (PSeq vs))))"
| "decode env (TDict t) j = (case j of
       JNull \<Rightarrow> Inr (PDict [])
     | JObject kvs \<Rightarrow> bind_result (traverse (\<lambda>kv. bind_result (decode env t (snd kv)) (\<lambda>v. Inr (fst kv, v))) kvs) (\<lambda>vs. Inr (PDict vs))
     | _ \<Rightarrow> Inl DecodeAttributeError)"
| "decode env (TData fs) j = (if j = JNull then Inl DecodeTypeError else
     bind_result (traverse (\<lambda>f. bind_result (field_value j (fst (fst f))) (\<lambda>found. case found of
         Some v \<Rightarrow> bind_result (decode env (fst (snd f)) v) (\<lambda>x. Inr (fst f, x))
       | None \<Rightarrow> (case snd (snd f) of None \<Rightarrow> Inl DecodeTypeError | Some d \<Rightarrow> Inr (fst f, d)))) fs) (\<lambda>vs. Inr (PData vs)))"
| "decode env TStr j = (if j = JNull then Inl DecodeTypeError else Inr (PStr (json_str j)))"
| "decode env TBool j = (if j = JNull then Inl DecodeTypeError else Inr (PBool (decode_bool j)))"
| "decode env TInt j = bind_result (decode_int env j) (\<lambda>i. Inr (PInt i))"
| "decode env TTime j = (if j = JNull then Inl DecodeTypeError else bind_result (je_parse_time env j) (\<lambda>t. Inr (PTime t)))"
  by pat_completeness auto
termination
  by (relation "measure (\<lambda>(env, t, j). size t)") (auto dest: field_size)

section \<open>Types\<close>

lemma field_size_zip:
  "((k, t, d), v) \<in> set (zip fs vs) \<Longrightarrow> size t < Suc (size_list (size_prod (\<lambda>x. 0) (size_prod size (\<lambda>x. 0))) fs)"
  using field_size [of "(k, t, d)" fs] by (auto dest: set_zip_leftD)

function has_type :: "ty \<Rightarrow> pyval \<Rightarrow> bool" where
  "has_type (TOption t) v = (v = PNone \<or> has_type t v)"
| "has_type (TSeq t) v = (case v of PSeq vs \<Rightarrow> list_all (\<lambda>x. has_type t x) vs | _ \<Rightarrow> False)"
| "has_type (TDict t) v = (case v of PDict kvs \<Rightarrow> list_all (\<lambda>kv. has_type t (snd kv)) kvs | _ \<Rightarrow> False)"
| "has_type (TData fs) v = (case v of PData vs \<Rightarrow> map fst vs = map fst fs
     \<and> list_all (\<lambda>(f, x). has_type (fst (snd f)) (snd x)) (zip fs vs) | _ \<Rightarrow> False)"
| "has_type TStr v = (case v of PStr _ \<Rightarrow> True | _ \<Rightarrow> False)"
| "has_type TBool v = (case v of PBool _ \<Rightarrow> True | _ \<Rightarrow> False)"
| "has_type TInt v = (case v of PInt _ \<Rightarrow> True | _ \<Rightarrow> False)"
| "has_type TTime v = (case v of PTime _ \<Rightarrow> True | _ \<Rightarrow> False)"
  by pat_completeness auto
termination by (relation "measure (\<lambda>(t, v). size t)") (auto dest: field_size_zip)

fun ty_ok :: "ty \<Rightarrow> bool" where
  "ty_ok (TOption t) = ty_ok t"
| "ty_ok (TSeq t) = ty_ok t"
| "ty_ok (TDict t) = ty_ok t"
| "ty_ok (TData fs) = (distinct (map (fst \<circ> fst) fs)
     \<and> list_all (\<lambda>f. ty_ok (fst (snd f)) \<and> (case snd (snd f) of None \<Rightarrow> True | Some d \<Rightarrow> has_type (fst (snd f)) d)) fs)"
| "ty_ok _ = True"

lemma traverse_Inr_iff: "traverse f xs = Inr ys \<longleftrightarrow> list_all2 (\<lambda>x y. f x = Inr y) xs ys"
proof (induction xs arbitrary: ys)
  case (Cons x xs)
  then show ?case by (auto simp: bind_result_Inr_iff list_all2_Cons1)
qed auto

lemma bind_pair_Inr: "bind_result m (\<lambda>v. Inr (k, v)) = Inr y \<longleftrightarrow> fst y = k \<and> m = Inr (snd y)"
  by (cases m; cases y) auto

lemma list_all2_right: "list_all2 P xs ys \<Longrightarrow> (\<And>x y. x \<in> set xs \<Longrightarrow> P x y \<Longrightarrow> Q y) \<Longrightarrow> list_all Q ys"
  by (induction xs ys rule: list_all2_induct) auto

lemma list_all2_zip: "list_all2 P xs ys \<Longrightarrow> (\<And>x y. x \<in> set xs \<Longrightarrow> P x y \<Longrightarrow> f x = g y \<and> Q x y)
    \<Longrightarrow> map g ys = map f xs \<and> list_all (\<lambda>(x, y). Q x y) (zip xs ys)"
  by (induction xs ys rule: list_all2_induct) auto

lemma decode_typed: "decode env t j = Inr v \<Longrightarrow> ty_ok t \<Longrightarrow> has_type t v"
proof (induction env t j arbitrary: v rule: decode.induct)
  case (1 env t j)
  then show ?case by (auto split: if_splits)
next
  case (2 env t j)
  show ?case
  proof (cases "j = JNull")
    case False
    with 2 obtain xs vs where "json_items j = Inr xs" and vs: "list_all2 (\<lambda>x v. decode env t x = Inr v) xs vs" "v = PSeq vs"
      by (auto simp: bind_result_Inr_iff traverse_Inr_iff)
    have "has_type t v" if "decode env t x = Inr v" for x v
      using 2(1) [OF False] 2(3) that by (metis list.set_intros(1) ty_ok.simps(2))
    then have "list_all (has_type t) vs" by (rule list_all2_right [OF vs(1)])
    with vs(2) show ?thesis by simp
  qed (use 2 in auto)
next
  case (3 env t j)
  show ?case
  proof (cases j)
    case (JObject kvs)
    with 3(2) obtain vs where vs: "list_all2 (\<lambda>kv v. bind_result (decode env t (snd kv)) (\<lambda>x. Inr (fst kv, x)) = Inr v) kvs vs"
      "v = PDict vs"
      by (auto simp: bind_result_Inr_iff [of "traverse _ _"] traverse_Inr_iff)
    have "has_type t (snd v)" if "kv \<in> set kvs" "bind_result (decode env t (snd kv)) (\<lambda>x. Inr (fst kv, x)) = Inr v" for kv v
      using 3(1) [OF JObject that(1)] 3(3) that(2) by (simp add: bind_pair_Inr)
    then have "list_all (\<lambda>kv. has_type t (snd kv)) vs" by (rule list_all2_right [OF vs(1)])
    with vs(2) show ?thesis by simp
  qed (use 3 in auto)
next
  case (4 env fs j)
  let ?field = "\<lambda>f. bind_result (field_value j (fst (fst f))) (\<lambda>found. case found of
         Some v \<Rightarrow> bind_result (decode env (fst (snd f)) v) (\<lambda>x. Inr (fst f, x))
       | None \<Rightarrow> (case snd (snd f) of None \<Rightarrow> Inl DecodeTypeError | Some d \<Rightarrow> Inr (fst f, d)))"
  from 4(2) have j: "j \<noteq> JNull" by auto
  with 4(2) obtain vs where vs: "list_all2 (\<lambda>f x. ?field f = Inr x) fs vs" "v = PData vs"
    by (auto simp: bind_result_Inr_iff traverse_Inr_iff)
  have one: "fst x = fst f \<and> has_type (fst (snd f)) (snd x)" if "f \<in> set fs" "?field f = Inr x" for f x
    using that 4(1) [OF j that(1)] 4(3)
    by (auto simp: bind_result_Inr_iff list_all_iff split: option.splits)
  have "map fst vs = map fst fs \<and> list_all (\<lambda>(f, x). has_type (fst (snd f)) (snd x)) (zip fs vs)"
    by (rule list_all2_zip [OF vs(1)]) (use one in auto)
  with vs(2) show ?case by simp
qed (auto simp: bind_result_Inr_iff split: if_splits)

text \<open>
  A value of an annotation that the text keeps: dicts are in key order, a time stamp is parsed
  back, and a field left out by \<open>omitempty\<close> holds its default.
\<close>

function storable :: "json_env \<Rightarrow> (stamp \<Rightarrow> string) \<Rightarrow> ty \<Rightarrow> pyval \<Rightarrow> bool" where
  "storable env ft (TOption t) v = (v = PNone \<or> storable env ft t v)"
| "storable env ft (TSeq t) v = (case v of PSeq vs \<Rightarrow> list_all (\<lambda>x. storable env ft t x) vs | _ \<Rightarrow> False)"
| "storable env ft (TDict t) v = (case v of PDict kvs \<Rightarrow> sorted (map fst kvs) \<and> list_all (\<lambda>kv. storable env ft t (snd kv)) kvs | _ \<Rightarrow> False)"
| "storable env ft (TData fs) v = (case v of PData vs \<Rightarrow> map fst vs = map fst fs
     \<and> list_all (\<lambda>(f, x). if snd (fst f) \<and> is_zero (snd x) then snd (snd f) = Some (snd x)
         else storable env ft (fst (snd f)) (snd x)) (zip fs vs) | _ \<Rightarrow> False)"
| "storable env ft TStr v = (case v of PStr _ \<Rightarrow> True | _ \<Rightarrow> False)"
| "storable env ft TBool v = (case v of PBool _ \<Rightarrow> True | _ \<Rightarrow> False)"
| "storable env ft TInt v = (case v of PInt _ \<Rightarrow> True | _ \<Rightarrow> False)"
| "storable env ft TTime v = (case v of PTime t \<Rightarrow> je_parse_time env (JString (ft t)) = Inr t | _ \<Rightarrow> False)"
  by pat_completeness auto
termination by (relation "measure (\<lambda>(env, ft, t, v). size t)") (auto dest: field_size_zip)

lemma to_json_JNull: "to_json_value ft v = JNull \<longleftrightarrow> v = PNone"
  by (cases v) auto

lemma zip_list_all2: "length xs = length ys \<Longrightarrow> list_all (\<lambda>(x, y). P x y) (zip xs ys) \<longleftrightarrow> list_all2 P xs ys"
  by (induction xs ys rule: list_induct2) auto

lemma written_fields:
  assumes "distinct (map (fst \<circ> fst) vs)" and "f \<in> set vs"
  shows "map_of (concat (map (\<lambda>f. if snd (fst f) \<and> is_zero (snd f) then [] else [(fst (fst f), to_json_value ft (snd f))]) vs)) (fst (fst f))
    = (if snd (fst f) \<and> is_zero (snd f) then None else Some (to_json_value ft (snd f)))"
  using assms
proof (induction vs)
  case (Cons g vs)
  have other: "map_of (concat (map (\<lambda>f. if snd (fst f) \<and> is_zero (snd f) then [] else [(fst (fst f), to_json_value ft (snd f))]) us)) k = None"
    if "k \<notin> (fst \<circ> fst) ` set us" for k us
    using that by (auto simp: map_of_eq_None_iff image_iff split: if_splits)
  show ?case
  proof (cases "f = g")
    case True
    then show ?thesis using other [of "fst (fst g)" vs] Cons.prems(1) by auto
  next
    case False
    with Cons.prems have "f \<in> set vs" "fst (fst f) \<noteq> fst (fst g)" "distinct (map (fst \<circ> fst) vs)" by (auto simp: image_iff comp_def)
    with Cons.IH show ?thesis by (simp add: comp_def)
  qed
qed simp

lemma list_all2_witness: "list_all2 P xs ys \<Longrightarrow> (\<And>x y. x \<in> set xs \<Longrightarrow> y \<in> set ys \<Longrightarrow> P x y \<Longrightarrow> Q x y) \<Longrightarrow> list_all2 Q xs ys"
  by (rule list.rel_mono_strong)

lemma decode_encoded: "ty_ok t \<Longrightarrow> storable env ft t v \<Longrightarrow> decode env t (to_json_value ft v) = Inr v"
proof (induction t arbitrary: v)
  case (TSeq t)
  then obtain vs where v: "v = PSeq vs" "list_all (\<lambda>x. storable env ft t x) vs" by (auto split: pyval.splits)
  have "traverse (\<lambda>x. decode env t x) (map (to_json_value ft) vs) = Inr vs"
    using v(2) TSeq by (auto simp: traverse_Inr_iff list_all2_conv_all_nth list_all_length)
  with v(1) show ?case by simp
next
  case (TDict t)
  then obtain kvs where v: "v = PDict kvs" "sorted (map fst kvs)" "list_all (\<lambda>kv. storable env ft t (snd kv)) kvs"
    by (auto split: pyval.splits)
  let ?js = "map (\<lambda>(k, v). (k, to_json_value ft v)) kvs"
  have "map fst ?js = map fst kvs" by (induction kvs) auto
  with v(2) have "sorted (map fst ?js)" by (simp only:)
  then have sorted: "sort_key fst ?js = ?js" by (rule sort_key_id_if_sorted)
  have "traverse (\<lambda>kv. bind_result (decode env t (snd kv)) (\<lambda>v. Inr (fst kv, v))) ?js = Inr kvs"
    using v(3) TDict by (auto simp: traverse_Inr_iff list_all2_conv_all_nth list_all_length split: prod.split)
  with v(1) sorted show ?case by simp
next
  case (TData fs)
  then obtain vs where v: "v = PData vs" "map fst vs = map fst fs" and
    each: "list_all (\<lambda>(f, x). if snd (fst f) \<and> is_zero (snd x) then snd (snd f) = Some (snd x) else storable env ft (fst (snd f)) (snd x)) (zip fs vs)"
    by (auto split: pyval.splits)
  let ?j = "to_json_value ft v"
  have len: "length fs = length vs" using arg_cong [OF v(2), of length] by simp
  have keys: "distinct (map (fst \<circ> fst) vs)"
    using TData.prems(1) arg_cong [OF v(2), of "map fst"] by (simp add: comp_def)
  have pairs: "list_all2 (\<lambda>f x. fst x = fst f) fs vs"
    using v(2) len by (metis (mono_tags, lifting) length_map list_all2_conv_all_nth nth_map)
  let ?field = "\<lambda>f. bind_result (field_value ?j (fst (fst f))) (\<lambda>found. case found of
         Some v \<Rightarrow> bind_result (decode env (fst (snd f)) v) (\<lambda>x. Inr (fst f, x))
       | None \<Rightarrow> (case snd (snd f) of None \<Rightarrow> Inl DecodeTypeError | Some d \<Rightarrow> Inr (fst f, d)))"
  have field: "?field f = Inr x"
    if f: "f \<in> set fs" and x: "x \<in> set vs" and same: "fst x = fst f"
      and ok: "if snd (fst f) \<and> is_zero (snd x) then snd (snd f) = Some (snd x) else storable env ft (fst (snd f)) (snd x)" for f x
  proof -
    have look: "field_value ?j (fst (fst f)) = Inr (if snd (fst x) \<and> is_zero (snd x) then None else Some (to_json_value ft (snd x)))"
      using written_fields [OF keys x, of ft] same by (simp add: v(1))
    have "ty_ok (fst (snd f))" using TData.prems(1) f by (simp add: list_all_iff)
    moreover have "fst (snd f) \<in> Basic_BNFs.fsts (snd f)" "snd f \<in> Basic_BNFs.snds f" by (simp_all add: fsts.simps snds.simps)
    ultimately have "decode env (fst (snd f)) (to_json_value ft (snd x)) = Inr (snd x)" if "storable env ft (fst (snd f)) (snd x)"
      using TData.IH [OF f] that by blast
    with look ok same show ?thesis by (cases x) (auto split: if_splits)
  qed
  have "list_all2 (\<lambda>f x. ?field f = Inr x) fs vs"
    using each pairs len field by (auto simp: zip_list_all2 list_all2_conv_all_nth)
  moreover have "?j \<noteq> JNull" by (simp add: v(1))
  ultimately show ?case by (simp add: traverse_Inr_iff [THEN iffD2] v(1))
qed (auto simp: to_json_JNull json_str_def split: pyval.splits)

section \<open>Properties\<close>

text \<open>
  C26. The codec respects its annotations: whatever the input, a decoded value has the annotation's
  type, provided the defaults have theirs; and a value that the text keeps (dicts in key order,
  time stamps the parser reads back, nothing left out but defaults) is decoded from its own
  encoding exactly, whatever its nesting.
\<close>
theorem codec_typed_roundtrip:
  assumes "ty_ok t"
  shows "(case decode env t j of Inl _ \<Rightarrow> True | Inr v \<Rightarrow> has_type t v)
    \<and> (storable env ft t w \<longrightarrow> decode env t (to_json_value ft w) = Inr w)"
  using decode_typed [OF _ assms, of env j] decode_encoded [OF assms, of env ft w] by (auto split: sum.splits)

definition sample_json_env :: json_env where
  "sample_json_env = \<lparr>je_float_int = \<lambda>_. Inl DecodeValueError, je_parse_time = \<lambda>_. Inr ZERO_TIME\<rparr>"

text \<open>The file snapshot of a checkpoint, \<open>omitempty\<close> on its content and mode.\<close>

definition snapshot_type :: ty where
  "snapshot_type = TData [((''path'', False), TStr, Some (PStr '''')), ((''exists'', False), TBool, Some (PBool False)),
     ((''content'', True), TStr, Some (PStr '''')), ((''mode'', True), TInt, Some (PInt 0))]"

definition sample_snapshot :: pyval where
  "sample_snapshot = PData [((''path'', False), PStr ''/w/a''), ((''exists'', False), PBool False),
     ((''content'', True), PStr ''''), ((''mode'', True), PInt 420)]"

theorem codec_typed_roundtrip_witness:
  "decode sample_json_env snapshot_type (to_json_value (\<lambda>_. '''') sample_snapshot) = Inr sample_snapshot
   \<and> to_json_value (\<lambda>_. '''') sample_snapshot
     = JObject [(''path'', JString ''/w/a''), (''exists'', JBool False), (''mode'', JInt 420)]"
proof -
  have ok: "ty_ok snapshot_type" by (simp add: snapshot_type_def)
  have "storable sample_json_env (\<lambda>_. '''') snapshot_type sample_snapshot"
    by (simp add: snapshot_type_def sample_snapshot_def)
  with codec_typed_roundtrip [OF ok, of sample_json_env JNull "\<lambda>_. ''''" sample_snapshot]
  have "decode sample_json_env snapshot_type (to_json_value (\<lambda>_. '''') sample_snapshot) = Inr sample_snapshot" by blast
  then show ?thesis by (simp add: sample_snapshot_def)
qed

text \<open>
  Decoding coerces instead of refusing. A list of texts given as one text becomes its single
  letters (\<open>"deny_tools": "bash"\<close> denies tools named \<open>b\<close>, \<open>a\<close>, \<open>s\<close> and \<open>h\<close>); any text that is not
  empty is true, \<open>"false"\<close> included; an array where an object is due gives the defaults.
\<close>
theorem wrong_shapes_coerced:
  "decode env (TSeq TStr) (JString s) = Inr (PSeq (map (\<lambda>c. PStr [c]) s))
   \<and> decode env TBool (JString ''false'') = Inr (PBool True)
   \<and> decode env snapshot_type (JList []) = Inr (PData [((''path'', False), PStr ''''), ((''exists'', False), PBool False),
       ((''content'', True), PStr ''''), ((''mode'', True), PInt 0)])"
proof -
  have "traverse (decode env TStr) (map (\<lambda>c. JString [c]) s) = Inr (map (\<lambda>c. PStr [c]) s)"
    by (induction s) (simp_all add: json_str_def)
  then show ?thesis by (simp add: snapshot_type_def)
qed

end
