(* ===== verification/ToolRegistry.thy ===== *)
theory ToolRegistry
  imports Execution JsonCodec
begin

text \<open>
  The tool registry (\<open>tools/registry.py\<close>) and the empty runner (\<open>tools/no_tools.py\<close>). A tool is what
  it advertises and how it runs in a world of its own type: the state its calls read and
  change. Hooks run in the same world and report a failure by raising.
\<close>

section \<open>Tools and hooks\<close>

record 'w tool =
  tl_specs :: "tool_spec list"
  tl_run :: "'w \<Rightarrow> tool_call \<Rightarrow> 'w \<times> (exc, string) result"

type_synonym 'w tool_observer = "'w \<Rightarrow> string \<Rightarrow> tool_call \<Rightarrow> exc option \<Rightarrow> 'w \<times> (exc, unit) result"

type_synonym 'w checkpoint_callback = "'w \<Rightarrow> tool_call \<Rightarrow> 'w \<times> (exc, unit) result"

record 'w registry =
  rg_tools :: "(string \<times> 'w tool) list"
  rg_order :: "string list"
  rg_checkpoint :: "'w checkpoint_callback option"
  rg_observer :: "'w tool_observer option"

section \<open>Building and changing the set\<close>

definition tool_name :: "nat \<Rightarrow> 'w tool \<Rightarrow> (exc, string) result" where
  "tool_name fresh item = (case tl_specs item of
       [] \<Rightarrow> Inl (plain_exc fresh RuntimeErrorC ''tool exposes no spec'') | s # _ \<Rightarrow> Inr (ts_name s))"

definition enter :: "string \<Rightarrow> 'w tool \<Rightarrow> 'w registry \<Rightarrow> 'w registry" where
  "enter name item rg = rg\<lparr>rg_order := rg_order rg @ [name], rg_tools := dict_set (rg_tools rg) name item\<rparr>"

fun enter_all :: "nat \<Rightarrow> 'w registry \<Rightarrow> 'w tool list \<Rightarrow> (exc, 'w registry) result" where
  "enter_all fresh rg [] = Inr rg"
| "enter_all fresh rg (item # items) =
     bind_result (tool_name fresh item) (\<lambda>name. enter_all fresh (enter name item rg) items)"

definition empty_registry :: "'w registry" where
  "empty_registry = \<lparr>rg_tools = [], rg_order = [], rg_checkpoint = None, rg_observer = None\<rparr>"

definition new_registry :: "nat \<Rightarrow> 'w tool list \<Rightarrow> (exc, 'w registry) result" where
  "new_registry fresh items = enter_all fresh empty_registry items"

definition set_tool_observer :: "'w registry \<Rightarrow> 'w tool_observer option \<Rightarrow> 'w registry" where
  "set_tool_observer rg obs = rg\<lparr>rg_observer := obs\<rparr>"

definition set_checkpoint_callback :: "'w registry \<Rightarrow> 'w checkpoint_callback option \<Rightarrow> 'w registry" where
  "set_checkpoint_callback rg cb = rg\<lparr>rg_checkpoint := cb\<rparr>"

text \<open>The validation pass of \<open>_add\<close>; a missing item is \<open>None\<close>.\<close>

fun check_batch :: "nat \<Rightarrow> string list \<Rightarrow> string list \<Rightarrow> 'w tool option list \<Rightarrow> (exc, unit) result" where
  "check_batch fresh known seen [] = Inr ()"
| "check_batch fresh known seen (None # items) = Inl (plain_exc fresh RuntimeErrorC ''cannot register nil tool'')"
| "check_batch fresh known seen (Some item # items) = bind_result (tool_name fresh item) (\<lambda>name.
     if name = '''' then Inl (plain_exc fresh RuntimeErrorC ''cannot register tool with empty name'')
     else if name \<in> set known then Inl (plain_exc fresh RuntimeErrorC (''tool '' @ py_repr name @ '' is already registered''))
     else if name \<in> set seen then Inl (plain_exc fresh RuntimeErrorC (''tool '' @ py_repr name @ '' is duplicated''))
     else check_batch fresh known (name # seen) items)"

definition add_tools :: "nat \<Rightarrow> 'w registry \<Rightarrow> 'w tool option list \<Rightarrow> (exc, 'w registry) result" where
  "add_tools fresh rg items = bind_result (check_batch fresh (map fst (rg_tools rg)) [] items) (\<lambda>_.
     enter_all fresh rg (List.map_filter (\<lambda>i. i) items))"

definition remove_tools :: "'w registry \<Rightarrow> string list \<Rightarrow> 'w registry" where
  "remove_tools rg names = rg\<lparr>rg_tools := filter (\<lambda>(n, t). n \<notin> set names) (rg_tools rg),
     rg_order := filter (\<lambda>n. n \<notin> set names) (rg_order rg)\<rparr>"

fun check_replacement :: "nat \<Rightarrow> string list \<Rightarrow> string list \<Rightarrow> 'w tool option list \<Rightarrow> (exc, unit) result" where
  "check_replacement fresh known seen [] = Inr ()"
| "check_replacement fresh known seen (None # items) =
     Inl (plain_exc fresh RuntimeErrorC ''replacement contains invalid tool'')"
| "check_replacement fresh known seen (Some item # items) = bind_result (tool_name fresh item) (\<lambda>name.
     if name = '''' then Inl (plain_exc fresh RuntimeErrorC ''replacement contains invalid tool'')
     else if name \<in> set known then Inl (plain_exc fresh RuntimeErrorC (''tool '' @ py_repr name @ '' is already registered''))
     else if name \<in> set seen then Inl (plain_exc fresh RuntimeErrorC (''tool '' @ py_repr name @ '' is duplicated''))
     else check_replacement fresh known (name # seen) items)"

text \<open>Only names that are in the order are popped.\<close>

definition replace_tools :: "nat \<Rightarrow> 'w registry \<Rightarrow> string list \<Rightarrow> 'w tool option list \<Rightarrow> (exc, 'w registry) result" where
  "replace_tools fresh rg names items = bind_result
     (check_replacement fresh (filter (\<lambda>n. n \<notin> set names) (map fst (rg_tools rg))) [] items) (\<lambda>_.
     enter_all fresh (rg\<lparr>rg_tools := filter (\<lambda>(n, t). n \<in> set names \<longrightarrow> n \<notin> set (rg_order rg)) (rg_tools rg),
       rg_order := filter (\<lambda>n. n \<notin> set names) (rg_order rg)\<rparr>) (List.map_filter (\<lambda>i. i) items))"

section \<open>Advertising and running\<close>

text \<open>A name of the order that is not in the table would raise \<open>KeyError\<close>; \<open>registry_ok\<close> below excludes it.\<close>

definition registry_specs :: "'w registry \<Rightarrow> tool_spec list" where
  "registry_specs rg = concat (map (\<lambda>n. case map_of (rg_tools rg) n of None \<Rightarrow> [] | Some t \<Rightarrow> tl_specs t) (rg_order rg))"

definition is_risky :: "'w tool \<Rightarrow> string \<Rightarrow> bool" where
  "is_risky t name = list_ex (\<lambda>s. ts_name s = name \<and> ts_risky s) (tl_specs t)"

definition run_direct :: "nat \<Rightarrow> 'w registry \<Rightarrow> 'w \<Rightarrow> tool_call \<Rightarrow> 'w \<times> (exc, string) result" where
  "run_direct fresh rg w call = (case map_of (rg_tools rg) (tc_name call) of
       None \<Rightarrow> (w, Inl (plain_exc fresh RuntimeErrorC (''unknown tool: '' @ tc_name call)))
     | Some t \<Rightarrow> (case rg_checkpoint rg of
           Some checkpoint \<Rightarrow> if is_risky t (tc_name call)
             then (case checkpoint w call of (w1, Inl e) \<Rightarrow> (w1, Inl e) | (w1, Inr _) \<Rightarrow> tl_run t w1 call)
             else tl_run t w call
         | None \<Rightarrow> tl_run t w call))"

definition registry_run :: "nat \<Rightarrow> 'w registry \<Rightarrow> 'w \<Rightarrow> tool_call \<Rightarrow> 'w \<times> (exc, string) result" where
  "registry_run fresh rg w call = (case rg_observer rg of
       None \<Rightarrow> run_direct fresh rg w call
     | Some obs \<Rightarrow> (case obs w ''pre_tool'' call None of
           (w1, Inl e) \<Rightarrow> (w1, Inl e)
         | (w1, Inr _) \<Rightarrow> (case run_direct fresh rg w1 call of (w2, out) \<Rightarrow>
             (case obs w2 ''post_tool'' call (case out of Inl e \<Rightarrow> Some e | Inr _ \<Rightarrow> None) of (w3, hook) \<Rightarrow>
               (w3, case out of
                   Inl e \<Rightarrow> Inl e
                 | Inr result \<Rightarrow> Inr (result @ (case hook of
                     Inl h \<Rightarrow> newline # ''[post_tool hook failed: '' @ exc_text h @ '']'' | Inr _ \<Rightarrow> '''')))))))"

definition no_tools_run :: "nat \<Rightarrow> tool_call \<Rightarrow> (exc, string) result" where
  "no_tools_run fresh call = Inl (plain_exc fresh RuntimeErrorC ''tools are disabled'')"

section \<open>The invariant\<close>

definition registry_ok :: "'w registry \<Rightarrow> bool" where
  "registry_ok rg \<longleftrightarrow> distinct (rg_order rg) \<and> rg_order rg = map fst (rg_tools rg)
     \<and> (\<forall>(n, t) \<in> set (rg_tools rg). \<exists>s rest. tl_specs t = s # rest \<and> ts_name s = n)"

abbreviation item_name :: "'w tool \<Rightarrow> string" where
  "item_name t \<equiv> ts_name (hd (tl_specs t))"

lemma tool_name_Inr: "tool_name fresh t = Inr n \<longleftrightarrow> tl_specs t \<noteq> [] \<and> n = item_name t"
  by (cases "tl_specs t") (auto simp: tool_name_def)

lemma registry_ok_empty: "registry_ok empty_registry"
  by (simp add: registry_ok_def empty_registry_def)

lemma dict_set_fresh: "k \<notin> set (map fst kvs) \<Longrightarrow> dict_set kvs k v = kvs @ [(k, v)]"
  by (induction kvs k v rule: dict_set.induct) auto

lemma registry_ok_enter:
  assumes "registry_ok rg" and "tl_specs t \<noteq> []" and "item_name t \<notin> set (rg_order rg)"
  shows "registry_ok (enter (item_name t) t rg)"
proof -
  have "item_name t \<notin> set (map fst (rg_tools rg))" using assms by (simp add: registry_ok_def)
  from dict_set_fresh [OF this, of t] show ?thesis using assms
    by (auto simp: registry_ok_def enter_def neq_Nil_conv)
qed

lemma enter_all_ok:
  assumes "registry_ok rg" and "list_all (\<lambda>t. tl_specs t \<noteq> []) items"
    and "distinct (map item_name items)" and "\<forall>t \<in> set items. item_name t \<notin> set (rg_order rg)"
  shows "\<exists>rg'. enter_all fresh rg items = Inr rg' \<and> registry_ok rg' \<and> rg_order rg' = rg_order rg @ map item_name items
    \<and> rg_tools rg' = rg_tools rg @ map (\<lambda>t. (item_name t, t)) items
    \<and> rg_checkpoint rg' = rg_checkpoint rg \<and> rg_observer rg' = rg_observer rg"
  using assms
proof (induction items arbitrary: rg)
  case (Cons t items)
  let ?rg = "enter (item_name t) t rg"
  have new: "item_name t \<notin> set (map fst (rg_tools rg))" using Cons.prems(1,4) by (simp add: registry_ok_def)
  have ok: "registry_ok ?rg" using Cons.prems by (intro registry_ok_enter) auto
  have order: "rg_order ?rg = rg_order rg @ [item_name t]" by (simp add: enter_def)
  have rest: "list_all (\<lambda>t. tl_specs t \<noteq> []) items" "distinct (map item_name items)" using Cons.prems(2,3) by simp_all
  have apart: "\<forall>u \<in> set items. item_name u \<notin> set (rg_order ?rg)"
    using Cons.prems(3,4) order by (auto simp: image_iff)
  from Cons.IH [OF ok rest apart] obtain rg' where
    "enter_all fresh ?rg items = Inr rg'" "registry_ok rg'" "rg_order rg' = rg_order ?rg @ map item_name items"
    "rg_tools rg' = rg_tools ?rg @ map (\<lambda>t. (item_name t, t)) items"
    "rg_checkpoint rg' = rg_checkpoint ?rg" "rg_observer rg' = rg_observer ?rg"
    by blast
  moreover have "tool_name fresh t = Inr (item_name t)" using Cons.prems(2) by (simp add: tool_name_Inr)
  ultimately show ?case using dict_set_fresh [OF new, of t] by (simp add: enter_def)
qed simp

definition batch_ok :: "string list \<Rightarrow> string list \<Rightarrow> 'w tool option list \<Rightarrow> bool" where
  "batch_ok known seen items \<longleftrightarrow> None \<notin> set items \<and>
     (let ts = List.map_filter (\<lambda>i. i) items in list_all (\<lambda>t. tl_specs t \<noteq> [] \<and> item_name t \<noteq> '''') ts
       \<and> distinct (map item_name ts) \<and> (\<forall>t \<in> set ts. item_name t \<notin> set known \<and> item_name t \<notin> set seen))"

lemma batch_ok_simps:
  "batch_ok known seen []"
  "\<not> batch_ok known seen (None # items)"
  "batch_ok known seen (Some t # items) \<longleftrightarrow> tl_specs t \<noteq> [] \<and> item_name t \<noteq> '''' \<and> item_name t \<notin> set known
     \<and> item_name t \<notin> set seen \<and> batch_ok known (item_name t # seen) items"
  by (auto simp: batch_ok_def map_filter_simps Let_def image_iff list_all_iff; metis)+

lemma tool_name_cases: "tool_name fresh t = (if tl_specs t = [] then Inl (plain_exc fresh RuntimeErrorC ''tool exposes no spec'') else Inr (item_name t))"
  by (cases "tl_specs t") (simp_all add: tool_name_def)

lemma check_batch_iff: "check_batch fresh known seen items = Inr () \<longleftrightarrow> batch_ok known seen items"
  by (induction fresh known seen items rule: check_batch.induct)
    (auto simp: batch_ok_simps tool_name_cases)

lemma check_replacement_iff: "check_replacement fresh known seen items = Inr () \<longleftrightarrow> batch_ok known seen items"
  by (induction fresh known seen items rule: check_replacement.induct)
    (auto simp: batch_ok_simps tool_name_cases)

lemma filter_keys: "map fst (filter (\<lambda>(n, t). P n) kvs) = filter P (map fst kvs)"
  by (induction kvs) auto

lemma registry_ok_remove: "registry_ok rg \<Longrightarrow> registry_ok (remove_tools rg names)"
  by (auto simp: registry_ok_def remove_tools_def filter_keys)

lemma registry_specs_tools:
  assumes "registry_ok rg" shows "registry_specs rg = concat (map (\<lambda>(n, t). tl_specs t) (rg_tools rg))"
proof -
  have "distinct (map fst (rg_tools rg))" using assms by (metis registry_ok_def)
  then have "map_of (rg_tools rg) (fst p) = Some (snd p)" if "p \<in> set (rg_tools rg)" for p
    using that by (cases p) simp
  then have "concat (map ((\<lambda>n. case map_of (rg_tools rg) n of None \<Rightarrow> [] | Some t \<Rightarrow> tl_specs t) \<circ> fst) (rg_tools rg))
      = concat (map (\<lambda>(n, t). tl_specs t) (rg_tools rg))"
    by (intro arg_cong [of _ _ concat] map_cong) (auto split: prod.split)
  then show ?thesis using assms by (simp add: registry_specs_def registry_ok_def)
qed

abbreviation given :: "'w tool option list \<Rightarrow> 'w tool list" where
  "given items \<equiv> List.map_filter (\<lambda>i. i) items"

lemma add_tools_result:
  assumes "registry_ok rg"
  shows "if batch_ok (rg_order rg) [] items
     then \<exists>rg'. add_tools fresh rg items = Inr rg' \<and> registry_ok rg' \<and> rg_tools rg' = rg_tools rg @ map (\<lambda>t. (item_name t, t)) (given items)
       \<and> rg_checkpoint rg' = rg_checkpoint rg \<and> rg_observer rg' = rg_observer rg
     else \<exists>e. add_tools fresh rg items = Inl e"
proof -
  have keys: "map fst (rg_tools rg) = rg_order rg" using assms by (simp add: registry_ok_def)
  show ?thesis
  proof (cases "batch_ok (rg_order rg) [] items")
    case True
    then have "list_all (\<lambda>t. tl_specs t \<noteq> []) (given items)" "distinct (map item_name (given items))"
      "\<forall>t \<in> set (given items). item_name t \<notin> set (rg_order rg)"
      by (simp_all add: batch_ok_def Let_def list_all_iff)
    from enter_all_ok [OF assms this, of fresh] True show ?thesis
      by (auto simp: add_tools_def keys check_batch_iff [THEN iffD2])
  next
    case False
    then show ?thesis using check_batch_iff [of fresh "rg_order rg" "[]" items]
      by (cases "check_batch fresh (rg_order rg) [] items") (simp_all add: add_tools_def keys)
  qed
qed

text \<open>Replacing is removing and adding in one step.\<close>

lemma replace_is_remove_add:
  assumes "registry_ok rg"
  shows "case replace_tools fresh rg names items of
      Inl _ \<Rightarrow> \<not> batch_ok (rg_order (remove_tools rg names)) [] items
    | Inr rg' \<Rightarrow> add_tools fresh (remove_tools rg names) items = Inr rg'"
proof -
  have keys: "map fst (rg_tools rg) = rg_order rg" using assms by (simp add: registry_ok_def)
  have same: "filter (\<lambda>(n, t). n \<in> set names \<longrightarrow> n \<notin> set (rg_order rg)) (rg_tools rg) = filter (\<lambda>(n, t). n \<notin> set names) (rg_tools rg)"
    using keys by (intro filter_cong) (auto simp: keys [symmetric] image_iff; force)+
  have order: "rg_order (remove_tools rg names) = filter (\<lambda>n. n \<notin> set names) (rg_order rg)"
    "map fst (rg_tools (remove_tools rg names)) = filter (\<lambda>n. n \<notin> set names) (rg_order rg)"
    using keys by (simp_all add: remove_tools_def filter_keys)
  have removed: "rg\<lparr>rg_tools := filter (\<lambda>(n, t). n \<notin> set names) (rg_tools rg), rg_order := filter (\<lambda>n. n \<notin> set names) (rg_order rg)\<rparr>
      = remove_tools rg names" by (simp add: remove_tools_def)
  show ?thesis
  proof (cases "batch_ok (rg_order (remove_tools rg names)) [] items")
    case True
    with add_tools_result [OF registry_ok_remove [OF assms], of names items fresh] obtain rg'
      where "add_tools fresh (remove_tools rg names) items = Inr rg'" by auto
    with True show ?thesis
      by (simp add: replace_tools_def add_tools_def keys same removed order check_batch_iff [THEN iffD2] check_replacement_iff [THEN iffD2])
  next
    case False
    then show ?thesis using check_replacement_iff [of fresh "rg_order (remove_tools rg names)" "[]" items]
      by (cases "check_replacement fresh (rg_order (remove_tools rg names)) [] items")
        (simp_all add: replace_tools_def keys order)
  qed
qed

section \<open>Properties\<close>

abbreviation spec_names :: "'w registry \<Rightarrow> string list" where
  "spec_names rg \<equiv> map ts_name (registry_specs rg)"

lemma single_spec_names:
  assumes "registry_ok rg" and "\<forall>t \<in> snd ` set (rg_tools rg). length (tl_specs t) = 1"
  shows "spec_names rg = rg_order rg"
proof -
  have "map ts_name (concat (map (\<lambda>(n, t). tl_specs t) kvs)) = map fst kvs"
    if "\<forall>(n, t) \<in> set kvs. length (tl_specs t) = 1 \<and> (\<exists>s rest. tl_specs t = s # rest \<and> ts_name s = n)" for kvs :: "(string \<times> 'a tool) list"
    using that by (induction kvs) (auto simp: length_Suc_conv)
  moreover have "\<forall>(n, t) \<in> set (rg_tools rg). length (tl_specs t) = 1 \<and> (\<exists>s rest. tl_specs t = s # rest \<and> ts_name s = n)"
    using assms by (fastforce simp: registry_ok_def)
  ultimately have "map ts_name (concat (map (\<lambda>(n, t). tl_specs t) (rg_tools rg))) = map fst (rg_tools rg)" by blast
  then show ?thesis using assms(1) by (simp only: registry_specs_tools [OF assms(1)]) (simp add: registry_ok_def)
qed

lemma run_direct_unknown:
  "map_of (rg_tools rg) (tc_name call) = None \<Longrightarrow> run_direct fresh rg w call
     = (w, Inl (plain_exc fresh RuntimeErrorC (''unknown tool: '' @ tc_name call)))"
  by (simp add: run_direct_def)

text \<open>
  The registry is one table in registration order. A batch is added as a whole or refused as
  a whole, and it is refused exactly when an item is missing, exposes no spec or an empty name,
  repeats a name of the batch, or takes a registered one; an accepted batch is advertised after
  everything before it. Removing keeps the rest in order, replacing is removing and then adding
  in one step, and every change keeps the table well formed. When every tool exposes one spec,
  exactly the advertised names are dispatched.
\<close>
theorem registry_operations_exact:
  assumes "registry_ok rg"
  shows "(case add_tools fresh rg items of
        Inl _ \<Rightarrow> \<not> batch_ok (rg_order rg) [] items
      | Inr rg' \<Rightarrow> batch_ok (rg_order rg) [] items \<and> registry_ok rg' \<and> rg_order rg' = rg_order rg @ map item_name (given items)
          \<and> registry_specs rg' = registry_specs rg @ concat (map tl_specs (given items)))
    \<and> registry_ok (remove_tools rg names) \<and> rg_order (remove_tools rg names) = filter (\<lambda>n. n \<notin> set names) (rg_order rg)
    \<and> (case replace_tools fresh rg names items of
        Inl _ \<Rightarrow> \<not> batch_ok (rg_order (remove_tools rg names)) [] items
      | Inr rg' \<Rightarrow> add_tools fresh (remove_tools rg names) items = Inr rg' \<and> registry_ok rg')
    \<and> ((\<forall>t \<in> snd ` set (rg_tools rg). length (tl_specs t) = 1) \<longrightarrow>
        (map_of (rg_tools rg) (tc_name call) \<noteq> None) = (tc_name call \<in> set (spec_names rg)))"
proof (intro conjI)
  show "case add_tools fresh rg items of
        Inl _ \<Rightarrow> \<not> batch_ok (rg_order rg) [] items
      | Inr rg' \<Rightarrow> batch_ok (rg_order rg) [] items \<and> registry_ok rg' \<and> rg_order rg' = rg_order rg @ map item_name (given items)
          \<and> registry_specs rg' = registry_specs rg @ concat (map tl_specs (given items))"
  proof (cases "batch_ok (rg_order rg) [] items")
    case True
    with add_tools_result [OF assms, of items fresh] obtain rg' where rg': "add_tools fresh rg items = Inr rg'" "registry_ok rg'"
      "rg_tools rg' = rg_tools rg @ map (\<lambda>t. (item_name t, t)) (given items)" by auto
    then have "rg_order rg' = rg_order rg @ map item_name (given items)"
      using assms by (simp add: registry_ok_def comp_def)
    moreover have "registry_specs rg' = registry_specs rg @ concat (map tl_specs (given items))"
      by (simp add: registry_specs_tools [OF rg'(2)] registry_specs_tools [OF assms] rg'(3) comp_def)
    ultimately show ?thesis using rg'(1,2) True by simp
  next
    case False
    with add_tools_result [OF assms, of items fresh] show ?thesis by auto
  qed
  show "case replace_tools fresh rg names items of
        Inl _ \<Rightarrow> \<not> batch_ok (rg_order (remove_tools rg names)) [] items
      | Inr rg' \<Rightarrow> add_tools fresh (remove_tools rg names) items = Inr rg' \<and> registry_ok rg'"
    using replace_is_remove_add [OF assms, where fresh = fresh and names = names and items = items]
      add_tools_result [of "remove_tools rg names" items fresh] registry_ok_remove [OF assms, of names]
    by (auto split: if_splits sum.splits)
  show "(\<forall>t \<in> snd ` set (rg_tools rg). length (tl_specs t) = 1) \<longrightarrow>
      (map_of (rg_tools rg) (tc_name call) \<noteq> None) = (tc_name call \<in> set (spec_names rg))"
    using single_spec_names [OF assms] assms by (simp add: registry_ok_def map_of_eq_None_iff)
qed (simp_all add: registry_ok_remove [OF assms], simp add: remove_tools_def)

definition echo_tool :: "string \<Rightarrow> unit tool" where
  "echo_tool n = \<lparr>tl_specs = [\<lparr>ts_name = n, ts_description = '''', ts_parameters = None, ts_risky = False\<rparr>],
     tl_run = \<lambda>w call. (w, Inr (tc_input call))\<rparr>"

definition echo_registry :: "unit registry" where
  "echo_registry = empty_registry\<lparr>rg_tools := [(''a'', echo_tool ''a''), (''b'', echo_tool ''b'')], rg_order := [''a'', ''b'']\<rparr>"

theorem registry_operations_exact_witness:
  "registry_ok echo_registry \<and> registry_ok (remove_tools echo_registry [''a''])
   \<and> (case replace_tools 0 echo_registry [''a''] [Some (echo_tool ''b'')] of Inl _ \<Rightarrow> True | Inr rg' \<Rightarrow> registry_ok rg')"
proof -
  have ok: "registry_ok echo_registry" by (simp add: registry_ok_def echo_registry_def echo_tool_def)
  from registry_operations_exact [OF ok, where fresh = 0 and items = "[Some (echo_tool ''b'')]" and names = "[''a'']"
      and call = default_tool_call] ok
  show ?thesis by (auto split: sum.splits)
qed

end
