(* ===== verification/FileTools.thy ===== *)
theory FileTools
  imports Workspace ToolRegistry
begin

text \<open>
  The file tools (\<open>tools/files.py\<close>, \<open>tools/workspace.py\<close>, \<open>tools/nofollow_unix.py\<close>) over the workspace
  binding. The text codecs come with the workspace's argument, \<open>json.loads\<close> with the call's; the
  glob of \<open>fnmatch\<close> and the search of a compiled regular expression are arguments.
\<close>

section \<open>Errors and the workspace port\<close>

datatype tool_error =
    ToolRuntimeError string
  | ToolValueError string
  | ToolOSError os_error
  | ToolOverflowError
  | ToolAttributeError

fun of_ws_error :: "ws_error \<Rightarrow> tool_error" where
  "of_ws_error (WorkspaceOSError e) = ToolOSError e"
| "of_ws_error (WorkspaceValueError t) = ToolValueError t"
| "of_ws_error (WorkspaceDirError t) = ToolOSError NotADirectoryError"

definition ws_result :: "(ws_error, 'a) result \<Rightarrow> (tool_error, 'a) result" where
  "ws_result r = (case r of Inl e \<Rightarrow> Inl (of_ws_error e) | Inr x \<Rightarrow> Inr x)"

definition os_tool :: "(os_error, 'a) result \<Rightarrow> (tool_error, 'a) result" where
  "os_tool r = (case r of Inl e \<Rightarrow> Inl (ToolOSError e) | Inr x \<Rightarrow> Inr x)"

definition display_path :: "ws_binding \<Rightarrow> string \<Rightarrow> string" where
  "display_path wk p = (case relpath (ow_cwd (wk_world wk)) p (get_cwd wk) of Inl _ \<Rightarrow> p | Inr rel \<Rightarrow> rel)"

definition resolve_readable :: "ws_binding option \<Rightarrow> string \<Rightarrow> (tool_error, string \<times> string) result" where
  "resolve_readable ws p = (case ws of
       None \<Rightarrow> Inl (ToolRuntimeError ''workspace is not configured'')
     | Some wk \<Rightarrow> bind_result (ws_result (bound_resolve_path wk p)) (\<lambda>resolved.
         if \<not> bound_can_read wk resolved then Inl (ToolRuntimeError ''path is outside readable workspace roots'')
         else Inr (resolved, display_path wk resolved)))"

definition resolve_writable :: "ws_binding option \<Rightarrow> string \<Rightarrow> (tool_error, string \<times> string) result" where
  "resolve_writable ws p = (case ws of
       None \<Rightarrow> Inl (ToolRuntimeError ''workspace is not configured'')
     | Some wk \<Rightarrow> bind_result (ws_result (bound_resolve_path wk p)) (\<lambda>resolved.
         if \<not> bound_can_write wk resolved then Inl (ToolRuntimeError ''path is outside writable workspace roots'')
         else Inr (resolved, display_path wk resolved)))"

section \<open>Arguments\<close>

definition json_object :: "json option \<Rightarrow> (tool_error, json) result" where
  "json_object data = (case data of Some (JObject kvs) \<Rightarrow> Inr (JObject kvs) | _ \<Rightarrow> Inl (ToolValueError ''invalid JSON input''))"

text \<open>\<open>decode_args\<close>: \<open>TypeError\<close> and \<open>ValueError\<close> become one message; an overflow and a missing attribute pass.\<close>

definition decode_args :: "(string \<Rightarrow> json option) \<Rightarrow> json_env \<Rightarrow> string \<Rightarrow> ty \<Rightarrow> (tool_error, pyval) result" where
  "decode_args json_loads env text t = bind_result (json_object (json_loads text)) (\<lambda>data.
     case decode env t data of
       Inr v \<Rightarrow> Inr v
     | Inl DecodeOverflowError \<Rightarrow> Inl ToolOverflowError
     | Inl DecodeAttributeError \<Rightarrow> Inl ToolAttributeError
     | Inl _ \<Rightarrow> Inl (ToolValueError ''invalid JSON input''))"

definition decode_json_object :: "(string \<Rightarrow> json option) \<Rightarrow> string \<Rightarrow> (tool_error, json) result" where
  "decode_json_object json_loads text = json_object (json_loads text)"

abbreviation plain_field :: "string \<Rightarrow> ty \<Rightarrow> pyval \<Rightarrow> (string \<times> bool) \<times> ty \<times> pyval option" where
  "plain_field key t d \<equiv> ((key, False), t, Some d)"

definition read_file_args :: ty where
  "read_file_args = TData [plain_field ''path'' TStr (PStr ''''), plain_field ''start_line'' TInt (PInt 0),
     plain_field ''end_line'' TInt (PInt 0)]"

definition list_files_args :: ty where
  "list_files_args = TData [plain_field ''path'' TStr (PStr ''''), plain_field ''pattern'' TStr (PStr '''')]"

definition search_args :: ty where
  "search_args = TData [plain_field ''query'' TStr (PStr ''''), plain_field ''path'' TStr (PStr '''')]"

definition apply_patch_args :: ty where
  "apply_patch_args = TData [plain_field ''path'' TStr (PStr ''''), plain_field ''old_text'' TStr (PStr ''''),
     plain_field ''new_text'' TStr (PStr ''''), plain_field ''replace_all'' TBool (PBool False)]"

definition write_file_args :: ty where
  "write_file_args = TData [plain_field ''path'' TStr (PStr ''''), plain_field ''content'' TStr (PStr '''')]"

text \<open>The attributes of the decoded arguments; the codec gives them their types.\<close>

definition field_of :: "pyval \<Rightarrow> string \<Rightarrow> pyval" where
  "field_of v key = (case v of PData vs \<Rightarrow> (case map_of (map (\<lambda>((k, omit), x). (k, x)) vs) key of Some x \<Rightarrow> x | None \<Rightarrow> PNone) | _ \<Rightarrow> PNone)"

definition str_field :: "pyval \<Rightarrow> string \<Rightarrow> string" where
  "str_field v key = (case field_of v key of PStr s \<Rightarrow> s | _ \<Rightarrow> '''')"

definition int_field :: "pyval \<Rightarrow> string \<Rightarrow> int" where
  "int_field v key = (case field_of v key of PInt i \<Rightarrow> i | _ \<Rightarrow> 0)"

definition bool_field :: "pyval \<Rightarrow> string \<Rightarrow> bool" where
  "bool_field v key = (case field_of v key of PBool b \<Rightarrow> b | _ \<Rightarrow> False)"

definition object_schema :: "(string \<times> json) list \<Rightarrow> string list \<Rightarrow> json" where
  "object_schema properties required = JObject ([(''type'', JString ''object''), (''properties'', JObject properties)]
     @ (if required \<noteq> [] then [(''required'', JList (map JString required))] else []))"

section \<open>Reading\<close>

definition max_tool_output_lines :: nat where "max_tool_output_lines = 200"

definition max_read_file_bytes :: int where "max_read_file_bytes = 10485760"

definition max_search_line_bytes :: int where "max_search_line_bytes = 1048576"

definition limit_lines :: "string list \<Rightarrow> string list" where
  "limit_lines lines = (if length lines \<le> max_tool_output_lines then lines
     else take max_tool_output_lines lines @ [''... truncated''])"

definition has_nul :: "string \<Rightarrow> bool" where
  "has_nul content \<longleftrightarrow> CHR 0x00 \<in> set content"

text \<open>\<open>os.open(O_RDONLY|O_NOFOLLOW)\<close> and \<open>os.fdopen\<close>, which refuses a directory.\<close>

definition open_workspace_file :: "tree \<Rightarrow> string \<Rightarrow> (os_error, string) result" where
  "open_workspace_file fs p = (case open_target fs True [] [] (split_on CHR ''/'' p) of
       Inl e \<Rightarrow> Inl e
     | Inr t \<Rightarrow> (case node_at fs t of
           None \<Rightarrow> Inl FileNotFoundError
         | Some DirNode \<Rightarrow> Inl IsADirectoryError
         | Some (FileNode content mode) \<Rightarrow> Inr content
         | Some (LinkNode target) \<Rightarrow> Inl SymlinkLoopError))"

definition read_file_capped :: "tree \<Rightarrow> string \<Rightarrow> int \<Rightarrow> (tool_error, string) result" where
  "read_file_capped fs p limit = bind_result (os_tool (open_workspace_file fs p)) (\<lambda>content.
     if int (length content) > limit
     then Inl (ToolRuntimeError (''file is too large to read ('' @ dec (length content) @ '' bytes)''))
     else Inr content)"

definition numbered_lines :: "string \<Rightarrow> int \<Rightarrow> int \<Rightarrow> string" where
  "numbered_lines content start end_line =
     (let lines = split_on newline (removesuffix content [newline]);
          first = if start \<le> 0 then 1 else start;
          final = if end_line \<le> 0 \<or> end_line > int (length lines) then int (length lines) else end_line
      in if first > final \<or> first > int (length lines) then ''''
         else join_with [newline] (limit_lines (map (\<lambda>n. dec n @ '': '' @ lines ! (n - 1)) [nat first ..< Suc (nat final)])))"

definition read_file_run ::
    "py_text \<Rightarrow> (string \<Rightarrow> json option) \<Rightarrow> json_env \<Rightarrow> ws_binding option \<Rightarrow> tool_call \<Rightarrow> (tool_error, string) result" where
  "read_file_run pt json_loads env ws call = bind_result (decode_args json_loads env (tc_input call) read_file_args) (\<lambda>args.
     bind_result (resolve_readable ws (str_field args ''path'')) (\<lambda>(p, rel). case ws of
         None \<Rightarrow> Inl (ToolRuntimeError ''workspace is not configured'')
       | Some wk \<Rightarrow> bind_result (read_file_capped (ws_tree wk) p max_read_file_bytes) (\<lambda>content.
           if has_nul content then Inl (ToolRuntimeError (''refusing to read binary file: '' @ rel))
           else Inr (numbered_lines (pt_decode pt content) (int_field args ''start_line'') (int_field args ''end_line'')))))"

section \<open>Patching and writing\<close>

text \<open>\<open>str.replace\<close> with a count of one, and without a count.\<close>

fun replace_one :: "string \<Rightarrow> string \<Rightarrow> string \<Rightarrow> string" where
  "replace_one old new [] = (if old = '''' then new else '''')"
| "replace_one old new (c # cs) =
     (if startswith (c # cs) old then new @ drop (length old) (c # cs) else c # replace_one old new cs)"

function replace_every :: "string \<Rightarrow> string \<Rightarrow> string \<Rightarrow> string" where
  "replace_every old new s =
     (if old = '''' then new @ concat (map (\<lambda>c. c # new) s)
      else if s = '''' then ''''
      else if startswith s old then new @ replace_every old new (drop (length old) s)
      else hd s # replace_every old new (tl s))"
  by pat_completeness auto
termination by (relation "measure (\<lambda>(old, new, s). length s)") auto

declare replace_every.simps [simp del]

text \<open>A state and what a call returns or raises. A failed open leaves the tree as it was.\<close>

definition apply_patch_run ::
    "py_text \<Rightarrow> (string \<Rightarrow> json option) \<Rightarrow> json_env \<Rightarrow> ws_binding \<Rightarrow> tool_call \<Rightarrow> ws_binding \<times> (tool_error, string) result" where
  "apply_patch_run pt json_loads env wk call =
     (case bind_result (decode_args json_loads env (tc_input call) apply_patch_args) (\<lambda>args.
        bind_result (resolve_writable (Some wk) (str_field args ''path'')) (\<lambda>(p, rel).
        bind_result (read_file_capped (ws_tree wk) p max_read_file_bytes) (\<lambda>content.
          let text = pt_decode pt content; old = str_field args ''old_text''; new = str_field args ''new_text''
          in if \<not> contains old text then Inl (ToolRuntimeError ''old_text not found'')
             else bind_result (os_tool (write_open (ws_tree wk) True p
               (pt_encode pt (if bool_field args ''replace_all'' then replace_every old new text else replace_one old new text)) 420))
               (\<lambda>fs. Inr (fs, ''patched '' @ rel))))) of
        Inl e \<Rightarrow> (wk, Inl e)
      | Inr (fs, answer) \<Rightarrow> (with_tree wk fs, Inr answer))"

definition write_file_run ::
    "py_text \<Rightarrow> (string \<Rightarrow> json option) \<Rightarrow> json_env \<Rightarrow> ws_binding \<Rightarrow> tool_call \<Rightarrow> ws_binding \<times> (tool_error, string) result" where
  "write_file_run pt json_loads env wk call =
     (case bind_result (decode_args json_loads env (tc_input call) write_file_args) (\<lambda>args.
        bind_result (resolve_writable (Some wk) (str_field args ''path'')) (\<lambda>(p, rel). Inr (p, rel, str_field args ''content''))) of
        Inl e \<Rightarrow> (wk, Inl e)
      | Inr (p, rel, content) \<Rightarrow> (case makedirs (ws_tree wk) (path_parts (dirname p)) of
            (fs1, Inl e) \<Rightarrow> (with_tree wk fs1, Inl (ToolOSError e))
          | (fs1, Inr _) \<Rightarrow> (case write_open fs1 True p (pt_encode pt content) 420 of
                Inl e \<Rightarrow> (with_tree wk fs1, Inl (ToolOSError e))
              | Inr fs2 \<Rightarrow> (with_tree wk fs2, Inr (''wrote '' @ rel)))))"

section \<open>Listing and searching\<close>

text \<open>
  The entries of a directory and the walk of \<open>os.walk(followlinks=False)\<close>: an entry that
  \<open>is_dir()\<close> follows to a directory is a directory name, and a link among those is not entered.
\<close>

definition child_names :: "tree \<Rightarrow> string list \<Rightarrow> string list" where
  "child_names fs d = map last (filter (\<lambda>q. q \<noteq> [] \<and> butlast q = d) (remdups (map fst fs)))"

definition entry_is_dir :: "tree \<Rightarrow> string list \<Rightarrow> string \<Rightarrow> bool" where
  "entry_is_dir fs d c = isdir fs (path_text (d @ [c]))"

definition file_names :: "tree \<Rightarrow> string list \<Rightarrow> string list" where
  "file_names fs d = sort (filter (\<lambda>c. \<not> entry_is_dir fs d c) (child_names fs d))"

definition sub_directories :: "tree \<Rightarrow> string list \<Rightarrow> string list" where
  "sub_directories fs d = filter (\<lambda>c. case node_at fs (d @ [c]) of Some (LinkNode _) \<Rightarrow> False | _ \<Rightarrow> True)
     (sort (filter (\<lambda>c. entry_is_dir fs d c \<and> c \<noteq> ''.git'') (child_names fs d)))"

definition tree_depth :: "tree \<Rightarrow> nat" where
  "tree_depth fs = Max (insert 0 (length ` set (map fst fs)))"

lemma child_in_tree: "c \<in> set (child_names fs d) \<longleftrightarrow> d @ [c] \<in> set (map fst fs)"
proof -
  have "c \<in> set (child_names fs d) \<longleftrightarrow> (\<exists>q \<in> set (map fst fs). q \<noteq> [] \<and> butlast q = d \<and> last q = c)"
    by (auto simp: child_names_def)
  also have "\<dots> \<longleftrightarrow> d @ [c] \<in> set (map fst fs)"
    by (metis append_butlast_last_id butlast_snoc last_snoc snoc_eq_iff_butlast)
  finally show ?thesis .
qed

lemma child_depth: "c \<in> set (sub_directories fs d) \<Longrightarrow> tree_depth fs - Suc (length d) < tree_depth fs - length d"
proof -
  assume "c \<in> set (sub_directories fs d)"
  then have "d @ [c] \<in> set (map fst fs)" using child_in_tree by (auto simp: sub_directories_def)
  then have "length (d @ [c]) \<in> length ` set (map fst fs)" by (rule imageI)
  then have "length (d @ [c]) \<le> tree_depth fs" unfolding tree_depth_def by (intro Max_ge) simp_all
  then show ?thesis by simp
qed

function walk_tree :: "tree \<Rightarrow> string list \<Rightarrow> (string list \<times> string list) list" where
  "walk_tree fs d = (d, file_names fs d) # concat (map (\<lambda>c. walk_tree fs (d @ [c])) (sub_directories fs d))"
  by pat_completeness auto
termination
  by (relation "measure (\<lambda>(fs, d). tree_depth fs - length d)") (auto dest: child_depth)

declare walk_tree.simps [simp del]

text \<open>\<open>_try_readable\<close> and \<open>_resolve_or_none\<close> catch \<open>OSError\<close> and \<open>RuntimeError\<close> only.\<close>

definition try_resolve :: "ws_binding option \<Rightarrow> string \<Rightarrow> (tool_error, (string \<times> string) option) result" where
  "try_resolve ws p = (case resolve_readable ws p of
       Inr (resolved, rel) \<Rightarrow> Inr (Some (resolved, rel))
     | Inl (ToolOSError e) \<Rightarrow> Inr None
     | Inl (ToolRuntimeError t) \<Rightarrow> Inr None
     | Inl e \<Rightarrow> Inl e)"

definition list_entry ::
    "(string \<Rightarrow> string \<Rightarrow> bool) \<Rightarrow> ws_binding option \<Rightarrow> string \<Rightarrow> string list \<Rightarrow> string \<Rightarrow> (tool_error, string list) result" where
  "list_entry glob ws pattern d c = bind_result (try_resolve ws (path_join (path_text d) c)) (\<lambda>found. case found of
       None \<Rightarrow> Inr []
     | Some (resolved, rel) \<Rightarrow> Inr (if pattern \<noteq> '''' \<and> \<not> glob c pattern then [] else [rel]))"

definition collect_files ::
    "(string \<Rightarrow> string \<Rightarrow> bool) \<Rightarrow> ws_binding \<Rightarrow> string \<Rightarrow> string \<Rightarrow> (tool_error, string list) result" where
  "collect_files glob wk root pattern =
     (if \<not> isdir (ws_tree wk) root then
        (if \<not> is_ok (stat_node (ws_tree wk) root) then Inl (ToolOSError FileNotFoundError)
         else bind_result (try_resolve (Some wk) root) (\<lambda>found.
           Inr (if pattern \<noteq> '''' \<and> \<not> glob (path_basename root) pattern then []
             else case found of None \<Rightarrow> [] | Some (resolved, rel) \<Rightarrow> [rel])))
      else bind_result (traverse (\<lambda>(d, names). bind_result (traverse (list_entry glob (Some wk) pattern d) names) (\<lambda>rs. Inr (concat rs)))
          (walk_tree (ws_tree wk) (path_parts root)))
        (\<lambda>found. Inr (sort (concat found))))"

definition list_files_run ::
    "(string \<Rightarrow> string \<Rightarrow> bool) \<Rightarrow> (string \<Rightarrow> json option) \<Rightarrow> json_env \<Rightarrow> ws_binding option \<Rightarrow> tool_call \<Rightarrow> (tool_error, string) result" where
  "list_files_run glob json_loads env ws call = bind_result
     (if tc_input call = '''' then Inr (PData [((''path'', False), PStr ''''), ((''pattern'', False), PStr '''')])
      else decode_args json_loads env (tc_input call) list_files_args) (\<lambda>args.
     let p = str_field args ''path'' in bind_result (resolve_readable ws (if p \<noteq> '''' then p else ''.'')) (\<lambda>(root, rel). case ws of
         None \<Rightarrow> Inl (ToolRuntimeError ''workspace is not configured'')
       | Some wk \<Rightarrow> bind_result (collect_files glob wk root (str_field args ''pattern'')) (\<lambda>files.
           Inr (join_with [newline] (limit_lines files)))))"

text \<open>One file of a search: a line over the bound ends the scan of the file.\<close>

definition strip_cr :: "string \<Rightarrow> string" where
  "strip_cr line = (if endswith line [CHR 0x0D] then butlast line else line)"

fun scan_lines :: "(string \<Rightarrow> string) \<Rightarrow> (string \<Rightarrow> bool) \<Rightarrow> string \<Rightarrow> nat \<Rightarrow> string list \<Rightarrow> string list" where
  "scan_lines dec_line pattern display n [] = []"
| "scan_lines dec_line pattern display n (raw # rest) =
     (if int (length (strip_cr raw)) > max_search_line_bytes then []
      else (let text = dec_line (strip_cr raw) in
        (if pattern text then [display @ '':'' @ dec (Suc n) @ '':'' @ text] else [])
          @ scan_lines dec_line pattern display (Suc n) rest))"

definition search_file ::
    "(string \<Rightarrow> string) \<Rightarrow> (string \<Rightarrow> bool) \<Rightarrow> ws_binding \<Rightarrow> string \<Rightarrow> (tool_error, string list) result" where
  "search_file dec_line pattern wk rel = bind_result (try_resolve (Some wk) rel) (\<lambda>found. case found of
       None \<Rightarrow> Inr []
     | Some (resolved, display) \<Rightarrow> (case read_file_capped (ws_tree wk) resolved max_read_file_bytes of
           Inl _ \<Rightarrow> Inr []
         | Inr content \<Rightarrow> Inr (if has_nul content then [] else scan_lines dec_line pattern display 0 (split_on newline content))))"

definition search_files ::
    "(string \<Rightarrow> string) \<Rightarrow> (string \<Rightarrow> bool) \<Rightarrow> ws_binding \<Rightarrow> string \<Rightarrow> (tool_error, string list) result" where
  "search_files dec_line pattern wk root = bind_result (collect_files (\<lambda>_ _. True) wk root '''') (\<lambda>files.
     bind_result (traverse (search_file dec_line pattern wk) files) (\<lambda>found. Inr (concat found)))"

text \<open>\<open>re.compile\<close> gives the search or raises.\<close>

definition search_run ::
    "(string \<Rightarrow> string) \<Rightarrow> (string \<Rightarrow> (tool_error, string \<Rightarrow> bool) result) \<Rightarrow> (string \<Rightarrow> json option) \<Rightarrow> json_env
     \<Rightarrow> ws_binding option \<Rightarrow> tool_call \<Rightarrow> (tool_error, string) result" where
  "search_run dec_line compile json_loads env ws call = bind_result (decode_args json_loads env (tc_input call) search_args) (\<lambda>args.
     if str_field args ''query'' = '''' then Inl (ToolRuntimeError ''query is required'')
     else bind_result (compile (str_field args ''query'')) (\<lambda>pattern. let p = str_field args ''path'' in
       bind_result (resolve_readable ws (if p \<noteq> '''' then p else ''.'')) (\<lambda>(root, rel). case ws of
           None \<Rightarrow> Inl (ToolRuntimeError ''workspace is not configured'')
         | Some wk \<Rightarrow> bind_result (search_files dec_line pattern wk root) (\<lambda>matches.
             Inr (join_with [newline] (limit_lines matches))))))"

end
