(* ===== verification/FileToolsSafety.thy ===== *)
theory FileToolsSafety
  imports FileTools
begin

text \<open>
  What the file tools may do to the tree, and what they report: a write touches the checked
  path and the missing directories above it, a patch replaces exactly the expected text, a
  listing has exactly the readable files, and a reading shows the lines of the file.
\<close>

section \<open>Creating directories along a canonical path\<close>

definition tree_ok :: "tree \<Rightarrow> bool" where
  "tree_ok fs \<longleftrightarrow> list_all (\<lambda>q. clean_names q \<and> node_at fs (butlast q) = Some DirNode) (map fst fs)"

lemma tree_ok_parent: "tree_ok fs \<Longrightarrow> node_at fs (d @ [c]) = Some n \<Longrightarrow> node_at fs d = Some DirNode"
  by (auto simp: tree_ok_def node_at_def list_all_iff dest!: map_of_SomeD)

lemma canonical_butlast: "canonical fs (cs @ [c]) \<Longrightarrow> canonical fs cs"
proof -
  assume "canonical fs (cs @ [c])"
  then obtain q rest where q: "cs @ [c] = q @ rest" "real_path fs q" "clean_names rest"
    "rest = [] \<or> follow fs [] q [hd rest] = Inl FileNotFoundError" by (auto simp: canonical_def)
  show ?thesis
  proof (cases rest rule: rev_cases)
    case Nil
    with q have "real_path fs (cs @ [c])" by simp
    from real_butlast [OF this] have "real_path fs cs" by simp
    then show ?thesis unfolding canonical_def by (intro exI [of _ cs] exI [of _ "[]"]) simp
  next
    case (snoc rs r)
    with q have "cs = q @ rs" "clean_names rs" by simp_all
    moreover from snoc q(4) have "rs = [] \<or> follow fs [] q [hd rs] = Inl FileNotFoundError" by (cases rs) auto
    ultimately show ?thesis using q(2) unfolding canonical_def by blast
  qed
qed

lemma canonical_follow:
  assumes "canonical fs cs" and "follow fs [] [] cs = Inr d"
  shows "d = cs" and "real_path fs cs"
proof -
  obtain q rest where q: "cs = q @ rest" "real_path fs q" "rest = [] \<or> follow fs [] q [hd rest] = Inl FileNotFoundError"
    using assms(1) by (auto simp: canonical_def)
  have "rest = []"
  proof (rule ccontr)
    assume "rest \<noteq> []"
    then obtain r rs where "rest = r # rs" by (cases rest) auto
    with q resolve_beyond [OF q(2), of r rs] assms(2) show False by simp
  qed
  with q show "real_path fs cs" by simp
  with resolve_self [of fs "[]" cs "[]"] assms(2) show "d = cs" by simp
qed

lemma real_dir_under:
  "real_path fs (d @ [c]) \<Longrightarrow> node_at fs d = Some DirNode"
  by (auto simp: real_path_def dest: spec [of _ "length d"])

text \<open>What \<open>makedirs\<close> adds: directories that were missing, on the way to its argument.\<close>

definition added :: "tree \<Rightarrow> tree \<Rightarrow> string list \<Rightarrow> bool" where
  "added fs fs' cs \<longleftrightarrow> (\<forall>q. node_at fs' q = node_at fs q \<or> prefix q cs \<and> node_at fs q = None \<and> node_at fs' q = Some DirNode)"

lemma added_refl [simp]: "added fs fs cs"
  by (simp add: added_def)

lemma added_set:
  "added fs fs' cs \<Longrightarrow> node_at fs' (cs @ [c]) = None \<Longrightarrow> added fs (tree_set fs' (cs @ [c]) DirNode) (cs @ [c])"
  unfolding added_def node_at_set by (auto simp: prefix_snoc) (metis option.distinct(1))

lemma added_longer: "added fs fs' cs \<Longrightarrow> added fs fs' (cs @ [c])"
  unfolding added_def by (metis prefix_append)

lemma added_outside: "added fs fs' d \<Longrightarrow> \<not> prefix q d \<Longrightarrow> node_at fs' q = node_at fs q"
  by (auto simp: added_def)

lemma not_prefix_longer: "\<not> prefix (d @ [c]) d"
  by (metis append_Nil2 append_prefixD not_Cons_self2 prefix_order.antisym self_append_conv prefixI)

lemma real_path_set:
  assumes "real_path fs d" and "node_at fs d = Some DirNode" and "clean_name c"
  shows "real_path (tree_set fs (d @ [c]) DirNode) (d @ [c])"
  using assms by (auto simp: real_path_def node_at_set less_Suc_eq)

lemma lstat_under: "node_at fs d = Some DirNode \<Longrightarrow> lstat_child fs d c = (case node_at fs (d @ [c]) of None \<Rightarrow> Inl FileNotFoundError | Some n \<Rightarrow> Inr n)"
  by (simp add: lstat_child_def)

lemma not_dir_beyond:
  assumes "\<not> is_dir_at fs cs" and "clean_names (cs @ [c])"
  shows "\<not> is_dir_at fs (cs @ [c])" and "is_ok (mkdir fs (cs @ [c])) \<Longrightarrow> False"
proof -
  have stuck: "\<exists>e. lstat_child fs d c = Inl e \<and> e \<noteq> FileNotFoundError" if "follow fs [] [] cs = Inr d" for d
  proof -
    have "real_path fs d"
      by (rule resolve_real [OF that]) (use assms(2) in \<open>auto simp: list_all_iff clean_name_def\<close>)
    then obtain n where "node_at fs d = Some n" "\<not> is_LinkNode n" by (auto simp: real_path_def)
    with assms(1) that show ?thesis by (cases n) (auto simp: is_dir_at_def lstat_child_def)
  qed
  show "\<not> is_dir_at fs (cs @ [c])"
    using stuck assms(2) by (auto simp: is_dir_at_def resolve_append bind_result_def clean_name_def split: sum.splits)
  show "False" if "is_ok (mkdir fs (cs @ [c]))"
    using stuck that by (auto simp: mkdir_def is_ok_def split: sum.splits os_error.splits)
qed

lemma mkdir_real:
  assumes "canonical fs (d @ [c])" and "real_path fs' d" and "node_at fs' d = Some DirNode"
    and "added fs fs' d" and "node_at fs' (d @ [c]) = node_at fs (d @ [c])" and "mkdir_ok fs' (d @ [c]) = (fs2, r)"
    and "fs' = fs \<or> node_at fs (d @ [c]) = None"
  shows "added fs fs2 (d @ [c]) \<and> (r = Inr () \<longrightarrow> real_path fs2 (d @ [c]) \<and> node_at fs2 (d @ [c]) = Some DirNode)
    \<and> (is_ok r \<or> \<not> is_dir_at fs2 (d @ [c]))"
proof -
  have c: "clean_name c" using canonical_clean [OF assms(1)] by simp
  have d: "follow fs' [] [] d = Inr d" using resolve_self [of fs' "[]" d "[]"] assms(2) by simp
  show ?thesis
  proof (cases "node_at fs' (d @ [c])")
    case None
    then have "mkdir fs' (d @ [c]) = Inr (tree_set fs' (d @ [c]) DirNode)"
      using d lstat_under [OF assms(3), of c] by (simp add: mkdir_def)
    then have "fs2 = tree_set fs' (d @ [c]) DirNode" "r = Inr ()" using assms(6) by (auto simp: mkdir_ok_def)
    then show ?thesis
      using added_set [OF assms(4) None] real_path_set [OF assms(2,3) c] by (simp add: node_at_set)
  next
    case (Some n)
    with assms(5,7) have "fs' = fs" by auto
    have "mkdir fs' (d @ [c]) = Inl FileExistsError"
      using d lstat_under [OF assms(3), of c] Some by (simp add: mkdir_def)
    then have r: "fs2 = fs" "r = (if is_dir_at fs (d @ [c]) then Inr () else Inl FileExistsError)"
      using assms(6) \<open>fs' = fs\<close> by (auto simp: mkdir_ok_def)
    have "real_path fs (d @ [c]) \<and> node_at fs (d @ [c]) = Some DirNode" if "is_dir_at fs (d @ [c])"
      using that canonical_follow [OF assms(1)] by (auto simp: is_dir_at_def split: sum.splits)
    with r show ?thesis by (simp split: if_splits)
  qed
qed

lemma makedirs_adds:
  assumes "tree_ok fs"
  shows "canonical fs cs \<Longrightarrow> makedirs fs cs = (fs', r) \<Longrightarrow>
    added fs fs' cs \<and> (r = Inr () \<longrightarrow> real_path fs' cs \<and> node_at fs' cs = Some DirNode) \<and> (is_ok r \<or> \<not> is_dir_at fs' cs)"
proof (induction cs arbitrary: fs' r rule: rev_induct)
  case Nil
  have "mkdir_ok fs [] = (fs, Inr ())" by (simp add: mkdir_ok_def mkdir_def is_dir_at_def node_at_def)
  then have "fs' = fs" "r = Inr ()" using Nil by (simp_all add: makedirs.simps [of fs "[]"])
  then show ?case by (simp add: node_at_def)
next
  case (snoc c d)
  have clean: "clean_names (d @ [c])" using canonical_clean [OF snoc.prems(1)] .
  have canon: "canonical fs d" using canonical_butlast [OF snoc.prems(1)] .
  show ?case
  proof (cases "is_ok (follow fs [] [] d)")
    case True
    then obtain x where x: "follow fs [] [] d = Inr x" by (auto simp: is_ok_iff)
    note real = canonical_follow [OF canon x]
    have made: "mkdir_ok fs (d @ [c]) = (fs', r)" using snoc.prems(2) True by (simp add: makedirs.simps [of fs "d @ [c]"])
    show ?thesis
    proof (cases "node_at fs d = Some DirNode")
      case True
      from mkdir_real [OF snoc.prems(1) real(2) True added_refl refl made] show ?thesis by simp
    next
      case False
      then have nd: "\<not> is_dir_at fs d" using x real by (simp add: is_dir_at_def)
      note stuck = not_dir_beyond [OF nd clean]
      then have "fs' = fs" "\<exists>e. r = Inl e" using made by (auto simp: mkdir_ok_def is_ok_def split: sum.splits)
      with stuck(1) show ?thesis by auto
    qed
  next
    case False
    then have "d \<noteq> []" by auto
    then have long: "\<not> length (d @ [c]) \<le> 1" by (cases d) auto
    obtain fs1 r1 where m: "makedirs fs d = (fs1, r1)" by fastforce
    note IH = snoc.IH [OF canon m]
    have missing: "node_at fs (d @ [c]) = None"
    proof (rule ccontr)
      assume "node_at fs (d @ [c]) \<noteq> None"
      then obtain n where "node_at fs (d @ [c]) = Some n" by blast
      then have dir: "node_at fs d = Some DirNode" using tree_ok_parent [OF assms] by blast
      obtain q rest where q: "d = q @ rest" "real_path fs q" "rest = [] \<or> follow fs [] q [hd rest] = Inl FileNotFoundError"
        using canon by (auto simp: canonical_def)
      have above: "node_at fs (take k d) = Some DirNode" if "k \<le> length d" for k
        using that
      proof (induction "length d - k" arbitrary: k)
        case (Suc m)
        then have k: "Suc k \<le> length d" by simp
        from Suc have "node_at fs (take (Suc k) d) = Some DirNode" by simp
        with k show ?case using tree_ok_parent [OF assms] by (metis Suc_le_eq take_Suc_conv_app_nth)
      qed (use dir in simp)
      then have "real_path fs d" using clean above [of "length d"] by (simp add: real_path_def)
      with resolve_self [of fs "[]" d "[]"] False show False by simp
    qed
    have "added fs fs1 d" using IH by simp
    then have same: "node_at fs1 (d @ [c]) = None" using added_outside [OF _ not_prefix_longer] missing by metis
    show ?thesis
    proof (cases r1)
      case (Inr u)
      then have "mkdir_ok fs1 (d @ [c]) = (fs', r)"
        using snoc.prems(2) False long m by (simp add: makedirs.simps [of fs "d @ [c]"])
      from mkdir_real [OF snoc.prems(1) _ _ _ _ this] IH Inr missing same show ?thesis by simp
    next
      case (Inl e)
      with IH have nd: "\<not> is_dir_at fs1 d" by simp
      note stuck = not_dir_beyond [OF nd clean]
      have "fs' = fs1 \<and> (\<exists>e. r = Inl e)"
        using snoc.prems(2) False long m Inl stuck
        by (cases e) (auto simp: makedirs.simps [of fs "d @ [c]"] mkdir_ok_def is_ok_def split: sum.splits)
      with stuck(1) IH show ?thesis by (auto intro: added_longer)
    qed
  qed
qed

section \<open>Writing where the check looked\<close>

lemma open_nofollow_real:
  assumes "real_path fs d" and "clean_names (d @ [c])" and "write_open fs True (path_text (d @ [c])) content mode = Inr fs'"
  shows "\<exists>m. fs' = tree_set fs (d @ [c]) (FileNode content m)"
proof -
  have c: "clean_name c" using assms(2) by simp
  have "open_target fs True [] [] (split_on CHR ''/'' (path_text (d @ [c]))) = open_target fs True [] [] (d @ [c])"
    using path_text_parts [OF assms(2)] open_target_slash [of "d @ [c]" fs True "[]" "[]"] by simp
  with assms(3) obtain x where x: "open_target fs True [] [] (d @ [c]) = Inr x" "\<exists>m. fs' = tree_set fs x (FileNode content m)"
    by (auto simp: write_open_def split: sum.splits option.splits node.splits)
  moreover have "x = d @ [c]"
    using x(1) open_target_real [OF assms(1) c, of True "[]"] by (auto split: sum.splits os_error.splits node.splits)
  ultimately show ?thesis by simp
qed

lemma write_open_root: "write_open fs True (path_text []) content mode = Inl IsADirectoryError"
  by (simp add: write_open_def path_text_def open_target.simps [of fs True "[]" "[]" "['''', '''']"] node_at_def)

lemma resolve_writable_Inr:
  "resolve_writable (Some wk) p = Inr (s, rel) \<Longrightarrow> writable wk p = Inr s \<and> rel = display_path wk s"
  by (auto simp: resolve_writable_def writable_def ws_result_def bind_result_Inr_iff split: sum.splits if_splits)

text \<open>The whole effect of a writing tool: one checked file, and missing directories above it.\<close>

definition contained_change :: "ctx_policy \<Rightarrow> tree \<Rightarrow> tree \<Rightarrow> string list \<Rightarrow> bool" where
  "contained_change cx fs fs' cs \<longleftrightarrow> canonical fs cs \<and> write_root cx cs
     \<and> (\<forall>q. node_at fs' q = node_at fs q \<or> q = cs \<and> (\<exists>t m. node_at fs' q = Some (FileNode t m))
         \<or> prefix q cs \<and> node_at fs q = None \<and> node_at fs' q = Some DirNode)"

lemma contained_added: "canonical fs cs \<Longrightarrow> write_root cx cs \<Longrightarrow> added fs fs' ds \<Longrightarrow> prefix ds cs \<Longrightarrow> contained_change cx fs fs' cs"
  unfolding contained_change_def added_def by (meson prefix_order.trans)

lemma contained_set: "contained_change cx fs fs' cs \<Longrightarrow> contained_change cx fs (tree_set fs' cs (FileNode t m)) cs"
  unfolding contained_change_def node_at_set by auto

lemma apply_patch_contained:
  assumes "wk_context wk = Some cx" and "policy_ok cx" and "apply_patch_run pt jl env wk call = (wk', out)"
  shows "wk' = wk \<or> (\<exists>cs fs'. wk' = with_tree wk fs' \<and> contained_change cx (ws_tree wk) fs' cs)"
proof (cases "wk' = wk")
  case False
  with assms(3) obtain p s rel content mode fs' where r: "resolve_writable (Some wk) p = Inr (s, rel)"
    and w: "write_open (ws_tree wk) True s content mode = Inr fs'" and wk': "wk' = with_tree wk fs'"
    by (auto simp: apply_patch_run_def os_tool_def Let_def bind_result_Inr_iff split: sum.splits if_splits prod.splits)
  from writable_iff(1) [OF assms(1,2)] resolve_writable_Inr [OF r] obtain cs
    where cs: "s = path_text cs" "canonical (ws_tree wk) cs" "write_root cx cs" by blast
  with open_canonical [OF cs(2)] w obtain m where "fs' = tree_set (ws_tree wk) cs (FileNode content m)" by blast
  with contained_set [OF contained_added [OF cs(2,3) added_refl prefix_order.refl]] wk' show ?thesis by blast
qed simp

lemma write_file_contained:
  assumes "wk_context wk = Some cx" and "policy_ok cx" and "tree_ok (ws_tree wk)" and "write_file_run pt jl env wk call = (wk', out)"
  shows "wk' = wk \<or> (\<exists>cs fs'. wk' = with_tree wk fs' \<and> contained_change cx (ws_tree wk) fs' cs)"
proof (cases "wk' = wk")
  case False
  let ?asked = "bind_result (decode_args jl env (tc_input call) write_file_args) (\<lambda>args.
    bind_result (resolve_writable (Some wk) (str_field args ''path'')) (\<lambda>(p, rel). Inr (p, rel, str_field args ''content'')))"
  from False assms(4) obtain s rel body where a: "?asked = Inr (s, rel, body)"
    by (cases ?asked) (auto simp: write_file_run_def)
  then obtain p where r: "resolve_writable (Some wk) p = Inr (s, rel)" by (auto simp: bind_result_Inr_iff)
  obtain fs1 r1 where m: "makedirs (ws_tree wk) (path_parts (dirname s)) = (fs1, r1)" by fastforce
  define content where "content = pt_encode pt body"
  have out: "wk' = with_tree wk fs1 \<or> (r1 = Inr () \<and> (\<exists>fs2. write_open fs1 True s content 420 = Inr fs2 \<and> wk' = with_tree wk fs2))"
    using assms(4) a m unfolding content_def by (cases r1; cases "write_open fs1 True s (pt_encode pt body) 420") (auto simp: write_file_run_def)
  from writable_iff(1) [OF assms(1,2)] resolve_writable_Inr [OF r] obtain cs
    where cs: "s = path_text cs" "canonical (ws_tree wk) cs" "write_root cx cs" by blast
  show ?thesis
  proof (cases cs rule: rev_cases)
    case Nil
    have "path_parts (dirname s) = []" by (simp add: cs(1) Nil path_text_def dirname_def path_basename_def path_parts_def)
    with m makedirs_adds [OF assms(3), of "[]"] cs(2) Nil have "added (ws_tree wk) fs1 []" by simp
    from contained_added [OF cs(2,3) this] Nil have "contained_change cx (ws_tree wk) fs1 cs" by simp
    with out write_open_root cs(1) Nil show ?thesis by auto
  next
    case (snoc d c)
    have clean: "clean_names (d @ [c])" using canonical_clean [OF cs(2)] by (simp add: snoc)
    have "dirname s = path_text d"
      using basename_rooted(2) [OF slash_root clean] by (simp add: cs(1) snoc path_text_rooted)
    then have parts: "path_parts (dirname s) = d" using path_parts_text [of d] clean by simp
    have "canonical (ws_tree wk) d" using canonical_butlast cs(2) snoc by blast
    note adds = makedirs_adds [OF assms(3) this m [unfolded parts]]
    have base: "contained_change cx (ws_tree wk) fs1 cs"
      using contained_added [OF cs(2,3), of fs1 d] adds by (simp add: snoc)
    from out show ?thesis
    proof
      assume "r1 = Inr () \<and> (\<exists>fs2. write_open fs1 True s content 420 = Inr fs2 \<and> wk' = with_tree wk fs2)"
      then obtain fs2 where r1: "r1 = Inr ()" and fs2: "write_open fs1 True (path_text (d @ [c])) content 420 = Inr fs2" "wk' = with_tree wk fs2"
        by (auto simp: cs(1) snoc)
      from adds r1 have "real_path fs1 d" by simp
      from open_nofollow_real [OF this clean fs2(1)] obtain m where "fs2 = tree_set fs1 cs (FileNode content m)" by (auto simp: snoc)
      with contained_set [OF base] fs2(2) show ?thesis by blast
    qed (use base in blast)
  qed
qed simp

section \<open>Replacing text\<close>

lemma replace_one_first:
  "contains old t \<Longrightarrow> \<exists>a b. t = a @ old @ b \<and> replace_one old new t = a @ new @ b
     \<and> (\<forall>a' b'. t = a' @ old @ b' \<longrightarrow> length a \<le> length a')"
proof (induction t)
  case Nil
  then show ?case by auto
next
  case (Cons c cs)
  show ?case
  proof (cases "startswith (c # cs) old")
    case True
    then obtain b where b: "c # cs = old @ b" by (auto simp: startswith_iff)
    then have "drop (length old) (c # cs) = b" by simp
    with True have "replace_one old new (c # cs) = new @ b" by (simp only: replace_one.simps if_True)
    with b show ?thesis by (intro exI [of _ "[]"] exI [of _ b]) simp
  next
    case False
    with Cons obtain a b where ab: "cs = a @ old @ b" "replace_one old new cs = a @ new @ b"
      "\<And>a' b'. cs = a' @ old @ b' \<Longrightarrow> length a \<le> length a'" by auto
    have "length (c # a) \<le> length a'" if "c # cs = a' @ old @ b'" for a' b'
    proof (cases a')
      case Nil
      with that False show ?thesis by (auto simp: startswith_iff)
    next
      case (Cons x a'')
      with that ab(3) [of a'' b'] show ?thesis by simp
    qed
    with False ab(1,2) show ?thesis by (intro exI [of _ "c # a"] exI [of _ b]) simp
  qed
qed

lemma replace_every_parts:
  assumes "old \<noteq> ''''"
  shows "\<exists>parts. parts \<noteq> [] \<and> t = join_with old parts \<and> replace_every old new t = join_with new parts
     \<and> (\<forall>p \<in> set parts. \<not> contains old p)"
  using assms
proof (induction "length t" arbitrary: t rule: less_induct)
  case less
  consider "t = ''''" | b where "t = old @ b" | c cs where "t = c # cs" "\<not> startswith t old"
    by (cases t) (auto simp: startswith_iff)
  then show ?case
  proof cases
    case 1
    then show ?thesis using less.prems by (intro exI [of _ "['''']"]) (simp add: replace_every.simps [of old new "''''"])
  next
    case (2 b)
    with less.prems have "length b < length t" by simp
    from less.hyps [OF this less.prems] obtain parts where p: "parts \<noteq> []" "b = join_with old parts"
      "replace_every old new b = join_with new parts" "\<forall>p \<in> set parts. \<not> contains old p" by auto
    have "replace_every old new (old @ b) = new @ replace_every old new b"
      unfolding replace_every.simps [of old new "old @ b"] using less.prems by simp
    then have "replace_every old new t = new @ replace_every old new b" using 2 by simp
    with p less.prems 2 show ?thesis by (intro exI [of _ "'''' # parts"]) (simp add: join_with_Cons)
  next
    case (3 c cs)
    then have "length cs < length t" by simp
    from less.hyps [OF this less.prems] obtain p ps where p: "cs = join_with old (p # ps)"
      "replace_every old new cs = join_with new (p # ps)" "\<forall>p \<in> set (p # ps). \<not> contains old p"
      by (metis neq_Nil_conv)
    have "startswith t old" if "startswith (c # p) old"
    proof -
      from that obtain r where "c # p = old @ r" by (auto simp: startswith_iff)
      moreover have "\<exists>s. cs = p @ s" using p(1) by (cases ps) auto
      ultimately show ?thesis using 3(1) by (metis append_Cons append_assoc startswith_append)
    qed
    with 3(2) p(3) have "\<not> contains old (c # p)" by auto
    moreover have "replace_every old new t = c # replace_every old new cs"
      using less.prems 3 unfolding replace_every.simps [of old new t] by simp
    moreover have "join_with x ((c # p) # ps) = c # join_with x (p # ps)" for x by (cases ps) simp_all
    ultimately show ?thesis using p 3(1) by (intro exI [of _ "(c # p) # ps"]) simp
  qed
qed

definition patched :: "string \<Rightarrow> string \<Rightarrow> bool \<Rightarrow> string \<Rightarrow> string \<Rightarrow> bool" where
  "patched old new every before after \<longleftrightarrow>
     (if every then old = '''' \<or> (\<exists>parts. 1 < length parts \<and> before = join_with old parts \<and> after = join_with new parts
        \<and> (\<forall>p \<in> set parts. \<not> contains old p))
      else \<exists>a b. before = a @ old @ b \<and> after = a @ new @ b \<and> (\<forall>a' b'. before = a' @ old @ b' \<longrightarrow> length a \<le> length a'))"

lemma patched_replacement:
  assumes "contains old t"
  shows "patched old new every t (if every then replace_every old new t else replace_one old new t)"
proof (cases "every \<and> old \<noteq> ''''")
  case True
  with replace_every_parts [of old t new] obtain parts where p: "parts \<noteq> []" "t = join_with old parts"
    "replace_every old new t = join_with new parts" "\<forall>p \<in> set parts. \<not> contains old p" by auto
  have "1 < length parts"
  proof (rule ccontr)
    assume "\<not> 1 < length parts"
    with p(1) obtain x where "parts = [x]" by (cases parts) auto
    with p(2,4) assms show False by simp
  qed
  with p True show ?thesis by (auto simp: patched_def)
next
  case False
  then show ?thesis using replace_one_first [OF assms, of new] by (auto simp: patched_def)
qed

lemma read_file_capped_Inr:
  assumes "canonical fs cs" and "read_file_capped fs (path_text cs) limit = Inr content"
  shows "(\<exists>m. node_at fs cs = Some (FileNode content m)) \<and> int (length content) \<le> limit"
  using assms(2) open_target_canonical [OF assms(1)]
  by (auto simp: read_file_capped_def open_workspace_file_def os_tool_def bind_result_Inr_iff
      split: sum.splits option.splits node.splits if_splits)

section \<open>Walking and listing\<close>

lemma tree_ok_name: "tree_ok fs \<Longrightarrow> node_at fs (d @ [c]) = Some n \<Longrightarrow> clean_name c"
  by (auto simp: tree_ok_def node_at_def list_all_iff dest!: map_of_SomeD)

lemma entry_plain:
  assumes "real_path fs r" and "node_at fs r = Some DirNode" and "clean_name c" and "node_at fs (r @ [c]) = Some n" and "\<not> is_LinkNode n"
  shows "real_path fs (r @ [c])" and "entry_is_dir fs r c \<longleftrightarrow> n = DirNode"
proof -
  have "lstat_child fs r c = Inr n" using lstat_under [OF assms(2), of c] assms(4) by simp
  from real_child [OF assms(1) this assms(5,3)] show real: "real_path fs (r @ [c])" .
  then have "clean_names (r @ [c])" by (simp add: real_path_def)
  from resolve_path_text [OF this] resolve_self [of fs "[]" "r @ [c]" "[]"] real assms(4)
  show "entry_is_dir fs r c \<longleftrightarrow> n = DirNode" by (simp add: entry_is_dir_def isdir_def stat_node_def)
qed

lemma sub_directories_iff:
  assumes "tree_ok fs" and "real_path fs r" and "node_at fs r = Some DirNode"
  shows "c \<in> set (sub_directories fs r) \<longleftrightarrow> c \<noteq> ''.git'' \<and> node_at fs (r @ [c]) = Some DirNode"
proof (cases "node_at fs (r @ [c])")
  case None
  then have "r @ [c] \<notin> set (map fst fs)" by (simp add: node_at_def map_of_eq_None_iff)
  then show ?thesis using None child_in_tree by (auto simp: sub_directories_def)
next
  case (Some n)
  then have "r @ [c] \<in> set (map fst fs)" by (auto simp: node_at_def dest: map_of_SomeD intro: rev_image_eqI)
  then have child: "c \<in> set (child_names fs r)" using child_in_tree by blast
  show ?thesis
  proof (cases "is_LinkNode n")
    case False
    with entry_plain(2) [OF assms(2,3) tree_ok_name [OF assms(1) Some] Some] child Some show ?thesis
      by (cases n) (auto simp: sub_directories_def)
  qed (use Some in \<open>auto simp: sub_directories_def is_LinkNode_def\<close>)
qed

definition walked :: "tree \<Rightarrow> string list \<Rightarrow> string list \<Rightarrow> bool" where
  "walked fs r d \<longleftrightarrow> (\<exists>ms. d = r @ ms \<and> ''.git'' \<notin> set ms \<and> (\<forall>k \<le> length ms. node_at fs (r @ take k ms) = Some DirNode))"

lemma walked_step:
  "walked fs r d \<longleftrightarrow> node_at fs r = Some DirNode \<and>
     (d = r \<or> (\<exists>c. c \<noteq> ''.git'' \<and> node_at fs (r @ [c]) = Some DirNode \<and> walked fs (r @ [c]) d))"
proof
  assume "walked fs r d"
  then obtain ms where ms: "d = r @ ms" "''.git'' \<notin> set ms" "\<And>k. k \<le> length ms \<Longrightarrow> node_at fs (r @ take k ms) = Some DirNode"
    by (auto simp: walked_def)
  show "node_at fs r = Some DirNode \<and> (d = r \<or> (\<exists>c. c \<noteq> ''.git'' \<and> node_at fs (r @ [c]) = Some DirNode \<and> walked fs (r @ [c]) d))"
  proof (cases ms)
    case (Cons c cs)
    have "node_at fs ((r @ [c]) @ take k cs) = Some DirNode" if "k \<le> length cs" for k
      using ms(3) [of "Suc k"] that Cons by simp
    then have "walked fs (r @ [c]) d" using ms(1,2) Cons by (auto simp: walked_def)
    with ms(2) ms(3) [of 0] ms(3) [of 1] Cons show ?thesis by auto
  qed (use ms(1) ms(3) [of 0] in simp)
next
  assume r: "node_at fs r = Some DirNode \<and> (d = r \<or> (\<exists>c. c \<noteq> ''.git'' \<and> node_at fs (r @ [c]) = Some DirNode \<and> walked fs (r @ [c]) d))"
  then consider "d = r" | c cs where "c \<noteq> ''.git''" "d = (r @ [c]) @ cs" "''.git'' \<notin> set cs"
      "\<And>k. k \<le> length cs \<Longrightarrow> node_at fs ((r @ [c]) @ take k cs) = Some DirNode"
    by (auto simp: walked_def)
  then show "walked fs r d"
  proof cases
    case (2 c cs)
    have "node_at fs (r @ take k (c # cs)) = Some DirNode" if "k \<le> length (c # cs)" for k
      using r 2(4) that by (cases k) auto
    with 2 show ?thesis unfolding walked_def by (intro exI [of _ "c # cs"]) auto
  qed (use r in \<open>auto simp: walked_def intro!: exI [of _ "[]"]\<close>)
qed

lemma walk_tree_mem:
  "tree_ok fs \<Longrightarrow> real_path fs r \<Longrightarrow> node_at fs r = Some DirNode \<Longrightarrow>
    (d, names) \<in> set (walk_tree fs r) \<longleftrightarrow> names = file_names fs d \<and> walked fs r d"
proof (induction fs r rule: walk_tree.induct)
  case (1 fs r)
  note sub = sub_directories_iff [OF 1(2) 1(3,4)]
  have IH: "(d, names) \<in> set (walk_tree fs (r @ [c])) \<longleftrightarrow> names = file_names fs d \<and> walked fs (r @ [c]) d"
    if "c \<in> set (sub_directories fs r)" for c
  proof -
    from that sub have n: "node_at fs (r @ [c]) = Some DirNode" by simp
    with entry_plain(1) [OF 1(3,4) tree_ok_name [OF 1(2) n] n] have "real_path fs (r @ [c])" by simp
    with 1(1) [OF that] n 1(2) show ?thesis by simp
  qed
  have "(d, names) \<in> set (walk_tree fs r) \<longleftrightarrow> (d = r \<and> names = file_names fs r)
      \<or> (\<exists>c \<in> set (sub_directories fs r). (d, names) \<in> set (walk_tree fs (r @ [c])))"
    by (subst walk_tree.simps) auto
  also have "\<dots> \<longleftrightarrow> names = file_names fs d \<and> walked fs r d"
    using IH sub walked_step [of fs r d] 1(4) by auto
  finally show ?case .
qed

section \<open>Collecting\<close>

lemma try_resolve_ok:
  assumes "wk_context wk = Some cx" and "p \<noteq> ''''"
  shows "try_resolve (Some wk) p = Inr (case resolve_readable (Some wk) p of Inl _ \<Rightarrow> None | Inr x \<Rightarrow> Some x)"
proof -
  have "\<exists>e. x = WorkspaceOSError e" if "nearest fs cur m = Inl x" for fs cur m x
    using that
  proof (induction fs cur m rule: nearest.induct)
    case (1 fs cur m)
    then show ?case
      by (subst (asm) (2) nearest.simps) (auto split: sum.splits os_error.splits if_splits)
  qed
  then have "\<exists>e. x = WorkspaceOSError e" if "resolve_path (wk_world wk) cx p = Inl x" for x
    using that assms(2) by (auto simp: resolve_path_def canonicalNearest_def)
  then show ?thesis using assms(1)
    by (cases "resolve_path (wk_world wk) cx p")
      (fastforce simp: try_resolve_def resolve_readable_def bound_resolve_path_def ws_result_def)+
qed

text \<open>How an entry of a listing is shown, if at all.\<close>

definition listed :: "(string \<Rightarrow> string \<Rightarrow> bool) \<Rightarrow> ws_binding \<Rightarrow> string \<Rightarrow> string list \<Rightarrow> string \<Rightarrow> string list" where
  "listed glob wk pattern d c = (case resolve_readable (Some wk) (path_text (d @ [c])) of
     Inl _ \<Rightarrow> [] | Inr (resolved, rel) \<Rightarrow> if pattern \<noteq> '''' \<and> \<not> glob c pattern then [] else [rel])"

lemma path_join_text: "clean_names (d @ [c]) \<Longrightarrow> path_join (path_text d) c = path_text (d @ [c])"
proof -
  assume c: "clean_names (d @ [c])"
  have "\<not> isabs c" using c by (auto simp: isabs_def startswith_iff clean_name_def)
  then show ?thesis using c joined_end [of d]
    by (cases "d = []") (auto simp: path_join_def path_text_def endswith_slash joined_snoc)
qed

lemma list_entry_ok:
  assumes "wk_context wk = Some cx" and "clean_names (d @ [c])"
  shows "list_entry glob (Some wk) pattern d c = Inr (listed glob wk pattern d c)"
proof -
  have "path_text (d @ [c]) \<noteq> ''''" by (simp add: path_text_def)
  from try_resolve_ok [OF assms(1) this] show ?thesis
    by (auto simp: list_entry_def listed_def path_join_text [OF assms(2)] split: sum.splits)
qed

lemma traverse_map: "(\<And>x. x \<in> set xs \<Longrightarrow> f x = Inr (g x)) \<Longrightarrow> traverse f xs = Inr (map g xs)"
  by (induction xs) auto

definition entry_at :: "tree \<Rightarrow> string list \<Rightarrow> string list \<Rightarrow> string \<Rightarrow> bool" where
  "entry_at fs r d c \<longleftrightarrow> walked fs r d \<and> node_at fs (d @ [c]) \<noteq> None \<and> \<not> entry_is_dir fs d c"

lemma file_names_iff: "c \<in> set (file_names fs d) \<longleftrightarrow> node_at fs (d @ [c]) \<noteq> None \<and> \<not> entry_is_dir fs d c"
  using child_in_tree [of c fs d] map_of_eq_None_iff [of fs "d @ [c]"] by (auto simp: file_names_def node_at_def)

lemma walked_real:
  assumes "tree_ok fs" and "real_path fs r"
  shows "walked fs r d \<Longrightarrow> clean_names d"
proof -
  assume "walked fs r d"
  then obtain ms where ms: "d = r @ ms" "\<And>k. k \<le> length ms \<Longrightarrow> node_at fs (r @ take k ms) = Some DirNode"
    by (auto simp: walked_def)
  have "clean_name (ms ! i)" if "i < length ms" for i
    using ms(2) [of "Suc i"] that tree_ok_name [OF assms(1), of "r @ take i ms" "ms ! i"] by (simp add: take_Suc_conv_app_nth)
  then have "clean_names ms" by (simp add: list_all_length)
  with ms(1) assms(2) show ?thesis by (simp add: real_path_def)
qed

lemma in_concat_pairs:
  "x \<in> set (concat (map (\<lambda>(d, ns). concat (map (f d) ns)) ps)) \<longleftrightarrow> (\<exists>d ns c. (d, ns) \<in> set ps \<and> c \<in> set ns \<and> x \<in> set (f d c))"
  by (induction ps) auto

lemma collect_files_dir:
  assumes "wk_context wk = Some cx" and "tree_ok (ws_tree wk)" and "real_path (ws_tree wk) r" and "node_at (ws_tree wk) r = Some DirNode"
  shows "\<exists>files. collect_files glob wk (path_text r) pattern = Inr files \<and> sorted files
    \<and> (\<forall>rel. rel \<in> set files \<longleftrightarrow> (\<exists>d c. entry_at (ws_tree wk) r d c \<and> rel \<in> set (listed glob wk pattern d c)))"
proof -
  let ?fs = "ws_tree wk"
  have clean: "clean_names r" using assms(3) by (simp add: real_path_def)
  have dir: "isdir ?fs (path_text r)"
    using resolve_path_text [OF clean] resolve_self [of ?fs "[]" r "[]"] assms(3,4) by (simp add: isdir_def stat_node_def)
  have parts: "path_parts (path_text r) = r" using path_parts_text [OF clean] .
  let ?dir = "\<lambda>(d, names). bind_result (traverse (list_entry glob (Some wk) pattern d) names) (\<lambda>rs. Inr (concat rs))"
  let ?out = "\<lambda>(d, names). concat (map (listed glob wk pattern d) names)"
  have "?dir p = Inr (?out p)" if "p \<in> set (walk_tree ?fs r)" for p
  proof -
    obtain d names where p: "p = (d, names)" by fastforce
    with that walk_tree_mem [OF assms(2-4)] have w: "names = file_names ?fs d" "walked ?fs r d" by auto
    have "clean_names (d @ [c])" if "c \<in> set names" for c
      using that w file_names_iff tree_ok_name [OF assms(2), of d c] walked_real [OF assms(2,3)] by auto
    then have "traverse (list_entry glob (Some wk) pattern d) names = Inr (map (listed glob wk pattern d) names)"
      by (intro traverse_map list_entry_ok [OF assms(1)])
    then show ?thesis by (simp add: p)
  qed
  from traverse_map [OF this] have t: "traverse ?dir (walk_tree ?fs r) = Inr (map ?out (walk_tree ?fs r))" .
  have "rel \<in> set (concat (map ?out (walk_tree ?fs r))) \<longleftrightarrow> (\<exists>d c. entry_at ?fs r d c \<and> rel \<in> set (listed glob wk pattern d c))" for rel
    unfolding in_concat_pairs using walk_tree_mem [OF assms(2-4)] file_names_iff unfolding entry_at_def by metis
  then show ?thesis using dir t parts by (simp add: collect_files_def)
qed

section \<open>Properties\<close>

text \<open>
  C13. The writing tools stay where the policy looked. Whatever the input and whether the call
  succeeds or fails, \<open>write_file\<close> and \<open>apply_patch\<close> leave the binding's policy alone and change at most
  one file, at a canonical path under a writable root, plus directories that were missing above it.
\<close>
theorem write_tools_contained:
  assumes "wk_context wk = Some cx" and "policy_ok cx" and "tree_ok (ws_tree wk)"
    and "wk' = fst (write_file_run pt jl env wk call) \<or> wk' = fst (apply_patch_run pt jl env wk call)"
  shows "wk' = wk \<or> (\<exists>cs fs'. wk' = with_tree wk fs' \<and> contained_change cx (ws_tree wk) fs' cs)"
  using assms(4)
proof
  assume "wk' = fst (write_file_run pt jl env wk call)"
  then show ?thesis using write_file_contained [OF assms(1-3), of pt jl env call] by (cases "write_file_run pt jl env wk call") auto
next
  assume "wk' = fst (apply_patch_run pt jl env wk call)"
  then show ?thesis using apply_patch_contained [OF assms(1,2), of pt jl env call] by (cases "apply_patch_run pt jl env wk call") auto
qed

text \<open>
  C25. A patch replaces the expected text and nothing else. A call that raises changes nothing. One
  that succeeds found a file of at most 10 MiB at the checked path, whose text holds \<open>old_text\<close>; it
  keeps the mode, touches no other node, and writes the encoded text in which exactly the first
  occurrence is replaced, or with \<open>replace_all\<close> every occurrence from left to right. The bytes of
  the file go through the decoder: what it cannot decode is not written back.
\<close>
theorem apply_patch_exact:
  assumes "wk_context wk = Some cx" and "policy_ok cx"
  shows "case apply_patch_run pt jl env wk call of
      (wk', Inl e) \<Rightarrow> wk' = wk
    | (wk', Inr answer) \<Rightarrow> \<exists>args cs content m after. decode_args jl env (tc_input call) apply_patch_args = Inr args
        \<and> canonical (ws_tree wk) cs \<and> write_root cx cs
        \<and> node_at (ws_tree wk) cs = Some (FileNode content m) \<and> int (length content) \<le> max_read_file_bytes
        \<and> patched (str_field args ''old_text'') (str_field args ''new_text'') (bool_field args ''replace_all'') (pt_decode pt content) after
        \<and> wk' = with_tree wk (tree_set (ws_tree wk) cs (FileNode (pt_encode pt after) m))"
proof (cases "apply_patch_run pt jl env wk call")
  case (Pair wk' out)
  show ?thesis
  proof (cases out)
    case (Inl e)
    with Pair show ?thesis by (auto simp: apply_patch_run_def split: sum.splits prod.splits)
  next
    case (Inr answer)
    with Pair obtain args s rel content fs' where a: "decode_args jl env (tc_input call) apply_patch_args = Inr args"
      and r: "resolve_writable (Some wk) (str_field args ''path'') = Inr (s, rel)"
      and c: "read_file_capped (ws_tree wk) s max_read_file_bytes = Inr content"
      and old: "contains (str_field args ''old_text'') (pt_decode pt content)"
      and w: "write_open (ws_tree wk) True s (pt_encode pt (if bool_field args ''replace_all''
          then replace_every (str_field args ''old_text'') (str_field args ''new_text'') (pt_decode pt content)
          else replace_one (str_field args ''old_text'') (str_field args ''new_text'') (pt_decode pt content))) 420 = Inr fs'"
      and wk': "wk' = with_tree wk fs'"
      by (auto simp: apply_patch_run_def os_tool_def Let_def bind_result_Inr_iff split: sum.splits if_splits prod.splits)
    from writable_iff(1) [OF assms(1,2)] resolve_writable_Inr [OF r] obtain cs
      where cs: "s = path_text cs" "canonical (ws_tree wk) cs" "write_root cx cs" by blast
    from read_file_capped_Inr [OF cs(2)] c cs(1) obtain m where m: "node_at (ws_tree wk) cs = Some (FileNode content m)"
      "int (length content) \<le> max_read_file_bytes" by blast
    have kept: "fs' = tree_set (ws_tree wk) cs (FileNode body m)" if "write_open (ws_tree wk) True s body 420 = Inr fs'" for body
      using that m(1) open_target_canonical [OF cs(2)] cs(1) by (auto simp: write_open_def split: sum.splits)
    note p = patched_replacement [OF old, of "str_field args ''new_text''" "bool_field args ''replace_all''"]
    have "wk' = with_tree wk (tree_set (ws_tree wk) cs (FileNode (pt_encode pt (if bool_field args ''replace_all''
          then replace_every (str_field args ''old_text'') (str_field args ''new_text'') (pt_decode pt content)
          else replace_one (str_field args ''old_text'') (str_field args ''new_text'') (pt_decode pt content))) m))"
      using kept [OF w] wk' by simp
    with p a cs(2,3) m show ?thesis unfolding Pair Inr prod.case sum.case by blast
  qed
qed

text \<open>
  A listing is exact. Over a well-formed tree and a directory of the workspace, \<open>collect_files\<close>
  succeeds with a sorted list that holds the display path of exactly the entries below the
  directory that are not directories themselves, that no \<open>.git\<close> and no link leads to, that match the
  pattern, and that resolve to a readable path; what resolves outside the roots is left out.
\<close>
theorem collect_files_exact:
  assumes "wk_context wk = Some cx" and "tree_ok (ws_tree wk)" and "real_path (ws_tree wk) r" and "node_at (ws_tree wk) r = Some DirNode"
  shows "case collect_files glob wk (path_text r) pattern of
      Inl e \<Rightarrow> False
    | Inr files \<Rightarrow> sorted files \<and> set files = {rel. \<exists>d c resolved. entry_at (ws_tree wk) r d c
        \<and> resolve_readable (Some wk) (path_text (d @ [c])) = Inr (resolved, rel) \<and> (pattern = '''' \<or> glob c pattern)}"
proof -
  from collect_files_dir [OF assms] obtain files where f: "collect_files glob wk (path_text r) pattern = Inr files" "sorted files"
    "\<And>rel. rel \<in> set files \<longleftrightarrow> (\<exists>d c. entry_at (ws_tree wk) r d c \<and> rel \<in> set (listed glob wk pattern d c))" by blast
  have "rel \<in> set (listed glob wk pattern d c) \<longleftrightarrow> (\<exists>resolved. resolve_readable (Some wk) (path_text (d @ [c])) = Inr (resolved, rel)
      \<and> (pattern = '''' \<or> glob c pattern))" for rel d c
    by (cases "resolve_readable (Some wk) (path_text (d @ [c]))") (auto simp: listed_def)
  with f(3) have "set files = {rel. \<exists>d c resolved. entry_at (ws_tree wk) r d c
      \<and> resolve_readable (Some wk) (path_text (d @ [c])) = Inr (resolved, rel) \<and> (pattern = '''' \<or> glob c pattern)}" by blast
  with f(1,2) show ?thesis by simp
qed

section \<open>Examples\<close>

lemma sample_context: "wk_context sample_binding = Some sample_policy" "tree_ok (ws_tree sample_binding)"
  "real_path (ws_tree sample_binding) [''w'']" "node_at (ws_tree sample_binding) [''w''] = Some DirNode"
  by (simp_all add: sample_binding_def ws_tree_def sample_os_world_def sample_tree_def tree_ok_def node_at_def
      real_path_def clean_name_def)

theorem collect_files_exact_witness:
  "\<exists>files. collect_files (\<lambda>_ _. True) sample_binding ''/w'' '''' = Inr files \<and> ''a'' \<in> set files"
proof -
  have r: "path_text [''w''] = ''/w''" and a: "path_text ([''w''] @ [''a'']) = ''/w/a''" by (simp_all add: path_text_def)
  have "\<not> entry_is_dir (ws_tree sample_binding) [''w''] ''a''" "node_at (ws_tree sample_binding) ([''w''] @ [''a'']) \<noteq> None"
    by code_simp+
  moreover have "walked (ws_tree sample_binding) [''w''] [''w'']" using walked_step sample_context(4) by blast
  ultimately have entry: "entry_at (ws_tree sample_binding) [''w''] [''w''] ''a''" by (simp add: entry_at_def)
  have readable: "resolve_readable (Some sample_binding) (path_text ([''w''] @ [''a''])) = Inr (''/w/a'', ''a'')"
    unfolding a by code_simp
  from collect_files_exact [OF sample_context, where glob = "\<lambda>_ _. True" and pattern = "''''"] entry readable show ?thesis
    unfolding r by (cases "collect_files (\<lambda>_ _. True) sample_binding ''/w'' ''''") (simp, simp only: sum.case, blast)
qed

text \<open>A call whose input decodes to fixed arguments.\<close>

definition sample_arguments :: "(string \<times> json) list \<Rightarrow> string \<Rightarrow> json option" where
  "sample_arguments kvs text = Some (JObject kvs)"

definition sample_patch :: "string \<Rightarrow> json option" where
  "sample_patch = sample_arguments [(''path'', JString ''a''), (''old_text'', JString ''x''), (''new_text'', JString ''yx'')]"

definition sample_write :: "string \<Rightarrow> json option" where
  "sample_write = sample_arguments [(''path'', JString ''sub/b''), (''content'', JString ''text'')]"

theorem apply_patch_exact_witness:
  "snd (apply_patch_run plain_text sample_patch sample_json_env sample_binding default_tool_call) = Inr ''patched a''
   \<and> (\<exists>cs after. patched ''x'' ''yx'' False ''x'' after \<and> canonical sample_tree cs)"
proof -
  have out: "snd (apply_patch_run plain_text sample_patch sample_json_env sample_binding default_tool_call) = Inr ''patched a''"
    by code_simp
  have args: "decode_args sample_patch sample_json_env (tc_input default_tool_call) apply_patch_args
    = Inr (PData [((''path'', False), PStr ''a''), ((''old_text'', False), PStr ''x''), ((''new_text'', False), PStr ''yx''),
        ((''replace_all'', False), PBool False)])" by code_simp
  have target: "read_file_capped sample_tree ''/w/a'' max_read_file_bytes = Inr ''x''" by code_simp
  have a: "canonical sample_tree [''w'', ''a'']" unfolding canonical_def
    by (intro exI [of _ "[''w'', ''a'']"] exI [of _ "[]"])
      (auto simp: real_path_def clean_name_def node_at_def sample_tree_def take_Cons' less_Suc_eq)
  from apply_patch_exact [OF sample_context(1) sample_policy_ok, where pt = plain_text and jl = sample_patch and env = sample_json_env and call = default_tool_call] out
  obtain content m after where "patched ''x'' ''yx'' False (pt_decode plain_text content) after"
    by (auto simp: args str_field_def bool_field_def field_of_def split: prod.splits)
  have "patched ''x'' ''yx'' False ''x'' ''yx''" unfolding patched_def by (auto intro!: exI [of _ "''''"])
  with out a show ?thesis by blast
qed

theorem write_tools_contained_witness:
  "snd (write_file_run plain_text sample_write sample_json_env sample_binding default_tool_call) = Inr ''wrote sub/b''
   \<and> (\<exists>cs fs'. fst (write_file_run plain_text sample_write sample_json_env sample_binding default_tool_call) = with_tree sample_binding fs'
       \<and> contained_change sample_policy (ws_tree sample_binding) fs' cs)"
proof -
  let ?run = "write_file_run plain_text sample_write sample_json_env sample_binding default_tool_call"
  have out: "snd ?run = Inr ''wrote sub/b''" by code_simp
  have "node_at (ws_tree (fst ?run)) [''w'', ''sub''] \<noteq> node_at (ws_tree sample_binding) [''w'', ''sub'']" by code_simp
  then have "fst ?run \<noteq> sample_binding" by auto
  with write_tools_contained [OF sample_context(1) sample_policy_ok sample_context(2) disjI1 [OF refl],
      of plain_text sample_write sample_json_env default_tool_call] out
  show ?thesis by blast
qed

end
