(* ===== verification/CommandTools.thy ===== *)
theory CommandTools
  imports FileToolsSafety
begin

text \<open>
  The command tools (\<open>tools/commands.py\<close>, \<open>tools/bash.py\<close>) with the capped output (\<open>tools/output.py\<close>),
  the scrubbed environment (\<open>tools/env.py\<close>) and the sandbox (\<open>tools/sandbox.py\<close>,
  \<open>tools/sandbox_linux.py\<close>, \<open>tools/sandbox_other.py\<close>). Starting a process is an argument: it gets
  the program, its arguments, directory and environment, may change the file tree, and ends by
  itself or is stopped, with what the context says at that moment.
\<close>

section \<open>Capped output\<close>

record capped_buffer =
  cb_buf :: string
  cb_limit :: int
  cb_truncated :: bool

definition new_buffer :: "int \<Rightarrow> capped_buffer" where
  "new_buffer limit = \<lparr>cb_buf = '''', cb_limit = limit, cb_truncated = False\<rparr>"

definition buffer_write :: "capped_buffer \<Rightarrow> string \<Rightarrow> capped_buffer \<times> int" where
  "buffer_write b chunk =
     (let room = cb_limit b - int (length (cb_buf b))
      in if room > 0 \<and> int (length chunk) \<le> room then (b\<lparr>cb_buf := cb_buf b @ chunk\<rparr>, int (length chunk))
         else ((if room > 0 then b\<lparr>cb_buf := cb_buf b @ take (nat room) chunk\<rparr> else b)\<lparr>cb_truncated := True\<rparr>, int (length chunk)))"

definition buffer_string :: "py_text \<Rightarrow> capped_buffer \<Rightarrow> string" where
  "buffer_string pt b = pt_decode pt (cb_buf b) @ (if cb_truncated b then newline # ''... truncated'' else '''')"

text \<open>\<open>_consume\<close>: an empty chunk is the end of the stream.\<close>

fun consume :: "capped_buffer \<Rightarrow> string list \<Rightarrow> capped_buffer" where
  "consume b [] = b"
| "consume b (chunk # chunks) = (if chunk = '''' then b else consume (fst (buffer_write b chunk)) chunks)"

section \<open>The environment of a command\<close>

text \<open>
  \<open>str.upper\<close> on the code points below 256. The micro sign and the letter 255 become characters
  beyond them; here they stay, which is the same for a search of upper-case markers.
\<close>

definition upper_char :: "char \<Rightarrow> string" where
  "upper_char c = (let n = (of_char c :: nat) in
     if (97 \<le> n \<and> n \<le> 122) \<or> (224 \<le> n \<and> n \<le> 254 \<and> n \<noteq> 247) then [char_of (n - 32)]
     else if n = 223 then ''SS'' else [c])"

definition py_upper :: "string \<Rightarrow> string" where
  "py_upper s = concat (map upper_char s)"

definition secret_env_markers :: "string list" where
  "secret_env_markers = [''API_KEY'', ''APIKEY'', ''AUTH_TOKEN'', ''ACCESS_TOKEN'', ''SESSION_TOKEN'', ''TOKEN'', ''SECRET'',
     ''PASSWORD'', ''PASSWD'', ''CREDENTIAL'', ''PRIVATE_KEY'', ''AWS_ACCESS_KEY_ID'', ''DATABASE_URL'', ''POSTGRES_URL'',
     ''MYSQL_URL'', ''MONGODB_URI'', ''MONGO_URL'', ''REDIS_URL'']"

definition is_secret_env_name :: "string \<Rightarrow> bool" where
  "is_secret_env_name name = list_ex (\<lambda>marker. contains marker (py_upper name)) secret_env_markers"

definition child_env :: "(string \<times> string) list \<Rightarrow> (string \<times> string) list" where
  "child_env environ = filter (\<lambda>(name, v). \<not> is_secret_env_name name) environ"

section \<open>The sandbox\<close>

definition SANDBOX_MODE_OFF :: string where "SANDBOX_MODE_OFF = ''off''"
definition SANDBOX_MODE_STRICT :: string where "SANDBOX_MODE_STRICT = ''strict''"

record sandbox_config =
  sb_mode :: string
  sb_workspace :: string
  sb_allow_network :: bool
  sb_cpu_seconds :: int
  sb_memory_bytes :: int
  sb_max_processes :: int
  sb_max_open_files :: int

definition zero_sandbox_config :: sandbox_config where
  "zero_sandbox_config = \<lparr>sb_mode = '''', sb_workspace = '''', sb_allow_network = False, sb_cpu_seconds = 0,
     sb_memory_bytes = 0, sb_max_processes = 0, sb_max_open_files = 0\<rparr>"

definition default_sandbox_config :: "string \<Rightarrow> sandbox_config" where
  "default_sandbox_config workspace = \<lparr>sb_mode = SANDBOX_MODE_STRICT, sb_workspace = workspace, sb_allow_network = False,
     sb_cpu_seconds = 120, sb_memory_bytes = 1073741824, sb_max_processes = 128, sb_max_open_files = 256\<rparr>"

definition valid_sandbox_mode :: "string \<Rightarrow> bool" where
  "valid_sandbox_mode mode \<longleftrightarrow> mode \<in> {SANDBOX_MODE_OFF, SANDBOX_MODE_STRICT}"

record bubblewrap_sandbox =
  bw_bwrap :: string
  bw_prlimit :: string
  bw_config :: sandbox_config

text \<open>\<open>new_platform_sandbox\<close> on Linux, with \<open>shutil.which\<close> as an argument, and its refusal elsewhere.\<close>

definition linux_platform_sandbox :: "(string \<Rightarrow> string option) \<Rightarrow> sandbox_config \<Rightarrow> (tool_error, bubblewrap_sandbox) result" where
  "linux_platform_sandbox which config = (case which ''bwrap'' of
       None \<Rightarrow> Inl (ToolRuntimeError ''strict sandbox requires bubblewrap: bwrap not found in PATH'')
     | Some bwrap \<Rightarrow> (case which ''prlimit'' of
           None \<Rightarrow> Inl (ToolRuntimeError ''strict sandbox requires prlimit: prlimit not found in PATH'')
         | Some prlimit \<Rightarrow> Inr \<lparr>bw_bwrap = bwrap, bw_prlimit = prlimit, bw_config = config\<rparr>))"

definition other_platform_sandbox :: "sandbox_config \<Rightarrow> (tool_error, bubblewrap_sandbox) result" where
  "other_platform_sandbox config = Inl (ToolRuntimeError
     ''strict sandbox is currently supported only on Linux; set sandbox.mode to off explicitly'')"

text \<open>What the host gives: the platform, the programs on the path, and the world of the paths.\<close>

record host =
  ho_linux :: bool
  ho_which :: "string \<Rightarrow> string option"
  ho_environ :: "(string \<times> string) list"
  ho_signal_name :: "int \<Rightarrow> string option"

definition new_platform_sandbox :: "host \<Rightarrow> sandbox_config \<Rightarrow> (tool_error, bubblewrap_sandbox) result" where
  "new_platform_sandbox ho config =
     (if ho_linux ho then linux_platform_sandbox (ho_which ho) config else other_platform_sandbox config)"

text \<open>\<open>os.path.realpath\<close> with \<open>strict\<close> of a path that may be relative.\<close>

definition real_of :: "os_world \<Rightarrow> string \<Rightarrow> (tool_error, string) result" where
  "real_of w p = os_tool (realpath (ow_tree w) (if isabs p then p else path_join (ow_cwd w) p))"

definition sandbox_mounts :: "string \<Rightarrow> string \<Rightarrow> string list" where
  "sandbox_mounts workspace_root abs_cwd = [''--die-with-parent'', ''--new-session'', ''--unshare-all'',
     ''--ro-bind'', ''/'', ''/'', ''--tmpfs'', ''/tmp'', ''--tmpfs'', ''/var/tmp'',
     ''--bind'', workspace_root, workspace_root, ''--proc'', ''/proc'', ''--dev'', ''/dev'',
     ''--dir'', ''/tmp/super-agent-home'', ''--dir'', ''/tmp/super-agent-cache'',
     ''--setenv'', ''HOME'', ''/tmp/super-agent-home'', ''--setenv'', ''TMPDIR'', ''/tmp'',
     ''--setenv'', ''XDG_CACHE_HOME'', ''/tmp/super-agent-cache'', ''--chdir'', abs_cwd]"

definition sandbox_limits :: "bubblewrap_sandbox \<Rightarrow> string list" where
  "sandbox_limits sb = [''--'', bw_prlimit sb, ''--cpu='' @ dec_int (sb_cpu_seconds (bw_config sb)),
     ''--as='' @ dec_int (sb_memory_bytes (bw_config sb)), ''--nproc='' @ dec_int (sb_max_processes (bw_config sb)),
     ''--nofile='' @ dec_int (sb_max_open_files (bw_config sb)), ''--'']"

definition sandbox_wrap ::
    "os_world \<Rightarrow> bubblewrap_sandbox \<Rightarrow> string \<Rightarrow> string \<Rightarrow> string \<Rightarrow> string list \<Rightarrow> (tool_error, string \<times> string list \<times> string) result" where
  "sandbox_wrap w sb workspace_root cwd name args =
     (if workspace_root = '''' then Inl (ToolRuntimeError ''sandbox workspace is not configured'')
      else bind_result (real_of w workspace_root) (\<lambda>root.
        bind_result (os_tool (realpath (ow_tree w) (abspath (ow_cwd w) (if cwd = '''' then root else cwd)))) (\<lambda>abs_cwd.
        case relpath (ow_cwd w) abs_cwd root of
          Inl e \<Rightarrow> Inl (ToolValueError e)
        | Inr relative \<Rightarrow>
            if relative = ''..'' \<or> startswith relative ''../'' then Inl (ToolRuntimeError ''sandbox cwd is outside workspace'')
            else Inr (bw_bwrap sb,
              sandbox_mounts root abs_cwd @ (if sb_allow_network (bw_config sb) then [''--share-net''] else [])
                @ sandbox_limits sb @ name # args, root))))"

text \<open>A runner holds the binding the tools hold, or none; only whether it does is recorded.\<close>

record command_runner =
  cr_sandbox :: "bubblewrap_sandbox option"
  cr_workspace :: bool

definition runner_or_default :: "command_runner option \<Rightarrow> command_runner" where
  "runner_or_default r = (case r of None \<Rightarrow> \<lparr>cr_sandbox = None, cr_workspace = False\<rparr> | Some r \<Rightarrow> r)"

text \<open>The configuration is shared with the caller, so the settled one comes back with the result.\<close>

definition settle_limits :: "sandbox_config \<Rightarrow> sandbox_config" where
  "settle_limits c = c\<lparr>sb_cpu_seconds := if sb_cpu_seconds c \<le> 0 then 120 else sb_cpu_seconds c,
     sb_memory_bytes := if sb_memory_bytes c \<le> 0 then 1073741824 else sb_memory_bytes c,
     sb_max_processes := if sb_max_processes c \<le> 0 then 128 else sb_max_processes c,
     sb_max_open_files := if sb_max_open_files c \<le> 0 then 256 else sb_max_open_files c\<rparr>"

definition new_command_runner ::
    "host \<Rightarrow> os_world \<Rightarrow> sandbox_config \<Rightarrow> bool \<Rightarrow> sandbox_config \<times> (tool_error, command_runner) result" where
  "new_command_runner ho w config bound =
     (let c = (if sb_mode config = '''' then config\<lparr>sb_mode := SANDBOX_MODE_STRICT\<rparr> else config)
      in if \<not> valid_sandbox_mode (sb_mode c) then (c, Inl (ToolRuntimeError (''invalid sandbox mode: '' @ sb_mode c)))
         else if sb_mode c = SANDBOX_MODE_OFF then (c, Inr \<lparr>cr_sandbox = None, cr_workspace = bound\<rparr>)
         else if sb_workspace c = '''' then (c, Inl (ToolRuntimeError ''strict sandbox requires a workspace''))
         else case os_tool (realpath (ow_tree w) (abspath (ow_cwd w) (sb_workspace c))) of
             Inl e \<Rightarrow> (c, Inl e)
           | Inr real \<Rightarrow> (let c1 = settle_limits (c\<lparr>sb_workspace := real\<rparr>)
               in (c1, bind_result (new_platform_sandbox ho c1) (\<lambda>sb. Inr \<lparr>cr_sandbox = Some sb, cr_workspace = bound\<rparr>))))"

section \<open>Limits and exit status\<close>

definition default_command_timeout :: int where "default_command_timeout = 30"
definition max_command_timeout :: int where "max_command_timeout = 120"
definition default_output_bytes :: int where "default_output_bytes = 20000"
definition max_output_bytes :: int where "max_output_bytes = 200000"

text \<open>
  Whole seconds, which \<open>float\<close> keeps below the ceiling; an integer that rounds beyond the largest
  double overflows.
\<close>

definition command_timeout :: "int \<Rightarrow> (tool_error, int) result" where
  "command_timeout seconds =
     (if seconds \<le> 0 then Inr default_command_timeout
      else if seconds \<ge> 2 ^ 1024 - 2 ^ 970 then Inl ToolOverflowError
      else if seconds > max_command_timeout then Inr max_command_timeout
      else Inr seconds)"

definition output_limit :: "int \<Rightarrow> int" where
  "output_limit max_bytes = (if max_bytes \<le> 0 then default_output_bytes
     else if max_bytes > max_output_bytes then max_output_bytes else max_bytes)"

definition signal_names :: "(int \<times> string) list" where
  "signal_names = [(9, ''killed''), (15, ''terminated''), (2, ''interrupt''), (3, ''quit''), (11, ''segmentation fault''),
     (6, ''aborted''), (13, ''broken pipe''), (1, ''hangup'')]"

definition signal_name :: "host \<Rightarrow> int \<Rightarrow> string" where
  "signal_name ho number = (case map_of signal_names number of
       Some name \<Rightarrow> name
     | None \<Rightarrow> (case ho_signal_name ho number of Some name \<Rightarrow> py_lower name | None \<Rightarrow> dec_int number))"

definition exit_status_message :: "host \<Rightarrow> int \<Rightarrow> string" where
  "exit_status_message ho returncode = (if returncode < 0 then ''signal: '' @ signal_name ho (- returncode)
     else ''exit status '' @ dec_int returncode)"

datatype command_error =
    CommandTool tool_error
  | CommandExit string
  | CommandTimeout string
  | CommandCancelled string

definition finish :: "py_text \<Rightarrow> host \<Rightarrow> capped_buffer \<Rightarrow> int option \<Rightarrow> string \<times> command_error option" where
  "finish pt ho sink returncode = (let result = buffer_string pt sink in case returncode of
       None \<Rightarrow> (result, None)
     | Some code \<Rightarrow>
         if code = 0 then (result, None)
         else (let message = exit_status_message ho code in
           ((if result \<noteq> '''' \<and> \<not> endswith result [newline] then result @ [newline] else result) @ message,
            Some (CommandExit message))))"

section \<open>Running a command\<close>

record spawn_request =
  sr_program :: string
  sr_args :: "string list"
  sr_cwd :: "string option"
  sr_env :: "(string \<times> string) list"

text \<open>
  How a process ended: the chunks the reader got, the exit code when the stream closed first, and
  \<open>ctx.err()\<close> at that moment and once the call is over. Without an exit code it was cancelled or
  timed out, and the chunks include those read while its group was being killed.
\<close>

record process_end =
  pe_chunks :: "string list"
  pe_exit :: "int option"
  pe_cancelled :: "string option"
  pe_cancelled_after :: "string option"

type_synonym spawn = "tree \<Rightarrow> spawn_request \<Rightarrow> tree \<times> (tool_error, process_end) result"

definition command_line ::
    "ws_binding \<Rightarrow> command_runner \<Rightarrow> string \<Rightarrow> string \<Rightarrow> string list \<Rightarrow> (tool_error, string \<times> string list \<times> string) result" where
  "command_line wk runner cwd name args = (case cr_sandbox runner of
       None \<Rightarrow> Inr (name, args, cwd)
     | Some sb \<Rightarrow> sandbox_wrap (wk_world wk) sb
         (if cr_workspace runner then get_primary_root wk else '''') cwd name args)"

definition exec_result :: "py_text \<Rightarrow> host \<Rightarrow> int \<Rightarrow> int \<Rightarrow> process_end \<Rightarrow> string \<times> command_error option" where
  "exec_result pt ho timeout max_bytes pe = (let sink = consume (new_buffer max_bytes) (pe_chunks pe) in case pe_exit pe of
      Some code \<Rightarrow> finish pt ho sink (Some code)
    | None \<Rightarrow> (buffer_string pt sink, Some (case pe_cancelled pe of Some r \<Rightarrow> CommandCancelled r
        | None \<Rightarrow> CommandTimeout (''command timed out after '' @ dec_int timeout @ ''.0 seconds''))))"

definition run_exec ::
    "py_text \<Rightarrow> host \<Rightarrow> spawn \<Rightarrow> ws_binding \<Rightarrow> command_runner \<Rightarrow> string \<Rightarrow> int \<Rightarrow> int \<Rightarrow> string \<Rightarrow> string list
     \<Rightarrow> ws_binding \<times> (tool_error, (string \<times> command_error option) \<times> string option) result" where
  "run_exec pt ho spawn wk runner cwd timeout max_bytes name args =
     (case command_line wk runner cwd name args of
        Inl e \<Rightarrow> (wk, Inl e)
      | Inr (program, argv, dir) \<Rightarrow>
          (case spawn (ws_tree wk) \<lparr>sr_program = program, sr_args = argv,
              sr_cwd = (if dir = '''' then None else Some dir), sr_env = child_env (ho_environ ho)\<rparr> of
             (fs, Inl e) \<Rightarrow> (with_tree wk fs, Inl e)
           | (fs, Inr pe) \<Rightarrow> (with_tree wk fs, Inr (exec_result pt ho timeout max_bytes pe, pe_cancelled_after pe))))"

section \<open>The tools\<close>

definition run_command_args :: ty where
  "run_command_args = TData [plain_field ''command'' TStr (PStr ''''), plain_field ''cwd'' TStr (PStr ''''),
     plain_field ''timeout_seconds'' TInt (PInt 0), plain_field ''max_output_bytes'' TInt (PInt 0),
     plain_field ''continue_on_error'' TBool (PBool False)]"

definition git_diff_args :: ty where
  "git_diff_args = TData [plain_field ''paths'' (TSeq TStr) (PSeq [])]"

definition command_cwd :: "ws_binding option \<Rightarrow> string \<Rightarrow> (tool_error, string) result" where
  "command_cwd ws cwd = (case ws of
       None \<Rightarrow> Inl (ToolRuntimeError ''workspace is not configured'')
     | Some wk \<Rightarrow> bind_result (resolve_readable (Some wk) (if cwd = '''' then get_cwd wk else cwd)) (\<lambda>(p, rel). Inr p))"

text \<open>
  What a command tool asks for before anything runs: the directory, the limits and the command
  line, or the error it raises instead. The runs below start with such a plan.
\<close>

type_synonym command_plan = "(tool_error, string \<times> int \<times> int \<times> string \<times> string list) result"

definition run_plan ::
    "py_text \<Rightarrow> host \<Rightarrow> spawn \<Rightarrow> ws_binding \<Rightarrow> command_runner option \<Rightarrow> command_plan
     \<Rightarrow> ws_binding \<times> (tool_error, (string \<times> command_error option) \<times> string option) result" where
  "run_plan pt ho spawn wk runner plan = (case plan of
       Inl e \<Rightarrow> (wk, Inl e)
     | Inr (cwd, timeout, max_bytes, name, args) \<Rightarrow> run_exec pt ho spawn wk (runner_or_default runner) cwd timeout max_bytes name args)"

text \<open>The result of a command, or its error raised.\<close>

definition raise_unless :: "bool \<Rightarrow> string \<times> command_error option \<Rightarrow> (command_error, string) result" where
  "raise_unless tolerated out = (case out of
       (output, Some e) \<Rightarrow> if tolerated then Inr output else Inl e | (output, None) \<Rightarrow> Inr output)"

definition command_answer ::
    "(string \<times> command_error option \<Rightarrow> string option \<Rightarrow> (command_error, string) result)
     \<Rightarrow> ws_binding \<times> (tool_error, (string \<times> command_error option) \<times> string option) result
     \<Rightarrow> ws_binding \<times> (command_error, string) result" where
  "command_answer judge r = (case r of
       (wk, Inl e) \<Rightarrow> (wk, Inl (CommandTool e)) | (wk, Inr (out, cancelled)) \<Rightarrow> (wk, judge out cancelled))"

definition shell_plan :: "string \<Rightarrow> int \<Rightarrow> int \<Rightarrow> string \<Rightarrow> command_plan" where
  "shell_plan cwd timeout_seconds max_bytes command = bind_result (command_timeout timeout_seconds) (\<lambda>timeout.
     Inr (cwd, timeout, output_limit max_bytes, ''bash'', [''-lc'', command]))"

definition run_command_plan :: "ws_binding option \<Rightarrow> pyval \<Rightarrow> command_plan" where
  "run_command_plan ws args =
     (if str_field args ''command'' = '''' then Inl (ToolRuntimeError ''command is required'')
      else bind_result (command_cwd ws (str_field args ''cwd'')) (\<lambda>cwd.
        shell_plan cwd (int_field args ''timeout_seconds'') (int_field args ''max_output_bytes'') (str_field args ''command'')))"

definition run_command_run ::
    "py_text \<Rightarrow> (string \<Rightarrow> json option) \<Rightarrow> json_env \<Rightarrow> host \<Rightarrow> spawn \<Rightarrow> command_runner option \<Rightarrow> ws_binding \<Rightarrow> tool_call
     \<Rightarrow> ws_binding \<times> (command_error, string) result" where
  "run_command_run pt json_loads env ho spawn runner wk call =
     (case decode_args json_loads env (tc_input call) run_command_args of
        Inl e \<Rightarrow> (wk, Inl (CommandTool e))
      | Inr args \<Rightarrow> command_answer (\<lambda>out cancelled. raise_unless (bool_field args ''continue_on_error'') out)
          (run_plan pt ho spawn wk runner (run_command_plan (Some wk) args)))"

definition git_status_plan :: "(string \<Rightarrow> json option) \<Rightarrow> ws_binding option \<Rightarrow> tool_call \<Rightarrow> command_plan" where
  "git_status_plan json_loads ws call =
     bind_result (if tc_input call \<noteq> '''' \<and> tc_input call \<noteq> ''{}'' then bind_result (decode_json_object json_loads (tc_input call)) (\<lambda>_. Inr ())
       else Inr ()) (\<lambda>_. bind_result (command_cwd ws '''') (\<lambda>cwd.
       Inr (cwd, default_command_timeout, default_output_bytes, ''git'', [''status'', ''--short'', ''--branch''])))"

definition git_status_run ::
    "py_text \<Rightarrow> (string \<Rightarrow> json option) \<Rightarrow> host \<Rightarrow> spawn \<Rightarrow> command_runner option \<Rightarrow> ws_binding \<Rightarrow> tool_call
     \<Rightarrow> ws_binding \<times> (command_error, string) result" where
  "git_status_run pt json_loads ho spawn runner wk call =
     command_answer (\<lambda>out cancelled. raise_unless False out) (run_plan pt ho spawn wk runner (git_status_plan json_loads (Some wk) call))"

definition str_items :: "pyval \<Rightarrow> string \<Rightarrow> string list" where
  "str_items v key = (case field_of v key of PSeq vs \<Rightarrow> map (\<lambda>x. case x of PStr s \<Rightarrow> s | _ \<Rightarrow> '''') vs | _ \<Rightarrow> [])"

definition git_diff_plan :: "(string \<Rightarrow> json option) \<Rightarrow> json_env \<Rightarrow> ws_binding option \<Rightarrow> tool_call \<Rightarrow> command_plan" where
  "git_diff_plan json_loads env ws call =
     bind_result (if tc_input call = '''' then Inr (PData [((''paths'', False), PSeq [])])
       else decode_args json_loads env (tc_input call) git_diff_args) (\<lambda>args.
     bind_result (traverse (\<lambda>p. bind_result (resolve_readable ws p) (\<lambda>(resolved, rel). Inr rel)) (str_items args ''paths'')) (\<lambda>rels.
     bind_result (command_cwd ws '''') (\<lambda>cwd.
       Inr (cwd, default_command_timeout, default_output_bytes, ''git'', [''diff'', ''--''] @ rels))))"

definition git_diff_run ::
    "py_text \<Rightarrow> (string \<Rightarrow> json option) \<Rightarrow> json_env \<Rightarrow> host \<Rightarrow> spawn \<Rightarrow> command_runner option \<Rightarrow> ws_binding \<Rightarrow> tool_call
     \<Rightarrow> ws_binding \<times> (command_error, string) result" where
  "git_diff_run pt json_loads env ho spawn runner wk call =
     command_answer (\<lambda>out cancelled. raise_unless False out) (run_plan pt ho spawn wk runner (git_diff_plan json_loads env (Some wk) call))"

definition bash_command :: "(string \<Rightarrow> json option) \<Rightarrow> string \<Rightarrow> string" where
  "bash_command json_loads input = (case json_loads input of
       Some (JObject kvs) \<Rightarrow> (case map_of kvs ''command'' of Some (JString command) \<Rightarrow> command | _ \<Rightarrow> '''') | _ \<Rightarrow> '''')"

definition bash_plan :: "(string \<Rightarrow> json option) \<Rightarrow> ws_binding option \<Rightarrow> tool_call \<Rightarrow> command_plan" where
  "bash_plan json_loads ws call = (let command = bash_command json_loads (tc_input call) in
     if command = '''' then Inl (ToolRuntimeError ''invalid bash command input: must be JSON with 'command' field'')
     else bind_result (command_cwd ws '''') (\<lambda>cwd.
       Inr (cwd, default_command_timeout, default_output_bytes, ''bash'', [''-lc'', command])))"

text \<open>A cancelled run raises its cancellation first; an exit status is an answer, any other end is raised.\<close>

definition bash_judge :: "string \<times> command_error option \<Rightarrow> string option \<Rightarrow> (command_error, string) result" where
  "bash_judge out cancelled = (case out of
       (output, None) \<Rightarrow> Inr output
     | (output, Some e) \<Rightarrow> (case cancelled of
           Some reason \<Rightarrow> Inl (CommandCancelled reason)
         | None \<Rightarrow> (case e of CommandExit message \<Rightarrow> Inr output | _ \<Rightarrow> Inl e)))"

definition bash_run ::
    "py_text \<Rightarrow> (string \<Rightarrow> json option) \<Rightarrow> host \<Rightarrow> spawn \<Rightarrow> command_runner option \<Rightarrow> ws_binding \<Rightarrow> tool_call
     \<Rightarrow> ws_binding \<times> (command_error, string) result" where
  "bash_run pt json_loads ho spawn runner wk call =
     command_answer bash_judge (run_plan pt ho spawn wk runner (bash_plan json_loads (Some wk) call))"

end
