(* ===== verification/CommandSafety.thy ===== *)
theory CommandSafety
  imports CommandTools
begin

text \<open>
  What the command tools promise: the bounds of their limits and their output, the environment and
  the sandbox of every process they start, and which ends of a process they report as an answer.
\<close>

section \<open>Capped output\<close>

text \<open>Chunks up to the end of the stream.\<close>

definition stream :: "string list \<Rightarrow> string" where
  "stream chunks = concat (takeWhile (\<lambda>c. c \<noteq> '''') chunks)"

lemma consume_buffer:
  "int (length (cb_buf b)) \<le> cb_limit b \<Longrightarrow> (cb_truncated b \<longrightarrow> int (length (cb_buf b)) = cb_limit b) \<Longrightarrow>
   cb_buf (consume b chunks) = take (nat (cb_limit b)) (cb_buf b @ stream chunks)
   \<and> (cb_truncated (consume b chunks) \<longleftrightarrow> cb_truncated b \<or> int (length (cb_buf b @ stream chunks)) > cb_limit b)"
proof (induction chunks arbitrary: b)
  case (Cons chunk chunks)
  show ?case
  proof (cases "chunk = ''''")
    case False
    define c where "c = fst (buffer_write b chunk)"
    have c: "cb_limit c = cb_limit b" "cb_buf c = take (nat (cb_limit b)) (cb_buf b @ chunk)"
      "cb_truncated c \<longleftrightarrow> cb_truncated b \<or> int (length (cb_buf b @ chunk)) > cb_limit b"
      using Cons.prems False by (auto simp: c_def buffer_write_def Let_def nat_le_iff nat_diff_distrib' min_def)
    have "int (length (cb_buf c)) \<le> cb_limit c" "cb_truncated c \<longrightarrow> int (length (cb_buf c)) = cb_limit c"
      using Cons.prems c by (auto simp: min_def)
    from Cons.IH [OF this] False c show ?thesis
      by (auto simp: stream_def c_def [symmetric] min_def)
  qed (use Cons in \<open>simp add: stream_def\<close>)
qed (simp add: stream_def)

lemma consume_new:
  assumes "0 < limit"
  shows "cb_buf (consume (new_buffer limit) chunks) = take (nat limit) (stream chunks)"
    and "cb_truncated (consume (new_buffer limit) chunks) \<longleftrightarrow> int (length (stream chunks)) > limit"
  using consume_buffer [of "new_buffer limit" chunks] assms by (simp_all add: new_buffer_def)

lemma output_limit_bounds: "1 \<le> output_limit n" "output_limit n \<le> 200000"
  by (simp_all add: output_limit_def default_output_bytes_def max_output_bytes_def)

lemma command_timeout_bounds: "command_timeout s = Inr t \<Longrightarrow> 1 \<le> t \<and> t \<le> 120"
  by (auto simp: command_timeout_def default_command_timeout_def max_command_timeout_def split: if_splits)

section \<open>The sandbox\<close>

lemma realpath_real: "realpath fs p = Inr s \<Longrightarrow> \<exists>cs. s = path_text cs \<and> real_path fs cs"
  using resolve_real [of fs "[]" "[]" "split_on CHR ''/'' p"] split_on_sep_free [of _ "CHR ''/''" p]
  by (auto simp: realpath_def list_all_iff split: sum.splits)

text \<open>
  A process started in the sandbox of a configuration: the only writable bind is a real directory,
  the process starts below it, and what the call chose comes after the last \<open>--\<close>.
\<close>

definition sandboxed_request :: "tree \<Rightarrow> bubblewrap_sandbox \<Rightarrow> spawn_request \<Rightarrow> bool" where
  "sandboxed_request fs sb sr \<longleftrightarrow> sr_program sr = bw_bwrap sb \<and> (\<exists>rs ds rest.
     real_path fs rs \<and> real_path fs (rs @ ds) \<and> sr_cwd sr = Some (path_text rs)
     \<and> sr_args sr = sandbox_mounts (path_text rs) (path_text (rs @ ds))
         @ (if sb_allow_network (bw_config sb) then [''--share-net''] else []) @ sandbox_limits sb @ rest)"

lemma sandbox_wrap_ok:
  assumes "sandbox_wrap w sb root cwd name args = Inr (program, argv, dir)"
  shows "program = bw_bwrap sb \<and> (\<exists>rs ds. real_path (ow_tree w) rs \<and> real_path (ow_tree w) (rs @ ds) \<and> dir = path_text rs
    \<and> argv = sandbox_mounts (path_text rs) (path_text (rs @ ds))
         @ (if sb_allow_network (bw_config sb) then [''--share-net''] else []) @ sandbox_limits sb @ name # args)"
proof -
  have "root \<noteq> ''''" using assms by (auto simp: sandbox_wrap_def)
  with assms obtain real abs_cwd where r: "real_of w root = Inr real"
    and t: "os_tool (realpath (ow_tree w) (abspath (ow_cwd w) (if cwd = '''' then real else cwd))) = Inr abs_cwd"
    and last: "(case relpath (ow_cwd w) abs_cwd real of
          Inl e \<Rightarrow> Inl (ToolValueError e)
        | Inr relative \<Rightarrow>
            if relative = ''..'' \<or> startswith relative ''../'' then Inl (ToolRuntimeError ''sandbox cwd is outside workspace'')
            else Inr (bw_bwrap sb,
              sandbox_mounts real abs_cwd @ (if sb_allow_network (bw_config sb) then [''--share-net''] else [])
                @ sandbox_limits sb @ name # args, real)) = Inr (program, argv, dir)"
    unfolding sandbox_wrap_def by (simp only: if_False bind_result_Inr_iff) blast
  from t have c: "realpath (ow_tree w) (abspath (ow_cwd w) (if cwd = '''' then real else cwd)) = Inr abs_cwd"
    by (auto simp: os_tool_def split: sum.splits)
  from last obtain relative where rel: "relpath (ow_cwd w) abs_cwd real = Inr relative" "relative \<noteq> ''..''" "\<not> startswith relative ''../''"
    and out: "program = bw_bwrap sb" "dir = real" "argv = sandbox_mounts real abs_cwd
         @ (if sb_allow_network (bw_config sb) then [''--share-net''] else []) @ sandbox_limits sb @ name # args"
  proof (cases "relpath (ow_cwd w) abs_cwd real")
    case (Inr relative)
    have ok: "\<not> (relative = ''..'' \<or> startswith relative ''../'')" using last by (auto simp: Inr)
    with last Inr have "(bw_bwrap sb, sandbox_mounts real abs_cwd
         @ (if sb_allow_network (bw_config sb) then [''--share-net''] else []) @ sandbox_limits sb @ name # args, real) = (program, argv, dir)"
      by (simp only: sum.case if_False sum.inject)
    with Inr ok that show ?thesis by blast
  qed (use last in simp)
  from r obtain rs where rs: "real = path_text rs" "real_path (ow_tree w) rs"
    using realpath_real by (auto simp: real_of_def os_tool_def split: sum.splits)
  from realpath_real [OF c] obtain cs where cs: "abs_cwd = path_text cs" "real_path (ow_tree w) cs" by blast
  have clean: "clean_names rs" "clean_names cs" using rs cs by (simp_all add: real_path_def)
  have "relative = (let i = length (common_prefix rs cs); rel = replicate (length rs - i) ''..'' @ drop i cs
      in if rel = [] then ''.'' else join_with ''/'' rel)"
    using rel(1) relpath_text [OF clean(2,1), of "ow_cwd w"] by (simp add: rs cs)
  moreover have "replicate (length rs - length (common_prefix rs cs)) ''..'' = []"
  proof (rule ccontr)
    assume "replicate (length rs - length (common_prefix rs cs)) ''..'' \<noteq> []"
    then obtain n where n: "length rs - length (common_prefix rs cs) = Suc n" by (cases "length rs - length (common_prefix rs cs)") auto
    with calculation have "relative = join_with ''/'' (''..'' # replicate n ''..'' @ drop (length (common_prefix rs cs)) cs)"
      unfolding n Let_def replicate_Suc append_Cons by simp
    with rel(2,3) show False by (cases "replicate n ''..'' @ drop (length (common_prefix rs cs)) cs") (auto simp: join_with_Cons startswith_def)
  qed
  ultimately have "length (common_prefix rs cs) = length rs" using common_prefix_le [of rs cs] by simp
  then obtain ds where "cs = rs @ ds" by (auto simp: common_prefix_all prefix_def)
  with rs cs out show ?thesis by blast
qed

text \<open>No argument of the sandbox is an option that lifts a restriction, unless the configuration asks for it.\<close>

lemma mounts_no_end: "''--'' \<notin> set (sandbox_mounts (path_text rs) (path_text cs))"
    "''--share-net'' \<notin> set (sandbox_mounts (path_text rs) (path_text cs))"
  by (simp_all add: sandbox_mounts_def path_text_def)

lemma sandbox_options:
  "takeWhile (\<lambda>a. a \<noteq> ''--'') (sandbox_mounts (path_text rs) (path_text cs) @ (if net then [''--share-net''] else []) @ sandbox_limits sb @ rest)
     = sandbox_mounts (path_text rs) (path_text cs) @ (if net then [''--share-net''] else [])"
proof -
  have "\<forall>a \<in> set (sandbox_mounts (path_text rs) (path_text cs)). a \<noteq> ''--''" using mounts_no_end by metis
  then show ?thesis by (simp add: takeWhile_append2 sandbox_limits_def)
qed

section \<open>Runs\<close>

text \<open>A run starts at most one process; what it asks for is the scrubbed environment, in the sandbox if there is one.\<close>

definition ok_request :: "host \<Rightarrow> command_runner \<Rightarrow> tree \<Rightarrow> spawn_request \<Rightarrow> bool" where
  "ok_request ho runner fs sr \<longleftrightarrow>
     (\<forall>(name, v) \<in> set (sr_env sr). (name, v) \<in> set (ho_environ ho)
        \<and> (\<forall>marker \<in> set secret_env_markers. \<not> contains marker (py_upper name)))
     \<and> (case cr_sandbox runner of None \<Rightarrow> True | Some sb \<Rightarrow> sandboxed_request fs sb sr)"

lemma child_env_safe:
  "(name, v) \<in> set (child_env environ) \<longleftrightarrow> (name, v) \<in> set environ
     \<and> (\<forall>marker \<in> set secret_env_markers. \<not> contains marker (py_upper name))"
  by (simp add: child_env_def is_secret_env_name_def list_ex_iff)

lemma command_line_sandboxed:
  assumes "command_line wk runner cwd name args = Inr (program, argv, dir)"
  shows "case cr_sandbox runner of None \<Rightarrow> True
    | Some sb \<Rightarrow> sandboxed_request (ws_tree wk) sb \<lparr>sr_program = program, sr_args = argv,
        sr_cwd = (if dir = '''' then None else Some dir), sr_env = env\<rparr>"
proof (cases "cr_sandbox runner")
  case (Some sb)
  with assms have "sandbox_wrap (wk_world wk) sb (if cr_workspace runner then get_primary_root wk else '''') cwd name args = Inr (program, argv, dir)"
    by (simp add: command_line_def)
  from sandbox_wrap_ok [OF this, folded ws_tree_def] have program: "program = bw_bwrap sb" by (rule conjunct1)
  from sandbox_wrap_ok [OF \<open>sandbox_wrap _ _ _ _ _ _ = _\<close>, folded ws_tree_def, THEN conjunct2]
  obtain rs ds where "real_path (ws_tree wk) rs" "real_path (ws_tree wk) (rs @ ds)" "dir = path_text rs"
    "argv = sandbox_mounts (path_text rs) (path_text (rs @ ds))
         @ (if sb_allow_network (bw_config sb) then [''--share-net''] else []) @ sandbox_limits sb @ name # args"
    by (elim exE conjE)
  moreover have "path_text rs \<noteq> ''''" by (simp add: path_text_def)
  moreover note program
  ultimately show ?thesis unfolding Some sandboxed_request_def option.case spawn_request.select_convs
    by (intro conjI exI [of _ rs] exI [of _ ds] exI [of _ "name # args"]) simp_all
qed simp

lemma run_exec_request:
  assumes "run_exec pt ho spawn wk runner cwd timeout max_bytes name args = (wk', Inr ((output, reason), cancelled))"
  shows "\<exists>sr fs pe. ok_request ho runner (ws_tree wk) sr \<and> spawn (ws_tree wk) sr = (fs, Inr pe) \<and> wk' = with_tree wk fs
    \<and> cancelled = pe_cancelled_after pe \<and> (output, reason) = exec_result pt ho timeout max_bytes pe"
proof (cases "command_line wk runner cwd name args")
  case (Inr line)
  obtain program argv dir where l: "line = (program, argv, dir)" by (cases line)
  define sr where "sr = \<lparr>sr_program = program, sr_args = argv, sr_cwd = (if dir = '''' then None else Some dir), sr_env = child_env (ho_environ ho)\<rparr>"
  have ok: "ok_request ho runner (ws_tree wk) sr"
    using command_line_sandboxed [OF Inr [unfolded l], of "child_env (ho_environ ho)"] child_env_safe
    by (auto simp: ok_request_def sr_def)
  obtain fs r where s: "spawn (ws_tree wk) sr = (fs, r)" by (cases "spawn (ws_tree wk) sr")
  have "(case r of Inl e \<Rightarrow> (with_tree wk fs, Inl e)
      | Inr pe \<Rightarrow> (with_tree wk fs, Inr (exec_result pt ho timeout max_bytes pe, pe_cancelled_after pe))) = (wk', Inr ((output, reason), cancelled))"
    using assms unfolding run_exec_def Inr l sum.case prod.case sr_def [symmetric] s by simp
  with ok s show ?thesis by (cases r) auto
qed (use assms in \<open>simp add: run_exec_def\<close>)

lemma run_exec_cong:
  assumes "\<And>fs sr. ok_request ho runner fs sr \<Longrightarrow> spawn fs sr = spawn' fs sr"
  shows "run_exec pt ho spawn wk runner cwd timeout max_bytes name args = run_exec pt ho spawn' wk runner cwd timeout max_bytes name args"
proof (cases "command_line wk runner cwd name args")
  case (Inr line)
  obtain program argv dir where l: "line = (program, argv, dir)" by (cases line)
  have "ok_request ho runner (ws_tree wk) \<lparr>sr_program = program, sr_args = argv,
      sr_cwd = (if dir = '''' then None else Some dir), sr_env = child_env (ho_environ ho)\<rparr>"
    using command_line_sandboxed [OF Inr [unfolded l], of "child_env (ho_environ ho)"] child_env_safe
    by (auto simp: ok_request_def)
  from assms [OF this] show ?thesis unfolding run_exec_def Inr l sum.case prod.case by simp
qed (simp add: run_exec_def)

lemma run_plan_cong:
  assumes "\<And>fs sr. ok_request ho (runner_or_default runner) fs sr \<Longrightarrow> spawn fs sr = spawn' fs sr"
  shows "run_plan pt ho spawn wk runner plan = run_plan pt ho spawn' wk runner plan"
  using run_exec_cong [OF assms] by (auto simp: run_plan_def split: sum.split)

section \<open>Properties\<close>

text \<open>
  C24. No command outgrows its bounds. The model's limits are clamped to 200000 bytes and 120 seconds
  and are never zero or negative; whatever a process writes, in whatever chunks, the output shows
  the first bytes up to the limit, says so exactly when there were more, and then only a line with
  the exit status follows.
\<close>
theorem command_output_bounded:
  assumes "0 < max_bytes" and "run_exec pt ho spawn wk runner cwd timeout max_bytes name args = (wk', Inr ((output, reason), cancelled))"
  shows "(\<forall>n. 1 \<le> output_limit n \<and> output_limit n \<le> 200000) \<and> (\<forall>s t. command_timeout s = Inr t \<longrightarrow> 1 \<le> t \<and> t \<le> 120)
    \<and> (\<exists>sr fs pe shown. spawn (ws_tree wk) sr = (fs, Inr pe)
        \<and> shown = pt_decode pt (take (nat max_bytes) (stream (pe_chunks pe)))
            @ (if max_bytes < int (length (stream (pe_chunks pe))) then newline # ''... truncated'' else '''')
        \<and> (case pe_exit pe of
             None \<Rightarrow> output = shown \<and> reason \<noteq> None
           | Some code \<Rightarrow> if code = 0 then output = shown \<and> reason = None
               else (\<exists>sep \<in> {'''', [newline]}. output = shown @ sep @ exit_status_message ho code)
                 \<and> reason = Some (CommandExit (exit_status_message ho code))))"
proof -
  from run_exec_request [OF assms(2)]
  obtain sr fs pe where sp: "spawn (ws_tree wk) sr = (fs, Inr pe)"
    and out: "(output, reason) = exec_result pt ho timeout max_bytes pe" by blast
  define shown where "shown = buffer_string pt (consume (new_buffer max_bytes) (pe_chunks pe))"
  have s: "shown = pt_decode pt (take (nat max_bytes) (stream (pe_chunks pe)))
            @ (if max_bytes < int (length (stream (pe_chunks pe))) then newline # ''... truncated'' else '''')"
    using consume_new [OF assms(1), of "pe_chunks pe"] by (simp add: shown_def buffer_string_def)
  have "case pe_exit pe of
             None \<Rightarrow> output = shown \<and> reason \<noteq> None
           | Some code \<Rightarrow> if code = 0 then output = shown \<and> reason = None
               else (\<exists>sep \<in> {'''', [newline]}. output = shown @ sep @ exit_status_message ho code)
                 \<and> reason = Some (CommandExit (exit_status_message ho code))"
    using out by (auto simp: exec_result_def finish_def shown_def [symmetric] Let_def split: option.splits if_splits)
  with sp s output_limit_bounds command_timeout_bounds show ?thesis by blast
qed

text \<open>
  C14. Commands stay in their sandbox and without secrets. Whatever the model asks for, the four
  command tools behave the same with any two ways of starting processes that agree on requests whose
  environment is part of the host's without a name that contains a credential marker in any
  case, and which, under a sandbox, run \<open>bwrap\<close> with a real directory as the only writable bind, a
  start directory below it, and the call's own words behind the last \<open>--\<close>: they make no other request.
\<close>
theorem commands_confined:
  assumes "\<forall>fs sr. ok_request ho (runner_or_default runner) fs sr \<longrightarrow> spawn fs sr = spawn' fs sr"
  shows "run_command_run pt jl env ho spawn runner wk call = run_command_run pt jl env ho spawn' runner wk call
    \<and> bash_run pt jl ho spawn runner wk call = bash_run pt jl ho spawn' runner wk call
    \<and> git_status_run pt jl ho spawn runner wk call = git_status_run pt jl ho spawn' runner wk call
    \<and> git_diff_run pt jl env ho spawn runner wk call = git_diff_run pt jl env ho spawn' runner wk call"
proof -
  have "run_plan pt ho spawn wk runner plan = run_plan pt ho spawn' wk runner plan" for plan
    using assms by (intro run_plan_cong) blast
  note this [simp]
  show ?thesis by (simp add: run_command_run_def bash_run_def git_status_run_def git_diff_run_def split: sum.split)
qed

text \<open>The same process, reported as finished with status zero when it was cut short.\<close>

definition pretend_finished :: "spawn \<Rightarrow> spawn" where
  "pretend_finished spawn fs sr = (case spawn fs sr of
       (fs', Inr pe) \<Rightarrow> (fs', Inr (if pe_exit pe = None then pe\<lparr>pe_exit := Some 0\<rparr> else pe)) | r \<Rightarrow> r)"

definition output_part :: "(string \<times> command_error option) \<times> string option \<Rightarrow> string \<times> string option" where
  "output_part r = (fst (fst r), snd r)"

lemma run_exec_pretend:
  "(case run_exec pt ho spawn wk runner cwd timeout max_bytes name args of (wk', Inl e) \<Rightarrow> (wk', Inl e) | (wk', Inr r) \<Rightarrow> (wk', Inr (output_part r)))
   = (case run_exec pt ho (pretend_finished spawn) wk runner cwd timeout max_bytes name args of
       (wk', Inl e) \<Rightarrow> (wk', Inl e) | (wk', Inr r) \<Rightarrow> (wk', Inr (output_part r)))"
proof (cases "command_line wk runner cwd name args")
  case (Inr line)
  obtain program argv dir where l: "line = (program, argv, dir)" by (cases line)
  define sr where "sr = \<lparr>sr_program = program, sr_args = argv, sr_cwd = (if dir = '''' then None else Some dir), sr_env = child_env (ho_environ ho)\<rparr>"
  obtain fs r where s: "spawn (ws_tree wk) sr = (fs, r)" by (cases "spawn (ws_tree wk) sr")
  have "fst (exec_result pt ho timeout max_bytes pe) = fst (exec_result pt ho timeout max_bytes (pe\<lparr>pe_exit := Some 0\<rparr>))"
    if "pe_exit pe = None" for pe using that by (simp add: exec_result_def finish_def)
  with s show ?thesis unfolding run_exec_def Inr l sum.case prod.case sr_def [symmetric] pretend_finished_def s
    by (cases r) (auto simp: output_part_def)
qed (simp add: run_exec_def)

lemma tolerated_answer:
  "command_answer (\<lambda>out cancelled. raise_unless True out) r
     = (case (case r of (wk', Inl e) \<Rightarrow> (wk', Inl e) | (wk', Inr x) \<Rightarrow> (wk', Inr (output_part x))) of
          (wk', Inl e) \<Rightarrow> (wk', Inl (CommandTool e)) | (wk', Inr (output, cancelled)) \<Rightarrow> (wk', Inr output))"
  by (auto simp: command_answer_def raise_unless_def output_part_def split: prod.split sum.split option.split)

text \<open>
  \<open>run_command\<close> misreports the end of a process. With \<open>continue_on_error\<close> a command that timed out
  or was cancelled answers exactly as one that finished with the same output and status zero, so the
  model cannot tell. Without it, a command that exits with a status other than zero raises that
  status alone and its output is lost, where \<open>bash\<close>, for the same process, answers with both.
\<close>
theorem command_ends_confused:
  "(\<forall>args. decode_args jl env (tc_input call) run_command_args = Inr args \<and> bool_field args ''continue_on_error'' \<longrightarrow>
      run_command_run pt jl env ho spawn runner wk call = run_command_run pt jl env ho (pretend_finished spawn) runner wk call)
   \<and> (pe_exit pe = Some code \<and> code \<noteq> 0 \<longrightarrow>
      raise_unless False (exec_result pt ho timeout max_bytes pe) = Inl (CommandExit (exit_status_message ho code))
      \<and> (\<exists>output. bash_judge (exec_result pt ho timeout max_bytes pe) None = Inr output
          \<and> endswith output (exit_status_message ho code)
          \<and> startswith output (buffer_string pt (consume (new_buffer max_bytes) (pe_chunks pe)))))"
proof (intro conjI allI impI)
  fix args
  assume a: "decode_args jl env (tc_input call) run_command_args = Inr args \<and> bool_field args ''continue_on_error''"
  have "command_answer (\<lambda>out cancelled. raise_unless True out) (run_plan pt ho spawn wk runner plan)
    = command_answer (\<lambda>out cancelled. raise_unless True out) (run_plan pt ho (pretend_finished spawn) wk runner plan)" for plan
    unfolding tolerated_answer using run_exec_pretend by (auto simp: run_plan_def split: sum.split)
  with a show "run_command_run pt jl env ho spawn runner wk call = run_command_run pt jl env ho (pretend_finished spawn) runner wk call"
    by (simp add: run_command_run_def)
next
  assume e: "pe_exit pe = Some code \<and> code \<noteq> 0"
  then show "raise_unless False (exec_result pt ho timeout max_bytes pe) = Inl (CommandExit (exit_status_message ho code))"
    by (simp add: exec_result_def finish_def raise_unless_def Let_def)
  from e show "\<exists>output. bash_judge (exec_result pt ho timeout max_bytes pe) None = Inr output
          \<and> endswith output (exit_status_message ho code)
          \<and> startswith output (buffer_string pt (consume (new_buffer max_bytes) (pe_chunks pe)))"
    by (auto simp: exec_result_def finish_def bash_judge_def Let_def endswith_def startswith_def)
qed

section \<open>Examples\<close>

definition sample_host :: host where
  "sample_host = \<lparr>ho_linux = True, ho_which = \<lambda>p. Some (''/usr/bin/'' @ p), ho_environ = [(''PATH'', ''/bin''), (''npm_token'', ''x'')],
     ho_signal_name = \<lambda>_. None\<rparr>"

text \<open>A process that prints its environment in two chunks and fails, and one that is stopped.\<close>

definition env_process :: spawn where
  "env_process fs sr = (fs, Inr \<lparr>pe_chunks = [concat (map fst (sr_env sr)), ''ok''], pe_exit = Some 1, pe_cancelled = None, pe_cancelled_after = None\<rparr>)"

definition stopped_process :: spawn where
  "stopped_process fs sr = (fs, Inr \<lparr>pe_chunks = [''part''], pe_exit = None, pe_cancelled = None, pe_cancelled_after = None\<rparr>)"

definition guarded_process :: spawn where
  "guarded_process fs sr = (if ''npm_token'' \<in> fst ` set (sr_env sr) then (fs, Inl (ToolRuntimeError ''leak'')) else env_process fs sr)"

definition sample_command :: "bool \<Rightarrow> string \<Rightarrow> json option" where
  "sample_command tolerant = sample_arguments [(''command'', JString ''make''), (''continue_on_error'', JBool tolerant)]"

theorem command_output_bounded_witness:
  "\<exists>output. snd (run_exec plain_text sample_host env_process sample_binding (runner_or_default None) ''/w'' 30 5 ''env'' [])
      = Inr ((output, Some (CommandExit ''exit status 1'')), None)
    \<and> startswith output (''PATHo'' @ newline # ''... truncated'')"
proof -
  have r: "run_exec plain_text sample_host env_process sample_binding (runner_or_default None) ''/w'' 30 5 ''env'' []
    = (sample_binding, Inr ((''PATHo'' @ newline # ''... truncated'' @ newline # ''exit status 1'', Some (CommandExit ''exit status 1'')), None))"
    by code_simp
  from command_output_bounded [OF _ r] obtain shown where "shown = ''PATHo'' @ newline # ''... truncated''"
    by (auto simp: env_process_def)
  with r show ?thesis by (auto simp: startswith_def)
qed

theorem commands_confined_witness:
  "run_command_run plain_text (sample_command True) sample_json_env sample_host guarded_process None sample_binding default_tool_call
   = (sample_binding, Inr (''PATHok'' @ newline # ''exit status 1''))"
proof -
  have "\<forall>fs sr. ok_request sample_host (runner_or_default None) fs sr \<longrightarrow> guarded_process fs sr = env_process fs sr"
  proof (intro allI impI)
    fix fs sr assume ok: "ok_request sample_host (runner_or_default None) fs sr"
    have "contains ''TOKEN'' (py_upper ''npm_token'')" "''TOKEN'' \<in> set secret_env_markers" by code_simp+
    with ok show "guarded_process fs sr = env_process fs sr" by (fastforce simp: ok_request_def guarded_process_def)
  qed
  from commands_confined [OF this, of plain_text "sample_command True" sample_json_env sample_binding default_tool_call, THEN conjunct1]
  show ?thesis by (rule trans) code_simp
qed

theorem command_ends_confused_witness:
  "run_command_run plain_text (sample_command True) sample_json_env sample_host stopped_process None sample_binding default_tool_call
     = run_command_run plain_text (sample_command True) sample_json_env sample_host (pretend_finished stopped_process) None sample_binding default_tool_call
   \<and> raise_unless False (exec_result plain_text sample_host 30 100 \<lparr>pe_chunks = [''why''], pe_exit = Some 2, pe_cancelled = None, pe_cancelled_after = None\<rparr>)
     = Inl (CommandExit ''exit status 2'')"
proof -
  have a: "\<exists>args. decode_args (sample_command True) sample_json_env (tc_input default_tool_call) run_command_args = Inr args
      \<and> bool_field args ''continue_on_error''" by (rule exI, rule conjI, code_simp, code_simp)
  have m: "exit_status_message sample_host 2 = ''exit status 2''" by code_simp
  from a command_ends_confused [of "sample_command True" sample_json_env default_tool_call plain_text sample_host stopped_process None sample_binding
      "\<lparr>pe_chunks = [''why''], pe_exit = Some 2, pe_cancelled = None, pe_cancelled_after = None\<rparr>" 2 30 100] m show ?thesis by auto
qed

end
