(* ===== verification/WebTools.thy ===== *)
theory WebTools
  imports CommandTools
begin

text \<open>
  The web tools (\<open>tools/web.py\<close>). The URL and address parsers of the standard library, the resolver, the
  HTTP transport and the HTML parser are arguments; the model keeps the checks around them.
\<close>

section \<open>Which targets are public\<close>

text \<open>
  \<open>web_env\<close>: \<open>urlsplit\<close> gives scheme and host name, or raises \<open>ValueError\<close>; \<open>ip_address\<close> gives
  \<open>is_global\<close>, or raises; \<open>urljoin\<close>; the document tree of a page, or a parse error.
\<close>

datatype element = Element "string option" "string option" "string option" "(element \<times> string option) list"

record web_env =
  we_urlsplit :: "string \<Rightarrow> (string \<times> string) option"
  we_ip_address :: "string \<Rightarrow> bool option"
  we_urljoin :: "string \<Rightarrow> string \<Rightarrow> string"
  we_fromstring :: "string \<Rightarrow> element option"

definition max_browser_bytes :: int where "max_browser_bytes = 2097152"
definition max_redirects :: nat where "max_redirects = 5"
definition text_limit :: int where "text_limit = 100000"

definition blocked :: string where "blocked = ''browser blocked a private or local address''"
definition not_public :: string where "not_public = ''browser URL must be public HTTP(S)''"
definition unresolved :: string where "unresolved = ''browser could not resolve host''"

definition public_ip :: "web_env \<Rightarrow> string \<Rightarrow> bool" where
  "public_ip we address = (case we_ip_address we address of None \<Rightarrow> False | Some is_global \<Rightarrow> is_global)"

definition is_ip_literal :: "web_env \<Rightarrow> string \<Rightarrow> bool" where
  "is_ip_literal we host = (we_ip_address we host \<noteq> None)"

definition validate_public_url :: "web_env \<Rightarrow> string \<Rightarrow> (tool_error, string) result" where
  "validate_public_url we raw_url = (case we_urlsplit we raw_url of
       None \<Rightarrow> Inl (ToolValueError not_public)
     | Some (scheme, hostname) \<Rightarrow> (let host = py_lower hostname in
         if host = '''' \<or> py_lower scheme \<notin> {''http'', ''https''} then Inl (ToolValueError not_public)
         else if host = ''localhost'' \<or> endswith host ''.localhost'' then Inl (ToolValueError blocked)
         else if is_ip_literal we host \<and> \<not> public_ip we host then Inl (ToolValueError blocked)
         else Inr raw_url))"

definition resolve_public_address ::
    "web_env \<Rightarrow> (string \<Rightarrow> int \<Rightarrow> (os_error, string list) result) \<Rightarrow> string \<Rightarrow> int \<Rightarrow> (tool_error, string) result" where
  "resolve_public_address we lookup host port = (case lookup host port of
       Inl e \<Rightarrow> Inl (ToolRuntimeError unresolved)
     | Inr [] \<Rightarrow> Inl (ToolRuntimeError unresolved)
     | Inr (address # rest) \<Rightarrow> if \<not> list_all (public_ip we) (address # rest) then Inl (ToolValueError blocked) else Inr address)"

section \<open>The pinned transport\<close>

record http_url =
  hu_scheme :: string
  hu_host :: string
  hu_port :: "int option"
  hu_path :: string

record http_request =
  hr_method :: string
  hr_url :: http_url
  hr_headers :: "(string \<times> string) list"
  hr_sni :: "string option"

definition url_port :: "http_url \<Rightarrow> int" where
  "url_port u = (case hu_port u of Some p \<Rightarrow> p | None \<Rightarrow> if hu_scheme u = ''https'' then 443 else 80)"

text \<open>\<open>handle_async_request\<close>: the inner transport gets the checked address, with the name as TLS server name.\<close>

definition pinned_request ::
    "web_env \<Rightarrow> (string \<Rightarrow> int \<Rightarrow> (os_error, string list) result) \<Rightarrow> http_request \<Rightarrow> (tool_error, http_request) result" where
  "pinned_request we lookup request = (let u = hr_url request in
     bind_result (resolve_public_address we lookup (hu_host u) (url_port u)) (\<lambda>address.
       Inr (request\<lparr>hr_url := u\<lparr>hu_host := address\<rparr>, hr_sni := Some (hu_host u)\<rparr>)))"

definition handle_async_request ::
    "web_env \<Rightarrow> (string \<Rightarrow> int \<Rightarrow> (os_error, string list) result) \<Rightarrow> ('w \<Rightarrow> http_request \<Rightarrow> 'w \<times> (tool_error, 'r) result)
     \<Rightarrow> 'w \<Rightarrow> http_request \<Rightarrow> 'w \<times> (tool_error, 'r) result" where
  "handle_async_request we lookup inner w request = (case pinned_request we lookup request of
       Inl e \<Rightarrow> (w, Inl e) | Inr pinned \<Rightarrow> inner w pinned)"

section \<open>Fetching\<close>

text \<open>A response: the \<open>location\<close> header of a redirect, the status line, the URL it came from, and the body in chunks.\<close>

record http_response =
  ht_location :: "string option"
  ht_status :: int
  ht_reason :: string
  ht_url :: string
  ht_chunks :: "string list"

text \<open>One GET in a world of its own; the world says what \<open>raise_if_cancelled\<close> raises.\<close>

record 'w web =
  wb_get :: "'w \<Rightarrow> string \<Rightarrow> 'w \<times> (tool_error, http_response) result"
  wb_cancelled :: "'w \<Rightarrow> string option"

fun read_body :: "string \<Rightarrow> string list \<Rightarrow> (tool_error, string) result" where
  "read_body content [] = Inr content"
| "read_body content (chunk # chunks) =
     (if int (length (content @ chunk)) > max_browser_bytes then Inl (ToolRuntimeError ''browser response exceeds 2 MiB'')
      else read_body (content @ chunk) chunks)"

text \<open>The loop over the hops; the first argument is how many redirects may still be followed.\<close>

fun fetch_hops :: "web_env \<Rightarrow> 'w web \<Rightarrow> nat \<Rightarrow> 'w \<Rightarrow> string \<Rightarrow> 'w \<times> (command_error, string \<times> string) result" where
  "fetch_hops we web left w url = (case wb_cancelled web w of
       Some reason \<Rightarrow> (w, Inl (CommandCancelled reason))
     | None \<Rightarrow> (case wb_get web w url of
           (w1, Inl e) \<Rightarrow> (w1, Inl (CommandTool e))
         | (w1, Inr response) \<Rightarrow> (case ht_location response of
               Some location \<Rightarrow> (case left of
                   0 \<Rightarrow> (w1, Inl (CommandTool (ToolRuntimeError ''too many redirects'')))
                 | Suc left' \<Rightarrow> (case validate_public_url we (we_urljoin we (ht_url response) location) of
                       Inl e \<Rightarrow> (w1, Inl (CommandTool e))
                     | Inr next_url \<Rightarrow> fetch_hops we web left' w1 next_url))
             | None \<Rightarrow>
                 if \<not> (200 \<le> ht_status response \<and> ht_status response < 300)
                 then (w1, Inl (CommandTool (ToolRuntimeError (''HTTP status '' @ dec_int (ht_status response) @ '' '' @ ht_reason response))))
                 else (case read_body '''' (ht_chunks response) of
                     Inl e \<Rightarrow> (w1, Inl (CommandTool e)) | Inr content \<Rightarrow> (w1, Inr (content, ht_url response))))))"

declare fetch_hops.simps [simp del]

definition fetch_public :: "web_env \<Rightarrow> 'w web \<Rightarrow> 'w \<Rightarrow> string \<Rightarrow> 'w \<times> (command_error, string \<times> string) result" where
  "fetch_public we web w raw_url = (case validate_public_url we raw_url of
       Inl e \<Rightarrow> (w, Inl (CommandTool e)) | Inr url \<Rightarrow> fetch_hops we web max_redirects w url)"

section \<open>The text of a page\<close>

definition limit_text :: "string \<Rightarrow> int \<Rightarrow> string" where
  "limit_text text limit = (if int (length text) \<le> limit then text else take (nat limit) text @ newline # ''[truncated]'')"

definition page_json :: "string \<Rightarrow> string \<Rightarrow> string" where
  "page_json raw_url text = dumps_compact (JObject [(''url'', JString raw_url), (''content'', JString (limit_text text text_limit))])"

text \<open>The words of a text node, if it has any.\<close>

definition node_words :: "string option \<Rightarrow> string list" where
  "node_words t = (case t of None \<Rightarrow> [] | Some s \<Rightarrow> let words = join_with '' '' (split_ws s) in if words = '''' then [] else [words])"

text \<open>An element is its tag (none for comments), its \<open>href\<close>, its text, and its children with their tails.\<close>

fun page_lines :: "web_env \<Rightarrow> string \<Rightarrow> element \<Rightarrow> string list" where
  "page_lines we raw_url (Element tag href text_node children) =
     (let below = concat (map (\<lambda>(child, tail). page_lines we raw_url child @ node_words tail) children)
      in case tag of
           None \<Rightarrow> below
         | Some tag_name \<Rightarrow> (let name = py_lower tag_name in
             if name \<in> {''script'', ''style'', ''noscript''} then []
             else (case href of
                 Some link \<Rightarrow> if name = ''a'' \<and> link \<noteq> '''' then [''[link: '' @ we_urljoin we raw_url link @ '']''] else []
               | None \<Rightarrow> []) @ node_words text_node @ below))"

definition extracted_page :: "web_env \<Rightarrow> py_text \<Rightarrow> string \<Rightarrow> string \<Rightarrow> string" where
  "extracted_page we pt raw_url content = (case we_fromstring we content of
       None \<Rightarrow> page_json raw_url (pt_decode pt content)
     | Some root \<Rightarrow> page_json raw_url (join_with [newline] (page_lines we raw_url root)))"

section \<open>The tools\<close>

text \<open>\<open>quote_plus\<close>: unreserved bytes stay, a space becomes a plus, any other byte is escaped.\<close>

definition hex_digit :: "nat \<Rightarrow> char" where
  "hex_digit n = ''0123456789ABCDEF'' ! n"

definition quote_char :: "char \<Rightarrow> string" where
  "quote_char c = (let n = (of_char c :: nat) in
     if (65 \<le> n \<and> n \<le> 90) \<or> (97 \<le> n \<and> n \<le> 122) \<or> (48 \<le> n \<and> n \<le> 57) \<or> c \<in> set ''_.-~'' then [c]
     else if n = 32 then ''+'' else [CHR ''%'', hex_digit (n div 16), hex_digit (n mod 16)])"

definition quote_plus :: "py_text \<Rightarrow> string \<Rightarrow> string" where
  "quote_plus pt s = concat (map quote_char (pt_encode pt s))"

definition web_search_args :: ty where
  "web_search_args = TData [plain_field ''query'' TStr (PStr '''')]"

definition browser_fetch_args :: ty where
  "browser_fetch_args = TData [plain_field ''url'' TStr (PStr '''')]"

definition page_answer :: "web_env \<Rightarrow> py_text \<Rightarrow> 'w \<times> (command_error, string \<times> string) result \<Rightarrow> 'w \<times> (command_error, string) result" where
  "page_answer we pt r = (case r of
       (w, Inl e) \<Rightarrow> (w, Inl e) | (w, Inr (content, final_url)) \<Rightarrow> (w, Inr (extracted_page we pt final_url content)))"

definition web_search_run ::
    "web_env \<Rightarrow> py_text \<Rightarrow> (string \<Rightarrow> json option) \<Rightarrow> json_env \<Rightarrow> 'w web \<Rightarrow> 'w \<Rightarrow> tool_call \<Rightarrow> 'w \<times> (command_error, string) result" where
  "web_search_run we pt json_loads env web w call = (case decode_args json_loads env (tc_input call) web_search_args of
       Inl e \<Rightarrow> (w, Inl (CommandTool e))
     | Inr args \<Rightarrow> (let query = py_strip (str_field args ''query'') in
         if query = '''' then (w, Inl (CommandTool (ToolRuntimeError ''search query is required'')))
         else page_answer we pt (fetch_public we web w (''https://html.duckduckgo.com/html/?q='' @ quote_plus pt query))))"

definition browser_fetch_run ::
    "web_env \<Rightarrow> py_text \<Rightarrow> (string \<Rightarrow> json option) \<Rightarrow> json_env \<Rightarrow> 'w web \<Rightarrow> 'w \<Rightarrow> tool_call \<Rightarrow> 'w \<times> (command_error, string) result" where
  "browser_fetch_run we pt json_loads env web w call = (case decode_args json_loads env (tc_input call) browser_fetch_args of
       Inl e \<Rightarrow> (w, Inl (CommandTool e))
     | Inr args \<Rightarrow> page_answer we pt (fetch_public we web w (py_strip (str_field args ''url''))))"

section \<open>What is fetched\<close>

text \<open>The same transport, writing down every URL it is asked for.\<close>

definition logged :: "'w web \<Rightarrow> ('w \<times> string list) web" where
  "logged web = \<lparr>wb_get = \<lambda>(w, log) url. (case wb_get web w url of (w1, r) \<Rightarrow> ((w1, log @ [url]), r)),
     wb_cancelled = \<lambda>(w, log). wb_cancelled web w\<rparr>"

definition public_url :: "web_env \<Rightarrow> string \<Rightarrow> bool" where
  "public_url we url \<longleftrightarrow> (\<exists>scheme hostname. we_urlsplit we url = Some (scheme, hostname) \<and> hostname \<noteq> ''''
     \<and> py_lower scheme \<in> {''http'', ''https''} \<and> py_lower hostname \<noteq> ''localhost'' \<and> \<not> endswith (py_lower hostname) ''.localhost''
     \<and> we_ip_address we (py_lower hostname) \<noteq> Some False)"

lemma validated_public: "validate_public_url we raw = Inr url \<Longrightarrow> url = raw \<and> public_url we url"
  by (auto simp: validate_public_url_def public_url_def is_ip_literal_def public_ip_def Let_def py_lower_def split: option.splits if_splits)

lemma read_body_bounded: "read_body content chunks = Inr out \<Longrightarrow> int (length content) \<le> max_browser_bytes \<Longrightarrow>
    int (length out) \<le> max_browser_bytes \<and> out = content @ concat chunks"
  by (induction content chunks rule: read_body.induct) (auto split: if_splits)

lemma fetch_hops_logged:
  "public_url we url \<Longrightarrow> fetch_hops we (logged web) left (w, log) url = ((w', log'), r) \<Longrightarrow>
     (\<exists>urls. log' = log @ urls \<and> length urls \<le> Suc left \<and> (\<forall>u \<in> set urls. public_url we u))
     \<and> (\<forall>content final. r = Inr (content, final) \<longrightarrow> int (length content) \<le> max_browser_bytes)"
proof (induction left arbitrary: w log url)
  case 0
  have z: "int (length []) \<le> max_browser_bytes" by (simp add: max_browser_bytes_def)
  from 0 show ?case
    by (subst (asm) fetch_hops.simps)
      (auto simp: logged_def dest: read_body_bounded [OF _ z] split: option.splits prod.splits sum.splits if_splits nat.splits)
next
  case (Suc left)
  have z: "int (length []) \<le> max_browser_bytes" by (simp add: max_browser_bytes_def)
  obtain w1 r1 where g: "wb_get web w url = (w1, r1)" by (cases "wb_get web w url")
  show ?case
  proof (cases "\<exists>response location next_url. r1 = Inr response \<and> ht_location response = Some location \<and> wb_cancelled web w = None
      \<and> validate_public_url we (we_urljoin we (ht_url response) location) = Inr next_url")
    case True
    then obtain response location next_url where t: "r1 = Inr response" "ht_location response = Some location" "wb_cancelled web w = None"
      "validate_public_url we (we_urljoin we (ht_url response) location) = Inr next_url" by blast
    have "fetch_hops we (logged web) (Suc left) (w, log) url = fetch_hops we (logged web) left (w1, log @ [url]) next_url"
      by (subst fetch_hops.simps) (simp add: logged_def g t)
    with Suc.IH [of next_url w1 "log @ [url]"] validated_public [OF t(4)] Suc.prems show ?thesis by auto
  next
    case False
    with Suc.prems g show ?thesis
      unfolding fetch_hops.simps [of we "logged web" "Suc left" "(w, log)" url]
      by (auto simp: logged_def dest: read_body_bounded [OF _ z] split: option.splits prod.splits sum.splits if_splits)
  qed
qed

text \<open>
  C16. A fetch reaches public targets only, within its bounds. Whatever the first URL and whatever
  the servers answer, every URL requested names an HTTP(S) host that is not a local name or a
  literal address outside the global ranges, redirects included; there are at most six requests,
  and a page that is returned has at most 2 MiB. And the transport underneath dials, for any name,
  an address that the resolver gave together with none that is not public.
\<close>
theorem fetches_public_only:
  "(case fetch_public we (logged web) (w, []) raw_url of ((w', urls), r) \<Rightarrow>
      length urls \<le> 6 \<and> (\<forall>u \<in> set urls. public_url we u)
      \<and> (\<forall>content final. r = Inr (content, final) \<longrightarrow> int (length content) \<le> 2097152))
   \<and> (\<forall>request pinned. pinned_request we lookup request = Inr pinned \<longrightarrow>
        (\<exists>addresses. lookup (hu_host (hr_url request)) (url_port (hr_url request)) = Inr addresses
          \<and> hu_host (hr_url pinned) \<in> set addresses \<and> (\<forall>a \<in> set addresses. we_ip_address we a = Some True))
        \<and> hr_sni pinned = Some (hu_host (hr_url request)) \<and> hr_headers pinned = hr_headers request)"
proof (intro conjI allI impI)
  show "case fetch_public we (logged web) (w, []) raw_url of ((w', urls), r) \<Rightarrow>
      length urls \<le> 6 \<and> (\<forall>u \<in> set urls. public_url we u)
      \<and> (\<forall>content final. r = Inr (content, final) \<longrightarrow> int (length content) \<le> 2097152)"
  proof (cases "validate_public_url we raw_url")
    case (Inr url)
    obtain w' urls r where f: "fetch_hops we (logged web) max_redirects (w, []) url = ((w', urls), r)" by (metis surj_pair)
    from fetch_hops_logged [OF conjunct2 [OF validated_public [OF Inr]] f] f Inr show ?thesis
      by (auto simp: fetch_public_def max_redirects_def max_browser_bytes_def)
  qed (simp add: fetch_public_def)
next
  fix request pinned
  assume "pinned_request we lookup request = Inr pinned"
  then show "\<exists>addresses. lookup (hu_host (hr_url request)) (url_port (hr_url request)) = Inr addresses
          \<and> hu_host (hr_url pinned) \<in> set addresses \<and> (\<forall>a \<in> set addresses. we_ip_address we a = Some True)"
    "hr_sni pinned = Some (hu_host (hr_url request))" "hr_headers pinned = hr_headers request"
    by (auto simp: pinned_request_def resolve_public_address_def bind_result_Inr_iff list_all_iff public_ip_def Let_def
        split: sum.splits list.splits if_splits option.splits)
qed

text \<open>A server that redirects a public page to a local one, and then to itself.\<close>

definition sample_web_env :: web_env where
  "sample_web_env = \<lparr>we_urlsplit = \<lambda>u. Some (''http'', removeprefix u ''http://''),
     we_ip_address = \<lambda>a. if a = ''8.8.8.8'' then Some True else if a = ''10.0.0.1'' then Some False else None,
     we_urljoin = \<lambda>base link. link, we_fromstring = \<lambda>_. None\<rparr>"

definition sample_web :: "unit web" where
  "sample_web = \<lparr>wb_get = \<lambda>w url. (w, Inr \<lparr>ht_location = (if url = ''http://a'' then Some ''http://10.0.0.1''
       else if url = ''http://b'' then Some ''http://b'' else None), ht_status = 200, ht_reason = ''OK'', ht_url = url, ht_chunks = [url]\<rparr>),
     wb_cancelled = \<lambda>_. None\<rparr>"

definition sample_request :: http_request where
  "sample_request = \<lparr>hr_method = ''GET'', hr_url = \<lparr>hu_scheme = ''https'', hu_host = ''dns'', hu_port = None, hu_path = ''/''\<rparr>,
     hr_headers = [], hr_sni = None\<rparr>"

theorem fetches_public_only_witness:
  "fetch_public sample_web_env (logged sample_web) ((), []) ''http://a'' = (((), [''http://a'']), Inl (CommandTool (ToolValueError blocked)))
   \<and> (case fetch_public sample_web_env (logged sample_web) ((), []) ''http://b'' of ((w, urls), r) \<Rightarrow> length urls = 6)
   \<and> (\<exists>p. pinned_request sample_web_env (\<lambda>h port. Inr [''8.8.8.8'']) sample_request = Inr p \<and> hu_host (hr_url p) = ''8.8.8.8'')
   \<and> (\<forall>p. pinned_request sample_web_env (\<lambda>h port. Inr [''8.8.8.8'', ''10.0.0.1'']) sample_request \<noteq> Inr p)"
proof -
  have a: "fetch_public sample_web_env (logged sample_web) ((), []) ''http://a'' = (((), [''http://a'']), Inl (CommandTool (ToolValueError blocked)))"
    by code_simp
  have b: "case fetch_public sample_web_env (logged sample_web) ((), []) ''http://b'' of ((w, urls), r) \<Rightarrow> length urls = 6"
    by code_simp
  have p: "is_ok (pinned_request sample_web_env (\<lambda>h port. Inr [''8.8.8.8'']) sample_request)" by code_simp
  then obtain q where q: "pinned_request sample_web_env (\<lambda>h port. Inr [''8.8.8.8'']) sample_request = Inr q"
    by (auto simp: is_ok_def split: sum.splits)
  from fetches_public_only [THEN conjunct2, rule_format, OF q] have "hu_host (hr_url q) = ''8.8.8.8''" by auto
  moreover have "pinned_request sample_web_env (\<lambda>h port. Inr [''8.8.8.8'', ''10.0.0.1'']) sample_request \<noteq> Inr p" for p
    using fetches_public_only [THEN conjunct2, rule_format, of sample_web_env "\<lambda>h port. Inr [''8.8.8.8'', ''10.0.0.1'']" sample_request p]
    by (auto simp: sample_web_env_def)
  ultimately show ?thesis using a b q by blast
qed

end
