(* ===== verification/BuiltinTools.thy ===== *)
theory BuiltinTools
  imports CommandSafety WebTools Policy
begin

text \<open>
  The eleven built-in tools and the registry that holds them (\<open>registry_with_runner\<close> and
  \<open>sandboxed_registry\<close> of \<open>tools/registry.py\<close>), each tool with the specification it advertises. A
  tool runs in the world of the session: the workspace binding and the network.
\<close>

section \<open>Specifications\<close>

definition schema_type :: "string \<Rightarrow> string \<Rightarrow> string \<times> json" where
  "schema_type key t = (key, JObject [(''type'', JString t)])"

definition read_file_spec :: tool_spec where
  "read_file_spec = \<lparr>ts_name = ''read_file'',
     ts_description = ''Read a workspace file, optionally with start_line and end_line.'',
     ts_parameters = Some (object_schema [schema_type ''path'' ''string'', schema_type ''start_line'' ''integer'',
       schema_type ''end_line'' ''integer''] [''path'']),
     ts_risky = False\<rparr>"

definition list_files_spec :: tool_spec where
  "list_files_spec = \<lparr>ts_name = ''list_files'',
     ts_description = ''List workspace files under path, optionally filtered by glob pattern.'',
     ts_parameters = Some (object_schema [schema_type ''path'' ''string'', schema_type ''pattern'' ''string''] []),
     ts_risky = False\<rparr>"

definition search_spec :: tool_spec where
  "search_spec = \<lparr>ts_name = ''search'',
     ts_description = ''Search text in workspace files. Query is a regular expression.'',
     ts_parameters = Some (object_schema [schema_type ''query'' ''string'', schema_type ''path'' ''string''] [''query'']),
     ts_risky = False\<rparr>"

definition apply_patch_spec :: tool_spec where
  "apply_patch_spec = \<lparr>ts_name = ''apply_patch'',
     ts_description = ''Replace old_text with new_text in a workspace file.'',
     ts_parameters = Some (object_schema [schema_type ''path'' ''string'', schema_type ''old_text'' ''string'',
       schema_type ''new_text'' ''string'', schema_type ''replace_all'' ''boolean''] [''path'', ''old_text'', ''new_text'']),
     ts_risky = True\<rparr>"

definition write_file_spec :: tool_spec where
  "write_file_spec = \<lparr>ts_name = ''write_file'',
     ts_description = ''Write content to a workspace file, creating parent directories.'',
     ts_parameters = Some (object_schema [schema_type ''path'' ''string'', schema_type ''content'' ''string''] [''path'', ''content'']),
     ts_risky = True\<rparr>"

definition run_command_spec :: tool_spec where
  "run_command_spec = \<lparr>ts_name = ''run_command'',
     ts_description = ''Run a workspace command with cwd, timeout_seconds, and max_output_bytes.'',
     ts_parameters = Some (object_schema [schema_type ''command'' ''string'', schema_type ''cwd'' ''string'',
       schema_type ''timeout_seconds'' ''integer'', schema_type ''max_output_bytes'' ''integer'',
       schema_type ''continue_on_error'' ''boolean''] [''command'']),
     ts_risky = True\<rparr>"

definition git_status_spec :: tool_spec where
  "git_status_spec = \<lparr>ts_name = ''git_status'',
     ts_description = ''Show the branch and short git status for the workspace.'',
     ts_parameters = Some (object_schema [] []), ts_risky = False\<rparr>"

definition git_diff_spec :: tool_spec where
  "git_diff_spec = \<lparr>ts_name = ''git_diff'',
     ts_description = ''Show git diff for optional workspace paths.'',
     ts_parameters = Some (object_schema [(''paths'', JObject [(''type'', JString ''array''),
       (''items'', JObject [(''type'', JString ''string'')])])] []),
     ts_risky = False\<rparr>"

definition bash_spec :: tool_spec where
  "bash_spec = \<lparr>ts_name = ''bash'', ts_description = ''Run a bash command after user approval.'',
     ts_parameters = Some (JObject [(''type'', JString ''object''), (''properties'', JObject [schema_type ''command'' ''string'']),
       (''required'', JList [JString ''command''])]),
     ts_risky = True\<rparr>"

definition web_search_spec :: tool_spec where
  "web_search_spec = \<lparr>ts_name = ''web_search'', ts_description = ''Search the public web.'',
     ts_parameters = Some (object_schema [schema_type ''query'' ''string''] [''query'']), ts_risky = True\<rparr>"

definition browser_fetch_spec :: tool_spec where
  "browser_fetch_spec = \<lparr>ts_name = ''browser_fetch'', ts_description = ''Fetch and extract text from a public HTTP(S) page.'',
     ts_parameters = Some (object_schema [schema_type ''url'' ''string''] [''url'']), ts_risky = True\<rparr>"

section \<open>Running in one world\<close>

record 'w tool_world =
  tw_binding :: ws_binding
  tw_net :: 'w

text \<open>Everything the tools get from outside. The texts of three kinds of error are the interpreter's.\<close>

record 'w tool_ports =
  tp_text :: py_text
  tp_json_loads :: "string \<Rightarrow> json option"
  tp_json_env :: json_env
  tp_glob :: "string \<Rightarrow> string \<Rightarrow> bool"
  tp_dec_line :: "string \<Rightarrow> string"
  tp_compile :: "string \<Rightarrow> (tool_error, string \<Rightarrow> bool) result"
  tp_host :: host
  tp_spawn :: spawn
  tp_web_env :: web_env
  tp_web :: "'w web"
  tp_error_text :: "tool_error \<Rightarrow> string"
  tp_fresh :: nat

fun tool_exc :: "'w tool_ports \<Rightarrow> tool_error \<Rightarrow> exc" where
  "tool_exc tp (ToolRuntimeError t) = plain_exc (tp_fresh tp) RuntimeErrorC t"
| "tool_exc tp (ToolValueError t) = plain_exc (tp_fresh tp) ValueErrorC t"
| "tool_exc tp (ToolOSError FileNotFoundError) = plain_exc (tp_fresh tp) FileNotFoundErrorC (tp_error_text tp (ToolOSError FileNotFoundError))"
| "tool_exc tp (ToolOSError e) = plain_exc (tp_fresh tp) OSErrorC (tp_error_text tp (ToolOSError e))"
| "tool_exc tp e = plain_exc (tp_fresh tp) ExceptionC (tp_error_text tp e)"

fun command_exc :: "'w tool_ports \<Rightarrow> command_error \<Rightarrow> exc" where
  "command_exc tp (CommandTool e) = tool_exc tp e"
| "command_exc tp (CommandExit t) = plain_exc (tp_fresh tp) ExceptionC t"
| "command_exc tp (CommandTimeout t) = plain_exc (tp_fresh tp) TimeoutErrorC t"
| "command_exc tp (CommandCancelled t) = plain_exc (tp_fresh tp) CancelledC t"

definition raised :: "('e \<Rightarrow> exc) \<Rightarrow> ('e, string) result \<Rightarrow> (exc, string) result" where
  "raised f r = (case r of Inl e \<Rightarrow> Inl (f e) | Inr s \<Rightarrow> Inr s)"

text \<open>A tool that only looks at the binding, one that changes it, and one that uses the network.\<close>

definition reading :: "'w tool_ports \<Rightarrow> (ws_binding option \<Rightarrow> tool_call \<Rightarrow> (tool_error, string) result)
    \<Rightarrow> 'w tool_world \<Rightarrow> tool_call \<Rightarrow> 'w tool_world \<times> (exc, string) result" where
  "reading tp f w call = (w, raised (tool_exc tp) (f (Some (tw_binding w)) call))"

definition changing :: "('e \<Rightarrow> exc) \<Rightarrow> (ws_binding \<Rightarrow> tool_call \<Rightarrow> ws_binding \<times> ('e, string) result)
    \<Rightarrow> 'w tool_world \<Rightarrow> tool_call \<Rightarrow> 'w tool_world \<times> (exc, string) result" where
  "changing exc_of f w call = (case f (tw_binding w) call of (wk, r) \<Rightarrow> (w\<lparr>tw_binding := wk\<rparr>, raised exc_of r))"

definition networking :: "'w tool_ports \<Rightarrow> ('w \<Rightarrow> tool_call \<Rightarrow> 'w \<times> (command_error, string) result)
    \<Rightarrow> 'w tool_world \<Rightarrow> tool_call \<Rightarrow> 'w tool_world \<times> (exc, string) result" where
  "networking tp f w call = (case f (tw_net w) call of (net, r) \<Rightarrow> (w\<lparr>tw_net := net\<rparr>, raised (command_exc tp) r))"

definition builtin_tools :: "'w tool_ports \<Rightarrow> command_runner option \<Rightarrow> 'w tool_world tool list" where
  "builtin_tools tp runner = (let pt = tp_text tp; jl = tp_json_loads tp; env = tp_json_env tp; ho = tp_host tp; sp = tp_spawn tp in
    [\<lparr>tl_specs = [read_file_spec], tl_run = reading tp (read_file_run pt jl env)\<rparr>,
     \<lparr>tl_specs = [list_files_spec], tl_run = reading tp (list_files_run (tp_glob tp) jl env)\<rparr>,
     \<lparr>tl_specs = [search_spec], tl_run = reading tp (search_run (tp_dec_line tp) (tp_compile tp) jl env)\<rparr>,
     \<lparr>tl_specs = [apply_patch_spec], tl_run = changing (tool_exc tp) (apply_patch_run pt jl env)\<rparr>,
     \<lparr>tl_specs = [write_file_spec], tl_run = changing (tool_exc tp) (write_file_run pt jl env)\<rparr>,
     \<lparr>tl_specs = [run_command_spec], tl_run = changing (command_exc tp) (run_command_run pt jl env ho sp runner)\<rparr>,
     \<lparr>tl_specs = [git_status_spec], tl_run = changing (command_exc tp) (git_status_run pt jl ho sp runner)\<rparr>,
     \<lparr>tl_specs = [git_diff_spec], tl_run = changing (command_exc tp) (git_diff_run pt jl env ho sp runner)\<rparr>,
     \<lparr>tl_specs = [bash_spec], tl_run = changing (command_exc tp) (bash_run pt jl ho sp runner)\<rparr>,
     \<lparr>tl_specs = [web_search_spec], tl_run = networking tp (web_search_run (tp_web_env tp) pt jl env (tp_web tp))\<rparr>,
     \<lparr>tl_specs = [browser_fetch_spec], tl_run = networking tp (browser_fetch_run (tp_web_env tp) pt jl env (tp_web tp))\<rparr>])"

definition registry_with_runner :: "'w tool_ports \<Rightarrow> command_runner option \<Rightarrow> (exc, 'w tool_world registry) result" where
  "registry_with_runner tp runner = new_registry (tp_fresh tp) (builtin_tools tp runner)"

definition default_registry :: "'w tool_ports \<Rightarrow> (exc, 'w tool_world registry) result" where
  "default_registry tp = registry_with_runner tp None"

definition sandboxed_registry ::
    "'w tool_ports \<Rightarrow> sandbox_config \<Rightarrow> ws_binding option \<Rightarrow> sandbox_config \<times> (exc, 'w tool_world registry) result" where
  "sandboxed_registry tp config ws = (case ws of
       None \<Rightarrow> (config, Inl (plain_exc (tp_fresh tp) RuntimeErrorC ''workspace is not configured''))
     | Some wk \<Rightarrow> (case new_command_runner (tp_host tp) (wk_world wk) (config\<lparr>sb_workspace := get_primary_root wk\<rparr>) True of
           (c, Inl e) \<Rightarrow> (c, Inl (tool_exc tp e))
         | (c, Inr runner) \<Rightarrow> (c, registry_with_runner tp (Some runner))))"

section \<open>The registry\<close>

definition builtin_names :: "string list" where
  "builtin_names = [''read_file'', ''list_files'', ''search'', ''apply_patch'', ''write_file'', ''run_command'', ''git_status'',
     ''git_diff'', ''bash'', ''web_search'', ''browser_fetch'']"

lemmas spec_defs = read_file_spec_def list_files_spec_def search_spec_def apply_patch_spec_def write_file_spec_def run_command_spec_def
  git_status_spec_def git_diff_spec_def bash_spec_def web_search_spec_def browser_fetch_spec_def

lemma builtin_items: "map item_name (builtin_tools tp runner) = builtin_names" "list_all (\<lambda>t. length (tl_specs t) = 1) (builtin_tools tp runner)"
  by (simp_all add: builtin_tools_def builtin_names_def Let_def spec_defs)

lemma builtin_names_distinct: "distinct builtin_names"
  by code_simp

lemma builtin_registry:
  "\<exists>rg. registry_with_runner tp runner = Inr rg \<and> registry_ok rg \<and> rg_order rg = builtin_names
    \<and> rg_tools rg = map (\<lambda>t. (item_name t, t)) (builtin_tools tp runner) \<and> rg_checkpoint rg = None \<and> rg_observer rg = None"
proof -
  have "list_all (\<lambda>t. tl_specs t \<noteq> []) (builtin_tools tp runner)"
    using builtin_items(2) [of tp runner] by (auto simp: list_all_iff)
  moreover have "distinct (map item_name (builtin_tools tp runner))" using builtin_names_distinct by (simp add: builtin_items)
  ultimately show ?thesis
    using enter_all_ok [OF registry_ok_empty, of "builtin_tools tp runner" "tp_fresh tp"]
    by (auto simp: registry_with_runner_def new_registry_def empty_registry_def builtin_items)
qed

lemma builtin_specs:
  assumes "registry_with_runner tp runner = Inr rg"
  shows "registry_specs rg = [read_file_spec, list_files_spec, search_spec, apply_patch_spec, write_file_spec, run_command_spec,
    git_status_spec, git_diff_spec, bash_spec, web_search_spec, browser_fetch_spec]"
proof -
  from builtin_registry [of tp runner] assms have ok: "registry_ok rg" and t: "rg_tools rg = map (\<lambda>t. (item_name t, t)) (builtin_tools tp runner)"
    by auto
  show ?thesis unfolding registry_specs_tools [OF ok] t by (simp add: builtin_tools_def Let_def)
qed

definition safe_names :: "string list" where
  "safe_names = [''read_file'', ''list_files'', ''search'', ''git_status'', ''git_diff'']"

lemma builtin_risky:
  assumes "registry_with_runner tp runner = Inr rg"
  shows "isRiskyTool name (registry_specs rg) \<longleftrightarrow> name \<notin> set safe_names"
  unfolding builtin_specs [OF assms] by (auto simp: isRiskyTool_def spec_defs safe_names_def)

section \<open>Read-only calls\<close>

text \<open>Processes that only ask git: \<open>git status --short --branch\<close> and \<open>git diff -- paths\<close>, perhaps in a sandbox.\<close>

definition git_request :: "spawn_request \<Rightarrow> bool" where
  "git_request sr \<longleftrightarrow> (\<exists>before words. sr_program sr # sr_args sr = before @ ''git'' # words
     \<and> (words = [''status'', ''--short'', ''--branch''] \<or> (\<exists>rels. words = ''diff'' # ''--'' # rels)))"

lemma command_line_words:
  assumes "command_line wk runner cwd name args = Inr (program, argv, dir)"
  shows "\<exists>before. program # argv = before @ name # args"
proof (cases "cr_sandbox runner")
  case (Some sb)
  with assms have "sandbox_wrap (wk_world wk) sb (if cr_workspace runner then get_primary_root wk else '''') cwd name args = Inr (program, argv, dir)"
    by (simp add: command_line_def)
  from sandbox_wrap_ok [OF this] show ?thesis by (metis append.assoc append_Cons)
qed (use assms in \<open>auto simp: command_line_def\<close>)

lemma run_exec_tree:
  "\<exists>before sr r. fst (run_exec pt ho spawn wk runner cwd timeout max_bytes name args) = wk
     \<or> (sr_program sr # sr_args sr = before @ name # args
        \<and> fst (run_exec pt ho spawn wk runner cwd timeout max_bytes name args) = with_tree wk (fst (spawn (ws_tree wk) sr)))"
proof (cases "command_line wk runner cwd name args")
  case (Inr line)
  obtain program argv dir where l: "line = (program, argv, dir)" by (cases line)
  define sr where "sr = \<lparr>sr_program = program, sr_args = argv, sr_cwd = (if dir = '''' then None else Some dir), sr_env = child_env (ho_environ ho)\<rparr>"
  obtain fs r where s: "spawn (ws_tree wk) sr = (fs, r)" by (cases "spawn (ws_tree wk) sr")
  have "fst (run_exec pt ho spawn wk runner cwd timeout max_bytes name args) = with_tree wk fs"
    unfolding run_exec_def Inr l sum.case prod.case sr_def [symmetric] s by (cases r) simp_all
  moreover from command_line_words [OF Inr [unfolded l]] obtain before where "sr_program sr # sr_args sr = before @ name # args"
    by (auto simp: sr_def)
  ultimately show ?thesis using s by (metis fst_conv)
qed (simp add: run_exec_def)

lemma run_plan_git:
  assumes "\<And>cwd timeout max_bytes name args. plan = Inr (cwd, timeout, max_bytes, name, args) \<Longrightarrow>
      name = ''git'' \<and> (args = [''status'', ''--short'', ''--branch''] \<or> (\<exists>rels. args = ''diff'' # ''--'' # rels))"
  shows "fst (run_plan pt ho spawn wk runner plan) = wk
    \<or> (\<exists>sr. git_request sr \<and> fst (run_plan pt ho spawn wk runner plan) = with_tree wk (fst (spawn (ws_tree wk) sr)))"
proof (cases plan)
  case (Inr x)
  obtain cwd timeout max_bytes name args where x: "x = (cwd, timeout, max_bytes, name, args)" by (cases x)
  from assms [OF Inr [unfolded x]] have g: "name = ''git''" "args = [''status'', ''--short'', ''--branch''] \<or> (\<exists>rels. args = ''diff'' # ''--'' # rels)"
    by blast+
  from run_exec_tree [of pt ho spawn wk "runner_or_default runner" cwd timeout max_bytes name args] g show ?thesis
    unfolding run_plan_def Inr x sum.case prod.case git_request_def by metis
qed (simp add: run_plan_def)

lemma command_answer_world: "fst (command_answer judge r) = fst r"
  by (auto simp: command_answer_def split: prod.split sum.split)

lemma git_plans:
  "git_status_plan jl ws call = Inr (cwd, timeout, max_bytes, name, args) \<Longrightarrow> name = ''git'' \<and> args = [''status'', ''--short'', ''--branch'']"
  "git_diff_plan jl env ws call = Inr (cwd, timeout, max_bytes, name, args) \<Longrightarrow> name = ''git'' \<and> (\<exists>rels. args = ''diff'' # ''--'' # rels)"
  by (auto simp: git_status_plan_def git_diff_plan_def bind_result_Inr_iff)

lemma reading_world: "fst (reading tp f w call) = w"
  by (simp add: reading_def)

text \<open>What a call of a git tool does to a binding.\<close>

definition git_only :: "spawn \<Rightarrow> (ws_binding \<Rightarrow> tool_call \<Rightarrow> ws_binding \<times> ('e, string) result) \<Rightarrow> tool_call \<Rightarrow> bool" where
  "git_only spawn f call \<longleftrightarrow> (\<forall>wk. fst (f wk call) = wk
     \<or> (\<exists>sr. git_request sr \<and> fst (f wk call) = with_tree wk (fst (spawn (ws_tree wk) sr))))"

lemma changing_git:
  assumes "git_only spawn f call"
  shows "fst (changing e f w call) = w \<or> (\<exists>sr. git_request sr
    \<and> fst (changing e f w call) = w\<lparr>tw_binding := with_tree (tw_binding w) (fst (spawn (ws_tree (tw_binding w)) sr))\<rparr>)"
  using spec [OF assms [unfolded git_only_def], of "tw_binding w"] by (cases "f (tw_binding w) call") (auto simp: changing_def)

lemma git_status_only: "git_only spawn (git_status_run pt jl ho spawn runner) call"
  unfolding git_only_def git_status_run_def command_answer_world by (intro allI run_plan_git) (use git_plans(1) in blast)

lemma git_diff_only: "git_only spawn (git_diff_run pt jl env ho spawn runner) call"
  unfolding git_only_def git_diff_run_def command_answer_world by (intro allI run_plan_git) (use git_plans(2) in blast)

lemma safe_call:
  assumes "registry_with_runner tp runner = Inr rg" and "tc_name call \<in> set safe_names"
  shows "fst (run_direct fresh rg w call) = w \<or> (\<exists>sr. git_request sr
    \<and> fst (run_direct fresh rg w call) = w\<lparr>tw_binding := with_tree (tw_binding w) (fst (tp_spawn tp (ws_tree (tw_binding w)) sr))\<rparr>)"
proof -
  from builtin_registry [of tp runner] assms(1) have t: "rg_tools rg = map (\<lambda>t. (item_name t, t)) (builtin_tools tp runner)"
    and c: "rg_checkpoint rg = None" by auto
  note run = run_direct_def c option.case t builtin_tools_def Let_def spec_defs
  consider (read) "tc_name call = ''read_file''" | (list) "tc_name call = ''list_files''" | (search) "tc_name call = ''search''"
    | (status) "tc_name call = ''git_status''" | (diff) "tc_name call = ''git_diff''"
    using assms(2) by (auto simp: safe_names_def)
  then show ?thesis
  proof cases
    case status
    have "run_direct fresh rg w call = changing (command_exc tp)
        (git_status_run (tp_text tp) (tp_json_loads tp) (tp_host tp) (tp_spawn tp) runner) w call" by (simp add: run status)
    then show ?thesis using changing_git [OF git_status_only, where e = "command_exc tp"] by simp
  next
    case diff
    have "run_direct fresh rg w call = changing (command_exc tp)
        (git_diff_run (tp_text tp) (tp_json_loads tp) (tp_json_env tp) (tp_host tp) (tp_spawn tp) runner) w call" by (simp add: run diff)
    then show ?thesis using changing_git [OF git_diff_only, where e = "command_exc tp"] by simp
  qed (simp_all add: run reading_world)
qed

section \<open>Properties\<close>

lemma plan_mode_safe:
  assumes "registry_with_runner tp runner = Inr rg" and "dp_mode p = PERMISSION_MODE_PLAN"
    and "classify_tool_call jl cwd p call \<lparr>pi_tool_specs = registry_specs rg, pi_cwd = dir\<rparr> \<noteq> DECISION_DENIED"
  shows "tc_name call \<in> set safe_names"
  using assms(2,3) builtin_risky [OF assms(1), of "tc_name call"]
  by (auto simp: classify_tool_call_def Let_def PERMISSION_MODE_PLAN_def PERMISSION_MODE_BYPASS_def split: if_splits)

text \<open>
  C15. Plan mode reads. With the built-in tools, a call that the policy does not deny in plan mode
  leaves the workspace, its files and the network as they were, up to what one process changes that can only be \<open>git status --short --branch\<close> or
  \<open>git diff -- paths\<close>, in the sandbox or not; and the registry agrees with the policy about the
  risk of every name, so the checkpoint is taken for exactly the calls that need approval.
\<close>
theorem plan_mode_changes_nothing:
  assumes "registry_with_runner tp runner = Inr rg" and "dp_mode p = PERMISSION_MODE_PLAN"
    and "classify_tool_call jl cwd p call \<lparr>pi_tool_specs = registry_specs rg, pi_cwd = dir\<rparr> \<noteq> DECISION_DENIED"
  shows "(fst (run_direct fresh rg w call) = w \<or> (\<exists>sr. git_request sr
      \<and> fst (run_direct fresh rg w call) = w\<lparr>tw_binding := with_tree (tw_binding w) (fst (tp_spawn tp (ws_tree (tw_binding w)) sr))\<rparr>))
    \<and> (\<forall>name t. map_of (rg_tools rg) name = Some t \<longrightarrow> is_risky t name = isRiskyTool name (registry_specs rg))"
proof
  show "fst (run_direct fresh rg w call) = w \<or> (\<exists>sr. git_request sr
      \<and> fst (run_direct fresh rg w call) = w\<lparr>tw_binding := with_tree (tw_binding w) (fst (tp_spawn tp (ws_tree (tw_binding w)) sr))\<rparr>)"
    by (rule safe_call [OF assms(1) plan_mode_safe [OF assms]])
next
  from builtin_registry [of tp runner] assms(1) have t: "rg_tools rg = map (\<lambda>t. (item_name t, t)) (builtin_tools tp runner)" by auto
  show "\<forall>name t. map_of (rg_tools rg) name = Some t \<longrightarrow> is_risky t name = isRiskyTool name (registry_specs rg)"
    unfolding t builtin_specs [OF assms(1)] builtin_tools_def Let_def
    by (auto simp: isRiskyTool_def is_risky_def spec_defs split: if_splits)
qed

definition sample_ports :: "unit tool_ports" where
  "sample_ports = \<lparr>tp_text = plain_text, tp_json_loads = (\<lambda>s. if s = '''' then None else sample_patch s), tp_json_env = sample_json_env,
     tp_glob = \<lambda>_ _. True, tp_dec_line = \<lambda>s. s, tp_compile = \<lambda>_. Inr (\<lambda>_. True), tp_host = sample_host,
     tp_spawn = \<lambda>fs sr. ([], Inr \<lparr>pe_chunks = [concat (sr_args sr)], pe_exit = Some 0, pe_cancelled = None, pe_cancelled_after = None\<rparr>),
     tp_web_env = sample_web_env, tp_web = sample_web, tp_error_text = \<lambda>_. '''', tp_fresh = 0\<rparr>"

theorem plan_mode_changes_nothing_witness:
  "\<exists>rg. registry_with_runner sample_ports None = Inr rg
    \<and> snd (run_direct 0 rg \<lparr>tw_binding = sample_binding, tw_net = ()\<rparr> \<lparr>tc_id = '''', tc_name = ''git_status'', tc_input = ''''\<rparr>)
        = Inr ''status--short--branch''
    \<and> (\<forall>w. fst (run_direct 0 rg w \<lparr>tc_id = '''', tc_name = ''git_status'', tc_input = ''''\<rparr>) = w
        \<or> fst (run_direct 0 rg w \<lparr>tc_id = '''', tc_name = ''git_status'', tc_input = ''''\<rparr>) = w\<lparr>tw_binding := with_tree (tw_binding w) []\<rparr>)"
proof -
  let ?call = "\<lparr>tc_id = '''', tc_name = ''git_status'', tc_input = ''''\<rparr>"
  let ?p = "\<lparr>dp_mode = ''plan'', dp_rules = default_rules\<rparr>"
  have r: "is_ok (registry_with_runner sample_ports None)
      \<and> (case registry_with_runner sample_ports None of Inl _ \<Rightarrow> False | Inr rg \<Rightarrow>
          snd (run_direct 0 rg \<lparr>tw_binding = sample_binding, tw_net = ()\<rparr> ?call) = Inr ''status--short--branch''
          \<and> classify_tool_call (\<lambda>_. None) ''/'' ?p ?call \<lparr>pi_tool_specs = registry_specs rg, pi_cwd = ''''\<rparr> \<noteq> DECISION_DENIED)"
    by code_simp
  then obtain rg where rg: "registry_with_runner sample_ports None = Inr rg" by (auto simp: is_ok_def split: sum.splits)
  with r have c: "classify_tool_call (\<lambda>_. None) ''/'' ?p ?call \<lparr>pi_tool_specs = registry_specs rg, pi_cwd = ''''\<rparr> \<noteq> DECISION_DENIED"
    and out: "snd (run_direct 0 rg \<lparr>tw_binding = sample_binding, tw_net = ()\<rparr> ?call) = Inr ''status--short--branch''" by simp_all
  have m: "dp_mode ?p = PERMISSION_MODE_PLAN" by (simp add: PERMISSION_MODE_PLAN_def)
  from plan_mode_changes_nothing [OF rg m c, of 0] rg out show ?thesis by (auto simp: sample_ports_def)
qed

lemma strict_runner:
  assumes "new_command_runner ho w config bound = (c, Inr runner)" and "sb_mode config \<noteq> SANDBOX_MODE_OFF"
  shows "sb_mode config \<in> {'''', SANDBOX_MODE_STRICT} \<and> ho_linux ho \<and> cr_workspace runner = bound
    \<and> (\<exists>bwrap prlimit. ho_which ho ''bwrap'' = Some bwrap \<and> ho_which ho ''prlimit'' = Some prlimit
        \<and> cr_sandbox runner = Some \<lparr>bw_bwrap = bwrap, bw_prlimit = prlimit, bw_config = c\<rparr>)
    \<and> sb_cpu_seconds c > 0 \<and> sb_memory_bytes c > 0 \<and> sb_max_processes c > 0 \<and> sb_max_open_files c > 0
    \<and> sb_allow_network c = sb_allow_network config"
  using assms
  by (auto simp: new_command_runner_def Let_def valid_sandbox_mode_def new_platform_sandbox_def linux_platform_sandbox_def
      other_platform_sandbox_def settle_limits_def SANDBOX_MODE_OFF_def SANDBOX_MODE_STRICT_def bind_result_Inr_iff
      split: if_splits sum.splits option.splits)

text \<open>
  The sandbox fails closed. A registry built from a configuration that does not say \<open>off\<close>, the
  empty mode included, exists only on Linux with both programs on the path and for a known mode; its
  command tools then run under bubblewrap with the settled configuration, whose four limits are
  positive and whose network permission is the configured one.
\<close>
theorem sandbox_fails_closed:
  assumes "sandboxed_registry tp config ws = (c, Inr rg)" and "sb_mode config \<noteq> SANDBOX_MODE_OFF"
  shows "sb_mode config \<in> {'''', SANDBOX_MODE_STRICT} \<and> ho_linux (tp_host tp)
    \<and> (\<exists>bwrap prlimit. ho_which (tp_host tp) ''bwrap'' = Some bwrap \<and> ho_which (tp_host tp) ''prlimit'' = Some prlimit
        \<and> registry_with_runner tp (Some \<lparr>cr_sandbox = Some \<lparr>bw_bwrap = bwrap, bw_prlimit = prlimit, bw_config = c\<rparr>, cr_workspace = True\<rparr>) = Inr rg)
    \<and> sb_cpu_seconds c > 0 \<and> sb_memory_bytes c > 0 \<and> sb_max_processes c > 0 \<and> sb_max_open_files c > 0
    \<and> sb_allow_network c = sb_allow_network config"
proof -
  from assms(1) obtain wk runner where n: "new_command_runner (tp_host tp) (wk_world wk) (config\<lparr>sb_workspace := get_primary_root wk\<rparr>) True = (c, Inr runner)"
    and r: "registry_with_runner tp (Some runner) = Inr rg"
    by (auto simp: sandboxed_registry_def split: option.splits prod.splits sum.splits)
  from strict_runner [OF n] assms(2) r show ?thesis by (cases runner) auto
qed

theorem sandbox_fails_closed_witness:
  "\<exists>c rg. sandboxed_registry sample_ports zero_sandbox_config (Some sample_binding) = (c, Inr rg)
    \<and> sb_cpu_seconds c = 120 \<and> sb_memory_bytes c > 0 \<and> \<not> sb_allow_network c"
proof -
  have s: "case sandboxed_registry sample_ports zero_sandbox_config (Some sample_binding) of (c, r) \<Rightarrow> is_ok r \<and> sb_cpu_seconds c = 120"
    by code_simp
  obtain c r where "sandboxed_registry sample_ports zero_sandbox_config (Some sample_binding) = (c, r)" by (metis surj_pair)
  with s obtain rg where rg: "sandboxed_registry sample_ports zero_sandbox_config (Some sample_binding) = (c, Inr rg)" "sb_cpu_seconds c = 120"
    by (auto simp: is_ok_def split: sum.splits)
  have m: "sb_mode zero_sandbox_config \<noteq> SANDBOX_MODE_OFF" by (simp add: zero_sandbox_config_def SANDBOX_MODE_OFF_def)
  from sandbox_fails_closed [OF rg(1) m] rg show ?thesis by (auto simp: zero_sandbox_config_def)
qed

end
