(* ===== verification/Composer.thy ===== *)
theory Composer
  imports Prelude
begin

text \<open>
  The prompt input (\<open>tui/composer/model.py\<close>): a text with a cursor, the history of submissions,
  queued follow-ups and the palette of slash commands. A rendered text is its fragments with the
  role each is drawn in; glyphs beyond the model's characters are their UTF-8 bytes.
\<close>

section \<open>Rendered text\<close>

type_synonym rich_text = "(string \<times> string) list"

definition plain :: "rich_text \<Rightarrow> string" where
  "plain t = concat (map fst t)"

definition prompt_glyph :: string where "prompt_glyph = [CHR 0xE2, CHR 0x9D, CHR 0xAF]"
definition selected_marker :: string where "selected_marker = [CHR 0xE2, CHR 0x80, CHR 0xBA]"
definition ellipsis :: string where "ellipsis = [CHR 0xE2, CHR 0x80, CHR 0xA6]"
definition rule_glyph :: string where "rule_glyph = [CHR 0xE2, CHR 0x94, CHR 0x80]"

definition join_texts :: "string \<Rightarrow> rich_text list \<Rightarrow> rich_text" where
  "join_texts separator parts = concat (case parts of [] \<Rightarrow> [] | p # ps \<Rightarrow> p # map (\<lambda>q. (separator, '''') # q) ps)"

section \<open>State\<close>

record palette_entry =
  pc_name :: string
  pc_description :: string

datatype intent_kind = NO_INTENT | SUBMIT | QUEUE | STEER | CLEAR

record intent =
  it_kind :: intent_kind
  it_text :: string

record composer =
  cm_commands :: "palette_entry list"
  cm_value :: string
  cm_cursor :: nat
  cm_history :: "string list"
  cm_historyIndex :: nat
  cm_historyDraft :: string
  cm_queued :: "string list"
  cm_selection :: nat
  cm_turnRunning :: bool
  cm_compactPalette :: bool
  cm_width :: int

definition new_composer :: "palette_entry list \<Rightarrow> composer" where
  "new_composer commands = \<lparr>cm_commands = commands, cm_value = '''', cm_cursor = 0, cm_history = [], cm_historyIndex = 0,
     cm_historyDraft = '''', cm_queued = [], cm_selection = 0, cm_turnRunning = False, cm_compactPalette = False, cm_width = 76\<rparr>"

definition composer_set_width :: "composer \<Rightarrow> int \<Rightarrow> composer" where
  "composer_set_width c width = c\<lparr>cm_width := max 1 (width - 4)\<rparr>"

definition set_compact_palette :: "composer \<Rightarrow> bool \<Rightarrow> composer" where
  "set_compact_palette c compact = c\<lparr>cm_compactPalette := compact\<rparr>"

definition set_turn_running :: "composer \<Rightarrow> bool \<Rightarrow> composer" where
  "set_turn_running c running = c\<lparr>cm_turnRunning := running\<rparr>"

definition clear_input :: "composer \<Rightarrow> composer" where
  "clear_input c = c\<lparr>cm_value := '''', cm_cursor := 0\<rparr>"

definition clear_follow_ups :: "composer \<Rightarrow> composer" where
  "clear_follow_ups c = c\<lparr>cm_queued := []\<rparr>"

definition enqueue_follow_up :: "composer \<Rightarrow> string \<Rightarrow> composer" where
  "enqueue_follow_up c t = c\<lparr>cm_queued := cm_queued c @ [t]\<rparr>"

definition prepend_follow_up :: "composer \<Rightarrow> string \<Rightarrow> composer" where
  "prepend_follow_up c t = c\<lparr>cm_queued := t # cm_queued c\<rparr>"

definition next_queued :: "composer \<Rightarrow> composer \<times> string \<times> bool" where
  "next_queued c = (case cm_queued c of [] \<Rightarrow> (c, '''', False) | t # rest \<Rightarrow> (c\<lparr>cm_queued := rest\<rparr>, t, True))"

section \<open>Editing\<close>

definition set_value :: "composer \<Rightarrow> string \<Rightarrow> composer" where
  "set_value c v = c\<lparr>cm_value := v, cm_cursor := length v\<rparr>"

definition insert_text :: "composer \<Rightarrow> string \<Rightarrow> composer" where
  "insert_text c t = c\<lparr>cm_value := take (cm_cursor c) (cm_value c) @ t @ drop (cm_cursor c) (cm_value c), cm_cursor := cm_cursor c + length t\<rparr>"

definition delete_back :: "composer \<Rightarrow> composer" where
  "delete_back c = (if cm_cursor c = 0 then c
     else c\<lparr>cm_value := take (cm_cursor c - 1) (cm_value c) @ drop (cm_cursor c) (cm_value c), cm_cursor := cm_cursor c - 1\<rparr>)"

definition delete_forward :: "composer \<Rightarrow> composer" where
  "delete_forward c = (if cm_cursor c \<ge> length (cm_value c) then c
     else c\<lparr>cm_value := take (cm_cursor c) (cm_value c) @ drop (cm_cursor c + 1) (cm_value c)\<rparr>)"

text \<open>The palette entries the draft is a prefix of; only a lone word after a slash is a command being typed.\<close>

definition palette_matches :: "composer \<Rightarrow> palette_entry list" where
  "palette_matches c = (if \<not> startswith (cm_value c) ''/'' \<or> list_ex (\<lambda>ch. ch \<in> {CHR '' '', CHR 0x09, newline}) (cm_value c) then []
     else filter (\<lambda>e. startswith (pc_name e) (cm_value c)) (cm_commands c))"

definition complete_selected :: "composer \<Rightarrow> composer \<times> bool" where
  "complete_selected c = (let found = palette_matches c in
     if found = [] then (c, False)
     else let c1 = (if cm_selection c \<ge> length found then c\<lparr>cm_selection := length found - 1\<rparr> else c);
              selected = pc_name (found ! cm_selection c1)
       in if cm_value c1 = selected then (c1, False) else ((set_value c1 selected)\<lparr>cm_selection := 0\<rparr>, True))"

definition complete_unique :: "composer \<Rightarrow> composer \<times> bool" where
  "complete_unique c = (case palette_matches c of
       [e] \<Rightarrow> if pc_name e = cm_value c then (c, False) else ((set_value c (pc_name e))\<lparr>cm_selection := 0\<rparr>, True)
     | _ \<Rightarrow> (c, False))"

definition remember_entry :: "composer \<Rightarrow> string \<Rightarrow> composer" where
  "remember_entry c t = (let h = (if cm_history c = [] \<or> last (cm_history c) \<noteq> t then cm_history c @ [t] else cm_history c)
     in c\<lparr>cm_history := h, cm_historyIndex := length h, cm_historyDraft := ''''\<rparr>)"

definition composer_action :: "composer \<Rightarrow> intent_kind \<Rightarrow> composer \<times> intent option" where
  "composer_action c kind = (let t = py_strip (cm_value c) in
     if t = '''' then (c, None) else (remember_entry c t, Some \<lparr>it_kind = kind, it_text = t\<rparr>))"

section \<open>Keys\<close>

definition key_escape :: "composer \<Rightarrow> composer \<times> intent option" where
  "key_escape c = (if cm_value c = '''' then (c, None)
     else ((clear_input c)\<lparr>cm_historyIndex := length (cm_history c), cm_historyDraft := ''''\<rparr>, Some \<lparr>it_kind = CLEAR, it_text = ''''\<rparr>))"

definition key_tab :: "composer \<Rightarrow> composer \<times> intent option" where
  "key_tab c = (if cm_turnRunning c then composer_action c QUEUE
     else case complete_selected c of
         (c1, True) \<Rightarrow> (c1, None)
       | (c1, False) \<Rightarrow> (fst (complete_unique c1), None))"

definition key_up :: "composer \<Rightarrow> composer \<times> intent option" where
  "key_up c =
     (if palette_matches c \<noteq> [] then (if cm_selection c > 0 then c\<lparr>cm_selection := cm_selection c - 1\<rparr> else c, None)
      else if newline \<notin> set (cm_value c) \<and> cm_historyIndex c > 0 then
        (let c1 = (if cm_historyIndex c = length (cm_history c) then c\<lparr>cm_historyDraft := cm_value c\<rparr> else c);
             c2 = c1\<lparr>cm_historyIndex := cm_historyIndex c1 - 1\<rparr>
         in (set_value c2 (cm_history c2 ! cm_historyIndex c2), None))
      else (c, None))"

definition key_down :: "composer \<Rightarrow> composer \<times> intent option" where
  "key_down c =
     (if palette_matches c \<noteq> [] then
        (if Suc (cm_selection c) < length (palette_matches c) then c\<lparr>cm_selection := Suc (cm_selection c)\<rparr> else c, None)
      else if newline \<notin> set (cm_value c) then
        (if Suc (cm_historyIndex c) < length (cm_history c) then
           (let c1 = c\<lparr>cm_historyIndex := Suc (cm_historyIndex c)\<rparr> in (set_value c1 (cm_history c1 ! cm_historyIndex c1), None))
         else if Suc (cm_historyIndex c) = length (cm_history c) then
           (set_value (c\<lparr>cm_historyIndex := length (cm_history c)\<rparr>) (cm_historyDraft c), None)
         else (c, None))
      else (c, None))"

definition key_enter :: "composer \<Rightarrow> composer \<times> intent option" where
  "key_enter c = (if cm_turnRunning c then composer_action c STEER
     else case complete_selected c of (c1, True) \<Rightarrow> (c1, None) | (c1, False) \<Rightarrow> composer_action c1 SUBMIT)"

definition composer_update :: "composer \<Rightarrow> string \<Rightarrow> composer \<times> intent option" where
  "composer_update c key =
     (if key \<in> {''esc'', ''ctrl+u''} then key_escape c
      else if key \<in> {''ctrl+j'', ''shift+enter'', ''alt+enter''} then (insert_text c [newline], None)
      else if key = ''tab'' then key_tab c
      else if key = ''up'' then key_up c
      else if key = ''down'' then key_down c
      else if key = ''enter'' then key_enter c
      else if key = ''backspace'' then (delete_back c, None)
      else if key = ''delete'' then (delete_forward c, None)
      else if key = ''left'' then (c\<lparr>cm_cursor := cm_cursor c - 1\<rparr>, None)
      else if key = ''right'' then (c\<lparr>cm_cursor := min (length (cm_value c)) (cm_cursor c + 1)\<rparr>, None)
      else if key = ''home'' then (c\<lparr>cm_cursor := 0\<rparr>, None)
      else if key = ''end'' then (c\<lparr>cm_cursor := length (cm_value c)\<rparr>, None)
      else let c1 = c\<lparr>cm_selection := 0\<rparr> in (if length key = 1 then insert_text c1 key else c1, None))"

text \<open>
  What the terminal asks before a key (\<open>_read_live_prompt\<close> of \<open>tui/terminal.py\<close>): whether Enter would
  complete. It indexes the matches with the selection, which raises when that is out of range.
\<close>

datatype index_error = IndexError

definition completing :: "composer \<Rightarrow> (index_error, bool) result" where
  "completing c = (let found = palette_matches c in
     if found = [] then Inr False
     else if cm_selection c < length found then Inr (pc_name (found ! cm_selection c) \<noteq> cm_value c)
     else Inl IndexError)"

section \<open>Views\<close>

definition queueView :: "composer \<Rightarrow> rich_text" where
  "queueView c = (if cm_queued c = [] then []
     else let limit = (if cm_compactPalette c then 0 else min 3 (length (cm_queued c)));
              rest = length (cm_queued c) - limit
       in ('' Queued ('' @ dec (length (cm_queued c)) @ '')'', ''accent'')
          # concat (map (\<lambda>i. let words = join_with '' '' (split_ws (cm_queued c ! i));
                preview = (if length words > 72 then take 72 words @ ellipsis else words)
              in [([newline], ''''), ('' '' @ dec (Suc i) @ ''. '' @ preview, ''dim'')]) [0 ..< limit])
          @ (if rest > 0 then [([newline], ''''), ('' '' @ ellipsis @ '' '' @ dec rest @ '' more'', ''dim'')] else []))"

definition pad_right :: "nat \<Rightarrow> string \<Rightarrow> string" where
  "pad_right n s = s @ replicate (n - length s) CHR '' ''"

definition paletteView :: "composer \<Rightarrow> rich_text" where
  "paletteView c = (let found = palette_matches c in
     if found = [] then []
     else let visible = (if cm_compactPalette c then 3 else 6);
              start = (if cm_selection c \<ge> visible then cm_selection c - visible + 1 else 0);
              final = min (start + visible) (length found)
       in concat (map (\<lambda>i. let label = (if cm_compactPalette c then pc_name (found ! i)
                    else pad_right 17 (pc_name (found ! i)) @ '' '' @ pc_description (found ! i))
              in (if i > start then [([newline], '''')] else [])
                 @ [if i = cm_selection c then (selected_marker @ '' '' @ label, ''selected'') else (''  '' @ label, ''dim'')])
            [start ..< final]))"

text \<open>The row and column of the cursor are those of the text before it.\<close>

definition visible_lines :: "composer \<Rightarrow> rich_text list" where
  "visible_lines c = (if cm_value c = '''' then [[(''Ask me anything... (try /help)'', ''dim'')]]
     else let before = take (cm_cursor c) (cm_value c);
              row = length (filter (\<lambda>ch. ch = newline) before);
              column = length (last (split_on newline before))
       in map (\<lambda>(i, line). if i = row then [(take column line, ''''), (if column < length line then [line ! column] else '' '', ''cursor''),
              (drop (Suc column) line, '''')] else [(line, '''')])
            (enumerate 0 (take 5 (split_on newline (cm_value c)))))"

definition inputView :: "composer \<Rightarrow> string \<Rightarrow> rich_text" where
  "inputView c rule = (rule, '''') # concat (map (\<lambda>(i, line). ([newline], '''')
       # (if i = (0::nat) then '' '' @ prompt_glyph @ '' '' else ''   '', ''prompt'') # line) (enumerate 0 (visible_lines c)))
     @ [([newline], ''''), (rule, '''')]"

definition composer_view :: "composer \<Rightarrow> rich_text" where
  "composer_view c = join_texts [newline]
     ((if plain (queueView c) \<noteq> '''' then [queueView c] else [])
      @ (if plain (paletteView c) \<noteq> '''' \<and> \<not> cm_turnRunning c then [paletteView c] else [])
      @ [inputView c ('' '' @ concat (replicate (nat (max 1 (cm_width c + 2))) rule_glyph))])"

section \<open>The buffer\<close>

text \<open>The text before and after the cursor, and what each key does to the pair.\<close>

definition composer_ok :: "composer \<Rightarrow> bool" where
  "composer_ok c \<longleftrightarrow> cm_cursor c \<le> length (cm_value c) \<and> cm_historyIndex c \<le> length (cm_history c)"

definition zipper :: "composer \<Rightarrow> string \<times> string" where
  "zipper c = (take (cm_cursor c) (cm_value c), drop (cm_cursor c) (cm_value c))"

definition zipper_key :: "string \<Rightarrow> string \<times> string \<Rightarrow> string \<times> string" where
  "zipper_key key ba = (case ba of (b, a) \<Rightarrow>
     if key \<in> {''ctrl+j'', ''shift+enter'', ''alt+enter''} then (b @ [newline], a)
     else if key = ''backspace'' then (butlast b, a)
     else if key = ''delete'' then (b, tl a)
     else if key = ''left'' then (if b = [] then (b, a) else (butlast b, last b # a))
     else if key = ''right'' then (if a = [] then (b, a) else (b @ [hd a], tl a))
     else if key = ''home'' then ([], b @ a)
     else if key = ''end'' then (b @ a, [])
     else if length key = 1 then (b @ key, a)
     else (b, a))"

lemma complete_selected_ok: "composer_ok c \<Longrightarrow> composer_ok (fst (complete_selected c))"
  by (auto simp: complete_selected_def Let_def composer_ok_def set_value_def)

lemma complete_unique_ok: "composer_ok c \<Longrightarrow> composer_ok (fst (complete_unique c))"
  by (auto simp: complete_unique_def composer_ok_def set_value_def split: list.split)

lemma composer_action_ok: "composer_ok c \<Longrightarrow> composer_ok (fst (composer_action c kind))"
  by (auto simp: composer_action_def remember_entry_def Let_def composer_ok_def)

lemma key_up_ok: "composer_ok c \<Longrightarrow> composer_ok (fst (key_up c))"
  by (auto simp: key_up_def Let_def composer_ok_def set_value_def)

lemma key_down_ok: "composer_ok c \<Longrightarrow> composer_ok (fst (key_down c))"
  by (auto simp: key_down_def Let_def composer_ok_def set_value_def)

lemma key_tab_ok: "composer_ok c \<Longrightarrow> composer_ok (fst (key_tab c))"
  using complete_selected_ok [of c] complete_unique_ok [of "fst (complete_selected c)"] composer_action_ok [of c]
  by (auto simp: key_tab_def split: prod.split bool.split)

lemma key_enter_ok: "composer_ok c \<Longrightarrow> composer_ok (fst (key_enter c))"
  using complete_selected_ok [of c] composer_action_ok [of c] composer_action_ok [of "fst (complete_selected c)"]
  by (auto simp: key_enter_def split: prod.split bool.split)

lemma insert_zipper: "composer_ok c \<Longrightarrow> composer_ok (insert_text c t) \<and> zipper (insert_text c t) = (fst (zipper c) @ t, snd (zipper c))"
  by (auto simp: insert_text_def composer_ok_def zipper_def)

lemma delete_zipper:
  "composer_ok c \<Longrightarrow> composer_ok (delete_back c) \<and> zipper (delete_back c) = (butlast (fst (zipper c)), snd (zipper c))"
  "composer_ok c \<Longrightarrow> composer_ok (delete_forward c) \<and> zipper (delete_forward c) = (fst (zipper c), tl (snd (zipper c)))"
  by (auto simp: delete_back_def delete_forward_def composer_ok_def zipper_def butlast_take tl_drop drop_Suc min_def)

lemma move_zipper:
  assumes "composer_ok c"
  shows "composer_ok (c\<lparr>cm_cursor := cm_cursor c - 1\<rparr>)"
    "zipper (c\<lparr>cm_cursor := cm_cursor c - 1\<rparr>) = (if fst (zipper c) = [] then zipper c else (butlast (fst (zipper c)), last (fst (zipper c)) # snd (zipper c)))"
    "composer_ok (c\<lparr>cm_cursor := min (length (cm_value c)) (cm_cursor c + 1)\<rparr>)"
    "zipper (c\<lparr>cm_cursor := min (length (cm_value c)) (cm_cursor c + 1)\<rparr>)
       = (if snd (zipper c) = [] then zipper c else (fst (zipper c) @ [hd (snd (zipper c))], tl (snd (zipper c))))"
proof -
  from assms show "composer_ok (c\<lparr>cm_cursor := cm_cursor c - 1\<rparr>)"
    "composer_ok (c\<lparr>cm_cursor := min (length (cm_value c)) (cm_cursor c + 1)\<rparr>)" by (auto simp: composer_ok_def)
  show "zipper (c\<lparr>cm_cursor := cm_cursor c - 1\<rparr>) = (if fst (zipper c) = [] then zipper c else (butlast (fst (zipper c)), last (fst (zipper c)) # snd (zipper c)))"
  proof (cases "cm_cursor c")
    case (Suc n)
    with assms have n: "n < length (cm_value c)" by (simp add: composer_ok_def)
    then have "take (Suc n) (cm_value c) = take n (cm_value c) @ [cm_value c ! n]" "drop n (cm_value c) = cm_value c ! n # drop (Suc n) (cm_value c)"
      by (simp_all add: take_Suc_conv_app_nth Cons_nth_drop_Suc)
    with Suc show ?thesis by (simp add: zipper_def)
  qed (simp add: zipper_def)
  show "zipper (c\<lparr>cm_cursor := min (length (cm_value c)) (cm_cursor c + 1)\<rparr>)
       = (if snd (zipper c) = [] then zipper c else (fst (zipper c) @ [hd (snd (zipper c))], tl (snd (zipper c))))"
  proof (cases "cm_cursor c < length (cm_value c)")
    case True
    then have "take (Suc (cm_cursor c)) (cm_value c) = take (cm_cursor c) (cm_value c) @ [cm_value c ! cm_cursor c]"
      "drop (cm_cursor c) (cm_value c) = cm_value c ! cm_cursor c # drop (Suc (cm_cursor c)) (cm_value c)"
      by (simp_all add: take_Suc_conv_app_nth Cons_nth_drop_Suc)
    moreover have "min (length (cm_value c)) (cm_cursor c + 1) = Suc (cm_cursor c)" using True by simp
    ultimately show ?thesis unfolding zipper_def by simp
  qed (use assms in \<open>simp add: zipper_def composer_ok_def min_def\<close>)
qed

lemma jump_zipper:
  "composer_ok c \<Longrightarrow> composer_ok (c\<lparr>cm_cursor := 0\<rparr>) \<and> zipper (c\<lparr>cm_cursor := 0\<rparr>) = ([], fst (zipper c) @ snd (zipper c))"
  "composer_ok c \<Longrightarrow> composer_ok (c\<lparr>cm_cursor := length (cm_value c)\<rparr>) \<and> zipper (c\<lparr>cm_cursor := length (cm_value c)\<rparr>) = (fst (zipper c) @ snd (zipper c), [])"
  by (auto simp: composer_ok_def zipper_def)

lemma key_escape_ok: "composer_ok c \<Longrightarrow> composer_ok (fst (key_escape c))"
  by (auto simp: key_escape_def clear_input_def composer_ok_def)

lemma reselect_zipper: "composer_ok c \<Longrightarrow> composer_ok (c\<lparr>cm_selection := 0\<rparr>) \<and> zipper (c\<lparr>cm_selection := 0\<rparr>) = zipper c"
  by (simp add: composer_ok_def zipper_def)

lemma composer_update_zipper:
  assumes "composer_ok c"
  shows "composer_ok (fst (composer_update c key))
    \<and> (key \<notin> {''esc'', ''ctrl+u'', ''tab'', ''up'', ''down'', ''enter''} \<longrightarrow>
        zipper (fst (composer_update c key)) = zipper_key key (zipper c) \<and> snd (composer_update c key) = None)"
proof -
  have "composer_ok (fst (key_escape c))" "composer_ok (fst (key_up c))" "composer_ok (fst (key_down c))" "composer_ok (fst (key_tab c))"
    "composer_ok (fst (key_enter c))" using assms key_escape_ok key_up_ok key_down_ok key_tab_ok key_enter_ok by blast+
  moreover note insert_zipper [OF assms] insert_zipper [OF conjunct1 [OF reselect_zipper [OF assms]]] reselect_zipper [OF assms]
    delete_zipper [OF assms] move_zipper [OF assms] jump_zipper [OF assms]
  ultimately show ?thesis
    unfolding composer_update_def zipper_key_def Let_def by (simp add: prod.case_eq_if split del: if_split, simp add: prod_eq_iff)
qed

section \<open>History\<close>

definition presses :: "nat \<Rightarrow> string \<Rightarrow> composer \<Rightarrow> composer" where
  "presses n key = (\<lambda>c. fst (composer_update c key)) ^^ n"

text \<open>A text the arrow keys browse past: one line, and no command being typed.\<close>

definition browsable :: "composer \<Rightarrow> string \<Rightarrow> bool" where
  "browsable c v \<longleftrightarrow> newline \<notin> set v \<and> palette_matches (c\<lparr>cm_value := v\<rparr>) = []"

lemma matches_cong: "cm_value c = cm_value d \<Longrightarrow> cm_commands c = cm_commands d \<Longrightarrow> palette_matches c = palette_matches d"
  by (simp add: palette_matches_def)

definition recalled :: "composer \<Rightarrow> nat \<Rightarrow> composer" where
  "recalled c k = (if k = 0 then c\<lparr>cm_cursor := length (cm_value c), cm_historyDraft := cm_value c\<rparr>
     else set_value (c\<lparr>cm_historyIndex := length (cm_history c) - k, cm_historyDraft := cm_value c\<rparr>) (cm_history c ! (length (cm_history c) - k)))"

lemma up_recalled:
  assumes "cm_historyIndex c = length (cm_history c)" and "k < length (cm_history c)"
    and "browsable c (if k = 0 then cm_value c else cm_history c ! (length (cm_history c) - k))"
  shows "fst (key_up (recalled c k)) = recalled c (Suc k)" "k = 0 \<Longrightarrow> fst (key_up c) = recalled c 1"
proof -
  have m: "palette_matches (recalled c k) = []"
    using assms(3) matches_cong [of "recalled c k" "c\<lparr>cm_value := cm_value (recalled c k)\<rparr>"]
    by (auto simp: recalled_def browsable_def set_value_def split: if_splits)
  have nl: "newline \<notin> set (cm_value (recalled c k))" using assms(3)
    by (cases "k = 0") (simp_all add: recalled_def browsable_def set_value_def)
  have i: "cm_historyIndex (recalled c k) = length (cm_history c) - k" "0 < length (cm_history c) - k"
    "cm_history (recalled c k) = cm_history c" using assms(1,2) by (simp_all add: recalled_def set_value_def)
  show "fst (key_up (recalled c k)) = recalled c (Suc k)"
  proof (cases "k = 0")
    case True
    with m nl i assms(1) show ?thesis by (simp add: key_up_def recalled_def set_value_def)
  next
    case False
    then have "\<not> length (cm_history c) - k = length (cm_history c)" using assms(2) by simp
    with False m nl i show ?thesis by (simp add: key_up_def, simp add: recalled_def set_value_def)
  qed
  show "fst (key_up c) = recalled c 1" if k: "k = 0"
  proof -
    have "palette_matches c = []" using m matches_cong [of c "recalled c k"] k by (simp add: recalled_def)
    with nl i assms(1) k show ?thesis by (simp add: key_up_def recalled_def set_value_def)
  qed
qed

lemma down_recalled:
  assumes "cm_historyIndex c = length (cm_history c)" and "0 < k" and "k \<le> length (cm_history c)"
    and "browsable c (cm_history c ! (length (cm_history c) - k))"
  shows "fst (key_down (recalled c k)) = recalled c (k - 1)"
proof -
  have m: "palette_matches (recalled c k) = []"
    using assms matches_cong [of "recalled c k" "c\<lparr>cm_value := cm_value (recalled c k)\<rparr>"]
    by (auto simp: recalled_def browsable_def set_value_def split: if_splits)
  have s: "Suc (length (cm_history c) - k) = length (cm_history c) - (k - 1)" using assms(2,3) by simp
  have nl: "newline \<notin> set (cm_value (recalled c k))" using assms(2,4)
    by (simp add: recalled_def browsable_def set_value_def)
  have i: "cm_historyIndex (recalled c k) = length (cm_history c) - k" "cm_history (recalled c k) = cm_history c"
    "cm_historyDraft (recalled c k) = cm_value c" "length (cm_history c) \<noteq> 0" using assms by (auto simp: recalled_def set_value_def)
  show ?thesis
  proof (cases "k = 1")
    case True
    with m nl i s assms(1) show ?thesis by (simp add: key_down_def, simp add: recalled_def set_value_def)
  next
    case False
    then have "Suc (length (cm_history c) - k) < length (cm_history c)" "k - 1 \<noteq> 0" using assms(2,3) by auto
    with False m nl i s assms(1) show ?thesis by (simp add: key_down_def, simp add: recalled_def set_value_def)
  qed
qed

text \<open>A text they cannot leave: with the palette open they move its selection, and on several lines they do nothing.\<close>

definition press_all :: "string list \<Rightarrow> composer \<Rightarrow> composer" where
  "press_all keys c = fold (\<lambda>key c. fst (composer_update c key)) keys c"

lemma arrow_trapped:
  assumes "\<not> browsable c (cm_value c)" and "key \<in> {''up'', ''down''}"
  shows "cm_value (fst (composer_update c key)) = cm_value c \<and> cm_commands (fst (composer_update c key)) = cm_commands c"
proof -
  have "palette_matches (c\<lparr>cm_value := cm_value c\<rparr>) = palette_matches c" by (rule matches_cong) simp_all
  with assms(1) have "newline \<in> set (cm_value c) \<or> palette_matches c \<noteq> []" by (auto simp: browsable_def)
  then have "cm_value (fst (key_up c)) = cm_value c \<and> cm_commands (fst (key_up c)) = cm_commands c"
    "cm_value (fst (key_down c)) = cm_value c \<and> cm_commands (fst (key_down c)) = cm_commands c"
    by (cases "palette_matches c = []"; simp add: key_up_def key_down_def)+
  with assms(2) show ?thesis unfolding composer_update_def by (elim insertE) simp_all
qed

lemma browsable_cong: "cm_value c = cm_value d \<Longrightarrow> cm_commands c = cm_commands d \<Longrightarrow> browsable c = browsable d"
  by (rule ext) (simp add: browsable_def palette_matches_def)

lemma arrows_trapped:
  "\<not> browsable c (cm_value c) \<Longrightarrow> set keys \<subseteq> {''up'', ''down''} \<Longrightarrow> cm_value (press_all keys c) = cm_value c"
proof (induction keys arbitrary: c)
  case (Cons key keys)
  have k: "key \<in> {''up'', ''down''}" using Cons.prems(2) by simp
  note step = arrow_trapped [OF Cons.prems(1) k]
  have "\<not> browsable (fst (composer_update c key)) (cm_value (fst (composer_update c key)))"
    using Cons.prems(1) step browsable_cong by metis
  then have "cm_value (press_all keys (fst (composer_update c key))) = cm_value (fst (composer_update c key))"
    using Cons.IH Cons.prems(2) by simp
  with step show ?case by (simp add: press_all_def)
qed (simp add: press_all_def)

section \<open>The palette's selection\<close>

definition selection_ok :: "composer \<Rightarrow> bool" where
  "selection_ok c \<longleftrightarrow> cm_selection c = 0 \<or> cm_selection c < length (palette_matches c)"

definition selection_key :: "composer \<Rightarrow> string \<Rightarrow> bool" where
  "selection_key c key \<longleftrightarrow> length key = 1 \<or> key \<in> {''up'', ''down'', ''left'', ''right'', ''home'', ''end'', ''tab'', ''enter''}
     \<or> (key = ''backspace'' \<and> cm_cursor c = length (cm_value c) \<and> 2 \<le> length (cm_value c))"

lemma completing_raises_iff: "completing c = Inl IndexError \<longleftrightarrow> palette_matches c \<noteq> [] \<and> length (palette_matches c) \<le> cm_selection c"
  by (auto simp: completing_def Let_def)

lemma selection_ok_completing: "selection_ok c \<Longrightarrow> is_ok (completing c)"
  by (auto simp: completing_def Let_def selection_ok_def)

lemma palette_matches_fields [simp]:
  "palette_matches (c\<lparr>cm_selection := n\<rparr>) = palette_matches c" "palette_matches (c\<lparr>cm_cursor := n\<rparr>) = palette_matches c"
  "palette_matches (c\<lparr>cm_history := h\<rparr>) = palette_matches c" "palette_matches (c\<lparr>cm_historyIndex := n\<rparr>) = palette_matches c"
  "palette_matches (c\<lparr>cm_historyDraft := d\<rparr>) = palette_matches c"
  by (simp_all add: palette_matches_def)

lemma selection_after_move:
  "selection_ok c \<Longrightarrow> selection_ok (fst (key_up c))" "selection_ok c \<Longrightarrow> selection_ok (fst (key_down c))"
  by (auto simp: selection_ok_def key_up_def key_down_def set_value_def Let_def)

lemma selection_after_complete: "selection_ok c \<Longrightarrow> selection_ok (fst (complete_selected c)) \<and> selection_ok (fst (complete_unique c))"
  by (auto simp: selection_ok_def complete_selected_def complete_unique_def set_value_def Let_def split: list.split)

lemma selection_after_action: "selection_ok c \<Longrightarrow> selection_ok (fst (composer_action c kind))"
  by (auto simp: selection_ok_def composer_action_def remember_entry_def Let_def)

lemma selection_after_keys:
  "selection_ok c \<Longrightarrow> selection_ok (fst (key_tab c))" "selection_ok c \<Longrightarrow> selection_ok (fst (key_enter c))"
  using selection_after_complete [of c] selection_after_complete [of "fst (complete_selected c)"] selection_after_action
  by (auto simp: key_tab_def key_enter_def split: prod.split bool.split)

lemma startswith_butlast: "startswith s p \<Longrightarrow> startswith s (butlast p)"
  by (metis append_butlast_last_id append.assoc butlast.simps(1) startswith_iff)

lemma startswith_slash: "startswith v ''/'' \<longleftrightarrow> v \<noteq> [] \<and> hd v = CHR ''/''"
  by (cases v) (auto simp: startswith_iff)

text \<open>A shorter command word has at least the matches of the longer one.\<close>

lemma matches_butlast:
  assumes "2 \<le> length (cm_value c)" and "palette_matches c \<noteq> []"
  shows "length (palette_matches c) \<le> length (palette_matches (c\<lparr>cm_value := butlast (cm_value c), cm_cursor := n\<rparr>))"
proof -
  define v where "v = cm_value c"
  have v: "startswith v ''/''" "\<not> list_ex (\<lambda>ch. ch \<in> {CHR '' '', CHR 0x09, newline}) v"
    using assms(2) by (auto simp: palette_matches_def v_def split: if_splits)
  have "startswith (butlast v) ''/''" using v(1) assms(1) unfolding startswith_slash v_def[symmetric]
    by (cases v; cases "tl v") (auto simp: v_def)
  moreover have "\<not> list_ex (\<lambda>ch. ch \<in> {CHR '' '', CHR 0x09, newline}) (butlast v)"
    using v(2) by (auto simp: list_ex_iff dest: in_set_butlastD)
  ultimately have "palette_matches (c\<lparr>cm_value := butlast (cm_value c), cm_cursor := n\<rparr>) = filter (\<lambda>e. startswith (pc_name e) (butlast v)) (cm_commands c)"
    by (simp add: palette_matches_def v_def)
  moreover have "palette_matches c = filter (\<lambda>e. startswith (pc_name e) v) (cm_commands c)"
    using v by (simp add: palette_matches_def v_def)
  moreover have "length (filter (\<lambda>e. startswith (pc_name e) v) es) \<le> length (filter (\<lambda>e. startswith (pc_name e) (butlast v)) es)" for es
    by (induction es) (auto dest: startswith_butlast)
  ultimately show ?thesis by simp
qed

lemma selection_after_backspace:
  assumes "selection_ok c" and "cm_cursor c = length (cm_value c)" and "2 \<le> length (cm_value c)"
  shows "selection_ok (delete_back c)"
proof (cases "cm_selection c = 0")
  case False
  with assms(1) have s: "cm_selection c < length (palette_matches c)" by (simp add: selection_ok_def)
  then have "palette_matches c \<noteq> []" by auto
  from matches_butlast [OF assms(3) this, of "cm_cursor c - 1"] s assms(2,3) show ?thesis
    by (simp add: selection_ok_def delete_back_def butlast_conv_take)
qed (simp add: selection_ok_def delete_back_def)

lemma selection_kept:
  assumes ok: "selection_ok c" and key: "selection_key c key"
  shows "selection_ok (fst (composer_update c key))"
proof -
  show ?thesis
  proof (cases "length key = 1")
    case True
    then have "key \<notin> {''esc'', ''ctrl+u'', ''ctrl+j'', ''shift+enter'', ''alt+enter'', ''tab'', ''up'', ''down'', ''enter'', ''backspace'',
      ''delete'', ''left'', ''right'', ''home'', ''end''}" by auto
    then have "composer_update c key = (insert_text (c\<lparr>cm_selection := 0\<rparr>) key, None)"
      using True unfolding composer_update_def by (simp del: length_Suc_conv)
    then show ?thesis by (simp add: selection_ok_def insert_text_def)
  next
    case False
    have u: "composer_update c ''up'' = key_up c" "composer_update c ''down'' = key_down c" "composer_update c ''tab'' = key_tab c"
      "composer_update c ''enter'' = key_enter c" "composer_update c ''backspace'' = (delete_back c, None)"
      "composer_update c ''left'' = (c\<lparr>cm_cursor := cm_cursor c - 1\<rparr>, None)" "composer_update c ''home'' = (c\<lparr>cm_cursor := 0\<rparr>, None)"
      "composer_update c ''right'' = (c\<lparr>cm_cursor := min (length (cm_value c)) (cm_cursor c + 1)\<rparr>, None)"
      "composer_update c ''end'' = (c\<lparr>cm_cursor := length (cm_value c)\<rparr>, None)" by (simp_all add: composer_update_def)
    have m: "selection_ok (c\<lparr>cm_cursor := n\<rparr>)" for n using ok by (simp add: selection_ok_def)
    from key False have "key \<in> {''up'', ''down'', ''left'', ''right'', ''home'', ''end'', ''tab'', ''enter''}
        \<or> (key = ''backspace'' \<and> cm_cursor c = length (cm_value c) \<and> 2 \<le> length (cm_value c))"
      unfolding selection_key_def by simp
    then show ?thesis
      using selection_after_move [OF ok] selection_after_keys [OF ok] selection_after_backspace [OF ok] m
      by (elim disjE insertE emptyE conjE) (simp_all only: u fst_conv)
  qed
qed

text \<open>
  C23. The composer is a text buffer. Every key keeps the cursor inside the text and the history
  position inside the history; the editing keys are exactly the operations of a pair of texts
  around the cursor, and ask nothing of the application; going back through the history and
  forth again returns to the draft, over entries of one line that are not slash commands; and the
  arrow keys never leave a text of several lines or a slash command, so they cannot reach the
  entries behind one.
\<close>
theorem composer_refines_zipper:
  assumes "composer_ok c"
  shows "composer_ok (fst (composer_update c key))
    \<and> (key \<notin> {''esc'', ''ctrl+u'', ''tab'', ''up'', ''down'', ''enter''} \<longrightarrow>
        zipper (fst (composer_update c key)) = zipper_key key (zipper c) \<and> snd (composer_update c key) = None)
    \<and> (cm_historyIndex c = length (cm_history c) \<and> 0 < n \<and> n \<le> length (cm_history c) \<and> browsable c (cm_value c)
        \<and> (\<forall>e \<in> set (drop (length (cm_history c) - n) (cm_history c)). browsable c e) \<longrightarrow>
        cm_value (presses n ''up'' c) = cm_history c ! (length (cm_history c) - n)
        \<and> presses n ''down'' (presses n ''up'' c) = c\<lparr>cm_cursor := length (cm_value c), cm_historyDraft := cm_value c\<rparr>)
    \<and> (\<not> browsable c (cm_value c) \<and> set keys \<subseteq> {''up'', ''down''} \<longrightarrow> cm_value (press_all keys c) = cm_value c)"
proof (intro conjI impI)
  show "cm_value (press_all keys c) = cm_value c" if "\<not> browsable c (cm_value c) \<and> set keys \<subseteq> {''up'', ''down''}"
    using that arrows_trapped by blast
next
  show "composer_ok (fst (composer_update c key))" using composer_update_zipper [OF assms] by blast
  show "zipper (fst (composer_update c key)) = zipper_key key (zipper c)" "snd (composer_update c key) = None"
    if "key \<notin> {''esc'', ''ctrl+u'', ''tab'', ''up'', ''down'', ''enter''}"
    using that composer_update_zipper [OF assms, of key] by blast+
next
  assume h: "cm_historyIndex c = length (cm_history c) \<and> 0 < n \<and> n \<le> length (cm_history c) \<and> browsable c (cm_value c)
        \<and> (\<forall>e \<in> set (drop (length (cm_history c) - n) (cm_history c)). browsable c e)"
  have e: "browsable c (cm_history c ! (length (cm_history c) - k))" if "0 < k" "k \<le> n" for k
  proof -
    have "cm_history c ! (length (cm_history c) - k) = drop (length (cm_history c) - n) (cm_history c) ! (n - k)"
      using h that by (subst nth_drop) auto
    moreover have "n - k < length (drop (length (cm_history c) - n) (cm_history c))" using h that by auto
    ultimately show ?thesis using h nth_mem by metis
  qed
  have up: "presses k ''up'' c = recalled c k" if "0 < k" "k \<le> n" for k
    using that
  proof (induction k)
    case (Suc k)
    show ?case
    proof (cases "k = 0")
      case True
      moreover have "cm_history c \<noteq> []" using h by auto
      ultimately show ?thesis using up_recalled(2) [of c 0] h by (simp add: presses_def composer_update_def)
    next
      case False
      with Suc up_recalled(1) [of c k] h e [of k] show ?thesis by (simp add: presses_def composer_update_def)
    qed
  qed simp
  show "cm_value (presses n ''up'' c) = cm_history c ! (length (cm_history c) - n)"
    using up [of n] h by (simp add: recalled_def set_value_def)
  have down: "presses k ''down'' (recalled c n) = recalled c (n - k)" if "k \<le> n" for k
    using that
  proof (induction k)
    case (Suc k)
    moreover have "n - k \<le> length (cm_history c)" using h by auto
    ultimately show ?case using down_recalled [of c "n - k"] h e [of "n - k"] by (simp add: presses_def composer_update_def)
  qed (simp add: presses_def)
  show "presses n ''down'' (presses n ''up'' c) = c\<lparr>cm_cursor := length (cm_value c), cm_historyDraft := cm_value c\<rparr>"
    using down [of n] up [of n] h by (simp add: recalled_def)
qed

lemma composer_refines_zipper_witness:
  "(let c = (new_composer [\<lparr>pc_name = ''/help'', pc_description = ''''\<rparr>])\<lparr>cm_value := ''dr'', cm_cursor := 2, cm_history := [''one'', ''two''], cm_historyIndex := 2\<rparr>;
        h = (new_composer [\<lparr>pc_name = ''/help'', pc_description = ''''\<rparr>])\<lparr>cm_history := [''one'', ''/help''], cm_historyIndex := 2\<rparr>
    in zipper (fst (composer_update c ''left'')) = (''d'', ''r'') \<and> cm_value (presses 2 ''up'' c) = ''one''
       \<and> presses 2 ''down'' (presses 2 ''up'' c) = c\<lparr>cm_historyDraft := ''dr''\<rparr>
       \<and> cm_value (press_all [''up'', ''up'', ''up''] (fst (composer_update h ''up''))) = ''/help'')"
proof -
  let ?c = "(new_composer [\<lparr>pc_name = ''/help'', pc_description = ''''\<rparr>])\<lparr>cm_value := ''dr'', cm_cursor := 2, cm_history := [''one'', ''two''], cm_historyIndex := 2\<rparr>"
  let ?h = "(new_composer [\<lparr>pc_name = ''/help'', pc_description = ''''\<rparr>])\<lparr>cm_history := [''one'', ''/help''], cm_historyIndex := 2\<rparr>"
  let ?u = "fst (composer_update ?h ''up'')"
  have c: "composer_ok ?c" "browsable ?c ''dr''" "browsable ?c ''one''" "browsable ?c ''two''" "zipper_key ''left'' (zipper ?c) = (''d'', ''r'')"
    and h: "composer_ok ?u" "\<not> browsable ?u (cm_value ?u)" "cm_value ?u = ''/help''" by code_simp+
  have "zipper (fst (composer_update ?c ''left'')) = (''d'', ''r'')" "cm_value (presses 2 ''up'' ?c) = ''one''"
    "presses 2 ''down'' (presses 2 ''up'' ?c) = ?c\<lparr>cm_historyDraft := ''dr''\<rparr>"
    using composer_refines_zipper [OF c(1), of "''left''" 2 "[]"] c(2-5) by simp_all
  moreover have "cm_value (press_all [''up'', ''up'', ''up''] ?u) = ''/help''"
    using composer_refines_zipper [OF h(1), of "''left''" 0 "[''up'', ''up'', ''up'']"] h(2,3) by simp
  ultimately show ?thesis unfolding Let_def by (intro conjI) assumption+
qed

end
