(* ===== verification/ApprovalMenu.thy ===== *)
theory ApprovalMenu
  imports Composer
begin

text \<open>
  The approval menu (\<open>tui/approval/model.py\<close>): the pending request, the selected row, and the latch
  that makes one menu give one answer.
\<close>

section \<open>State\<close>

type_synonym menu_decision = string

definition APPROVE_ONCE :: menu_decision where "APPROVE_ONCE = ''once''"
definition APPROVE_ALWAYS :: menu_decision where "APPROVE_ALWAYS = ''always''"
definition DENY :: menu_decision where "DENY = ''deny''"

definition decisions_by_row :: "menu_decision list" where
  "decisions_by_row = [''once'', ''always'', ''deny'']"

record menu_request =
  mr_tool_name :: string
  mr_input :: string
  mr_command_class :: string
  mr_cwd :: string
  mr_touched_paths :: "string list"
  mr_reason :: string
  mr_batch_index :: int
  mr_batch_total :: int

record menu =
  mn_request :: "menu_request option"
  mn_selection :: nat
  mn_submitted :: bool

definition new_menu :: menu where
  "new_menu = \<lparr>mn_request = None, mn_selection = 0, mn_submitted = False\<rparr>"

definition menu_active :: "menu \<Rightarrow> bool" where
  "menu_active m \<longleftrightarrow> mn_request m \<noteq> None"

definition menu_open :: "menu_request \<Rightarrow> menu \<Rightarrow> menu" where
  "menu_open r m = m\<lparr>mn_request := Some r, mn_selection := 0, mn_submitted := False\<rparr>"

definition menu_clear :: "menu \<Rightarrow> menu" where
  "menu_clear m = m\<lparr>mn_request := None, mn_selection := 0, mn_submitted := False\<rparr>"

section \<open>Keys\<close>

text \<open>The answer a key gives in row \<open>n\<close>; the rows are indexed as a list, and row 2 is the last.\<close>

definition key_decision :: "nat \<Rightarrow> string \<Rightarrow> menu_decision option" where
  "key_decision n key = (if key = ''enter'' then Some (decisions_by_row ! n)
     else if key \<in> {''1'', ''y''} then Some APPROVE_ONCE
     else if key \<in> {''2'', ''a''} then Some APPROVE_ALWAYS
     else if key \<in> {''3'', ''n''} then Some DENY
     else None)"

definition menu_update :: "menu \<Rightarrow> string \<Rightarrow> menu \<times> menu_decision \<times> bool" where
  "menu_update m key =
     (if mn_request m = None \<or> mn_submitted m then (m, '''', False)
      else let lowered = py_lower key in
        if lowered \<in> {''up'', ''k''} then (if mn_selection m > 0 then m\<lparr>mn_selection := mn_selection m - 1\<rparr> else m, '''', False)
        else if lowered \<in> {''down'', ''j''} then (if mn_selection m < 2 then m\<lparr>mn_selection := mn_selection m + 1\<rparr> else m, '''', False)
        else (case key_decision (mn_selection m) lowered of
            None \<Rightarrow> (m, '''', False)
          | Some d \<Rightarrow> (m\<lparr>mn_submitted := True\<rparr>, d, True)))"

section \<open>View\<close>

definition menu_options :: "string list" where
  "menu_options = [''1. Yes, run once'', ''2. Yes, always allow'', ''3. No, deny'']"

definition menu_view :: "menu \<Rightarrow> string \<Rightarrow> rich_text" where
  "menu_view m fallbackCWD = (case mn_request m of None \<Rightarrow> []
     | Some r \<Rightarrow>
        ('' ACTION REQUIRED '', ''banner'')
        # (if mr_batch_total r > 0 then [('' tool '' @ dec_int (mr_batch_index r) @ ''/'' @ dec_int (mr_batch_total r) @ '':'', '''')] else [])
        @ [('' approve '', ''''), (mr_tool_name r, ''bold''), (''?'', '''')]
        @ concat (map (\<lambda>(i, option). [([newline], ''''),
            if i = mn_selection m then (selected_marker @ '' '' @ option, ''selected'') else (''  '' @ option, ''dim'')]) (enumerate 0 menu_options))
        @ (if mn_submitted m then [([newline], ''''), ('' Decision submitted'' @ ellipsis, ''accent'')] else [])
        @ (if mr_command_class r \<noteq> '''' \<or> mr_reason r \<noteq> '''' then
             [([newline], ''''), ('' class: '' @ mr_command_class r @ '' cwd: '' @ (if mr_cwd r \<noteq> '''' then mr_cwd r else fallbackCWD)
                @ (if mr_touched_paths r \<noteq> [] then '' paths: '' @ join_with '','' (mr_touched_paths r) else '''')
                @ (if mr_reason r \<noteq> '''' then '' reason: '' @ mr_reason r else ''''), ''dim'')]
           else if mr_input r \<noteq> '''' then
             [([newline], ''''), ('' cwd: '' @ fallbackCWD @ '' input: ''
                @ (if length (mr_input r) > 240 then take 240 (mr_input r) @ ''...'' else mr_input r), ''dim'')]
           else []))"

section \<open>One answer per request\<close>

definition menu_ok :: "menu \<Rightarrow> bool" where
  "menu_ok m \<longleftrightarrow> mn_selection m \<le> 2 \<and> (mn_submitted m \<longrightarrow> menu_active m)"

definition answerable :: "menu \<Rightarrow> bool" where
  "answerable m \<longleftrightarrow> menu_active m \<and> \<not> mn_submitted m"

text \<open>The answers a sequence of keys gives, and the menu after it.\<close>

fun menu_run :: "menu \<Rightarrow> string list \<Rightarrow> menu \<times> menu_decision list" where
  "menu_run m [] = (m, [])"
| "menu_run m (key # keys) = (case menu_update m key of (m1, d, submitted) \<Rightarrow>
     case menu_run m1 keys of (m2, ds) \<Rightarrow> (m2, if submitted then d # ds else ds))"

lemma menu_update_ok: "menu_ok m \<Longrightarrow> menu_ok (fst (menu_update m key))"
  by (auto simp: menu_update_def menu_ok_def menu_active_def Let_def split: if_splits option.splits)

lemma menu_operations_ok: "menu_ok (menu_open r m)" "menu_ok (menu_clear m)" "menu_ok new_menu"
  by (simp_all add: menu_ok_def menu_open_def menu_clear_def new_menu_def menu_active_def)

lemma menu_update_request [simp]: "mn_request (fst (menu_update m key)) = mn_request m"
  by (simp add: menu_update_def Let_def split: option.split)

lemma menu_submits:
  "snd (snd (menu_update m key)) \<Longrightarrow> answerable m \<and> mn_submitted (fst (menu_update m key)) \<and>
     key_decision (mn_selection m) (py_lower key) = Some (fst (snd (menu_update m key)))"
  by (cases "mn_selection m = 0") (auto simp: menu_update_def answerable_def menu_active_def Let_def split: if_splits option.splits)

lemma menu_latched: "\<not> answerable m \<Longrightarrow> menu_update m key = (m, '''', False)"
  by (auto simp: menu_update_def answerable_def menu_active_def)

lemma decision_in_rows: "n \<le> 2 \<Longrightarrow> key_decision n key = Some d \<Longrightarrow> d \<in> set decisions_by_row"
  by (auto simp: key_decision_def decisions_by_row_def APPROVE_ONCE_def APPROVE_ALWAYS_def DENY_def
    le_Suc_eq numeral_2_eq_2 split: if_splits)

lemma menu_run_latched: "\<not> answerable m \<Longrightarrow> menu_run m keys = (m, [])"
  by (induction keys) (simp_all add: menu_latched)

lemma menu_run_append:
  "menu_run m (xs @ ys) = (case menu_run m xs of (m1, ds) \<Rightarrow> case menu_run m1 ys of (m2, es) \<Rightarrow> (m2, ds @ es))"
  by (induction xs arbitrary: m) (simp_all split: prod.splits)

lemma menu_run_ok: "menu_ok m \<Longrightarrow> menu_ok (fst (menu_run m keys)) \<and> mn_request (fst (menu_run m keys)) = mn_request m"
proof (induction keys arbitrary: m)
  case (Cons key keys)
  obtain m1 d b where u: "menu_update m key = (m1, d, b)" by (cases "menu_update m key") auto
  with menu_update_ok [OF Cons.prems, of key] menu_update_request [of m key] have "menu_ok m1" "mn_request m1 = mn_request m" by simp_all
  with Cons.IH [of m1] u show ?case by (cases "menu_run m1 keys") simp
qed simp

lemma menu_run_one:
  assumes "menu_ok m"
  shows "length (snd (menu_run m keys)) \<le> 1 \<and> set (snd (menu_run m keys)) \<subseteq> set decisions_by_row
    \<and> (snd (menu_run m keys) \<noteq> [] \<longrightarrow> \<not> answerable (fst (menu_run m keys)))"
  using assms
proof (induction keys arbitrary: m)
  case (Cons key keys)
  obtain m1 d b where u: "menu_update m key = (m1, d, b)" by (cases "menu_update m key") auto
  have ok: "menu_ok m1" using menu_update_ok [OF Cons.prems, of key] u by simp
  show ?case
  proof (cases b)
    case True
    then have "\<not> answerable m1" "d \<in> set decisions_by_row"
      using menu_submits [of m key] u Cons.prems decision_in_rows by (auto simp: answerable_def menu_ok_def)
    then show ?thesis using u True by (simp add: menu_run_latched)
  next
    case False
    with Cons.IH [OF ok] u show ?thesis by (simp split: prod.split)
  qed
qed simp

text \<open>
  The approval menu gives one answer per request. Whatever keys are pressed, the row stays one
  of the three, at most one answer leaves the menu until another request is opened, it is one of
  the three the runtime knows, no key answers a closed menu, an opened one is answerable again, and
  a request with nothing pressed but the arrows is denied exactly on the last row.
\<close>
theorem menu_answers_once:
  assumes "menu_ok m"
  shows "menu_ok (fst (menu_run m keys)) \<and> mn_request (fst (menu_run m keys)) = mn_request m
    \<and> length (snd (menu_run m keys)) \<le> 1 \<and> set (snd (menu_run m keys)) \<subseteq> set decisions_by_row
    \<and> (\<not> answerable m \<longrightarrow> menu_run m keys = (m, []))
    \<and> (snd (menu_run m keys) \<noteq> [] \<longrightarrow> snd (menu_run m (keys @ later)) = snd (menu_run m keys))
    \<and> answerable (menu_open r m) \<and> \<not> answerable (menu_clear m)
    \<and> snd (menu_run (menu_open r m) (replicate n ''down'' @ [''enter''])) = [if n = 0 then APPROVE_ONCE else if n = 1 then APPROVE_ALWAYS else DENY]"
proof (intro conjI impI)
  show "menu_ok (fst (menu_run m keys))" "mn_request (fst (menu_run m keys)) = mn_request m" using menu_run_ok [OF assms] by blast+
  show "length (snd (menu_run m keys)) \<le> 1" "set (snd (menu_run m keys)) \<subseteq> set decisions_by_row" using menu_run_one [OF assms] by blast+
  show "menu_run m keys = (m, [])" if "\<not> answerable m" using menu_run_latched that .
  show "snd (menu_run m (keys @ later)) = snd (menu_run m keys)" if "snd (menu_run m keys) \<noteq> []"
  proof -
    have "\<not> answerable (fst (menu_run m keys))" using menu_run_one [OF assms] that by blast
    then show ?thesis by (cases "menu_run m keys") (simp add: menu_run_append menu_run_latched)
  qed
  show "answerable (menu_open r m)" "\<not> answerable (menu_clear m)"
    by (simp_all add: answerable_def menu_active_def menu_open_def menu_clear_def)
  have l: "py_lower ''down'' = ''down''" "py_lower ''enter'' = ''enter''" by code_simp+
  have down: "menu_run (menu_open r m) (replicate n ''down'') = ((menu_open r m)\<lparr>mn_selection := min n 2\<rparr>, [])"
  proof (induction n)
    case (Suc n)
    have "replicate (Suc n) ''down'' = replicate n ''down'' @ [''down'']" by (simp add: replicate_append_same)
    then show ?case by (simp only: menu_run_append Suc prod.case) (auto simp: menu_update_def menu_open_def l min_def)
  qed (simp add: menu_open_def)
  show "snd (menu_run (menu_open r m) (replicate n ''down'' @ [''enter''])) = [if n = 0 then APPROVE_ONCE else if n = 1 then APPROVE_ALWAYS else DENY]"
  proof -
    consider "n = 0" | "n = 1" | "min n 2 = 2" "n \<noteq> 0" "n \<noteq> 1" by linarith
    then show ?thesis unfolding menu_run_append down prod.case
      by cases (simp_all add: menu_update_def menu_open_def l key_decision_def decisions_by_row_def
        APPROVE_ONCE_def APPROVE_ALWAYS_def DENY_def numeral_2_eq_2)
  qed
qed

lemma menu_answers_once_witness:
  "length (snd (menu_run (menu_open \<lparr>mr_tool_name = ''bash'', mr_input = '''', mr_command_class = '''', mr_cwd = '''', mr_touched_paths = [],
      mr_reason = '''', mr_batch_index = 1, mr_batch_total = 1\<rparr> new_menu) [''j'', ''Y'', ''enter''])) \<le> 1"
proof -
  let ?r = "\<lparr>mr_tool_name = ''bash'', mr_input = '''', mr_command_class = '''', mr_cwd = '''', mr_touched_paths = [],
      mr_reason = '''', mr_batch_index = 1, mr_batch_total = 1\<rparr>"
  have "menu_ok (menu_open ?r new_menu)" by code_simp
  from menu_answers_once [OF this, of "[''j'', ''Y'', ''enter'']" "[]" ?r 0] show ?thesis by blast
qed

end
