(* ===== verification/SlashCommands.thy ===== *)
theory SlashCommands
  imports Composer "HOL-Library.Char_ord" "HOL-Library.List_Lexorder"
begin

text \<open>
  The slash commands (\<open>tui/commands/*.py\<close>): the catalogue, what each command asks its ports, and the
  outcome it reports. A port call is a function of the world that gives a value or the text of the
  exception it raises; work a command starts in the background is a value the loop runs later.
\<close>

section \<open>Ports\<close>

type_synonym ('w, 'a) port_call = "'w \<Rightarrow> (string, 'a) result \<times> 'w"

record session_row =
  sr_id :: string
  sr_title :: string
  sr_provider :: string
  sr_model :: string
  sr_cwd :: string
  sr_parent_id :: string

record mcp_row =
  mcr_name :: string
  mcr_tools :: "string list"

record agent_row =
  ar_name :: string
  ar_provider :: string
  ar_model :: string
  ar_permission_mode :: string

record attachment_row =
  ai_name :: string
  ai_mime :: string

record 'w ports =
  po_reset :: "('w, unit) port_call"
  po_list_sessions :: "('w, session_row list) port_call"
  po_resume :: "string \<Rightarrow> ('w, unit) port_call"
  po_rename_session :: "string \<Rightarrow> string \<Rightarrow> ('w, unit) port_call"
  po_delete_session :: "string \<Rightarrow> ('w, unit) port_call"
  po_compact :: "string \<Rightarrow> ('w, unit) port_call"
  po_undo :: "('w, unit) port_call"
  po_fork :: "string \<Rightarrow> ('w, string) port_call"
  po_export :: "string \<Rightarrow> ('w, string) port_call"
  po_set_permission_mode :: "string \<Rightarrow> ('w, unit) port_call"
  po_permission_mode :: "'w \<Rightarrow> string"
  po_auto_approve_tools :: "'w \<Rightarrow> bool"
  po_list_mcp_servers :: "'w \<Rightarrow> mcp_row list"
  po_add_mcp_server :: "string \<Rightarrow> string \<Rightarrow> string list \<Rightarrow> ('w, unit) port_call"
  po_remove_mcp_server :: "string \<Rightarrow> ('w, unit) port_call"
  po_restart_mcp_server :: "string \<Rightarrow> ('w, unit) port_call"
  po_list_agents :: "'w \<Rightarrow> agent_row list"
  po_current_agent :: "'w \<Rightarrow> agent_row"
  po_use_agent :: "string \<Rightarrow> ('w, unit) port_call"
  po_memories :: "('w, string list) port_call"
  po_remember :: "string \<Rightarrow> ('w, unit) port_call"
  po_forget_memories :: "('w, unit) port_call"
  po_git_diff :: "('w, string) port_call"
  po_git_status :: "('w, string) port_call"
  po_diagnostics :: "string \<Rightarrow> ('w, string) port_call"
  po_custom_commands :: "'w \<Rightarrow> string list"
  po_expand_custom_command :: "string \<Rightarrow> string \<Rightarrow> ('w, string) port_call"
  po_skills :: "'w \<Rightarrow> string list"
  po_plugins :: "'w \<Rightarrow> string list"

section \<open>Outcomes\<close>

record status_bar =
  sb_model_name :: string
  sb_permission_mode :: string

record command_outcome =
  oc_status :: string
  oc_err :: string
  oc_output :: string
  oc_prompt :: string
  oc_attach_path :: string
  oc_refresh_snapshot :: bool
  oc_status_bar :: "status_bar option"
  oc_show_help :: bool
  oc_quit :: bool

definition no_outcome :: command_outcome where
  "no_outcome = \<lparr>oc_status = '''', oc_err = '''', oc_output = '''', oc_prompt = '''', oc_attach_path = '''', oc_refresh_snapshot = False,
     oc_status_bar = None, oc_show_help = False, oc_quit = False\<rparr>"

definition failed :: "string \<Rightarrow> command_outcome" where
  "failed e = no_outcome\<lparr>oc_err := e\<rparr>"

definition reported :: "string \<Rightarrow> string \<Rightarrow> command_outcome" where
  "reported status output = no_outcome\<lparr>oc_status := status, oc_output := output\<rparr>"

datatype command_done = CompactDone "string option" | MCPDone string "string option"

datatype mcp_change = McpAdd string string "string list" | McpRemove string | McpRestart string

datatype background = CompactRun string | McpRun string mcp_change

section \<open>The catalogue\<close>

definition slashCommands :: "string list" where
  "slashCommands = [''/clear'', ''/compact'', ''/delete-session'', ''/help'', ''/instructions'', ''/permissions'',
     ''/mcp'', ''/quit'', ''/rename'', ''/reset'', ''/resume'', ''/sessions'',
     ''/undo'', ''/agent'', ''/build'', ''/plan'', ''/mode'', ''/fork'',
     ''/memory'', ''/remember'', ''/forget'', ''/review'', ''/diff'', ''/fix-ci'',
     ''/branch'', ''/commit-message'', ''/export'', ''/share'', ''/attach'', ''/attachments'',
     ''/commands'', ''/skills'', ''/plugins'', ''/diagnostics'']"

definition slashCommandDescriptions :: "(string \<times> string) list" where
  "slashCommandDescriptions = [
     (''/clear'', ''Reset the conversation''),
     (''/agent'', ''List or select an agent <name>''),
     (''/attach'', ''Attach a workspace file <path>''),
     (''/attachments'', ''List pending attachments''),
     (''/build'', ''Switch to the build agent''),
     (''/branch'', ''Show branch and working-tree status''),
     (''/commit-message'', ''Suggest a commit message''),
     (''/commands'', ''List custom commands''),
     (''/compact'', ''Compact context [summary]''),
     (''/delete-session'', ''Delete a saved session <id>''),
     (''/diff'', ''Preview the current patch''),
     (''/diagnostics'', ''Show LSP diagnostics <path>''),
     (''/export'', ''Export session <markdown|json>''),
     (''/fix-ci'', ''Inspect and fix failing CI checks''),
     (''/help'', ''Show commands and shortcuts''),
     (''/fork'', ''Fork the current transcript [title]''),
     (''/forget'', ''Clear cross-session memory''),
     (''/instructions'', ''Show loaded instruction files''),
     (''/mcp'', ''Manage MCP servers <list|add|remove|restart>''),
     (''/mode'', ''Switch mode <plan|build>''),
     (''/memory'', ''Show cross-session memory''),
     (''/permissions'', ''Inspect or change permission mode''),
     (''/plugins'', ''List loaded plugins''),
     (''/plan'', ''Switch to the plan agent''),
     (''/quit'', ''Exit Super Agent''),
     (''/rename'', ''Rename a session <id> <title>''),
     (''/remember'', ''Add cross-session memory <text>''),
     (''/reset'', ''Reset the conversation''),
     (''/review'', ''Review the current changes''),
     (''/resume'', ''Resume a saved session <id>''),
     (''/sessions'', ''List saved sessions''),
     (''/share'', ''Create a local HTML share file''),
     (''/skills'', ''List loaded skills''),
     (''/undo'', ''Restore the last checkpoint'')]"

definition is_command :: "string \<Rightarrow> bool" where
  "is_command t \<longleftrightarrow> startswith t ''/''"

definition command_palette :: "string list \<Rightarrow> palette_entry list" where
  "command_palette custom =
     map (\<lambda>name. \<lparr>pc_name = name, pc_description = the (map_of slashCommandDescriptions name)\<rparr>) slashCommands
     @ map (\<lambda>name. \<lparr>pc_name = ''/'' @ removeprefix name ''/'', pc_description = ''Custom command''\<rparr>) (sort custom)"

section \<open>Formatting\<close>

definition divider :: "string \<Rightarrow> string" where
  "divider label = rule_glyph @ rule_glyph @ '' '' @ label @ '' '' @ rule_glyph @ rule_glyph"

definition formatSessions :: "session_row list \<Rightarrow> string" where
  "formatSessions rows = (if rows = [] then ''No saved sessions''
     else join_with [newline] (map (\<lambda>r. sr_id r @ ''  '' @ sr_title r @ ''  '' @ sr_provider r @ ''/'' @ sr_model r
       @ (if sr_parent_id r \<noteq> '''' then ''  child-of:'' @ sr_parent_id r else '''')) rows))"

definition formatMCPServers :: "mcp_row list \<Rightarrow> string" where
  "formatMCPServers rows = (if rows = [] then ''No MCP servers''
     else join_with [newline] (map (\<lambda>r. mcr_name r @ ''  ''
       @ (let tools = join_with '', '' (mcr_tools r) in if tools = '''' then ''no tools'' else tools)) rows))"

definition bullets :: "string list \<Rightarrow> string" where
  "bullets items = join_with ([newline] @ ''- '') items"

definition formatInstructions :: "string list \<Rightarrow> string" where
  "formatInstructions paths = (if paths = [] then ''No instruction files loaded''
     else ''Loaded instruction sources:'' @ [newline] @ join_with [newline] (map (\<lambda>p. ''- '' @ p) paths))"

definition onOff :: "bool \<Rightarrow> string" where
  "onOff enabled = (if enabled then ''on'' else ''off'')"

record command_config =
  cc_cwd :: string
  cc_instruction_paths :: "string list"
  cc_no_tools :: bool

definition formatPermissions :: "command_config \<Rightarrow> string \<Rightarrow> bool \<Rightarrow> string" where
  "formatPermissions cfg mode autoApprove =
     ''Permission mode: '' @ (if mode = '''' then ''ask'' else mode) @ [newline] @ ''Tools: '' @ onOff (\<not> cc_no_tools cfg) @ [newline]
     @ ''Approval: '' @ onOff autoApprove @ [newline] @ ''CWD: '' @ cc_cwd cfg"

definition formatNamedItems :: "string \<Rightarrow> string list \<Rightarrow> string" where
  "formatNamedItems label items = (if items = [] then ''No '' @ py_lower label else label @ '':'' @ [newline] @ ''- '' @ bullets items)"

section \<open>Handlers\<close>

record commands_model =
  cdm_config :: command_config
  cdm_customCommands :: "string list"
  cdm_compacting :: bool
  cdm_managingMCP :: bool

definition new_commands :: "command_config \<Rightarrow> string list \<Rightarrow> commands_model" where
  "new_commands cfg custom = \<lparr>cdm_config = cfg, cdm_customCommands = custom, cdm_compacting = False, cdm_managingMCP = False\<rparr>"

text \<open>A port call whose exception becomes the outcome's error behind a label.\<close>

definition ask_port :: "('w, 'a) port_call \<Rightarrow> string \<Rightarrow> ('a \<Rightarrow> 'w \<Rightarrow> command_outcome) \<Rightarrow> 'w \<Rightarrow> command_outcome \<times> 'w" where
  "ask_port call label f w = (case call w of
       (Inl e, w1) \<Rightarrow> (failed (label @ '' failed: '' @ e), w1)
     | (Inr v, w1) \<Rightarrow> (f v w1, w1))"

definition handleAgent :: "'w ports \<Rightarrow> string list \<Rightarrow> 'w \<Rightarrow> command_outcome \<times> 'w" where
  "handleAgent po parts w =
     (if length parts = 1 \<or> (length parts = 2 \<and> parts ! 1 = ''list'') then
        (reported ''Agents'' (join_with [newline] (map (\<lambda>p. (if ar_name p = ar_name (po_current_agent po w) then ''* '' else ''  '')
           @ ar_name p @ '' ('' @ ar_provider p @ ''/'' @ ar_model p @ '', '' @ ar_permission_mode p @ '')'') (po_list_agents po w))), w)
      else if length parts \<noteq> 2 then (failed ''Usage: /agent <list|name>'', w)
      else ask_port (po_use_agent po (parts ! 1)) ''Agent'' (\<lambda>u w1. let p = po_current_agent po w1 in
        no_outcome\<lparr>oc_status := ''Using agent '' @ ar_name p, oc_refresh_snapshot := True,
          oc_status_bar := Some \<lparr>sb_model_name = ar_model p, sb_permission_mode = ar_permission_mode p\<rparr>\<rparr>) w)"

definition handleNamedItems :: "'w ports \<Rightarrow> string \<Rightarrow> 'w \<Rightarrow> command_outcome" where
  "handleNamedItems po label w = (let items = (if label = ''Custom commands'' then po_custom_commands po w
       else if label = ''Skills'' then po_skills po w else po_plugins po w)
     in reported label (formatNamedItems label items))"

definition handlePermissions :: "'w ports \<Rightarrow> command_config \<Rightarrow> string list \<Rightarrow> 'w \<Rightarrow> command_outcome \<times> 'w" where
  "handlePermissions po cfg parts w =
     (let show = (\<lambda>u w1. let mode = po_permission_mode po w1 in
        (reported ''Permissions'' (formatPermissions cfg mode (po_auto_approve_tools po w1)))
          \<lparr>oc_status_bar := Some \<lparr>sb_model_name = '''', sb_permission_mode = mode\<rparr>\<rparr>)
      in if length parts \<ge> 3 \<and> parts ! 1 = ''mode'' then ask_port (po_set_permission_mode po (parts ! 2)) ''Permissions'' show w
         else (show () w, w))"

definition handleReset :: "'w ports \<Rightarrow> 'w \<Rightarrow> command_outcome \<times> 'w" where
  "handleReset po w = (case po_reset po w of
       (Inl e, w1) \<Rightarrow> ((failed (''Reset failed: '' @ e))\<lparr>oc_refresh_snapshot := True\<rparr>, w1)
     | (Inr u, w1) \<Rightarrow> ((reported '''' (divider ''New conversation''))\<lparr>oc_refresh_snapshot := True\<rparr>, w1))"

definition handleSessions :: "'w ports \<Rightarrow> 'w \<Rightarrow> command_outcome \<times> 'w" where
  "handleSessions po = ask_port (po_list_sessions po) ''Sessions'' (\<lambda>rows w. reported ''Sessions'' (formatSessions rows))"

definition handleResume :: "'w ports \<Rightarrow> string list \<Rightarrow> 'w \<Rightarrow> command_outcome \<times> 'w" where
  "handleResume po parts w = (if length parts < 2 then (failed ''Usage: /resume <id>'', w)
     else ask_port (po_resume po (parts ! 1)) ''Resume'' (\<lambda>u w1.
       (reported (''Resumed '' @ parts ! 1) (divider (''Resumed session '' @ parts ! 1)))\<lparr>oc_refresh_snapshot := True\<rparr>) w)"

definition rename_title :: "string \<Rightarrow> string list \<Rightarrow> string" where
  "rename_title t parts = py_strip (removeprefix t (parts ! 0 @ '' '' @ parts ! 1))"

definition handleRename :: "'w ports \<Rightarrow> string \<Rightarrow> string list \<Rightarrow> 'w \<Rightarrow> command_outcome \<times> 'w" where
  "handleRename po t parts w = (if length parts < 3 then (failed ''Usage: /rename <id> <title>'', w)
     else ask_port (po_rename_session po (parts ! 1) (rename_title t parts)) ''Rename'' (\<lambda>u w1. reported (''Renamed '' @ parts ! 1) '''') w)"

definition handleDelete :: "'w ports \<Rightarrow> string list \<Rightarrow> 'w \<Rightarrow> command_outcome \<times> 'w" where
  "handleDelete po parts w = (if length parts < 2 then (failed ''Usage: /delete-session <id>'', w)
     else ask_port (po_delete_session po (parts ! 1)) ''Delete'' (\<lambda>u w1. reported (''Deleted '' @ parts ! 1) '''') w)"

definition handleUndo :: "'w ports \<Rightarrow> 'w \<Rightarrow> command_outcome \<times> 'w" where
  "handleUndo po = ask_port (po_undo po) ''Undo'' (\<lambda>u w.
     (reported ''Restored last checkpoint'' (divider ''Restored checkpoint''))\<lparr>oc_refresh_snapshot := True\<rparr>)"

definition handleExport :: "'w ports \<Rightarrow> string \<Rightarrow> 'w \<Rightarrow> command_outcome \<times> 'w" where
  "handleExport po exportFormat = ask_port (po_export po exportFormat) ''Export'' (\<lambda>path w. reported (''Exported '' @ path) '''')"

definition handleFork :: "'w ports \<Rightarrow> string \<Rightarrow> 'w \<Rightarrow> command_outcome \<times> 'w" where
  "handleFork po title = ask_port (po_fork po title) ''Fork'' (\<lambda>session_id w.
     (reported (''Forked session '' @ session_id) '''')\<lparr>oc_refresh_snapshot := True\<rparr>)"

definition handleMemory :: "'w ports \<Rightarrow> 'w \<Rightarrow> command_outcome \<times> 'w" where
  "handleMemory po = ask_port (po_memories po) ''Memory'' (\<lambda>items w.
     if items = [] then reported ''No cross-session memory'' '''' else reported ''Memory'' (''Memory:'' @ [newline] @ ''- '' @ bullets items))"

definition handleRemember :: "'w ports \<Rightarrow> string \<Rightarrow> 'w \<Rightarrow> command_outcome \<times> 'w" where
  "handleRemember po v = ask_port (po_remember po v) ''Remember'' (\<lambda>u w. reported ''Memory saved'' '''')"

definition handleForget :: "'w ports \<Rightarrow> 'w \<Rightarrow> command_outcome \<times> 'w" where
  "handleForget po = ask_port (po_forget_memories po) ''Forget'' (\<lambda>u w. reported ''Memory cleared'' '''')"

definition handleGitDiff :: "'w ports \<Rightarrow> 'w \<Rightarrow> command_outcome \<times> 'w" where
  "handleGitDiff po = ask_port (po_git_diff po) ''Diff'' (\<lambda>r w. if py_strip r = '''' then reported ''No changes'' '''' else reported ''Patch preview'' r)"

definition handleGitStatus :: "'w ports \<Rightarrow> 'w \<Rightarrow> command_outcome \<times> 'w" where
  "handleGitStatus po = ask_port (po_git_status po) ''Branch status'' (\<lambda>r w. reported ''Branch status'' r)"

definition handleCompact :: "commands_model \<Rightarrow> string \<Rightarrow> string \<Rightarrow> commands_model \<times> command_outcome \<times> background option" where
  "handleCompact m t command = (m\<lparr>cdm_compacting := True\<rparr>, reported (''Compacting conversation'' @ ellipsis) '''',
     Some (CompactRun (py_strip (removeprefix t command))))"

definition handleMCP :: "'w ports \<Rightarrow> commands_model \<Rightarrow> string list \<Rightarrow> 'w \<Rightarrow> commands_model \<times> command_outcome \<times> background option" where
  "handleMCP po m parts w =
     (if length parts = 1 \<or> (length parts = 2 \<and> parts ! 1 = ''list'') then
        (m, reported ''MCP servers'' (formatMCPServers (po_list_mcp_servers po w)), None)
      else let started = (\<lambda>status change. (m\<lparr>cdm_managingMCP := True\<rparr>, reported (''Updating MCP servers'' @ ellipsis) '''', Some (McpRun status change)))
        in if parts ! 1 = ''add'' then
             (if length parts < 4 then (m, failed ''Usage: /mcp add <name> <command> [args...]'', None)
              else started (''Added MCP server '' @ parts ! 2) (McpAdd (parts ! 2) (parts ! 3) (drop 4 parts)))
           else if parts ! 1 = ''remove'' then
             (if length parts \<noteq> 3 then (m, failed ''Usage: /mcp remove <name>'', None)
              else started (''Removed MCP server '' @ parts ! 2) (McpRemove (parts ! 2)))
           else if parts ! 1 = ''restart'' then
             (if length parts \<noteq> 3 then (m, failed ''Usage: /mcp restart <name>'', None)
              else started (''Restarted MCP server '' @ parts ! 2) (McpRestart (parts ! 2)))
           else (m, failed ''Usage: /mcp <list|add|remove|restart>'', None))"

definition review_prompt :: string where
  "review_prompt = ''Review the current changes. Inspect the git diff, relevant code, and LSP diagnostics when configured, then report only actionable defects with file and line references. Do not modify files.''"

definition fix_ci_prompt :: string where
  "fix_ci_prompt = ''Inspect the repository CI configuration and current failures, reproduce them locally, implement the fixes, and verify the result.''"

definition commit_message_prompt :: string where
  "commit_message_prompt = ''Inspect the current git diff and suggest one concise conventional commit subject. Do not modify files or commit.''"

text \<open>The commands that only ask their ports and report.\<close>

definition handle_plain :: "'w ports \<Rightarrow> commands_model \<Rightarrow> string \<Rightarrow> attachment_row list \<Rightarrow> string list \<Rightarrow> 'w \<Rightarrow> command_outcome \<times> 'w" where
  "handle_plain po m t attachments parts w = (let command = hd parts; argument = py_strip (removeprefix t command) in
     if command = ''/agent'' then handleAgent po parts w
     else if command = ''/plan'' then handleAgent po [''/agent'', ''plan''] w
     else if command = ''/build'' then handleAgent po [''/agent'', ''build''] w
     else if command = ''/mode'' then
       (if length parts \<noteq> 2 \<or> parts ! 1 \<notin> {''plan'', ''build''} then (failed ''Usage: /mode <plan|build>'', w) else handleAgent po [''/agent'', parts ! 1] w)
     else if command = ''/fork'' then handleFork po argument w
     else if command = ''/memory'' then handleMemory po w
     else if command = ''/remember'' then handleRemember po argument w
     else if command = ''/forget'' then handleForget po w
     else if command = ''/diff'' then handleGitDiff po w
     else if command = ''/branch'' then handleGitStatus po w
     else if command = ''/review'' then (no_outcome\<lparr>oc_prompt := review_prompt\<rparr>, w)
     else if command = ''/fix-ci'' then (no_outcome\<lparr>oc_prompt := fix_ci_prompt\<rparr>, w)
     else if command = ''/commit-message'' then (no_outcome\<lparr>oc_prompt := commit_message_prompt\<rparr>, w)
     else if command = ''/export'' then
       (if length parts \<noteq> 2 then (failed ''Usage: /export <markdown|json>'', w) else handleExport po (parts ! 1) w)
     else if command = ''/share'' then handleExport po ''html'' w
     else if command = ''/attach'' then
       (if length parts \<noteq> 2 then failed ''Usage: /attach <path>'' else no_outcome\<lparr>oc_status := ''Attaching'' @ ellipsis, oc_attach_path := parts ! 1\<rparr>, w)
     else if command = ''/attachments'' then
       (if attachments = [] then reported ''No pending attachments'' ''''
        else reported ''Attachments'' (''Attachments:'' @ [newline] @ ''- '' @ bullets (map (\<lambda>a. ai_name a @ '' ('' @ ai_mime a @ '')'') attachments)), w)
     else if command = ''/commands'' then (handleNamedItems po ''Custom commands'' w, w)
     else if command = ''/skills'' then (handleNamedItems po ''Skills'' w, w)
     else if command = ''/plugins'' then (handleNamedItems po ''Plugins'' w, w)
     else if command = ''/diagnostics'' then
       (if length parts \<noteq> 2 then (failed ''Usage: /diagnostics <path>'', w)
        else ask_port (po_diagnostics po (parts ! 1)) ''Diagnostics'' (\<lambda>r w1. reported ''Diagnostics'' r) w)
     else if command = ''/instructions'' then (reported ''Instructions'' (formatInstructions (cc_instruction_paths (cdm_config m))), w)
     else if command = ''/permissions'' then handlePermissions po (cdm_config m) parts w
     else if command \<in> {''/clear'', ''/reset''} then handleReset po w
     else if command = ''/sessions'' then handleSessions po w
     else if command = ''/resume'' then handleResume po parts w
     else if command = ''/rename'' then handleRename po t parts w
     else if command = ''/delete-session'' then handleDelete po parts w
     else if command = ''/undo'' then handleUndo po w
     else if command \<in> {''/quit'', ''/exit''} then (no_outcome\<lparr>oc_quit := True\<rparr>, w)
     else if command = ''/help'' then (no_outcome\<lparr>oc_show_help := True\<rparr>, w)
     else (case po_expand_custom_command po (removeprefix command ''/'') argument w of
         (Inl e, w1) \<Rightarrow> (failed (''Unknown command: '' @ command), w1)
       | (Inr expanded, w1) \<Rightarrow> (no_outcome\<lparr>oc_prompt := expanded\<rparr>, w1)))"

text \<open>\<open>Model.handle\<close>. A text without a word has no first part to look at.\<close>

definition handle_command :: "'w ports \<Rightarrow> commands_model \<Rightarrow> string \<Rightarrow> attachment_row list \<Rightarrow> 'w
    \<Rightarrow> (index_error, commands_model \<times> command_outcome \<times> background option) result \<times> 'w" where
  "handle_command po m t attachments w = (case split_ws t of [] \<Rightarrow> (Inl IndexError, w)
     | command # arguments \<Rightarrow>
        if command = ''/mcp'' then (Inr (handleMCP po m (command # arguments) w), w)
        else if command = ''/compact'' then (Inr (handleCompact m t command), w)
        else case handle_plain po m t attachments (command # arguments) w of (oc, w1) \<Rightarrow> (Inr (m, oc, None), w1))"

section \<open>Background work\<close>

definition raised_text :: "(string, 'a) result \<Rightarrow> string option" where
  "raised_text r = (case r of Inl e \<Rightarrow> Some e | Inr v \<Rightarrow> None)"

definition run_background :: "'w ports \<Rightarrow> background \<Rightarrow> 'w \<Rightarrow> command_done \<times> 'w" where
  "run_background po b w = (case b of
       CompactRun summary \<Rightarrow> (case po_compact po summary w of (r, w1) \<Rightarrow> (CompactDone (raised_text r), w1))
     | McpRun status change \<Rightarrow>
        (case (case change of McpAdd name command args \<Rightarrow> po_add_mcp_server po name command args w
             | McpRemove name \<Rightarrow> po_remove_mcp_server po name w | McpRestart name \<Rightarrow> po_restart_mcp_server po name w) of
           (r, w1) \<Rightarrow> (MCPDone status (raised_text r), w1)))"

definition finish_command :: "commands_model \<Rightarrow> command_done \<Rightarrow> commands_model \<times> command_outcome" where
  "finish_command m d = (case d of
       CompactDone err \<Rightarrow> (m\<lparr>cdm_compacting := False\<rparr>, case err of Some e \<Rightarrow> failed (''Compact failed: '' @ e)
         | None \<Rightarrow> (reported ''Compacted conversation'' (divider ''Compacted conversation''))\<lparr>oc_refresh_snapshot := True\<rparr>)
     | MCPDone status err \<Rightarrow> (m\<lparr>cdm_managingMCP := False\<rparr>, case err of Some e \<Rightarrow> failed (''MCP failed: '' @ e) | None \<Rightarrow> reported status ''''))"

section \<open>What a command can ask for\<close>

text \<open>A failure reports its text and starts nothing; only \<open>/clear\<close> re-reads the conversation after one.\<close>

definition outcome_ok :: "command_outcome \<Rightarrow> bool" where
  "outcome_ok oc \<longleftrightarrow> (oc_err oc \<noteq> '''' \<longrightarrow> oc_status oc = '''' \<and> oc_output oc = '''' \<and> oc_prompt oc = '''' \<and> oc_attach_path oc = ''''
     \<and> oc_status_bar oc = None \<and> \<not> oc_show_help oc \<and> \<not> oc_quit oc)"

lemma outcome_ok_simps [simp]:
  "outcome_ok (failed e)" "outcome_ok (reported s out)" "outcome_ok no_outcome"
  "outcome_ok ((failed e)\<lparr>oc_refresh_snapshot := b\<rparr>)"
  "oc_err oc = '''' \<Longrightarrow> outcome_ok oc"
  by (simp_all add: outcome_ok_def failed_def reported_def no_outcome_def)

lemma oc_err_simps [simp]: "oc_err (reported s out) = ''''" "oc_err no_outcome = ''''" "oc_err (failed e) = e"
  by (simp_all add: failed_def reported_def no_outcome_def)

lemma ask_port_ok: "(\<And>v w. outcome_ok (f v w)) \<Longrightarrow> outcome_ok (fst (ask_port call label f w))"
  by (simp add: ask_port_def split: prod.split sum.split)

lemmas handler_defs = handleAgent_def handleNamedItems_def handlePermissions_def handleReset_def handleSessions_def handleResume_def
  handleRename_def handleDelete_def handleUndo_def handleExport_def handleFork_def handleMemory_def handleRemember_def
  handleForget_def handleGitDiff_def handleGitStatus_def

lemma handlers_ok:
  "outcome_ok (fst (handleAgent po parts w))" "outcome_ok (handleNamedItems po label w)" "outcome_ok (fst (handlePermissions po cfg parts w))"
  "outcome_ok (fst (handleReset po w))" "outcome_ok (fst (handleSessions po w))" "outcome_ok (fst (handleResume po parts w))"
  "outcome_ok (fst (handleRename po t parts w))" "outcome_ok (fst (handleDelete po parts w))" "outcome_ok (fst (handleUndo po w))"
  "outcome_ok (fst (handleExport po fmt w))" "outcome_ok (fst (handleFork po title w))" "outcome_ok (fst (handleMemory po w))"
  "outcome_ok (fst (handleRemember po v w))" "outcome_ok (fst (handleForget po w))" "outcome_ok (fst (handleGitDiff po w))"
  "outcome_ok (fst (handleGitStatus po w))"
  by (auto simp: handler_defs Let_def intro!: ask_port_ok split: prod.split sum.split)

lemma outcome_ok_if: "outcome_ok (fst a) \<Longrightarrow> outcome_ok (fst b) \<Longrightarrow> outcome_ok (fst (if c then a else b))"
  by simp

lemma handle_plain_ok: "outcome_ok (fst (handle_plain po m t attachments parts w))"
  unfolding handle_plain_def Let_def
  by (intro outcome_ok_if handlers_ok ask_port_ok) (simp_all add: handlers_ok split: prod.split sum.split)

text \<open>The commands with a branch of their own.\<close>

definition built_in :: "string \<Rightarrow> bool" where
  "built_in command \<longleftrightarrow> command \<in> set slashCommands \<or> command = ''/exit''"

lemma handle_plain_unknown:
  "\<not> built_in (hd parts) \<Longrightarrow> hd parts \<noteq> ''/mcp'' \<Longrightarrow> hd parts \<noteq> ''/compact'' \<Longrightarrow>
   handle_plain po m t attachments parts w = (case po_expand_custom_command po (removeprefix (hd parts) ''/'') (py_strip (removeprefix t (hd parts))) w of
     (Inl e, w1) \<Rightarrow> (failed (''Unknown command: '' @ hd parts), w1)
   | (Inr expanded, w1) \<Rightarrow> (no_outcome\<lparr>oc_prompt := expanded\<rparr>, w1))"
  unfolding handle_plain_def Let_def built_in_def slashCommands_def by (simp del: not_None_eq)

lemma handle_plain_built_in:
  "built_in (hd parts) \<Longrightarrow> hd parts \<noteq> ''/mcp'' \<Longrightarrow> hd parts \<noteq> ''/compact'' \<Longrightarrow>
   handle_plain po m t attachments parts w = handle_plain (po\<lparr>po_expand_custom_command := expand\<rparr>) m t attachments parts w"
  unfolding built_in_def slashCommands_def list.set insert_iff empty_iff
  by (elim disjE; simp add: handle_plain_def Let_def handler_defs)

lemma split_ws_prefix:
  "\<forall>c \<in> set u. \<not> py_space c \<Longrightarrow> split_ws_acc cur (u @ s) = split_ws_acc (rev u @ cur) s"
  by (induction u arbitrary: cur) simp_all

lemma split_ws_space: "py_space c \<Longrightarrow> u \<noteq> [] \<Longrightarrow> \<forall>c \<in> set u. \<not> py_space c \<Longrightarrow> split_ws (u @ c # s) = u # split_ws s"
  by (simp add: split_ws_def split_ws_prefix)

lemma handleMCP_expand: "handleMCP (po\<lparr>po_expand_custom_command := expand\<rparr>) = handleMCP po"
  by (intro ext) (simp add: handleMCP_def)

lemma snd_ask_port: "snd (ask_port call label f w) = snd (call w)"
  by (simp add: ask_port_def split: prod.split sum.split)


text \<open>
  The title \<open>/rename\<close> gives a session. With single spaces before and after the identifier it is the rest of
  the command; but with two spaces before the identifier, or a tab, nothing is taken off and the session is
  named after the whole command, slash and identifier included.
\<close>
theorem rename_keeps_command:
  assumes "sid \<noteq> ''''" and "\<forall>c \<in> set sid. \<not> py_space c" and "split_ws title \<noteq> []"
  shows "snd (handle_command po m (''/rename '' @ sid @ '' '' @ title) attachments w) = snd (po_rename_session po sid (py_strip title) w)
    \<and> snd (handle_command po m (''/rename  '' @ sid @ '' '' @ title) attachments w)
      = snd (po_rename_session po sid (py_strip (''/rename  '' @ sid @ '' '' @ title)) w)"
proof -
  have s: "py_space CHR '' ''" by code_simp
  have r: "\<forall>c \<in> set ''/rename''. \<not> py_space c" by code_simp
  have e: "split_ws (CHR '' '' # x) = split_ws x" for x using s by (simp add: split_ws_def)
  have p: "split_ws (sid @ CHR '' '' # title) = sid # split_ws title" using assms s by (simp add: split_ws_space)
  have "split_ws (''/rename'' @ CHR '' '' # sid @ CHR '' '' # title) = ''/rename'' # sid # split_ws title"
    "split_ws (''/rename'' @ CHR '' '' # CHR '' '' # sid @ CHR '' '' # title) = ''/rename'' # sid # split_ws title"
    using s r p by (simp_all only: split_ws_space e not_Cons_self2 list.distinct if_True simp_thms) 
  then have parts: "split_ws (''/rename '' @ sid @ '' '' @ title) = ''/rename'' # sid # split_ws title"
    "split_ws (''/rename  '' @ sid @ '' '' @ title) = ''/rename'' # sid # split_ws title" by simp_all
  have more: "2 \<le> length (sid # split_ws title)" using assms(3) by (cases "split_ws title") simp_all
  have t1: "rename_title (''/rename '' @ sid @ '' '' @ title) (''/rename'' # sid # split_ws title) = py_strip title"
    using s by (simp add: rename_title_def removeprefix_def startswith_def py_strip_def strip_by_def)
  obtain c cs where sc: "sid = c # cs" "c \<noteq> CHR '' ''" using assms(1,2) s by (cases sid) auto
  have t2: "rename_title (''/rename  '' @ sid @ '' '' @ title) (''/rename'' # sid # split_ws title) = py_strip (''/rename  '' @ sid @ '' '' @ title)"
    using sc by (simp add: rename_title_def removeprefix_def startswith_def)
  have "snd (handle_command po m t attachments w) = snd (po_rename_session po sid (rename_title t (''/rename'' # sid # split_ws title)) w)"
    if "split_ws t = ''/rename'' # sid # split_ws title" for t
  proof -
    have "handle_plain po m t attachments (''/rename'' # sid # split_ws title) w
        = ask_port (po_rename_session po sid (rename_title t (''/rename'' # sid # split_ws title))) ''Rename'' (\<lambda>u w1. reported (''Renamed '' @ sid) '''') w"
      using assms(3) unfolding handle_plain_def Let_def by (simp add: handleRename_def)
    then have "snd (handle_plain po m t attachments (''/rename'' # sid # split_ws title) w)
        = snd (po_rename_session po sid (rename_title t (''/rename'' # sid # split_ws title)) w)" by (simp add: snd_ask_port)
    then show ?thesis using that
      by (cases "handle_plain po m t attachments (''/rename'' # sid # split_ws title) w") (simp add: handle_command_def)
  qed
  with parts t1 t2 show ?thesis by metis
qed

section \<open>The palette over the catalogue\<close>

definition typed_composer :: composer where
  "typed_composer = new_composer (command_palette [])"

text \<open>
  C35. When the prompt reader raises. Typing, moving, completing and submitting keep the palette's
  selection inside the matches, and then ask_port whether Enter completes cannot fail. Deleting
  inside a command word does not: after \<open>/re\<close>, down, left and backspace one match is left and row 1
  is selected, and the reader's index is out of range. Nor does leaving the draft: after \<open>/clear\<close> was
  submitted, a slash, down, ctrl+u and up select row 1 of the single match.
\<close>
theorem palette_selection_error:
  "(selection_ok c \<longrightarrow> is_ok (completing c) \<and> (selection_key c key \<longrightarrow> selection_ok (fst (composer_update c key))))
    \<and> (completing c = Inl IndexError \<longleftrightarrow> palette_matches c \<noteq> [] \<and> length (palette_matches c) \<le> cm_selection c)
    \<and> completing (press_all [''/'', ''r'', ''e'', ''down'', ''left'', ''backspace''] typed_composer) = Inl IndexError
    \<and> completing (press_all [''/'', ''down'', ''ctrl+u'', ''up'']
        (clear_input (press_all [''/'', ''c'', ''l'', ''e'', ''a'', ''r'', ''enter''] typed_composer))) = Inl IndexError"
proof (intro conjI impI)
  show "completing (press_all [''/'', ''r'', ''e'', ''down'', ''left'', ''backspace''] typed_composer) = Inl IndexError" by code_simp
  show "completing (press_all [''/'', ''down'', ''ctrl+u'', ''up'']
        (clear_input (press_all [''/'', ''c'', ''l'', ''e'', ''a'', ''r'', ''enter''] typed_composer))) = Inl IndexError" by code_simp
qed (use selection_ok_completing selection_kept completing_raises_iff in blast)+

lemma palette_selection_error_witness:
  "selection_ok (fst (composer_update typed_composer ''/'')) \<and> is_ok (completing typed_composer)"
proof -
  have "selection_ok typed_composer" "selection_key typed_composer ''/''" by code_simp+
  with palette_selection_error [of typed_composer "''/''"] show ?thesis by blast
qed

text \<open>Ports that answer everything with nothing.\<close>

definition silent_ports :: "'w ports" where
  "silent_ports = (let ok = (\<lambda>w. (Inr (), w)); none = (\<lambda>w. (Inr '''', w)) in
     \<lparr>po_reset = ok, po_list_sessions = (\<lambda>w. (Inr [], w)), po_resume = (\<lambda>s. ok), po_rename_session = (\<lambda>s t. ok), po_delete_session = (\<lambda>s. ok),
      po_compact = (\<lambda>s. ok), po_undo = ok, po_fork = (\<lambda>s. none), po_export = (\<lambda>s. none), po_set_permission_mode = (\<lambda>s. ok),
      po_permission_mode = (\<lambda>w. ''ask''), po_auto_approve_tools = (\<lambda>w. False), po_list_mcp_servers = (\<lambda>w. []),
      po_add_mcp_server = (\<lambda>n c a. ok), po_remove_mcp_server = (\<lambda>n. ok), po_restart_mcp_server = (\<lambda>n. ok), po_list_agents = (\<lambda>w. []),
      po_current_agent = (\<lambda>w. \<lparr>ar_name = '''', ar_provider = '''', ar_model = '''', ar_permission_mode = ''''\<rparr>), po_use_agent = (\<lambda>n. ok),
      po_memories = (\<lambda>w. (Inr [], w)), po_remember = (\<lambda>s. ok), po_forget_memories = ok, po_git_diff = none, po_git_status = none,
      po_diagnostics = (\<lambda>p. none), po_custom_commands = (\<lambda>w. []), po_expand_custom_command = (\<lambda>n a. none), po_skills = (\<lambda>w. []), po_plugins = (\<lambda>w. [])\<rparr>)"

definition silent_commands :: commands_model where
  "silent_commands = new_commands \<lparr>cc_cwd = ''/w'', cc_instruction_paths = [], cc_no_tools = False\<rparr> []"


definition naming_ports :: "string ports" where
  "naming_ports = silent_ports\<lparr>po_rename_session := (\<lambda>s t w. (Inr (), t))\<rparr>"

lemma rename_keeps_command_witness:
  "snd (handle_command naming_ports silent_commands ''/rename s1 notes'' [] '''') = ''notes''
   \<and> snd (handle_command naming_ports silent_commands ''/rename  s1 notes'' [] '''') = ''/rename  s1 notes''"
proof -
  have h: "''s1'' \<noteq> ''''" "\<forall>c \<in> set ''s1''. \<not> py_space c" "split_ws ''notes'' \<noteq> []" by code_simp+
  have p: "snd (po_rename_session naming_ports s t w) = t" for s t w by (simp add: naming_ports_def)
  have "py_strip ''notes'' = ''notes''" "py_strip ''/rename  s1 notes'' = ''/rename  s1 notes''" by code_simp+
  with rename_keeps_command [OF h, of naming_ports silent_commands "[]" "''''"] show ?thesis by (simp only: p append.simps)
qed

end
