(* ===== verification/TranscriptView.thy ===== *)
theory TranscriptView
  imports Composer Protocol
begin

text \<open>
  The transcript the terminal shows (\<open>tui/transcript/model.py\<close>): committed messages, the streaming
  one, the expansion flags, code blocks to copy, and the summary of tool calls. The markdown
  renderer and splitting a rich text into lines belong to the rich library: they are arguments.
\<close>

section \<open>State\<close>

record shown_call =
  sc_id :: string
  sc_name :: string
  sc_input :: string

record shown_attachment =
  sa_name :: string
  sa_mime :: string

record shown_message =
  sm_role :: string
  sm_content :: string
  sm_reasoning_content :: string
  sm_tool_call_id :: string
  sm_tool_name :: string
  sm_tool_calls :: "shown_call list"
  sm_interrupted :: bool
  sm_attachments :: "shown_attachment list"

definition SHOWN_USER :: string where "SHOWN_USER = ''user''"
definition SHOWN_ASSISTANT :: string where "SHOWN_ASSISTANT = ''assistant''"
definition SHOWN_TOOL :: string where "SHOWN_TOOL = ''tool''"

record copy_intent =
  ci_copy_text :: string
  ci_error :: string

record transcript =
  tr_welcome :: string
  tr_messages :: "shown_message list"
  tr_streaming :: "shown_message option"
  tr_busy :: bool
  tr_width :: int
  tr_expandLatestTools :: bool
  tr_expandAllTools :: bool
  tr_expandLatestThink :: bool
  tr_expandAllThink :: bool

definition new_transcript :: "string \<Rightarrow> transcript" where
  "new_transcript welcome = \<lparr>tr_welcome = welcome, tr_messages = [], tr_streaming = None, tr_busy = False, tr_width = 80,
     tr_expandLatestTools = False, tr_expandAllTools = False, tr_expandLatestThink = False, tr_expandAllThink = False\<rparr>"

definition transcript_set_width :: "transcript \<Rightarrow> int \<Rightarrow> transcript" where
  "transcript_set_width t width = t\<lparr>tr_width := max 1 width\<rparr>"

definition transcript_replace :: "transcript \<Rightarrow> shown_message list \<Rightarrow> transcript" where
  "transcript_replace t ms = t\<lparr>tr_messages := ms\<rparr>"

definition transcript_append :: "transcript \<Rightarrow> shown_message \<Rightarrow> transcript" where
  "transcript_append t m = t\<lparr>tr_messages := tr_messages t @ [m]\<rparr>"

definition set_streaming :: "transcript \<Rightarrow> shown_message option \<Rightarrow> transcript" where
  "set_streaming t m = t\<lparr>tr_streaming := m\<rparr>"

definition clear_streaming :: "transcript \<Rightarrow> transcript" where
  "clear_streaming t = t\<lparr>tr_streaming := None\<rparr>"

definition set_busy :: "transcript \<Rightarrow> bool \<Rightarrow> transcript" where
  "set_busy t busy = t\<lparr>tr_busy := busy\<rparr>"

section \<open>Code blocks\<close>

definition fence :: "string \<Rightarrow> bool" where
  "fence line \<longleftrightarrow> startswith (py_strip line) ''```''"

text \<open>The loop over the lines: the finished blocks, the lines of the open one, and whether one is open.\<close>

definition block_line :: "string list \<times> string list \<times> bool \<Rightarrow> string \<Rightarrow> string list \<times> string list \<times> bool" where
  "block_line s line = (case s of (blocks, current, in_block) \<Rightarrow>
     if fence line then (if in_block then (blocks @ [join_with [newline] current], [], False) else (blocks, current, True))
     else if in_block then (blocks, current @ [line], in_block) else (blocks, current, in_block))"

definition extract_code_blocks :: "string \<Rightarrow> string list" where
  "extract_code_blocks content = fst (foldl block_line ([], [], False) (split_on newline content))"

fun last_block :: "shown_message list \<Rightarrow> string option" where
  "last_block [] = None"
| "last_block (m # ms) = (let blocks = extract_code_blocks (sm_content m) in if blocks \<noteq> [] then Some (last blocks) else last_block ms)"

definition transcript_update :: "transcript \<Rightarrow> string \<Rightarrow> transcript \<times> copy_intent option \<times> bool" where
  "transcript_update t key =
     (if key = ''ctrl+o'' then (t\<lparr>tr_expandLatestTools := \<not> tr_expandLatestTools t, tr_expandAllTools := False\<rparr>, None, True)
      else if key = ''alt+o'' then (t\<lparr>tr_expandAllTools := \<not> tr_expandAllTools t, tr_expandLatestTools := False\<rparr>, None, True)
      else if key = ''ctrl+r'' then (t\<lparr>tr_expandLatestThink := \<not> tr_expandLatestThink t, tr_expandAllThink := False\<rparr>, None, True)
      else if key = ''alt+r'' then (t\<lparr>tr_expandAllThink := \<not> tr_expandAllThink t, tr_expandLatestThink := False\<rparr>, None, True)
      else if key = ''ctrl+y'' then (t, Some (case last_block (rev (tr_messages t)) of
            Some b \<Rightarrow> \<lparr>ci_copy_text = b, ci_error = ''''\<rparr>
          | None \<Rightarrow> \<lparr>ci_copy_text = '''', ci_error = ''No code blocks found to copy''\<rparr>), True)
      else (t, None, False))"

section \<open>Tool calls\<close>

record display_group =
  dg_verb :: string
  dg_kind :: string
  dg_items :: "string list"

text \<open>\<open>json.loads\<close> is an argument; anything but an object counts as no arguments.\<close>

definition parse_args :: "(string \<Rightarrow> json option) \<Rightarrow> string \<Rightarrow> (string \<times> json) list" where
  "parse_args json_loads input_text = (case json_loads input_text of Some (JObject kvs) \<Rightarrow> kvs | _ \<Rightarrow> [])"

definition string_arg :: "(string \<times> json) list \<Rightarrow> string \<Rightarrow> string" where
  "string_arg args key = (case map_of args key of Some (JString s) \<Rightarrow> s | _ \<Rightarrow> '''')"

definition toolDisplay :: "(string \<Rightarrow> json option) \<Rightarrow> shown_call \<Rightarrow> string \<times> string \<times> string list" where
  "toolDisplay json_loads call =
     (let args = parse_args json_loads (sc_input call); name = sc_name call;
          item = (\<lambda>primary fallback. [if primary \<noteq> '''' then primary else fallback])
      in if name = ''read_file'' then (''Read'', ''files'', item (string_arg args ''path'') name)
         else if name \<in> {''write_file'', ''apply_patch''} then (''Edited'', ''files'', item (string_arg args ''path'') name)
         else if name \<in> {''run_command'', ''bash''} then (''Ran'', ''commands'', item (string_arg args ''command'') name)
         else if name \<in> {''search'', ''web_search''} then (''Searched'', ''queries'', item (string_arg args ''query'') name)
         else if name = ''browser_fetch'' then (''Fetched'', ''pages'', item (string_arg args ''url'') name)
         else if name = ''list_files'' then (''Listed'', ''paths'', item (string_arg args ''path'') ''.'')
         else if name = ''git_status'' then (''Ran'', ''commands'', [''git status --short''])
         else if name = ''git_diff'' then (''Ran'', ''commands'', [''git diff''])
         else (''Called'', ''tools'', [name]))"

definition group_call :: "(string \<Rightarrow> json option) \<Rightarrow> display_group list \<Rightarrow> shown_call \<Rightarrow> display_group list" where
  "group_call json_loads groups call = (case toolDisplay json_loads call of (verb, kind, items) \<Rightarrow>
     if groups \<noteq> [] \<and> dg_verb (last groups) = verb \<and> dg_kind (last groups) = kind
     then butlast groups @ [(last groups)\<lparr>dg_items := dg_items (last groups) @ items\<rparr>]
     else groups @ [\<lparr>dg_verb = verb, dg_kind = kind, dg_items = items\<rparr>])"

definition toolGroups :: "(string \<Rightarrow> json option) \<Rightarrow> shown_call list \<Rightarrow> display_group list" where
  "toolGroups json_loads calls = foldl (group_call json_loads) [] calls"

section \<open>Views\<close>

record rich_kit =
  rk_markdown :: "string \<Rightarrow> int \<Rightarrow> rich_text option"
  rk_split :: "rich_text \<Rightarrow> rich_text list"

definition bullet_glyph :: string where "bullet_glyph = [CHR 0xE2, CHR 0x97, CHR 0x8F]"
definition result_glyph :: string where "result_glyph = [CHR 0xE2, CHR 0x86, CHR 0xB3]"
definition corner_glyph :: string where "corner_glyph = [CHR 0xE2, CHR 0x94, CHR 0x94]"
definition tee_glyph :: string where "tee_glyph = [CHR 0xE2, CHR 0x94, CHR 0x9C]"

definition thinking_label :: string where "thinking_label = ''Thinking...''"
definition interrupted_label :: string where "interrupted_label = ''Interrupted''"

definition group_summary :: "display_group \<Rightarrow> string" where
  "group_summary g = (if length (dg_items g) > 1 then dg_verb g @ '' '' @ dec (length (dg_items g)) @ '' '' @ dg_kind g
     else dg_verb g @ '' '' @ dg_items g ! 0)"

definition renderToolCalls :: "(string \<Rightarrow> json option) \<Rightarrow> shown_call list \<Rightarrow> bool \<Rightarrow> rich_text" where
  "renderToolCalls json_loads calls expanded = concat (map (\<lambda>(index, g).
       (if index > (0::nat) then [([newline], '''')] else [])
       @ (bullet_glyph @ '' '' @ group_summary g, ''accent_bold'')
       # (if expanded then concat (map (\<lambda>(i, item). [([newline], ''''),
            (''  '' @ (if Suc i = length (dg_items g) then corner_glyph else tee_glyph) @ '' '' @ item, ''secondary'')]) (enumerate 0 (dg_items g))) else []))
     (enumerate 0 (toolGroups json_loads calls)))"

definition render_markdown :: "rich_kit \<Rightarrow> int \<Rightarrow> string \<Rightarrow> rich_text" where
  "render_markdown rk width content = (case rk_markdown rk content (max 1 width) of Some t \<Rightarrow> t | None \<Rightarrow> [(content, '''')])"

definition mark_first_line :: "rich_kit \<Rightarrow> rich_text \<Rightarrow> string \<Rightarrow> string \<Rightarrow> rich_text" where
  "mark_first_line rk t glyph style = (if plain t = '''' then t
     else (glyph @ '' '', style) # join_texts [newline] (rk_split rk t))"

definition indent_text :: "rich_kit \<Rightarrow> rich_text \<Rightarrow> nat \<Rightarrow> rich_text" where
  "indent_text rk t n = (if n = 0 then t
     else join_texts [newline] (map (\<lambda>line. (replicate n CHR '' '', '''') # line) (rk_split rk t)))"

definition user_block :: "rich_kit \<Rightarrow> shown_message \<Rightarrow> rich_text" where
  "user_block rk m = indent_text rk [(prompt_glyph @ '' '', ''accent_bold''), (sm_content m, ''default'')] 1"

definition assistant_block :: "rich_kit \<Rightarrow> (string \<Rightarrow> json option) \<Rightarrow> int \<Rightarrow> shown_message \<Rightarrow> bool \<Rightarrow> rich_text" where
  "assistant_block rk json_loads width m toolsExpanded =
     (let parts = (if sm_content m \<noteq> '''' then [render_markdown rk width (sm_content m)] else [])
            @ (if sm_tool_calls m \<noteq> [] then [renderToolCalls json_loads (sm_tool_calls m) toolsExpanded] else [])
      in mark_first_line rk (join_texts [newline] parts @ concat (map (\<lambda>a. [([newline], ''''),
           (''  attachment: '' @ sa_name a @ '' ('' @ sa_mime a @ '')'', ''accent'')]) (sm_attachments m))) bullet_glyph ''identity'')"

definition result_style :: "string \<Rightarrow> string" where
  "result_style line = (if startswith line ''+'' then ''success'' else if startswith line ''-'' then ''error'' else ''default'')"

definition result_block :: "shown_message \<Rightarrow> bool \<Rightarrow> rich_text" where
  "result_block m expanded = (let lines = split_on newline (py_strip (sm_content m)) in
     if lines = [] \<or> hd lines = '''' then []
     else let shown = (if expanded then lines else take 1 lines); hidden = length lines - length shown
       in (result_glyph @ '' '', ''secondary'') # (hd shown, if expanded then result_style (hd shown) else ''secondary'')
          # concat (map (\<lambda>line. [([newline], ''''), (''  '' @ line, result_style line)]) (tl shown))
          @ (if hidden > 0 then [(''  '' @ ellipsis @ '' '' @ dec hidden @ '' more line'' @ (if hidden = 1 then '''' else ''s''), ''secondary'')] else []))"

definition renderMessage :: "rich_kit \<Rightarrow> (string \<Rightarrow> json option) \<Rightarrow> int \<Rightarrow> shown_message \<Rightarrow> bool \<Rightarrow> rich_text" where
  "renderMessage rk json_loads width m toolsExpanded =
     (if sm_role m = SHOWN_USER then user_block rk m
      else if sm_role m = SHOWN_TOOL then result_block m toolsExpanded
      else assistant_block rk json_loads width m toolsExpanded)"

definition reasoning_block :: "shown_message \<Rightarrow> bool \<Rightarrow> rich_text" where
  "reasoning_block m expanded = (if py_strip (sm_reasoning_content m) = '''' then []
     else join_texts [newline] ([(thinking_label, ''secondary'')]
       # (if expanded then map (\<lambda>(i, line). [(''  '' @ (if i = (0::nat) then corner_glyph @ '' '' else ''  '') @ line, ''secondary'')])
            (enumerate 0 (split_on newline (py_strip (sm_reasoning_content m)))) else [])))"

definition thinking_line :: rich_text where "thinking_line = [(thinking_label, ''secondary'')]"
definition interruption_line :: rich_text where "interruption_line = [(interrupted_label, ''secondary'')]"

definition message_blocks :: "rich_kit \<Rightarrow> (string \<Rightarrow> json option) \<Rightarrow> int \<Rightarrow> shown_message \<Rightarrow> bool \<Rightarrow> bool \<Rightarrow> rich_text list" where
  "message_blocks rk json_loads width m toolsExpanded thinkingExpanded =
     (let reasoning = reasoning_block m thinkingExpanded; body = renderMessage rk json_loads width m toolsExpanded
      in (if sm_role m = SHOWN_ASSISTANT \<and> plain reasoning \<noteq> '''' then [reasoning] else [])
         @ (if plain body \<noteq> '''' \<and> py_strip (plain body) \<noteq> '''' then [body] else [])
         @ (if sm_interrupted m then [interruption_line] else []))"

definition renderCommitted :: "rich_kit \<Rightarrow> (string \<Rightarrow> json option) \<Rightarrow> int \<Rightarrow> shown_message \<Rightarrow> bool \<Rightarrow> bool \<Rightarrow> rich_text" where
  "renderCommitted rk json_loads width m toolsExpanded thinkingExpanded = join_texts [newline] (message_blocks rk json_loads width m toolsExpanded thinkingExpanded)"

text \<open>The index of the last message with a property, if there is one.\<close>

definition latest :: "(shown_message \<Rightarrow> bool) \<Rightarrow> shown_message list \<Rightarrow> nat option" where
  "latest p ms = (case filter (\<lambda>i. p (ms ! i)) [0 ..< length ms] of [] \<Rightarrow> None | is \<Rightarrow> Some (last is))"

definition transcriptView :: "rich_kit \<Rightarrow> (string \<Rightarrow> json option) \<Rightarrow> transcript \<Rightarrow> rich_text" where
  "transcriptView rk json_loads t =
     (let latestTool = latest (\<lambda>m. sm_tool_calls m \<noteq> []) (tr_messages t);
          latestThinking = latest (\<lambda>m. sm_role m = SHOWN_ASSISTANT \<and> py_strip (sm_reasoning_content m) \<noteq> '''') (tr_messages t);
          contents = map (\<lambda>(i, m). renderCommitted rk json_loads (tr_width t) m
              (tr_expandAllTools t \<or> (tr_expandLatestTools t \<and> latestTool = Some i))
              (tr_expandAllThink t \<or> (tr_expandLatestThink t \<and> latestThinking = Some i))) (enumerate 0 (tr_messages t))
      in join_texts [newline] ([(tr_welcome t, '''')] # filter (\<lambda>c. py_strip (plain c) \<noteq> '''') contents))"

definition streamingView :: "rich_kit \<Rightarrow> (string \<Rightarrow> json option) \<Rightarrow> transcript \<Rightarrow> rich_text" where
  "streamingView rk json_loads t = (case tr_streaming t of
       None \<Rightarrow> if tr_busy t then thinking_line else []
     | Some m \<Rightarrow> if sm_content m = '''' \<and> py_strip (sm_reasoning_content m) \<noteq> '''' then thinking_line else renderMessage rk json_loads (tr_width t) m False)"

definition transcript_view :: "rich_kit \<Rightarrow> (string \<Rightarrow> json option) \<Rightarrow> transcript \<Rightarrow> rich_text" where
  "transcript_view rk json_loads t = (let stream = streamingView rk json_loads t
     in join_texts [newline, newline] (transcriptView rk json_loads t # (if plain stream \<noteq> '''' then [stream] else [])))"

section \<open>Code blocks come back\<close>

lemma split_on_free: "sep \<notin> set w \<Longrightarrow> split_on sep w = [w]"
  by (induction w) auto

lemma split_on_cons: "sep \<notin> set w \<Longrightarrow> split_on sep (w @ sep # s) = w # split_on sep s"
  by (induction w) auto

lemma split_join: "ls \<noteq> [] \<Longrightarrow> \<forall>l \<in> set ls. sep \<notin> set l \<Longrightarrow> split_on sep (join_with [sep] ls) = ls"
proof (induction ls rule: induct_list012)
  case (3 x y zs)
  then have "split_on sep (x @ sep # join_with [sep] (y # zs)) = x # split_on sep (join_with [sep] (y # zs))"
    by (intro split_on_cons) simp
  with 3 show ?case by simp
qed (simp_all add: split_on_free)

text \<open>A document in pieces: prose, an opening fence, the lines of a block, a closing fence.\<close>

type_synonym fenced = "string list \<times> string \<times> string list \<times> string"

definition fenced_lines :: "fenced \<Rightarrow> string list" where
  "fenced_lines s = (case s of (prose, opened, body, closed) \<Rightarrow> prose @ opened # body @ [closed])"

definition fenced_ok :: "fenced \<Rightarrow> bool" where
  "fenced_ok s \<longleftrightarrow> (case s of (prose, opened, body, closed) \<Rightarrow> list_all (\<lambda>l. \<not> fence l) (prose @ body) \<and> fence opened \<and> fence closed)"

definition document :: "fenced list \<Rightarrow> string list \<Rightarrow> string" where
  "document segments tail = join_with [newline] (concat (map fenced_lines segments) @ tail)"

lemma prose_skipped: "list_all (\<lambda>l. \<not> fence l) ls \<Longrightarrow> foldl block_line (bs, cur, False) ls = (bs, cur, False)"
  by (induction ls) (simp_all add: block_line_def)

lemma body_collected: "list_all (\<lambda>l. \<not> fence l) ls \<Longrightarrow> foldl block_line (bs, cur, True) ls = (bs, cur @ ls, True)"
  by (induction ls arbitrary: cur) (simp_all add: block_line_def)

lemma segment_collected:
  "fenced_ok s \<Longrightarrow> foldl block_line (bs, [], False) (fenced_lines s) = (bs @ [join_with [newline] (fst (snd (snd s)))], [], False)"
  by (cases s) (simp add: fenced_ok_def fenced_lines_def prose_skipped body_collected block_line_def)

lemma segments_collected:
  "list_all fenced_ok segments \<Longrightarrow>
   foldl block_line (bs, [], False) (concat (map fenced_lines segments)) = (bs @ map (\<lambda>s. join_with [newline] (fst (snd (snd s)))) segments, [], False)"
  by (induction segments arbitrary: bs) (simp_all add: segment_collected)

lemma collected_lines:
  assumes "\<forall>b \<in> set bs. \<exists>ls. b = join_with [newline] ls \<and> list_all (\<lambda>l. \<not> fence l) ls" and "list_all (\<lambda>l. \<not> fence l) cur"
  shows "\<forall>b \<in> set (fst (foldl block_line (bs, cur, open) lines)). \<exists>ls. b = join_with [newline] ls \<and> list_all (\<lambda>l. \<not> fence l) ls"
  using assms
proof (induction lines arbitrary: bs cur "open")
  case (Cons l lines)
  obtain bs' cur' open' where s: "block_line (bs, cur, open) l = (bs', cur', open')" by (cases "block_line (bs, cur, open) l") auto
  have "(\<forall>b \<in> set bs'. \<exists>ls. b = join_with [newline] ls \<and> list_all (\<lambda>l. \<not> fence l) ls) \<and> list_all (\<lambda>l. \<not> fence l) cur'"
    using s Cons.prems by (auto simp: block_line_def split: if_splits)
  with Cons.IH [of bs' cur' open'] s show ?case by simp
qed simp

text \<open>
  C36. Copying a code block gives the block. A text made of prose and fenced blocks, whatever follows
  the last one and even if that is an unterminated block, yields exactly the bodies of its blocks in
  order, with the fence lines and their language left out; and no extracted block holds a fence.
\<close>
theorem code_blocks_roundtrip:
  assumes "list_all fenced_ok segments" and "list_all (\<lambda>l. \<not> fence l) (rest @ body)" and "fence opened"
    and "\<forall>l \<in> set (concat (map fenced_lines segments) @ rest @ opened # body). newline \<notin> set l"
    and "segments \<noteq> [] \<or> rest \<noteq> []"
  shows "extract_code_blocks (document segments rest) = map (\<lambda>s. join_with [newline] (fst (snd (snd s)))) segments
    \<and> extract_code_blocks (document segments (rest @ opened # body)) = map (\<lambda>s. join_with [newline] (fst (snd (snd s)))) segments
    \<and> (\<forall>b \<in> set (extract_code_blocks content). \<exists>ls. b = join_with [newline] ls \<and> list_all (\<lambda>l. \<not> fence l) ls)"
proof (intro conjI)
  have f: "foldl block_line ([], [], False) (concat (map fenced_lines segments)) = (map (\<lambda>s. join_with [newline] (fst (snd (snd s)))) segments, [], False)"
    using segments_collected [OF assms(1), of "[]"] by simp
  have n: "concat (map fenced_lines segments) @ rest \<noteq> []"
    using assms(5) by (cases segments) (auto simp: fenced_lines_def split: prod.split)
  have "split_on newline (document segments rest) = concat (map fenced_lines segments) @ rest"
    unfolding document_def using n assms(4) by (intro split_join) auto
  then show "extract_code_blocks (document segments rest) = map (\<lambda>s. join_with [newline] (fst (snd (snd s)))) segments"
    using assms(2) by (simp add: extract_code_blocks_def f prose_skipped)
  have "split_on newline (document segments (rest @ opened # body)) = concat (map fenced_lines segments) @ rest @ opened # body"
    unfolding document_def using assms(4) by (intro split_join) auto
  then show "extract_code_blocks (document segments (rest @ opened # body)) = map (\<lambda>s. join_with [newline] (fst (snd (snd s)))) segments"
    using assms(2,3) by (simp add: extract_code_blocks_def f prose_skipped body_collected block_line_def)
  show "\<forall>b \<in> set (extract_code_blocks content). \<exists>ls. b = join_with [newline] ls \<and> list_all (\<lambda>l. \<not> fence l) ls"
    unfolding extract_code_blocks_def by (rule collected_lines) simp_all
qed

lemma code_blocks_roundtrip_witness:
  "extract_code_blocks (document [([''see''], ''```py'', [''x = 1'', ''''], ''```'')] [''bye'']) = [''x = 1'' @ [newline]]"
proof -
  have "list_all fenced_ok [([''see''], ''```py'', [''x = 1'', ''''], ''```'')]" "list_all (\<lambda>l. \<not> fence l) ([''bye''] @ [])" "fence ''```''"
    "\<forall>l \<in> set (concat (map fenced_lines [([''see''], ''```py'', [''x = 1'', ''''], ''```'')]) @ [''bye''] @ ''```'' # []). newline \<notin> set l"
    by code_simp+
  from code_blocks_roundtrip [OF this] show ?thesis by simp
qed

section \<open>Groups of calls\<close>

definition shown_items :: "(string \<Rightarrow> json option) \<Rightarrow> shown_call \<Rightarrow> (string \<times> string \<times> string) list" where
  "shown_items json_loads call = (case toolDisplay json_loads call of (verb, kind, items) \<Rightarrow> map (\<lambda>i. (verb, kind, i)) items)"

definition group_items :: "display_group \<Rightarrow> (string \<times> string \<times> string) list" where
  "group_items g = map (\<lambda>i. (dg_verb g, dg_kind g, i)) (dg_items g)"

definition groups_differ :: "display_group \<Rightarrow> display_group \<Rightarrow> bool" where
  "groups_differ g h \<longleftrightarrow> dg_verb g \<noteq> dg_verb h \<or> dg_kind g \<noteq> dg_kind h"

lemma toolDisplay_one: "\<exists>v k i. toolDisplay json_loads call = (v, k, [i])"
  by (simp add: toolDisplay_def Let_def)

lemma successively_snoc: "successively P (xs @ [x]) \<longleftrightarrow> successively P xs \<and> (xs \<noteq> [] \<longrightarrow> P (last xs) x)"
  by (auto simp: successively_append_iff)

lemma group_call_step:
  assumes "successively groups_differ gs" and "\<forall>g \<in> set gs. dg_items g \<noteq> []"
  shows "successively groups_differ (group_call json_loads gs call) \<and> (\<forall>g \<in> set (group_call json_loads gs call). dg_items g \<noteq> [])
    \<and> concat (map group_items (group_call json_loads gs call)) = concat (map group_items gs) @ shown_items json_loads call"
proof -
  obtain v k i where d: "toolDisplay json_loads call = (v, k, [i])" using toolDisplay_one by blast
  show ?thesis
  proof (cases "gs \<noteq> [] \<and> dg_verb (last gs) = v \<and> dg_kind (last gs) = k")
    case True
    then have gs: "gs = butlast gs @ [last gs]" by simp
    have s: "successively groups_differ (butlast gs)" "butlast gs \<noteq> [] \<longrightarrow> groups_differ (last (butlast gs)) (last gs)"
      using assms(1) gs successively_snoc by metis+
    then have "successively groups_differ (butlast gs @ [(last gs)\<lparr>dg_items := dg_items (last gs) @ [i]\<rparr>])"
      by (simp add: successively_snoc groups_differ_def)
    moreover have "\<forall>g \<in> set (butlast gs). dg_items g \<noteq> []" using assms(2) in_set_butlastD by fast
    moreover have "concat (map group_items gs) = concat (map group_items (butlast gs)) @ group_items (last gs)"
      by (subst gs) simp
    ultimately show ?thesis using True d by (simp add: group_call_def group_items_def shown_items_def)
  next
    case False
    then show ?thesis using assms d by (auto simp: group_call_def group_items_def shown_items_def successively_snoc groups_differ_def)
  qed
qed

lemma toolGroups_from:
  assumes "successively groups_differ gs" and "\<forall>g \<in> set gs. dg_items g \<noteq> []"
  shows "successively groups_differ (foldl (group_call json_loads) gs calls) \<and> (\<forall>g \<in> set (foldl (group_call json_loads) gs calls). dg_items g \<noteq> [])
    \<and> concat (map group_items (foldl (group_call json_loads) gs calls)) = concat (map group_items gs) @ concat (map (shown_items json_loads) calls)"
  using assms
proof (induction calls arbitrary: gs)
  case (Cons c calls)
  from group_call_step [OF Cons.prems] Cons.IH [of "group_call json_loads gs c"] show ?case by simp
qed simp

text \<open>
  The summary of tool calls loses nothing and merges everything it can. The groups hold the items
  of the calls in their order, each under its own verb and noun, no group is empty, and two
  neighbouring groups never have the same verb and noun.
\<close>
theorem tool_groups_exact:
  "concat (map group_items (toolGroups json_loads calls)) = concat (map (shown_items json_loads) calls)
   \<and> list_all (\<lambda>g. dg_items g \<noteq> []) (toolGroups json_loads calls)
   \<and> successively groups_differ (toolGroups json_loads calls)"
  using toolGroups_from [of "[]" json_loads calls] by (simp add: toolGroups_def list_all_iff)

end
