(* ===== verification/TuiApp.thy ===== *)
theory TuiApp
  imports ApprovalMenu SlashCommands TranscriptView Exceptions FileTree
begin

text \<open>
  The root of the terminal interface (\<open>tui/update.py\<close>, \<open>tui/actions.py\<close>, \<open>tui/conversation.py\<close>,
  \<open>tui/app.py\<close>, \<open>tui/__init__.py\<close>, \<open>tui/attachments/model.py\<close>, \<open>tui/runtime.py\<close>): one message in, the
  changed interface and the commands to run out. Channels and cancellations are objects that a
  running turn shares with the interface, so they live in a heap and the app holds their numbers.
\<close>

section \<open>Channels\<close>

record 'a channel =
  cn_items :: "'a list"
  cn_closed :: bool

definition new_channel :: "'a channel" where
  "new_channel = \<lparr>cn_items = [], cn_closed = False\<rparr>"

definition channel_put :: "'a channel \<Rightarrow> 'a \<Rightarrow> 'a channel" where
  "channel_put c v = (if cn_closed c then c else c\<lparr>cn_items := cn_items c @ [v]\<rparr>)"

definition channel_close :: "'a channel \<Rightarrow> 'a channel" where
  "channel_close c = c\<lparr>cn_closed := True\<rparr>"

datatype 'a received = Received 'a | Drained | Waiting

definition channel_get :: "'a channel \<Rightarrow> 'a received \<times> 'a channel" where
  "channel_get c = (case cn_items c of v # rest \<Rightarrow> (Received v, c\<lparr>cn_items := rest\<rparr>)
     | [] \<Rightarrow> if cn_closed c then (Drained, c) else (Waiting, c))"

section \<open>What the conversation tells the interface\<close>

record agent_status =
  as_label :: string
  as_busy :: bool
  as_awaiting_approval :: bool

definition default_agent_status :: agent_status where
  "default_agent_status = \<lparr>as_label = ''Idle'', as_busy = False, as_awaiting_approval = False\<rparr>"

record shown_permission =
  sp_tool_name :: string
  sp_command :: string
  sp_command_class :: string
  sp_cwd :: string
  sp_touched_paths :: "string list"
  sp_env_vars :: "string list"
  sp_reason :: string

record context_usage =
  cu_input_tokens :: int
  cu_output_tokens :: int
  cu_total_tokens :: int

record conversation_view =
  cv_agent_status :: agent_status
  cv_messages :: "shown_message list"
  cv_pending_tool :: "shown_call option"
  cv_pending_permission :: "shown_permission option"
  cv_pending_tool_batch_index :: int
  cv_pending_tool_batch_total :: int
  cv_streaming_message :: "shown_message option"

datatype notification =
    AgentStatusChanged agent_status
  | ToolApprovalRequested shown_call shown_permission int int
  | ToolApprovalCleared
  | StreamChunkReceived "shown_message option"
  | MessageAppended shown_message
  | UsageReported context_usage
  | ConversationError "exc option"

section \<open>Messages and commands\<close>

datatype msg =
    WindowSizeMsg int int
  | KeyMsg string
  | QuitMsg
  | ClearScreenMsg
  | SubmitDone "exc option"
  | ConversationNotificationMsg notification nat
  | ClipboardDone nat "string option"
  | Loaded "attachment_row list"
  | Attached attachment_row "string option"
  | CommandMsg command_done

text \<open>A command of the loop: a listener, a turn with the objects it was started with, or one piece of other work.\<close>

datatype task =
    QUIT
  | CLEAR_SCREEN
  | Listener nat nat
  | RunTurn string nat nat nat
  | CopyText string nat
  | AttachFile string
  | LoadAttachments
  | Background background
  | PrintOutput string

definition batch :: "'a option list \<Rightarrow> 'a list" where
  "batch cs = concat (map (\<lambda>c. case c of None \<Rightarrow> [] | Some t \<Rightarrow> [t]) cs)"

section \<open>The app\<close>

record startup_info =
  si_model_name :: string
  si_version :: string
  si_permission_mode :: string
  si_no_tools :: bool
  si_cwd :: string
  si_instruction_paths :: "string list"
  si_session_id :: string
  si_sandbox :: string

record app =
  ap_commands :: commands_model
  ap_composer :: composer
  ap_approval :: menu
  ap_attachments :: "attachment_row list"
  ap_transcript :: transcript
  ap_info :: startup_info
  ap_ready :: bool
  ap_width :: int
  ap_height :: int
  ap_showHelp :: bool
  ap_err :: string
  ap_status :: string
  ap_cancellation :: "nat option"
  ap_notifications :: nat
  ap_approvals :: nat
  ap_agentStatus :: agent_status
  ap_contextUsage :: "context_usage option"
  ap_turn :: nat
  ap_printOutput :: "(string \<Rightarrow> string option) option"

record heap =
  hp_next :: nat
  hp_notifications :: "nat \<Rightarrow> notification channel"
  hp_approvals :: "nat \<Rightarrow> menu_decision channel"
  hp_cancelled :: "nat \<Rightarrow> bool"

record 'w ui =
  ui_app :: app
  ui_heap :: heap
  ui_world :: 'w

text \<open>The ports the root keeps beside those of the commands; cancelling reports a failure instead of raising it.\<close>

record 'w app_ports =
  tp_commands :: "'w ports"
  tp_cancel :: "'w \<Rightarrow> string option \<times> 'w"
  tp_snapshot :: "'w \<Rightarrow> conversation_view"

definition composerCommands :: "palette_entry list \<Rightarrow> palette_entry list" where
  "composerCommands palette = map (\<lambda>e. \<lparr>pc_name = pc_name e, pc_description = pc_description e\<rparr>) palette"

definition displayCWD :: "string \<Rightarrow> string \<Rightarrow> string" where
  "displayCWD home cwd = (if home \<noteq> '''' \<and> home \<noteq> ''~'' \<and> startswith cwd home then ''~'' @ drop (length home) cwd else cwd)"


definition welcomeString :: "string \<Rightarrow> startup_info \<Rightarrow> string" where
  "welcomeString home info = join_with [newline]
     ([''>_ Super Agent'' @ (if si_version info \<noteq> '''' then '' (v'' @ si_version info @ '')'' else ''''), '''']
      @ (if si_model_name info \<noteq> '''' then [''model:       '' @ si_model_name info] else [])
      @ (let location = displayCWD home (si_cwd info) in if location \<noteq> '''' then [''directory:   '' @ location] else [])
      @ (if si_instruction_paths info \<noteq> [] then [''instructions: '' @ path_basename (last (si_instruction_paths info))] else []))"

definition new_app :: "string \<Rightarrow> string list \<Rightarrow> startup_info \<Rightarrow> app" where
  "new_app home custom info =
     \<lparr>ap_commands = new_commands \<lparr>cc_cwd = si_cwd info, cc_instruction_paths = si_instruction_paths info, cc_no_tools = si_no_tools info\<rparr> custom,
      ap_composer = new_composer (composerCommands (command_palette custom)), ap_approval = new_menu, ap_attachments = [],
      ap_transcript = new_transcript (welcomeString home info), ap_info = info, ap_ready = False, ap_width = 80, ap_height = 24,
      ap_showHelp = False, ap_err = '''', ap_status = '''', ap_cancellation = None, ap_notifications = 0, ap_approvals = 0,
      ap_agentStatus = default_agent_status, ap_contextUsage = None, ap_turn = 0, ap_printOutput = None\<rparr>"

definition new_heap :: heap where
  "new_heap = \<lparr>hp_next = 1, hp_notifications = (\<lambda>i. new_channel), hp_approvals = (\<lambda>i. new_channel), hp_cancelled = (\<lambda>i. False)\<rparr>"

definition app_init :: "app \<Rightarrow> task list" where
  "app_init a = [LoadAttachments]"

definition needsInput :: "app \<Rightarrow> bool" where
  "needsInput a = as_awaiting_approval (ap_agentStatus a)"

text \<open>A printer says what its viewer shows, if anything.\<close>

definition printCommand :: "app \<Rightarrow> string \<Rightarrow> task option" where
  "printCommand a content = (case ap_printOutput a of None \<Rightarrow> None
     | Some printer \<Rightarrow> if py_strip content = '''' then None else map_option PrintOutput (printer (py_rstrip_chars [newline] content)))"

section \<open>Attachments\<close>

record attachment_outcome =
  ao_attached :: "attachment_row option"
  ao_err :: "string option"

definition attachments_update :: "attachment_row list \<Rightarrow> msg \<Rightarrow> attachment_row list \<times> attachment_outcome option" where
  "attachments_update items m = (case m of
       Loaded loaded \<Rightarrow> (loaded, None)
     | Attached item (Some e) \<Rightarrow> (items, Some \<lparr>ao_attached = None, ao_err = Some e\<rparr>)
     | Attached item None \<Rightarrow> (items @ [item], Some \<lparr>ao_attached = Some item, ao_err = None\<rparr>)
     | _ \<Rightarrow> (items, None))"

definition attachments_view :: "attachment_row list \<Rightarrow> rich_text" where
  "attachments_view items = (if items = [] then [] else [('' Attachments: '' @ join_with '', '' (map ai_name items), ''accent'')])"

section \<open>Actions\<close>

definition copyCommand :: "string \<Rightarrow> task option" where
  "copyCommand t = (if py_strip t = '''' then None else Some (CopyText t (length (filter (\<lambda>c. c = newline) t) + 1)))"

definition finishCopy :: "app \<Rightarrow> nat \<Rightarrow> string option \<Rightarrow> app" where
  "finishCopy a lines err = (case err of
       Some e \<Rightarrow> a\<lparr>ap_err := ''Failed to copy: '' @ e, ap_status := ''''\<rparr>
     | None \<Rightarrow> a\<lparr>ap_err := '''', ap_status := ''Copied '' @ dec lines @ '' '' @ (if lines = 1 then ''line'' else ''lines'')\<rparr>)"

text \<open>\<open>cancelRun\<close>: the runtime is asked only while a request is pending; the turn's own cancellation is set whenever there is one.\<close>

definition cancelRun :: "'w app_ports \<Rightarrow> bool \<Rightarrow> 'w ui \<Rightarrow> 'w ui" where
  "cancelRun tp clearQueue u =
     (let u1 = (if menu_active (ap_approval (ui_app u)) then
             (case tp_cancel tp (ui_world u) of (err, w1) \<Rightarrow>
                u\<lparr>ui_world := w1, ui_app := (case err of Some e \<Rightarrow> (ui_app u)\<lparr>ap_err := e\<rparr> | None \<Rightarrow> ui_app u)\<rparr>)
           else u);
          u2 = (case ap_cancellation (ui_app u1) of None \<Rightarrow> u1
             | Some i \<Rightarrow> u1\<lparr>ui_heap := (ui_heap u1)\<lparr>hp_cancelled := (hp_cancelled (ui_heap u1))(i := True)\<rparr>\<rparr>)
      in if clearQueue then u2\<lparr>ui_app := (ui_app u2)\<lparr>ap_composer := clear_follow_ups (ap_composer (ui_app u2)), ap_status := ''Turn canceled''\<rparr>\<rparr> else u2)"

section \<open>Updates\<close>

definition resize :: "app \<Rightarrow> int \<Rightarrow> int \<Rightarrow> app" where
  "resize a width height = (let w = max 1 width; h = max 1 height in
     a\<lparr>ap_width := w, ap_height := h, ap_ready := True,
       ap_composer := set_compact_palette (composer_set_width (ap_composer a) w) (h < 18),
       ap_transcript := transcript_set_width (ap_transcript a) w\<rparr>)"

definition updateAttachments :: "app \<Rightarrow> msg \<Rightarrow> app" where
  "updateAttachments a m = (case attachments_update (ap_attachments a) m of (items, outcome) \<Rightarrow>
     let a1 = a\<lparr>ap_attachments := items\<rparr> in
     (case outcome of None \<Rightarrow> a1
      | Some oc \<Rightarrow> (case ao_err oc of Some e \<Rightarrow> a1\<lparr>ap_err := ''Attach failed: '' @ e\<rparr>
         | None \<Rightarrow> (case ao_attached oc of
              Some item \<Rightarrow> a1\<lparr>ap_err := '''', ap_status := ''Attached '' @ ai_name item @ '' ('' @ ai_mime item @ '')''\<rparr>
            | None \<Rightarrow> a1\<lparr>ap_err := ''''\<rparr>))))"

definition waitForNotification :: "app \<Rightarrow> task" where
  "waitForNotification a = Listener (ap_notifications a) (ap_turn a)"

text \<open>\<open>submitPrompt\<close>: fresh channels, a fresh cancellation and the next turn number; the turn keeps the new objects.\<close>

definition submitPrompt :: "string \<Rightarrow> 'w ui \<Rightarrow> 'w ui \<times> task list" where
  "submitPrompt t u =
     (let a = ui_app u; hp = ui_heap u; i = hp_next hp;
          a1 = a\<lparr>ap_err := '''', ap_status := '''',
             ap_transcript := set_busy (clear_streaming (ap_transcript a)) True,
             ap_agentStatus := \<lparr>as_label = ''Submitting'', as_busy = True, as_awaiting_approval = False\<rparr>,
             ap_approval := menu_clear (ap_approval a),
             ap_composer := set_turn_running (clear_input (ap_composer a)) True,
             ap_attachments := [],
             ap_notifications := i, ap_approvals := i, ap_cancellation := Some i,
             ap_turn := ap_turn a + 1\<rparr>;
          hp1 = hp\<lparr>hp_next := i + 1, hp_notifications := (hp_notifications hp)(i := new_channel),
             hp_approvals := (hp_approvals hp)(i := new_channel), hp_cancelled := (hp_cancelled hp)(i := False)\<rparr>
      in (u\<lparr>ui_app := a1, ui_heap := hp1\<rparr>, [waitForNotification a1, RunTurn t i i i]))"

definition open_request :: "shown_call \<Rightarrow> shown_permission \<Rightarrow> int \<Rightarrow> int \<Rightarrow> menu \<Rightarrow> menu" where
  "open_request call request i n m = menu_open \<lparr>mr_tool_name = sc_name call, mr_input = sc_input call, mr_command_class = sp_command_class request,
     mr_cwd = sp_cwd request, mr_touched_paths = sp_touched_paths request, mr_reason = sp_reason request, mr_batch_index = i, mr_batch_total = n\<rparr> m"

definition refreshSnapshot :: "conversation_view \<Rightarrow> app \<Rightarrow> app" where
  "refreshSnapshot v a =
     (let m = menu_clear (ap_approval a);
          m1 = (case (cv_pending_tool v, cv_pending_permission v) of
              (Some call, Some request) \<Rightarrow> open_request call request (cv_pending_tool_batch_index v) (cv_pending_tool_batch_total v) m
            | _ \<Rightarrow> m)
      in a\<lparr>ap_agentStatus := cv_agent_status v,
           ap_transcript := set_streaming (set_busy (transcript_replace (ap_transcript a) (cv_messages v)) (as_busy (cv_agent_status v))) (cv_streaming_message v),
           ap_approval := m1\<rparr>)"

definition show_outcome :: "command_outcome \<Rightarrow> app \<Rightarrow> app" where
  "show_outcome oc a =
     (let a1 = (if oc_err oc \<noteq> '''' then a\<lparr>ap_err := oc_err oc\<rparr>
           else (let b = a\<lparr>ap_err := ''''\<rparr> in if oc_status oc \<noteq> '''' then b\<lparr>ap_status := oc_status oc\<rparr> else b))
      in case oc_status_bar oc of None \<Rightarrow> a1
         | Some sb \<Rightarrow> (let info = (if sb_model_name sb \<noteq> '''' then (ap_info a1)\<lparr>si_model_name := sb_model_name sb\<rparr> else ap_info a1)
             in a1\<lparr>ap_info := info\<lparr>si_permission_mode := sb_permission_mode sb\<rparr>\<rparr>))"

definition applyOutcome :: "'w app_ports \<Rightarrow> command_outcome option \<Rightarrow> task list \<Rightarrow> 'w ui \<Rightarrow> 'w ui \<times> task list" where
  "applyOutcome tp outcome command u = (case outcome of None \<Rightarrow> (u, command)
     | Some oc \<Rightarrow>
        let a1 = show_outcome oc (ui_app u);
            a2 = (if oc_refresh_snapshot oc then refreshSnapshot (tp_snapshot tp (ui_world u)) a1 else a1);
            a3 = (if oc_show_help oc then a2\<lparr>ap_showHelp := True\<rparr> else a2)
        in if oc_quit oc then (u\<lparr>ui_app := a2\<rparr>, [QUIT])
           else if oc_attach_path oc \<noteq> '''' then (u\<lparr>ui_app := a3\<rparr>, [AttachFile (oc_attach_path oc)])
           else if oc_prompt oc \<noteq> '''' then submitPrompt (oc_prompt oc) (u\<lparr>ui_app := a3\<rparr>)
           else if oc_output oc \<noteq> '''' then (u\<lparr>ui_app := a3\<rparr>, batch [printCommand a3 (oc_output oc)])
           else (u\<lparr>ui_app := a3\<rparr>, command))"

definition updateCommands :: "'w app_ports \<Rightarrow> command_done \<Rightarrow> 'w ui \<Rightarrow> 'w ui \<times> task list" where
  "updateCommands tp d u = (case finish_command (ap_commands (ui_app u)) d of (m, oc) \<Rightarrow>
     applyOutcome tp (Some oc) [] (u\<lparr>ui_app := (ui_app u)\<lparr>ap_commands := m\<rparr>\<rparr>))"

definition submitText :: "'w app_ports \<Rightarrow> string \<Rightarrow> 'w ui \<Rightarrow> (index_error, 'w ui \<times> task list) result" where
  "submitText tp t u = (let a = ui_app u in
     if cdm_compacting (ap_commands a) \<or> cdm_managingMCP (ap_commands a) then
       Inr (u\<lparr>ui_app := a\<lparr>ap_status := ''Background operation in progress'' @ ellipsis\<rparr>\<rparr>, [])
     else if \<not> is_command t then Inr (submitPrompt t u)
     else (case handle_command (tp_commands tp) (ap_commands a) t (ap_attachments a) (ui_world u) of
         (Inl e, w1) \<Rightarrow> Inl e
       | (Inr (m, oc, command), w1) \<Rightarrow>
           Inr (applyOutcome tp (Some oc) (batch [map_option Background command])
             (u\<lparr>ui_app := a\<lparr>ap_composer := clear_input (ap_composer a), ap_commands := m\<rparr>, ui_world := w1\<rparr>))))"

definition queueInput :: "string \<Rightarrow> app \<Rightarrow> app" where
  "queueInput t a =
     (if cdm_compacting (ap_commands a) then a\<lparr>ap_status := ''Compacting conversation'' @ ellipsis\<rparr>
      else if is_command t then a\<lparr>ap_err := ''Slash commands are unavailable while a turn is running''\<rparr>
      else a\<lparr>ap_composer := clear_input (enqueue_follow_up (ap_composer a) t), ap_status := ''Message queued''\<rparr>)"

definition steerInput :: "'w app_ports \<Rightarrow> string \<Rightarrow> 'w ui \<Rightarrow> 'w ui" where
  "steerInput tp t u = (let a = ui_app u in
     if is_command t then u\<lparr>ui_app := a\<lparr>ap_err := ''Slash commands are unavailable while a turn is running''\<rparr>\<rparr>
     else let u1 = cancelRun tp False (u\<lparr>ui_app := a\<lparr>ap_composer := clear_input (prepend_follow_up (ap_composer a) t)\<rparr>\<rparr>)
       in u1\<lparr>ui_app := (ui_app u1)\<lparr>ap_status := ''Steering current turn''\<rparr>\<rparr>)"

definition turn_error :: "exc option \<Rightarrow> app \<Rightarrow> app" where
  "turn_error err a = (case err of None \<Rightarrow> a
     | Some e \<Rightarrow> if errors_is_class (Some e) CancelledC then a else a\<lparr>ap_err := exc_text e\<rparr>)"

definition finishSubmit :: "exc option \<Rightarrow> 'w ui \<Rightarrow> 'w ui \<times> task list" where
  "finishSubmit err u =
     (let a = ui_app u;
          a1 = turn_error err (a\<lparr>ap_cancellation := None, ap_composer := set_turn_running (ap_composer a) False\<rparr>)
      in case next_queued (ap_composer a1) of (c, next_text, queued) \<Rightarrow>
           let u1 = u\<lparr>ui_app := a1\<lparr>ap_composer := c\<rparr>\<rparr> in if queued then submitPrompt next_text u1 else (u1, []))"

definition apply_notification :: "notification \<Rightarrow> app \<Rightarrow> app" where
  "apply_notification n a = (case n of
       AgentStatusChanged st \<Rightarrow>
         (let a1 = a\<lparr>ap_agentStatus := st, ap_transcript := set_busy (ap_transcript a) (as_busy st)\<rparr>
          in if needsInput a1 then a1 else a1\<lparr>ap_approval := menu_clear (ap_approval a1)\<rparr>)
     | ToolApprovalRequested call request i k \<Rightarrow> a\<lparr>ap_approval := open_request call request i k (ap_approval a)\<rparr>
     | ToolApprovalCleared \<Rightarrow> a\<lparr>ap_approval := menu_clear (ap_approval a)\<rparr>
     | MessageAppended m \<Rightarrow> a\<lparr>ap_transcript := (let t = transcript_append (ap_transcript a) m in if sm_role m = SHOWN_ASSISTANT then clear_streaming t else t)\<rparr>
     | ConversationError err \<Rightarrow> turn_error err a
     | StreamChunkReceived m \<Rightarrow> a\<lparr>ap_transcript := set_streaming (ap_transcript a) m\<rparr>
     | UsageReported usage \<Rightarrow> a\<lparr>ap_contextUsage := Some usage\<rparr>)"

definition updateConversationNotification :: "notification \<Rightarrow> app \<Rightarrow> app \<times> task list" where
  "updateConversationNotification n a = (let a1 = apply_notification n a in (a1, [waitForNotification a1]))"

text \<open>The keys below the root's own: the transcript's, then the composer's.\<close>

definition composer_key :: "'w app_ports \<Rightarrow> string \<Rightarrow> 'w ui \<Rightarrow> (index_error, 'w ui \<times> task list) result" where
  "composer_key tp key u =
     (let a = ui_app u in
      case composer_update (set_turn_running (ap_composer a) (ap_cancellation a \<noteq> None)) key of (c, wanted) \<Rightarrow>
        let u1 = u\<lparr>ui_app := a\<lparr>ap_composer := c\<rparr>\<rparr> in
        (case wanted of None \<Rightarrow> Inr (u1, [])
         | Some it \<Rightarrow> (case it_kind it of
              SUBMIT \<Rightarrow> submitText tp (it_text it) u1
            | QUEUE \<Rightarrow> Inr (u1\<lparr>ui_app := queueInput (it_text it) (ui_app u1)\<rparr>, [])
            | STEER \<Rightarrow> Inr (steerInput tp (it_text it) u1, [])
            | CLEAR \<Rightarrow> Inr (u1\<lparr>ui_app := (ui_app u1)\<lparr>ap_status := ''Input cleared''\<rparr>\<rparr>, [])
            | NO_INTENT \<Rightarrow> Inr (u1, []))))"

definition feature_key :: "'w app_ports \<Rightarrow> string \<Rightarrow> 'w ui \<Rightarrow> (index_error, 'w ui \<times> task list) result" where
  "feature_key tp key u =
     (let a = ui_app u in case transcript_update (ap_transcript a) key of (t, wanted, consumed) \<Rightarrow>
        let a1 = a\<lparr>ap_transcript := t\<rparr> in
        if consumed then
          (case wanted of None \<Rightarrow> Inr (u\<lparr>ui_app := a1\<rparr>, [])
           | Some it \<Rightarrow> if ci_error it \<noteq> '''' then Inr (u\<lparr>ui_app := a1\<lparr>ap_err := ci_error it, ap_status := ''''\<rparr>\<rparr>, [])
               else Inr (u\<lparr>ui_app := a1\<lparr>ap_err := ''''\<rparr>\<rparr>, batch [copyCommand (ci_copy_text it)]))
        else composer_key tp key (u\<lparr>ui_app := a1\<rparr>))"

definition updateKey :: "'w app_ports \<Rightarrow> string \<Rightarrow> 'w ui \<Rightarrow> (index_error, 'w ui \<times> task list) result" where
  "updateKey tp key u =
     (let a = ui_app u; holding = (menu_active (ap_approval a) \<or> ap_cancellation a \<noteq> None) in
      if ap_showHelp a then Inr (if key \<in> {''?'', ''esc''} then u\<lparr>ui_app := a\<lparr>ap_showHelp := False\<rparr>\<rparr> else u, [])
      else if menu_active (ap_approval a) \<and> key \<notin> {''ctrl+c'', ''esc''} then
        (case menu_update (ap_approval a) key of (m, decision, submitted) \<Rightarrow>
           let a1 = a\<lparr>ap_approval := m\<rparr> in
           Inr (if submitted then u\<lparr>ui_app := a1\<lparr>ap_transcript := clear_streaming (ap_transcript a1)\<rparr>,
                  ui_heap := (ui_heap u)\<lparr>hp_approvals := (hp_approvals (ui_heap u))(ap_approvals a := channel_put (hp_approvals (ui_heap u) (ap_approvals a)) decision)\<rparr>\<rparr>
                else u\<lparr>ui_app := a1\<rparr>, []))
      else if key = ''ctrl+c'' then Inr (if holding then (cancelRun tp True u, []) else (u, [QUIT]))
      else if key = ''esc'' \<and> holding then Inr (cancelRun tp True u, [])
      else if key = ''ctrl+l'' then Inr (u\<lparr>ui_app := a\<lparr>ap_err := '''', ap_status := ''''\<rparr>\<rparr>, [CLEAR_SCREEN])
      else if key = ''?'' \<and> cm_value (ap_composer a) = '''' then Inr (u\<lparr>ui_app := a\<lparr>ap_showHelp := True, ap_status := ''''\<rparr>\<rparr>, [])
      else if key \<in> {''pgup'', ''pgdown''} then Inr (u, [])
      else feature_key tp key u)"

definition app_update :: "'w app_ports \<Rightarrow> msg \<Rightarrow> 'w ui \<Rightarrow> (index_error, 'w ui \<times> task list) result" where
  "app_update tp m u = (let a = ui_app u; only = (\<lambda>a1. Inr (u\<lparr>ui_app := a1\<rparr>, [])) in case m of
       WindowSizeMsg width height \<Rightarrow> only (resize a width height)
     | ClipboardDone lines err \<Rightarrow> only (finishCopy a lines err)
     | Loaded items \<Rightarrow> only (updateAttachments a m)
     | Attached item err \<Rightarrow> only (updateAttachments a m)
     | CommandMsg d \<Rightarrow> Inr (updateCommands tp d u)
     | KeyMsg key \<Rightarrow> updateKey tp key u
     | ConversationNotificationMsg n turn \<Rightarrow>
         if turn \<noteq> ap_turn a then Inr (u, [waitForNotification a])
         else (case updateConversationNotification n a of (a1, tasks) \<Rightarrow> Inr (u\<lparr>ui_app := a1\<rparr>, tasks))
     | SubmitDone err \<Rightarrow> Inr (finishSubmit err u)
     | QuitMsg \<Rightarrow> only a
     | ClearScreenMsg \<Rightarrow> only a)"

section \<open>Queued prompts\<close>

fun run_updates :: "'w app_ports \<Rightarrow> msg list \<Rightarrow> 'w ui \<Rightarrow> (index_error, 'w ui \<times> task list) result" where
  "run_updates tp [] u = Inr (u, [])"
| "run_updates tp (m # ms) u = bind_result (app_update tp m u) (\<lambda>(u1, ts).
     bind_result (run_updates tp ms u1) (\<lambda>(u2, us). Inr (u2, ts @ us)))"

text \<open>The prompts a list of commands starts turns with, and the messages that are not keys or command results.\<close>

definition started :: "task list \<Rightarrow> string list" where
  "started ts = concat (map (\<lambda>t. case t of RunTurn text n a c \<Rightarrow> [text] | _ \<Rightarrow> []) ts)"

definition turn_ended :: "msg \<Rightarrow> bool" where
  "turn_ended m \<longleftrightarrow> (case m of SubmitDone e \<Rightarrow> True | _ \<Rightarrow> False)"

definition unattended :: "msg \<Rightarrow> bool" where
  "unattended m \<longleftrightarrow> (case m of KeyMsg k \<Rightarrow> False | CommandMsg d \<Rightarrow> False | _ \<Rightarrow> True)"

definition waiting_prompts :: "'w ui \<Rightarrow> string list" where
  "waiting_prompts u = cm_queued (ap_composer (ui_app u))"

lemma started_simps [simp]:
  "started [] = []" "started (ts @ us) = started ts @ started us" "started (RunTurn t n a c # ts) = t # started ts"
  "started (Listener n k # ts) = started ts" "started [waitForNotification x] = []"
  by (simp_all add: started_def waitForNotification_def)

lemma composer_setters_queue [simp]:
  "cm_queued (composer_set_width c w) = cm_queued c" "cm_queued (set_compact_palette c b) = cm_queued c"
  "cm_queued (set_turn_running c b) = cm_queued c" "cm_queued (clear_input c) = cm_queued c"
  by (simp_all add: composer_set_width_def set_compact_palette_def set_turn_running_def clear_input_def)

lemma turn_error_fields [simp]:
  "ap_composer (turn_error e a) = ap_composer a" "ap_cancellation (turn_error e a) = ap_cancellation a" "ap_approval (turn_error e a) = ap_approval a"
  "ap_commands (turn_error e a) = ap_commands a" "ap_approvals (turn_error e a) = ap_approvals a" "ap_turn (turn_error e a) = ap_turn a"
  "ap_notifications (turn_error e a) = ap_notifications a"
  by (simp_all add: turn_error_def split: option.split)

lemma apply_notification_fields [simp]:
  "ap_composer (apply_notification n a) = ap_composer a" "ap_cancellation (apply_notification n a) = ap_cancellation a"
  "ap_commands (apply_notification n a) = ap_commands a" "ap_approvals (apply_notification n a) = ap_approvals a"
  "ap_turn (apply_notification n a) = ap_turn a" "ap_notifications (apply_notification n a) = ap_notifications a"
  by (simp_all add: apply_notification_def Let_def split: notification.split)

lemma updateAttachments_fields [simp]:
  "ap_composer (updateAttachments a m) = ap_composer a" "ap_cancellation (updateAttachments a m) = ap_cancellation a"
  "ap_commands (updateAttachments a m) = ap_commands a" "ap_approvals (updateAttachments a m) = ap_approvals a"
  "ap_approval (updateAttachments a m) = ap_approval a" "ap_turn (updateAttachments a m) = ap_turn a"
  by (simp_all add: updateAttachments_def Let_def split: prod.split option.split)

lemma finishCopy_fields [simp]:
  "ap_composer (finishCopy a n e) = ap_composer a" "ap_cancellation (finishCopy a n e) = ap_cancellation a"
  "ap_commands (finishCopy a n e) = ap_commands a" "ap_approvals (finishCopy a n e) = ap_approvals a"
  "ap_approval (finishCopy a n e) = ap_approval a" "ap_turn (finishCopy a n e) = ap_turn a"
  by (simp_all add: finishCopy_def split: option.split)

lemma resize_fields [simp]:
  "cm_queued (ap_composer (resize a w h)) = cm_queued (ap_composer a)" "ap_cancellation (resize a w h) = ap_cancellation a"
  "ap_commands (resize a w h) = ap_commands a" "ap_approvals (resize a w h) = ap_approvals a"
  "ap_approval (resize a w h) = ap_approval a" "ap_turn (resize a w h) = ap_turn a"
  by (simp_all add: resize_def Let_def)

lemma submitPrompt_effect:
  "ui_world (fst (submitPrompt t u)) = ui_world u"
  "started (snd (submitPrompt t u)) = [t]" "waiting_prompts (fst (submitPrompt t u)) = waiting_prompts u"
  "ap_cancellation (ui_app (fst (submitPrompt t u))) = Some (hp_next (ui_heap u))"
  "ap_commands (ui_app (fst (submitPrompt t u))) = ap_commands (ui_app u)"
  "ap_approval (ui_app (fst (submitPrompt t u))) = menu_clear (ap_approval (ui_app u))"
  "hp_next (ui_heap (fst (submitPrompt t u))) = Suc (hp_next (ui_heap u))"
  "i < hp_next (ui_heap u) \<Longrightarrow> hp_approvals (ui_heap (fst (submitPrompt t u))) i = hp_approvals (ui_heap u) i"
  by (simp_all add: submitPrompt_def Let_def waiting_prompts_def waitForNotification_def)

lemma finishSubmit_effect:
  "started (snd (finishSubmit err u)) = take 1 (waiting_prompts u) \<and> waiting_prompts (fst (finishSubmit err u)) = drop 1 (waiting_prompts u)
   \<and> (ap_cancellation (ui_app (fst (finishSubmit err u))) = None \<longleftrightarrow> waiting_prompts u = [])"
proof (cases "cm_queued (ap_composer (ui_app u))")
  case Nil
  then show ?thesis by (simp add: finishSubmit_def next_queued_def waiting_prompts_def Let_def)
next
  case (Cons t rest)
  then show ?thesis
    using submitPrompt_effect [where u = "u\<lparr>ui_app := turn_error err ((ui_app u)\<lparr>ap_cancellation := None, ap_composer := set_turn_running (ap_composer (ui_app u)) False\<rparr>)
      \<lparr>ap_composer := set_turn_running (ap_composer (ui_app u)) False\<lparr>cm_queued := rest\<rparr>\<rparr>\<rparr>" and t = t]
    by (simp add: finishSubmit_def next_queued_def waiting_prompts_def Let_def)
qed

lemma unattended_update:
  assumes "unattended m"
  shows "\<exists>u1 ts. app_update tp m u = Inr (u1, ts)
    \<and> started ts = (if turn_ended m then take 1 (waiting_prompts u) else [])
    \<and> waiting_prompts u1 = (if turn_ended m then drop 1 (waiting_prompts u) else waiting_prompts u)
    \<and> (ap_cancellation (ui_app u1) = None \<longleftrightarrow> (if turn_ended m then waiting_prompts u = [] else ap_cancellation (ui_app u) = None))"
proof (cases m)
  case (SubmitDone e)
  obtain u1 ts where f: "finishSubmit e u = (u1, ts)" by (cases "finishSubmit e u")
  with finishSubmit_effect [of e u] SubmitDone show ?thesis by (simp add: app_update_def turn_ended_def)
qed (use assms in \<open>simp_all add: app_update_def unattended_def turn_ended_def waiting_prompts_def updateConversationNotification_def Let_def\<close>)

lemma unattended_run:
  "list_all unattended ms \<Longrightarrow> \<exists>u1 ts. run_updates tp ms u = Inr (u1, ts)
     \<and> started ts = take (length (filter turn_ended ms)) (waiting_prompts u)
     \<and> waiting_prompts u1 = drop (length (filter turn_ended ms)) (waiting_prompts u)"
proof (induction ms arbitrary: u)
  case (Cons m ms)
  from Cons.prems unattended_update [of m tp u] obtain u1 ts where u1: "app_update tp m u = Inr (u1, ts)"
    "started ts = (if turn_ended m then take 1 (waiting_prompts u) else [])"
    "waiting_prompts u1 = (if turn_ended m then drop 1 (waiting_prompts u) else waiting_prompts u)" by auto
  from Cons.prems Cons.IH [of u1] obtain u2 us where u2: "run_updates tp ms u1 = Inr (u2, us)"
    "started us = take (length (filter turn_ended ms)) (waiting_prompts u1)" "waiting_prompts u2 = drop (length (filter turn_ended ms)) (waiting_prompts u1)" by auto
  show ?case using u1 u2 by (cases "waiting_prompts u") simp_all
qed simp

lemma cancelRun_app:
  "ap_cancellation (ui_app (cancelRun tp clear u)) = ap_cancellation (ui_app u)" "ap_commands (ui_app (cancelRun tp clear u)) = ap_commands (ui_app u)"
  "ap_approval (ui_app (cancelRun tp clear u)) = ap_approval (ui_app u)" "ap_approvals (ui_app (cancelRun tp clear u)) = ap_approvals (ui_app u)"
  "waiting_prompts (cancelRun tp clear u) = (if clear then [] else waiting_prompts u)"
  "hp_approvals (ui_heap (cancelRun tp clear u)) = hp_approvals (ui_heap u)" "hp_next (ui_heap (cancelRun tp clear u)) = hp_next (ui_heap u)"
  "ap_cancellation (ui_app u) = Some i \<Longrightarrow> hp_cancelled (ui_heap (cancelRun tp clear u)) i"
  by (simp_all add: cancelRun_def Let_def clear_follow_ups_def waiting_prompts_def split: prod.split option.split)

text \<open>
  C20. Every queued prompt is run. Whatever happens unattended, each turn that ends starts the oldest
  waiting prompt, and nothing else starts a turn: after as many ended turns as there are waiting
  prompts all of them were started, in order. A follow-up goes to the end of the queue, a steering
  prompt to its head with the running turn cancelled, and only cancelling by hand empties it.
\<close>
theorem queued_prompts_run:
  assumes "list_all unattended ms" and "\<not> is_command t" and "ap_cancellation (ui_app u) = Some i"
  shows "\<exists>u1 ts. run_updates tp ms u = Inr (u1, ts)
    \<and> started ts = take (length (filter turn_ended ms)) (waiting_prompts u)
    \<and> waiting_prompts u1 = drop (length (filter turn_ended ms)) (waiting_prompts u)
    \<and> (length (waiting_prompts u) \<le> length (filter turn_ended ms) \<longrightarrow> started ts = waiting_prompts u \<and> waiting_prompts u1 = [])
    \<and> waiting_prompts (u\<lparr>ui_app := queueInput t (ui_app u)\<rparr>) = waiting_prompts u @ (if cdm_compacting (ap_commands (ui_app u)) then [] else [t])
    \<and> waiting_prompts (steerInput tp t u) = t # waiting_prompts u \<and> hp_cancelled (ui_heap (steerInput tp t u)) i
    \<and> waiting_prompts (cancelRun tp True u) = []"
proof -
  from unattended_run [OF assms(1), of tp u] obtain u1 ts where r: "run_updates tp ms u = Inr (u1, ts)"
     "started ts = take (length (filter turn_ended ms)) (waiting_prompts u)"
     "waiting_prompts u1 = drop (length (filter turn_ended ms)) (waiting_prompts u)" by blast
  have q: "waiting_prompts (u\<lparr>ui_app := queueInput t (ui_app u)\<rparr>) = waiting_prompts u @ (if cdm_compacting (ap_commands (ui_app u)) then [] else [t])"
    using assms(2) by (simp add: queueInput_def waiting_prompts_def enqueue_follow_up_def)
  let ?a = "ui_app u"
  let ?p = "u\<lparr>ui_app := ?a\<lparr>ap_composer := clear_input (prepend_follow_up (ap_composer ?a) t)\<rparr>\<rparr>"
  have "waiting_prompts ?p = t # waiting_prompts u" by (simp add: waiting_prompts_def prepend_follow_up_def)
  then have s: "waiting_prompts (steerInput tp t u) = t # waiting_prompts u"
    using assms(2) cancelRun_app(5) [of tp False ?p] by (simp add: steerInput_def Let_def waiting_prompts_def)
  have c: "hp_cancelled (ui_heap (steerInput tp t u)) i"
    using assms(2,3) cancelRun_app(8) [of ?p i tp False] by (simp add: steerInput_def Let_def)
  show ?thesis using r q s c cancelRun_app(5) [of tp True u] by (intro exI [of _ u1] exI [of _ ts]) simp
qed

definition quiet_view :: conversation_view where
  "quiet_view = \<lparr>cv_agent_status = default_agent_status, cv_messages = [], cv_pending_tool = None, cv_pending_permission = None,
     cv_pending_tool_batch_index = 0, cv_pending_tool_batch_total = 0, cv_streaming_message = None\<rparr>"

definition quiet_ports :: "unit app_ports" where
  "quiet_ports = \<lparr>tp_commands = silent_ports, tp_cancel = (\<lambda>w. (None, w)), tp_snapshot = (\<lambda>w. quiet_view)\<rparr>"

definition fresh_ui :: "unit ui" where
  "fresh_ui = \<lparr>ui_app = new_app ''/home/u'' [] \<lparr>si_model_name = ''m'', si_version = ''1'', si_permission_mode = ''ask'', si_no_tools = False, si_cwd = ''/w'',
     si_instruction_paths = [], si_session_id = ''s'', si_sandbox = ''off''\<rparr>, ui_heap = new_heap, ui_world = ()\<rparr>"

definition queued_ui :: "unit ui" where
  "queued_ui = (let u = fst (submitPrompt ''go'' fresh_ui) in u\<lparr>ui_app := queueInput ''two'' (queueInput ''one'' (ui_app u))\<rparr>)"

lemma queued_prompts_run_witness:
  "\<exists>u1 ts. run_updates quiet_ports [SubmitDone None, ClearScreenMsg, SubmitDone None] queued_ui = Inr (u1, ts) \<and> started ts = [''one'', ''two'']"
proof -
  have h: "list_all unattended [SubmitDone None, ClearScreenMsg, SubmitDone None]" "\<not> is_command ''now''" "ap_cancellation (ui_app queued_ui) = Some 1"
    and q: "waiting_prompts queued_ui = [''one'', ''two'']" by code_simp+
  have k: "length (filter turn_ended [SubmitDone None, ClearScreenMsg, SubmitDone None]) = 2" by code_simp
  show ?thesis using queued_prompts_run [OF h, of quiet_ports] unfolding k q by auto
qed

section \<open>Decisions\<close>

text \<open>What a step does to the channels that exist, and when it leaves an answerable menu.\<close>

definition pending_snapshot :: "'w app_ports \<Rightarrow> bool" where
  "pending_snapshot tp \<longleftrightarrow> (\<exists>w. cv_pending_tool (tp_snapshot tp w) \<noteq> None \<and> cv_pending_permission (tp_snapshot tp w) \<noteq> None)"

definition undecided :: "'w app_ports \<Rightarrow> 'w ui \<Rightarrow> 'w ui \<Rightarrow> bool" where
  "undecided tp u u1 \<longleftrightarrow> (\<forall>i < hp_next (ui_heap u). hp_approvals (ui_heap u1) i = hp_approvals (ui_heap u) i)
     \<and> (answerable (ap_approval (ui_app u1)) \<longrightarrow> answerable (ap_approval (ui_app u)) \<or> pending_snapshot tp)"

lemma undecided_refl [simp]: "undecided tp u u"
  by (simp add: undecided_def)

lemma undecided_app: "ap_approval a = ap_approval (ui_app u) \<Longrightarrow> undecided tp u (u\<lparr>ui_app := a\<rparr>)"
  by (simp add: undecided_def)

lemma answerable_clear [simp]: "\<not> answerable (menu_clear m)"
  by (simp add: answerable_def menu_clear_def menu_active_def)

lemma undecided_cancelRun: "undecided tp u (cancelRun tp b u)"
  by (simp add: undecided_def cancelRun_app)

lemma undecided_submitPrompt: "undecided tp u (fst (submitPrompt t u))"
  by (simp add: undecided_def submitPrompt_effect)

lemma show_outcome_fields [simp]: "ap_approval (show_outcome oc a) = ap_approval a" "ap_composer (show_outcome oc a) = ap_composer a"
  "ap_cancellation (show_outcome oc a) = ap_cancellation a" "ap_commands (show_outcome oc a) = ap_commands a" "ap_approvals (show_outcome oc a) = ap_approvals a"
  by (simp_all add: show_outcome_def Let_def split: option.split)

lemma refreshSnapshot_answerable:
  "answerable (ap_approval (refreshSnapshot v a)) \<Longrightarrow> cv_pending_tool v \<noteq> None \<and> cv_pending_permission v \<noteq> None"
  by (auto simp: refreshSnapshot_def Let_def split: option.splits)

lemma refreshSnapshot_fields [simp]: "ap_composer (refreshSnapshot v a) = ap_composer a"
  "ap_cancellation (refreshSnapshot v a) = ap_cancellation a" "ap_commands (refreshSnapshot v a) = ap_commands a" "ap_approvals (refreshSnapshot v a) = ap_approvals a"
  by (simp_all add: refreshSnapshot_def Let_def)

lemma undecided_shown:
  "undecided tp u (u\<lparr>ui_app := (if b then refreshSnapshot (tp_snapshot tp w) a else a)\<rparr>)" if "ap_approval a = ap_approval (ui_app u)"
  using that refreshSnapshot_answerable [of "tp_snapshot tp w" a] by (auto simp: undecided_def pending_snapshot_def)

lemma undecided_trans_prompt:
  assumes "undecided tp u (u\<lparr>ui_app := a\<rparr>)"
  shows "undecided tp u (fst (submitPrompt t (u\<lparr>ui_app := a\<rparr>)))"
  using assms by (auto simp: undecided_def submitPrompt_effect)

lemma undecided_applyOutcome: "undecided tp u (fst (applyOutcome tp oc cmd u))"
proof (cases oc)
  case (Some o1)
  let ?a1 = "show_outcome o1 (ui_app u)"
  let ?a2 = "if oc_refresh_snapshot o1 then refreshSnapshot (tp_snapshot tp (ui_world u)) ?a1 else ?a1"
  let ?a3 = "if oc_show_help o1 then ?a2\<lparr>ap_showHelp := True\<rparr> else ?a2"
  have a2: "undecided tp u (u\<lparr>ui_app := ?a2\<rparr>)" by (rule undecided_shown) simp
  have a3: "undecided tp u (u\<lparr>ui_app := ?a3\<rparr>)" using a2 by (simp add: undecided_def)
  note p = undecided_trans_prompt [OF a3, of "oc_prompt o1"]
  from a2 a3 p show ?thesis unfolding Some applyOutcome_def Let_def option.case by (simp only: if_distrib [of fst] fst_conv split: if_split) blast
qed (simp add: applyOutcome_def)

lemma undecided_world_app: "ap_approval a = ap_approval (ui_app u) \<Longrightarrow> undecided tp (u\<lparr>ui_app := a, ui_world := w\<rparr>) v \<Longrightarrow> undecided tp u v"
  by (simp add: undecided_def)

text \<open>The three ways a submitted text is taken.\<close>

lemma submitText_cases:
  assumes "submitText tp t u = Inr (u1, ts)"
  obtains (busy) s where "u1 = u\<lparr>ui_app := (ui_app u)\<lparr>ap_status := s\<rparr>\<rparr>" "ts = []"
    | (prompt) "\<not> cdm_compacting (ap_commands (ui_app u))" "\<not> cdm_managingMCP (ap_commands (ui_app u))" "(u1, ts) = submitPrompt t u"
    | (command) m oc b w1 where "\<not> cdm_compacting (ap_commands (ui_app u))" "\<not> cdm_managingMCP (ap_commands (ui_app u))"
        "handle_command (tp_commands tp) (ap_commands (ui_app u)) t (ap_attachments (ui_app u)) (ui_world u) = (Inr (m, oc, b), w1)"
        "(u1, ts) = applyOutcome tp (Some oc) (batch [map_option Background b])
           (u\<lparr>ui_app := (ui_app u)\<lparr>ap_composer := clear_input (ap_composer (ui_app u)), ap_commands := m\<rparr>, ui_world := w1\<rparr>)"
  using assms unfolding submitText_def Let_def by (auto split: if_splits prod.splits sum.splits)

lemma undecided_submitText: "submitText tp t u = Inr (u1, ts) \<Longrightarrow> undecided tp u u1"
proof (erule submitText_cases)
  show "undecided tp u u1" if "(u1, ts) = submitPrompt t u"
    using undecided_submitPrompt [of tp u t] that by (cases "submitPrompt t u") simp
  fix m oc b w1
  assume "(u1, ts) = applyOutcome tp (Some oc) (batch [map_option Background b])
           (u\<lparr>ui_app := (ui_app u)\<lparr>ap_composer := clear_input (ap_composer (ui_app u)), ap_commands := m\<rparr>, ui_world := w1\<rparr>)" (is "_ = ?x")
  then have "u1 = fst ?x" by (cases ?x) simp
  then show "undecided tp u u1" by (auto intro: undecided_world_app [OF _ undecided_applyOutcome])
qed (simp add: undecided_app)

lemma undecided_update_app: "undecided tp (u\<lparr>ui_app := a\<rparr>) v \<Longrightarrow> ap_approval a = ap_approval (ui_app u) \<Longrightarrow> undecided tp u v"
  by (simp add: undecided_def)

lemma undecided_then_app:
  "undecided tp u v \<Longrightarrow> ap_approval a = ap_approval (ui_app v) \<Longrightarrow> undecided tp u (v\<lparr>ui_app := a\<rparr>)"
  by (simp add: undecided_def)

lemma queueInput_approval [simp]: "ap_approval (queueInput t a) = ap_approval a"
  by (simp add: queueInput_def)

lemma undecided_steerInput: "undecided tp u (steerInput tp t u)"
  by (auto simp: steerInput_def Let_def intro!: undecided_app undecided_then_app undecided_update_app [OF undecided_cancelRun])

lemma composer_key_cases:
  assumes "composer_key tp key u = Inr (u1, ts)"
  obtains c where "ts = []" "\<exists>s. u1 = u\<lparr>ui_app := (ui_app u)\<lparr>ap_composer := c, ap_status := s\<rparr>\<rparr>"
    | c t where "ts = []" "u1 = u\<lparr>ui_app := queueInput t ((ui_app u)\<lparr>ap_composer := c\<rparr>)\<rparr>"
    | c t where "ts = []" "u1 = steerInput tp t (u\<lparr>ui_app := (ui_app u)\<lparr>ap_composer := c\<rparr>\<rparr>)"
    | c t where "ap_cancellation (ui_app u) = None" "submitText tp t (u\<lparr>ui_app := (ui_app u)\<lparr>ap_composer := c\<rparr>\<rparr>) = Inr (u1, ts)"
proof -
  obtain c w where cw: "composer_update (set_turn_running (ap_composer (ui_app u)) (ap_cancellation (ui_app u) \<noteq> None)) key = (c, w)" by fastforce
  show thesis
  proof (cases "\<exists>it. w = Some it \<and> it_kind it \<in> {SUBMIT, QUEUE, STEER}")
    case False
    then have "ts = []" "u1 = u\<lparr>ui_app := (ui_app u)\<lparr>ap_composer := c\<rparr>\<rparr> \<or> u1 = u\<lparr>ui_app := (ui_app u)\<lparr>ap_composer := c, ap_status := ''Input cleared''\<rparr>\<rparr>"
      using assms cw by (auto simp: composer_key_def Let_def split: option.splits intent_kind.splits)
    moreover have "u\<lparr>ui_app := (ui_app u)\<lparr>ap_composer := c\<rparr>\<rparr> = u\<lparr>ui_app := (ui_app u)\<lparr>ap_composer := c, ap_status := ap_status (ui_app u)\<rparr>\<rparr>" by simp
    ultimately show ?thesis using that(1) by metis
  next
    case True
    then obtain it where w: "w = Some it" "it_kind it \<in> {SUBMIT, QUEUE, STEER}" by blast
    have submit: "it_kind it = SUBMIT \<Longrightarrow> ap_cancellation (ui_app u) = None"
      using cw w by (cases "ap_cancellation (ui_app u)")
        (auto simp: composer_update_def key_escape_def key_tab_def key_up_def key_down_def key_enter_def composer_action_def set_turn_running_def Let_def
          split: if_splits prod.splits bool.splits)
    from assms cw w that(2-4) submit show ?thesis by (auto simp: composer_key_def Let_def)
  qed
qed

lemma undecided_composer_key: "composer_key tp key u = Inr (u1, ts) \<Longrightarrow> undecided tp u u1"
proof (erule composer_key_cases)
  fix c t assume "submitText tp t (u\<lparr>ui_app := (ui_app u)\<lparr>ap_composer := c\<rparr>\<rparr>) = Inr (u1, ts)"
  then show "undecided tp u u1" by (auto intro: undecided_update_app dest: undecided_submitText)
qed (auto intro: undecided_app undecided_update_app [OF undecided_steerInput])

lemma feature_key_cases:
  assumes "feature_key tp key u = Inr (u1, ts)"
  obtains a where "u1 = u\<lparr>ui_app := a\<rparr>" "started ts = []" "ap_approval a = ap_approval (ui_app u)" "ap_cancellation a = ap_cancellation (ui_app u)"
      "ap_commands a = ap_commands (ui_app u)" "\<forall>b. Background b \<notin> set ts"
    | t where "composer_key tp key (u\<lparr>ui_app := (ui_app u)\<lparr>ap_transcript := t\<rparr>\<rparr>) = Inr (u1, ts)"
proof -
  obtain t w c where t: "transcript_update (ap_transcript (ui_app u)) key = (t, w, c)" by (cases "transcript_update (ap_transcript (ui_app u)) key") auto
  show thesis
  proof (cases c)
    case True
    then show ?thesis using assms t that(1)
      by (auto simp: feature_key_def Let_def copyCommand_def batch_def started_def split: option.splits if_splits)
  next
    case False
    then show ?thesis using assms t that(2) by (simp add: feature_key_def Let_def)
  qed
qed

lemma undecided_feature_key: "feature_key tp key u = Inr (u1, ts) \<Longrightarrow> undecided tp u u1"
proof (erule feature_key_cases)
  fix t assume "composer_key tp key (u\<lparr>ui_app := (ui_app u)\<lparr>ap_transcript := t\<rparr>\<rparr>) = Inr (u1, ts)"
  then show "undecided tp u u1" by (auto intro: undecided_update_app dest: undecided_composer_key)
qed (simp add: undecided_app)

text \<open>The one key that decides: the menu is answerable, the answer is one of its rows, and it goes to the current channel.\<close>

definition decided :: "'w ui \<Rightarrow> 'w ui \<Rightarrow> bool" where
  "decided u u1 \<longleftrightarrow> answerable (ap_approval (ui_app u)) \<and> \<not> answerable (ap_approval (ui_app u1))
     \<and> (\<exists>d \<in> set decisions_by_row. hp_approvals (ui_heap u1) = (hp_approvals (ui_heap u))(ap_approvals (ui_app u) := channel_put (hp_approvals (ui_heap u) (ap_approvals (ui_app u))) d))"

lemma updateKey_decides:
  assumes "menu_ok (ap_approval (ui_app u))" and "updateKey tp key u = Inr (u1, ts)"
  shows "undecided tp u u1 \<or> decided u u1"
proof (cases "\<not> ap_showHelp (ui_app u) \<and> menu_active (ap_approval (ui_app u)) \<and> key \<notin> {''ctrl+c'', ''esc''}")
  case True
  obtain m d b where m: "menu_update (ap_approval (ui_app u)) key = (m, d, b)" by (cases "menu_update (ap_approval (ui_app u)) key") auto
  show ?thesis
  proof (cases b)
    case b: True
    then have "answerable (ap_approval (ui_app u))" "\<not> answerable m" "d \<in> set decisions_by_row"
      using menu_submits [of "ap_approval (ui_app u)" key] m assms(1) decision_in_rows by (auto simp: answerable_def menu_ok_def)
    then show ?thesis using assms(2) True m b by (auto simp: updateKey_def Let_def decided_def)
  next
    case b: False
    have "answerable m \<Longrightarrow> answerable (ap_approval (ui_app u))"
      using m menu_latched [of "ap_approval (ui_app u)" key] by (cases "answerable (ap_approval (ui_app u))") auto
    then show ?thesis using assms(2) True m b by (auto simp: updateKey_def Let_def undecided_def)
  qed
next
  case False
  then have "undecided tp u u1"
    using assms(2) undecided_feature_key [of tp key u u1 ts] undecided_cancelRun [of tp u True]
    unfolding updateKey_def Let_def by (auto simp: undecided_app split: if_splits)
  then show ?thesis ..
qed

text \<open>
  C21. Who decides about a tool call. An interface step changes an approval channel that exists only
  by one answer of the three, put on the channel of the current turn, for a key pressed while a
  request was shown and not yet answered, which it then is; a menu becomes answerable only through
  a request of the current turn or a snapshot that holds one; and a notification of a replaced turn
  changes nothing at all.
\<close>
theorem decisions_need_a_key:
  assumes "menu_ok (ap_approval (ui_app u))" and "app_update tp m u = Inr (u1, ts)"
  shows "(undecided tp u u1
      \<or> (\<exists>key. m = KeyMsg key \<and> decided u u1)
      \<or> (\<exists>call request i n. m = ConversationNotificationMsg (ToolApprovalRequested call request i n) (ap_turn (ui_app u))
          \<and> hp_approvals (ui_heap u1) = hp_approvals (ui_heap u)))
    \<and> (\<forall>n k. m = ConversationNotificationMsg n k \<and> k \<noteq> ap_turn (ui_app u) \<longrightarrow> u1 = u)"
proof (intro conjI allI impI)
  show "u1 = u" if "m = ConversationNotificationMsg n k \<and> k \<noteq> ap_turn (ui_app u)" for n k
    using that assms(2) by (auto simp: app_update_def Let_def)
  show "undecided tp u u1 \<or> (\<exists>key. m = KeyMsg key \<and> decided u u1)
      \<or> (\<exists>call request i n. m = ConversationNotificationMsg (ToolApprovalRequested call request i n) (ap_turn (ui_app u))
          \<and> hp_approvals (ui_heap u1) = hp_approvals (ui_heap u))"
  proof (cases m)
    case (KeyMsg key)
    then show ?thesis using assms updateKey_decides [of u tp key u1 ts] by (auto simp: app_update_def Let_def)
  next
    case (SubmitDone e)
    have "undecided tp u (fst (finishSubmit e u))"
      by (auto simp: finishSubmit_def Let_def undecided_def submitPrompt_effect split: prod.split)
    then show ?thesis using SubmitDone assms(2) by (cases "finishSubmit e u") (auto simp: app_update_def Let_def)
  next
    case (CommandMsg d)
    have "undecided tp u (fst (updateCommands tp d u))"
      by (auto simp: updateCommands_def intro: undecided_update_app [OF undecided_applyOutcome] split: prod.split)
    then show ?thesis using CommandMsg assms(2) by (cases "updateCommands tp d u") (auto simp: app_update_def Let_def)
  next
    case (ConversationNotificationMsg n k)
    show ?thesis
    proof (cases "\<exists>call request i j. n = ToolApprovalRequested call request i j")
      case True
      then show ?thesis using ConversationNotificationMsg assms(2)
        by (auto simp: app_update_def Let_def updateConversationNotification_def split: if_splits)
    next
      case False
      then have "answerable (ap_approval (apply_notification n (ui_app u))) \<Longrightarrow> answerable (ap_approval (ui_app u))"
        by (cases n) (auto simp: apply_notification_def Let_def split: if_splits)
      then have "undecided tp u u1" using ConversationNotificationMsg assms(2)
        by (auto simp: app_update_def Let_def updateConversationNotification_def undecided_def split: if_splits)
      then show ?thesis ..
    qed
  qed (use assms(2) in \<open>auto simp: app_update_def Let_def undecided_app\<close>)
qed

definition asking_ui :: "unit ui" where
  "asking_ui = (let u = fst (submitPrompt ''go'' fresh_ui)
     in u\<lparr>ui_app := (ui_app u)\<lparr>ap_approval := menu_open \<lparr>mr_tool_name = ''bash'', mr_input = ''ls'', mr_command_class = '''', mr_cwd = '''',
       mr_touched_paths = [], mr_reason = '''', mr_batch_index = 0, mr_batch_total = 1\<rparr> new_menu\<rparr>\<rparr>)"

lemma decisions_need_a_key_witness:
  "(case app_update quiet_ports (KeyMsg ''y'') asking_ui of Inl e \<Rightarrow> False
     | Inr (u1, ts) \<Rightarrow> undecided quiet_ports asking_ui u1 \<or> decided asking_ui u1)"
proof -
  have ok: "menu_ok (ap_approval (ui_app asking_ui))" by code_simp
  have "is_ok (app_update quiet_ports (KeyMsg ''y'') asking_ui)" by code_simp
  then obtain u1 ts where u: "app_update quiet_ports (KeyMsg ''y'') asking_ui = Inr (u1, ts)" by (auto simp: is_ok_iff)
  from decisions_need_a_key [OF ok u] u show ?thesis by auto
qed

end
