(* ===== verification/TuiShell.thy ===== *)
theory TuiShell
  imports TuiApp
begin

text \<open>
  The shell the interface runs in (\<open>tui/terminal.py\<close>): it reads keys and answers, dispatches
  messages, and runs the commands an update hands back. Its steps in every order are \<open>shell_step\<close>.
\<close>

section \<open>Keys from bytes\<close>

text \<open>
  \<open>_read_key\<close> over the bytes that arrive in time. An escape is followed by at most two more bytes. The
  incremental UTF-8 decoder is an argument: it takes one character off the front.
\<close>

definition arrow_keys :: "(string \<times> string) list" where
  "arrow_keys = [([CHR 0x1B, CHR ''['', CHR ''A''], ''up''), ([CHR 0x1B, CHR ''['', CHR ''B''], ''down''),
     ([CHR 0x1B, CHR ''['', CHR ''C''], ''right''), ([CHR 0x1B, CHR ''['', CHR ''D''], ''left'')]"

definition control_keys :: "(char \<times> string) list" where
  "control_keys = [(CHR 0x0D, ''enter''), (CHR 0x0A, ''enter''), (CHR 0x09, ''tab''), (CHR 0x7F, ''backspace''), (CHR 0x08, ''backspace''),
     (CHR 0x03, ''ctrl+c''), (CHR 0x04, ''ctrl+d''), (CHR 0x15, ''ctrl+u'')]"

definition read_key :: "(string \<Rightarrow> string \<times> string) \<Rightarrow> string \<Rightarrow> string \<times> string" where
  "read_key decode_one bytes = (case bytes of [] \<Rightarrow> (''ctrl+d'', [])
     | first # rest \<Rightarrow>
        if first = CHR 0x1B then (case map_of arrow_keys (take 3 bytes) of Some key \<Rightarrow> key | None \<Rightarrow> ''esc'', drop 3 bytes)
        else (case map_of control_keys first of Some key \<Rightarrow> (key, rest) | None \<Rightarrow> decode_one bytes))"

section \<open>State\<close>

record 'w shell =
  sh_ui :: "'w ui"
  sh_messages :: "msg list"
  sh_tasks :: "task list"
  sh_listener :: "(nat \<times> nat) option"
  sh_running :: bool

definition output_printer :: "string \<Rightarrow> string option" where
  "output_printer content = (if py_strip content = '''' then None else Some content)"

text \<open>\<open>_start\<close>: a listener replaces the one before it, anything else runs beside what is running.\<close>

definition start_task :: "task \<Rightarrow> 'w shell \<Rightarrow> 'w shell" where
  "start_task t s = (case t of Listener c k \<Rightarrow> s\<lparr>sh_listener := Some (c, k)\<rparr> | _ \<Rightarrow> s\<lparr>sh_tasks := sh_tasks s @ [t]\<rparr>)"

definition start_tasks :: "task list \<Rightarrow> 'w shell \<Rightarrow> 'w shell" where
  "start_tasks ts s = fold start_task ts s"

definition new_shell :: "app \<Rightarrow> 'w \<Rightarrow> 'w shell" where
  "new_shell a w = start_tasks (app_init a)
     \<lparr>sh_ui = \<lparr>ui_app = a\<lparr>ap_printOutput := Some output_printer\<rparr>, ui_heap = new_heap, ui_world = w\<rparr>,
      sh_messages = [], sh_tasks = [], sh_listener = None, sh_running = True\<rparr>"

definition shell_dispatch :: "'w app_ports \<Rightarrow> msg \<Rightarrow> 'w shell \<Rightarrow> (index_error, 'w shell) result" where
  "shell_dispatch tp m s =
     (if m = QuitMsg then Inr (s\<lparr>sh_running := False\<rparr>)
      else let u = (if m = ClearScreenMsg then (sh_ui s)\<lparr>ui_app := (ui_app (sh_ui s))\<lparr>ap_err := '''', ap_status := ''''\<rparr>\<rparr> else sh_ui s)
        in bind_result (app_update tp m u) (\<lambda>(u1, ts). Inr (start_tasks ts (s\<lparr>sh_ui := u1\<rparr>))))"

text \<open>\<open>_read_approval\<close>: an answer is stripped and lowered, and a word for a row is that row; end of input denies.\<close>

definition answer_key :: "string option \<Rightarrow> string" where
  "answer_key answer = (let key = (case answer of None \<Rightarrow> ''3'' | Some text \<Rightarrow> py_lower (py_strip text)) in
     case map_of [(''y'', ''1''), (''a'', ''2''), (''n'', ''3'')] key of Some row \<Rightarrow> row | None \<Rightarrow> key)"

text \<open>\<open>_read_prompt\<close> with a line reader, and one key of \<open>_read_live_prompt\<close>.\<close>

definition read_line_prompt :: "'w app_ports \<Rightarrow> string option \<Rightarrow> 'w shell \<Rightarrow> (index_error, 'w shell) result" where
  "read_line_prompt tp line s = (case line of None \<Rightarrow> Inr (s\<lparr>sh_running := False\<rparr>)
     | Some text \<Rightarrow> if py_strip text = '''' then Inr s
         else (let a = ui_app (sh_ui s) in
           shell_dispatch tp (KeyMsg ''enter'') (s\<lparr>sh_ui := (sh_ui s)\<lparr>ui_app := a\<lparr>ap_composer := (ap_composer a)\<lparr>cm_value := text, cm_cursor := length text\<rparr>\<rparr>\<rparr>\<rparr>)))"

definition live_key :: "'w app_ports \<Rightarrow> string \<Rightarrow> 'w shell \<Rightarrow> (index_error, 'w shell) result" where
  "live_key tp key s =
     (if (key = ''ctrl+d'' \<and> cm_value (ap_composer (ui_app (sh_ui s))) = '''') \<or> key = ''ctrl+c'' then Inr (s\<lparr>sh_running := False\<rparr>)
      else bind_result (completing (ap_composer (ui_app (sh_ui s)))) (\<lambda>c. shell_dispatch tp (KeyMsg key) s))"

section \<open>Running commands\<close>

text \<open>What a finished command reports. What a turn, the clipboard or the attachment port did is the environment's.\<close>

inductive task_reports :: "'w app_ports \<Rightarrow> task \<Rightarrow> 'w \<Rightarrow> 'w \<Rightarrow> msg option \<Rightarrow> bool" where
  "task_reports tp QUIT w w (Some QuitMsg)"
| "task_reports tp CLEAR_SCREEN w w (Some ClearScreenMsg)"
| "task_reports tp (RunTurn text n a c) w w1 (Some (SubmitDone err))"
| "task_reports tp (CopyText text lines) w w (Some (ClipboardDone lines err))"
| "task_reports tp (AttachFile path) w w1 (Some (Attached item err))"
| "task_reports tp LoadAttachments w w (Some (Loaded items))"
| "run_background (tp_commands tp) b w = (d, w1) \<Longrightarrow> task_reports tp (Background b) w w1 (Some (CommandMsg d))"
| "task_reports tp (PrintOutput text) w w None"

definition post :: "msg option \<Rightarrow> 'w shell \<Rightarrow> 'w shell" where
  "post m s = (case m of None \<Rightarrow> s | Some m1 \<Rightarrow> s\<lparr>sh_messages := sh_messages s @ [m1]\<rparr>)"

inductive shell_step :: "'w app_ports \<Rightarrow> 'w shell \<Rightarrow> 'w shell \<Rightarrow> bool" for tp where
  answer: "sh_running s \<Longrightarrow> answerable (ap_approval (ui_app (sh_ui s))) \<Longrightarrow>
     shell_dispatch tp (KeyMsg (answer_key text)) s = Inr s1 \<Longrightarrow> shell_step tp s s1"
| message: "sh_running s \<Longrightarrow> \<not> answerable (ap_approval (ui_app (sh_ui s))) \<Longrightarrow> sh_messages s = m # ms \<Longrightarrow>
     shell_dispatch tp m (s\<lparr>sh_messages := ms\<rparr>) = Inr s1 \<Longrightarrow> shell_step tp s s1"
| line: "sh_running s \<Longrightarrow> \<not> answerable (ap_approval (ui_app (sh_ui s))) \<Longrightarrow> sh_messages s = [] \<Longrightarrow> ap_cancellation (ui_app (sh_ui s)) = None \<Longrightarrow>
     read_line_prompt tp text s = Inr s1 \<Longrightarrow> shell_step tp s s1"
| live: "sh_running s \<Longrightarrow> ap_cancellation (ui_app (sh_ui s)) = None \<Longrightarrow> live_key tp key s = Inr s1 \<Longrightarrow> shell_step tp s s1"
| interrupt: "shell_step tp s (s\<lparr>sh_messages := sh_messages s @ [KeyMsg ''ctrl+c'']\<rparr>)"
| finished: "sh_tasks s = before @ t # after \<Longrightarrow> task_reports tp t (ui_world (sh_ui s)) w1 m \<Longrightarrow>
     shell_step tp s (post m (s\<lparr>sh_tasks := before @ after, sh_ui := (sh_ui s)\<lparr>ui_world := w1\<rparr>\<rparr>))"
| listened: "sh_listener s = Some (c, turn) \<Longrightarrow> channel_get (hp_notifications (ui_heap (sh_ui s)) c) = (Received n, ch) \<Longrightarrow>
     shell_step tp s (post (Some (ConversationNotificationMsg n turn)) (s\<lparr>sh_listener := None,
       sh_ui := (sh_ui s)\<lparr>ui_heap := (ui_heap (sh_ui s))\<lparr>hp_notifications := (hp_notifications (ui_heap (sh_ui s)))(c := ch)\<rparr>\<rparr>\<rparr>))"
| drained: "sh_listener s = Some (c, turn) \<Longrightarrow> channel_get (hp_notifications (ui_heap (sh_ui s)) c) = (Drained, ch) \<Longrightarrow>
     shell_step tp s (s\<lparr>sh_listener := None\<rparr>)"
| notified: "RunTurn text n a c \<in> set (sh_tasks s) \<Longrightarrow> ch = channel_put (hp_notifications (ui_heap (sh_ui s)) n) note \<or> ch = channel_close (hp_notifications (ui_heap (sh_ui s)) n) \<Longrightarrow>
     shell_step tp s (s\<lparr>sh_ui := (sh_ui s)\<lparr>ui_world := w1, ui_heap := (ui_heap (sh_ui s))\<lparr>hp_notifications := (hp_notifications (ui_heap (sh_ui s)))(n := ch)\<rparr>\<rparr>\<rparr>)"
| consulted: "RunTurn text n a c \<in> set (sh_tasks s) \<Longrightarrow> channel_get (hp_approvals (ui_heap (sh_ui s)) a) = (Received d, ch) \<Longrightarrow>
     shell_step tp s (s\<lparr>sh_ui := (sh_ui s)\<lparr>ui_world := w1, ui_heap := (ui_heap (sh_ui s))\<lparr>hp_approvals := (hp_approvals (ui_heap (sh_ui s)))(a := ch)\<rparr>\<rparr>\<rparr>)"

inductive shell_reachable :: "'w app_ports \<Rightarrow> 'w shell \<Rightarrow> bool" for tp where
  start: "ap_cancellation a = None \<Longrightarrow> \<not> cdm_compacting (ap_commands a) \<Longrightarrow> \<not> cdm_managingMCP (ap_commands a) \<Longrightarrow> shell_reachable tp (new_shell a w)"
| step: "shell_reachable tp s \<Longrightarrow> shell_step tp s s1 \<Longrightarrow> shell_reachable tp s1"

section \<open>Operations\<close>

text \<open>The three kinds of operation on the conversation, counted in what runs and in what has reported.\<close>

datatype operation = Turn | Compaction | ServerChange

definition task_operation :: "task \<Rightarrow> operation option" where
  "task_operation t = (case t of RunTurn text n a c \<Rightarrow> Some Turn | Background (CompactRun summary) \<Rightarrow> Some Compaction
     | Background (McpRun status change) \<Rightarrow> Some ServerChange | _ \<Rightarrow> None)"

definition msg_operation :: "msg \<Rightarrow> operation option" where
  "msg_operation m = (case m of SubmitDone e \<Rightarrow> Some Turn | CommandMsg (CompactDone e) \<Rightarrow> Some Compaction
     | CommandMsg (MCPDone status e) \<Rightarrow> Some ServerChange | _ \<Rightarrow> None)"

definition running_operations :: "'w shell \<Rightarrow> operation list" where
  "running_operations s = List.map_filter task_operation (sh_tasks s) @ List.map_filter msg_operation (sh_messages s)"

text \<open>What the interface believes is running.\<close>

definition believed :: "'w ui \<Rightarrow> operation list" where
  "believed u = (if ap_cancellation (ui_app u) \<noteq> None then [Turn] else [])
     @ (if cdm_compacting (ap_commands (ui_app u)) then [Compaction] else [])
     @ (if cdm_managingMCP (ap_commands (ui_app u)) then [ServerChange] else [])"

abbreviation task_operations :: "task list \<Rightarrow> operation list" where
  "task_operations ts \<equiv> List.map_filter task_operation ts"

lemma map_filter_append [simp]: "List.map_filter f (xs @ ys) = List.map_filter f xs @ List.map_filter f ys"
  by (induction xs) (simp_all add: map_filter_simps split: option.split)

lemma task_operation_simps [simp]:
  "task_operation (RunTurn t n a c) = Some Turn" "task_operation (Background (CompactRun x)) = Some Compaction"
  "task_operation (Background (McpRun x y)) = Some ServerChange" "task_operation (Listener i j) = None" "task_operation (PrintOutput t) = None"
  "task_operation (AttachFile t) = None" "task_operation QUIT = None" "task_operation CLEAR_SCREEN = None" "task_operation (CopyText t k) = None"
  "task_operation LoadAttachments = None" "task_operation (waitForNotification a0) = None"
  by (simp_all add: task_operation_def waitForNotification_def)

lemma task_operation_background: "task_operation (Background b) \<noteq> None"
  by (cases b) simp_all

definition status_only :: "command_outcome \<Rightarrow> bool" where
  "status_only oc \<longleftrightarrow> \<not> oc_quit oc \<and> oc_attach_path oc = '''' \<and> oc_prompt oc = '''' \<and> oc_output oc = ''''"

lemma handle_command_flags:
  assumes "handle_command po m t attachments w = (Inr (m1, oc, b), w1)"
  obtains "b = None" "m1 = m" | s where "b = Some (CompactRun s)" "m1 = m\<lparr>cdm_compacting := True\<rparr>" "status_only oc"
    | s c where "b = Some (McpRun s c)" "m1 = m\<lparr>cdm_managingMCP := True\<rparr>" "status_only oc"
proof -
  obtain command arguments where s: "split_ws t = command # arguments" using assms by (auto simp: handle_command_def split: list.splits)
  consider "command = ''/mcp''" | "command = ''/compact''" | "command \<noteq> ''/mcp''" "command \<noteq> ''/compact''" by blast
  then show thesis
  proof cases
    case 1
    then have "handleMCP po m (command # arguments) w = (m1, oc, b)" using assms s by (auto simp: handle_command_def)
    then have "b = None \<and> m1 = m \<or> (\<exists>s c. b = Some (McpRun s c) \<and> m1 = m\<lparr>cdm_managingMCP := True\<rparr> \<and> status_only oc)"
      unfolding handleMCP_def Let_def by (auto simp: status_only_def reported_def no_outcome_def split: if_splits)
    then show ?thesis using that(1,3) by blast
  next
    case 2
    then show ?thesis using assms s that(2) by (auto simp: handle_command_def handleCompact_def status_only_def reported_def no_outcome_def)
  next
    case 3
    then show ?thesis using assms s that(1) by (auto simp: handle_command_def split: prod.splits)
  qed
qed

lemma started_operations: "\<forall>b. Background b \<notin> set ts \<Longrightarrow> task_operations ts = map (\<lambda>x. Turn) (started ts)"
proof (induction ts)
  case (Cons t ts)
  then show ?case by (cases t) (auto simp: started_def map_filter_simps)
qed (simp add: started_def map_filter_simps)

lemma batch_print: "task_operations (batch [printCommand a x]) = []"
  by (cases "printCommand a x") (auto simp: batch_def printCommand_def map_filter_simps split: option.splits if_splits)

lemma submitPrompt_operations: "task_operations (snd (submitPrompt t u)) = [Turn]"
  by (simp add: submitPrompt_def Let_def map_filter_simps)

lemma believed_prompt: "believed (fst (submitPrompt t u)) = Turn # believed (u\<lparr>ui_app := (ui_app u)\<lparr>ap_cancellation := None\<rparr>\<rparr>)"
  by (simp add: believed_def submitPrompt_effect)

lemma believed_cong:
  "ap_cancellation (ui_app u) = ap_cancellation (ui_app v) \<Longrightarrow> ap_commands (ui_app u) = ap_commands (ui_app v) \<Longrightarrow> believed u = believed v"
  by (simp add: believed_def)

lemma applyOutcome_operations:
  assumes "ap_cancellation (ui_app u) = None"
  shows "believed (fst (applyOutcome tp (Some oc) [] u)) = task_operations (snd (applyOutcome tp (Some oc) [] u)) @ believed u"
    and "status_only oc \<Longrightarrow> believed (fst (applyOutcome tp (Some oc) cmd u)) = believed u \<and> snd (applyOutcome tp (Some oc) cmd u) = cmd"
proof -
  let ?a1 = "show_outcome oc (ui_app u)"
  let ?a2 = "if oc_refresh_snapshot oc then refreshSnapshot (tp_snapshot tp (ui_world u)) ?a1 else ?a1"
  let ?a3 = "if oc_show_help oc then ?a2\<lparr>ap_showHelp := True\<rparr> else ?a2"
  have a: "ap_cancellation ?a2 = None" "ap_commands ?a2 = ap_commands (ui_app u)" "ap_cancellation ?a3 = None" "ap_commands ?a3 = ap_commands (ui_app u)"
    using assms by simp_all
  then have b: "believed (u\<lparr>ui_app := ?a2\<rparr>) = believed u" "believed (u\<lparr>ui_app := ?a3\<rparr>) = believed u"
    using assms believed_cong [of "u\<lparr>ui_app := ?a2\<rparr>" u] believed_cong [of "u\<lparr>ui_app := ?a3\<rparr>" u] by simp_all
  have p: "believed (fst (submitPrompt t (u\<lparr>ui_app := ?a3\<rparr>))) = Turn # believed u" for t
    unfolding believed_prompt by (rule arg_cong [where f = "(#) Turn"], rule believed_cong) (use assms a in simp_all)
  show "believed (fst (applyOutcome tp (Some oc) [] u)) = task_operations (snd (applyOutcome tp (Some oc) [] u)) @ believed u"
    unfolding applyOutcome_def Let_def option.case
    using b p by (simp only: if_distrib [of fst] if_distrib [of snd] fst_conv snd_conv split: if_split)
      (simp add: map_filter_simps submitPrompt_operations batch_print)
  show "believed (fst (applyOutcome tp (Some oc) cmd u)) = believed u \<and> snd (applyOutcome tp (Some oc) cmd u) = cmd" if "status_only oc"
    unfolding applyOutcome_def Let_def option.case using that b by (simp only: status_only_def simp_thms if_False fst_conv snd_conv)
qed

text \<open>What an update does to the operations it knows of.\<close>

definition operates :: "'w ui \<Rightarrow> 'w ui \<Rightarrow> task list \<Rightarrow> bool" where
  "operates u u1 ts \<longleftrightarrow> believed u1 = task_operations ts @ believed u \<and> length (task_operations ts) \<le> 1
     \<and> (task_operations ts \<noteq> [] \<longrightarrow> believed u = [])"

lemma operates_none: "task_operations ts = [] \<Longrightarrow> believed u1 = believed u \<Longrightarrow> operates u u1 ts"
  by (simp add: operates_def)

lemma operates_app:
  "ap_cancellation a = ap_cancellation (ui_app u) \<Longrightarrow> ap_commands a = ap_commands (ui_app u) \<Longrightarrow> operates u (u\<lparr>ui_app := a\<rparr>) []"
  by (rule operates_none) (simp_all add: map_filter_simps believed_def)

lemma operates_from: "operates (u\<lparr>ui_app := a\<rparr>) u1 ts \<Longrightarrow> ap_cancellation a = ap_cancellation (ui_app u) \<Longrightarrow> ap_commands a = ap_commands (ui_app u) \<Longrightarrow> operates u u1 ts"
  by (simp add: operates_def believed_def)

lemma operates_prompt:
  "believed u = [] \<Longrightarrow> operates u (fst (submitPrompt t u)) (snd (submitPrompt t u))"
  unfolding operates_def submitPrompt_operations believed_prompt by (simp add: believed_def split: if_splits)

lemma operates_submitText:
  assumes "ap_cancellation (ui_app u) = None" and "submitText tp t u = Inr (u1, ts)"
  shows "operates u u1 ts"
  using assms(2)
proof (rule submitText_cases)
  fix s assume "u1 = u\<lparr>ui_app := (ui_app u)\<lparr>ap_status := s\<rparr>\<rparr>" "ts = []"
  then show ?thesis by (simp add: operates_app)
next
  assume h: "\<not> cdm_compacting (ap_commands (ui_app u))" "\<not> cdm_managingMCP (ap_commands (ui_app u))" "(u1, ts) = submitPrompt t u"
  then have "believed u = []" using assms(1) by (simp add: believed_def)
  from operates_prompt [OF this, of t] h(3) show ?thesis by (metis fst_conv snd_conv)
next
  fix m oc b w1
  let ?u = "u\<lparr>ui_app := (ui_app u)\<lparr>ap_composer := clear_input (ap_composer (ui_app u)), ap_commands := m\<rparr>, ui_world := w1\<rparr>"
  assume h: "\<not> cdm_compacting (ap_commands (ui_app u))" "\<not> cdm_managingMCP (ap_commands (ui_app u))"
    "handle_command (tp_commands tp) (ap_commands (ui_app u)) t (ap_attachments (ui_app u)) (ui_world u) = (Inr (m, oc, b), w1)"
    "(u1, ts) = applyOutcome tp (Some oc) (batch [map_option Background b]) ?u"
  have e: "believed u = []" using h assms(1) by (simp add: believed_def)
  have c: "ap_cancellation (ui_app ?u) = None" using assms(1) by simp
  have out: "u1 = fst (applyOutcome tp (Some oc) (batch [map_option Background b]) ?u)" "ts = snd (applyOutcome tp (Some oc) (batch [map_option Background b]) ?u)"
    using h(4) by (metis fst_conv snd_conv)+
  from h(3) show ?thesis
  proof (rule handle_command_flags)
    assume b: "b = None" "m = ap_commands (ui_app u)"
    then have "believed ?u = []" using e by (simp add: believed_def)
    moreover have "length (task_operations ts) \<le> 1"
      unfolding out b applyOutcome_def Let_def option.case by (simp add: batch_def map_filter_simps submitPrompt_operations batch_print [unfolded batch_def, simplified])
    ultimately show ?thesis using applyOutcome_operations(1) [OF c, of tp oc] out b e by (simp add: operates_def batch_def)
  next
    fix s assume b: "b = Some (CompactRun s)" "m = (ap_commands (ui_app u))\<lparr>cdm_compacting := True\<rparr>" "status_only oc"
    then have "believed ?u = [Compaction]" using h(1,2) assms(1) by (simp add: believed_def)
    then show ?thesis using applyOutcome_operations(2) [OF c b(3), of tp "batch [map_option Background b]"] out b(1) e
      by (simp add: operates_def batch_def map_filter_simps)
  next
    fix s d assume b: "b = Some (McpRun s d)" "m = (ap_commands (ui_app u))\<lparr>cdm_managingMCP := True\<rparr>" "status_only oc"
    then have "believed ?u = [ServerChange]" using h(1,2) assms(1) by (simp add: believed_def)
    then show ?thesis using applyOutcome_operations(2) [OF c b(3), of tp "batch [map_option Background b]"] out b(1) e
      by (simp add: operates_def batch_def map_filter_simps)
  qed
qed

lemma queueInput_fields [simp]: "ap_cancellation (queueInput t a) = ap_cancellation a" "ap_commands (queueInput t a) = ap_commands a"
  by (simp_all add: queueInput_def)

lemma steerInput_fields: "ap_cancellation (ui_app (steerInput tp t u)) = ap_cancellation (ui_app u)" "ap_commands (ui_app (steerInput tp t u)) = ap_commands (ui_app u)"
  by (simp_all add: steerInput_def Let_def cancelRun_app)

lemma operates_composer_key: "composer_key tp key u = Inr (u1, ts) \<Longrightarrow> operates u u1 ts"
proof (erule composer_key_cases)
  fix c t assume "ts = []" "u1 = steerInput tp t (u\<lparr>ui_app := (ui_app u)\<lparr>ap_composer := c\<rparr>\<rparr>)"
  then show "operates u u1 ts" by (intro operates_none) (simp_all add: map_filter_simps believed_def steerInput_fields)
next
  fix c t assume h: "ap_cancellation (ui_app u) = None" "submitText tp t (u\<lparr>ui_app := (ui_app u)\<lparr>ap_composer := c\<rparr>\<rparr>) = Inr (u1, ts)"
  have "operates (u\<lparr>ui_app := (ui_app u)\<lparr>ap_composer := c\<rparr>\<rparr>) u1 ts" by (rule operates_submitText [OF _ h(2)]) (use h(1) in simp)
  then show "operates u u1 ts" by (rule operates_from) simp_all
qed (auto intro: operates_app)

lemma operates_feature_key: "feature_key tp key u = Inr (u1, ts) \<Longrightarrow> operates u u1 ts"
proof (erule feature_key_cases)
  fix a assume "u1 = u\<lparr>ui_app := a\<rparr>" "started ts = []" "ap_cancellation a = ap_cancellation (ui_app u)" "ap_commands a = ap_commands (ui_app u)"
    "\<forall>b. Background b \<notin> set ts"
  then show "operates u u1 ts" by (intro operates_none) (simp_all add: started_operations believed_def)
next
  fix t assume "composer_key tp key (u\<lparr>ui_app := (ui_app u)\<lparr>ap_transcript := t\<rparr>\<rparr>) = Inr (u1, ts)"
  then have "operates (u\<lparr>ui_app := (ui_app u)\<lparr>ap_transcript := t\<rparr>\<rparr>) u1 ts" by (rule operates_composer_key)
  then show "operates u u1 ts" by (rule operates_from) simp_all
qed

lemma operates_updateKey:
  assumes "updateKey tp key u = Inr (u1, ts)"
  shows "operates u u1 ts"
proof -
  have c: "operates u (cancelRun tp True u) []" by (rule operates_none) (simp_all add: map_filter_simps believed_def cancelRun_app)
  have n: "operates u u []" "operates u u [QUIT]" "operates u (u\<lparr>ui_app := (ui_app u)\<lparr>ap_err := x, ap_status := y\<rparr>\<rparr>) [CLEAR_SCREEN]" for x y
    by (rule operates_none; simp add: map_filter_simps believed_def)+
  have d: "operates u (u\<lparr>ui_app := a, ui_heap := h\<rparr>) []" if "ap_cancellation a = ap_cancellation (ui_app u)" "ap_commands a = ap_commands (ui_app u)" for a h
    by (rule operates_none) (simp_all add: map_filter_simps believed_def that)
  from assms c n d operates_feature_key [of tp key u u1 ts] show ?thesis
    unfolding updateKey_def Let_def by (auto simp: operates_app split: if_splits prod.splits)
qed

lemma update_operations:
  assumes "app_update tp m u = Inr (u1, ts)" and "\<And>k. msg_operation m = Some k \<Longrightarrow> believed u = [k]"
  shows "believed u1 = task_operations ts @ (if msg_operation m = None then believed u else []) \<and> length (task_operations ts) \<le> 1
    \<and> (task_operations ts \<noteq> [] \<longrightarrow> (if msg_operation m = None then believed u else []) = [])"
proof (cases m)
  case (KeyMsg key)
  then show ?thesis using assms(1) operates_updateKey [of tp key u u1 ts] by (simp add: app_update_def Let_def msg_operation_def operates_def)
next
  case (SubmitDone e)
  then have b: "\<not> cdm_compacting (ap_commands (ui_app u))" "\<not> cdm_managingMCP (ap_commands (ui_app u))"
    using assms(2) [of Turn] by (auto simp: msg_operation_def believed_def split: if_splits)
  have f: "finishSubmit e u = (u1, ts)" using assms(1) SubmitDone by (simp add: app_update_def Let_def)
  show ?thesis
  proof (cases "cm_queued (ap_composer (ui_app u))")
    case Nil
    then show ?thesis using f b SubmitDone
      by (auto simp: finishSubmit_def next_queued_def Let_def believed_def msg_operation_def map_filter_simps)
  next
    case (Cons t rest)
    let ?u = "u\<lparr>ui_app := turn_error e ((ui_app u)\<lparr>ap_cancellation := None, ap_composer := set_turn_running (ap_composer (ui_app u)) False\<rparr>)
      \<lparr>ap_composer := set_turn_running (ap_composer (ui_app u)) False\<lparr>cm_queued := rest\<rparr>\<rparr>\<rparr>"
    have "believed ?u = []" using b by (simp add: believed_def)
    moreover have "(u1, ts) = submitPrompt t ?u" using f Cons by (simp add: finishSubmit_def next_queued_def Let_def)
    ultimately show ?thesis using operates_prompt [of ?u t] SubmitDone by (cases "submitPrompt t ?u") (simp add: operates_def msg_operation_def)
  qed
next
  case (CommandMsg d)
  obtain m1 oc where f: "finish_command (ap_commands (ui_app u)) d = (m1, oc)" by (cases "finish_command (ap_commands (ui_app u)) d")
  obtain k where k: "msg_operation m = Some k" "k \<noteq> Turn" using CommandMsg by (cases d) (auto simp: msg_operation_def)
  with assms(2) have bel: "believed u = [k]" by simp
  then have c: "ap_cancellation (ui_app u) = None" using k(2) by (auto simp: believed_def split: if_splits)
  have o': "status_only oc \<or> (oc_prompt oc = '''' \<and> \<not> oc_quit oc \<and> oc_attach_path oc = '''')"
    using f by (auto simp: finish_command_def failed_def reported_def no_outcome_def split: command_done.splits option.splits)
  let ?u = "u\<lparr>ui_app := (ui_app u)\<lparr>ap_commands := m1\<rparr>\<rparr>"
  have e: "believed ?u = []" using bel f c k CommandMsg
    by (cases d) (auto simp: believed_def finish_command_def msg_operation_def split: if_splits)
  have u1: "(u1, ts) = applyOutcome tp (Some oc) [] ?u" using assms(1) CommandMsg f by (simp add: app_update_def Let_def updateCommands_def)
  have "task_operations (snd (applyOutcome tp (Some oc) [] ?u)) = []"
    using o' batch_print unfolding applyOutcome_def Let_def option.case by (auto simp: status_only_def map_filter_simps)
  with applyOutcome_operations(1) [of ?u tp oc] c e u1 k(1) show ?thesis by (cases "applyOutcome tp (Some oc) [] ?u") simp
next
  case (ConversationNotificationMsg n k)
  then show ?thesis using assms(1)
    by (auto simp: app_update_def Let_def msg_operation_def updateConversationNotification_def believed_def map_filter_simps split: if_splits)
qed (use assms(1) in \<open>auto simp: app_update_def Let_def msg_operation_def believed_def map_filter_simps\<close>)

section \<open>One operation at a time\<close>

definition shell_ok :: "'w shell \<Rightarrow> bool" where
  "shell_ok s \<longleftrightarrow> running_operations s = believed (sh_ui s) \<and> length (believed (sh_ui s)) \<le> 1"

lemma start_tasks_fields:
  "sh_ui (start_tasks ts s) = sh_ui s \<and> sh_messages (start_tasks ts s) = sh_messages s
   \<and> task_operations (sh_tasks (start_tasks ts s)) = task_operations (sh_tasks s) @ task_operations ts"
proof (induction ts arbitrary: s)
  case (Cons t ts)
  have "sh_ui (start_task t s) = sh_ui s \<and> sh_messages (start_task t s) = sh_messages s
     \<and> task_operations (sh_tasks (start_task t s)) = task_operations (sh_tasks s) @ task_operations [t]"
    by (cases t) (auto simp: start_task_def map_filter_simps)
  with Cons [of "start_task t s"] show ?case by (simp add: start_tasks_def map_filter_simps split: option.split)
qed (simp add: start_tasks_def map_filter_simps)

text \<open>Dispatching a message that was counted, or one that stands for no operation.\<close>

lemma dispatch_ok:
  assumes d: "shell_dispatch tp m s = Inr s1" and b: "believed (sh_ui s) = task_operations (sh_tasks s) @ List.map_filter msg_operation (m # sh_messages s)"
    and l: "length (believed (sh_ui s)) \<le> 1"
  shows "shell_ok s1"
proof (cases "m = QuitMsg")
  case True
  then show ?thesis using assms by (auto simp: shell_dispatch_def shell_ok_def running_operations_def map_filter_simps msg_operation_def)
next
  case False
  define u where "u = (if m = ClearScreenMsg then (sh_ui s)\<lparr>ui_app := (ui_app (sh_ui s))\<lparr>ap_err := '''', ap_status := ''''\<rparr>\<rparr> else sh_ui s)"
  have bu: "believed u = believed (sh_ui s)" by (simp add: u_def believed_def)
  from d False obtain u1 ts where u1: "app_update tp m u = Inr (u1, ts)" "s1 = start_tasks ts (s\<lparr>sh_ui := u1\<rparr>)"
    by (auto simp: shell_dispatch_def Let_def u_def [symmetric] bind_result_Inr_iff)
  have k: "believed u = [k]" "task_operations (sh_tasks s) = [] \<and> List.map_filter msg_operation (sh_messages s) = []" if "msg_operation m = Some k" for k
    using b l that bu by (auto simp: map_filter_simps)
  note op = update_operations [OF u1(1) k(1)]
  have "task_operations (sh_tasks s) @ task_operations ts @ List.map_filter msg_operation (sh_messages s) = believed u1"
    using op k(2) b bu l by (cases "msg_operation m"; cases "believed u") (auto simp: map_filter_simps)
  moreover have "length (believed u1) \<le> 1" using op bu l by auto
  ultimately show ?thesis using start_tasks_fields [of ts "s\<lparr>sh_ui := u1\<rparr>"] u1(2) by (simp add: shell_ok_def running_operations_def)
qed

lemma dispatch_key_ok: "shell_dispatch tp (KeyMsg key) s = Inr s1 \<Longrightarrow> shell_ok s \<Longrightarrow> shell_ok s1"
  by (erule dispatch_ok) (simp_all add: shell_ok_def running_operations_def map_filter_simps msg_operation_def)

lemma believed_updates [simp]:
  "believed (u\<lparr>ui_world := w\<rparr>) = believed u" "believed (u\<lparr>ui_heap := h\<rparr>) = believed u"
  "believed (u\<lparr>ui_app := a\<lparr>ap_composer := c\<rparr>\<rparr>) = believed (u\<lparr>ui_app := a\<rparr>)" "believed (u\<lparr>ui_app := ui_app u\<rparr>) = believed u"
  by (simp_all add: believed_def)

lemma report_operation: "task_reports tp t w w1 m \<Longrightarrow> (case m of None \<Rightarrow> None | Some m1 \<Rightarrow> msg_operation m1) = task_operation t"
proof (induction rule: task_reports.induct)
  case (7 tp b w d w1)
  then show ?case by (cases b) (auto simp: run_background_def msg_operation_def split: prod.splits)
qed (simp_all add: msg_operation_def)

lemma live_key_cases:
  assumes "live_key tp key s = Inr s1"
  shows "shell_dispatch tp (KeyMsg key) s = Inr s1 \<or> s1 = s\<lparr>sh_running := False\<rparr>"
proof -
  define q where "q \<longleftrightarrow> (key = ''ctrl+d'' \<and> cm_value (ap_composer (ui_app (sh_ui s))) = '''') \<or> key = ''ctrl+c''"
  have "live_key tp key s = (if q then Inr (s\<lparr>sh_running := False\<rparr>)
      else bind_result (completing (ap_composer (ui_app (sh_ui s)))) (\<lambda>c. shell_dispatch tp (KeyMsg key) s))"
    unfolding live_key_def q_def ..
  with assms show ?thesis by (cases q; cases "completing (ap_composer (ui_app (sh_ui s)))") simp_all
qed

lemma shell_step_ok:
  assumes "shell_step tp s s1" and "shell_ok s"
  shows "shell_ok s1"
  using assms
proof (induction rule: shell_step.induct)
  case (answer s tx s1)
  then show ?case by (blast intro: dispatch_key_ok)
next
  case (message s m ms s1)
  then show ?case by (intro dispatch_ok [OF message(4)]) (simp_all add: shell_ok_def running_operations_def)
next
  case (line s tx s1)
  show ?case
  proof (cases "\<exists>t. tx = Some t \<and> py_strip t \<noteq> ''''")
    case True
    then obtain t where t: "tx = Some t" "py_strip t \<noteq> ''''" by blast
    have "shell_ok (s\<lparr>sh_ui := (sh_ui s)\<lparr>ui_app := (ui_app (sh_ui s))\<lparr>ap_composer := (ap_composer (ui_app (sh_ui s)))\<lparr>cm_value := t, cm_cursor := length t\<rparr>\<rparr>\<rparr>\<rparr>)"
      using line(6) by (simp add: shell_ok_def running_operations_def)
    with t line(5) show ?thesis by (auto simp: read_line_prompt_def Let_def intro: dispatch_key_ok)
  next
    case False
    then show ?thesis using line by (auto simp: read_line_prompt_def shell_ok_def running_operations_def split: option.splits)
  qed
next
  case (live s key s1)
  from live_key_cases [OF live(3)] consider "shell_dispatch tp (KeyMsg key) s = Inr s1" | "s1 = s\<lparr>sh_running := False\<rparr>" by blast
  then show ?case
  proof cases
    case 1
    then show ?thesis using live(4) by (rule dispatch_key_ok)
  next
    case 2
    then show ?thesis using live(4) by (simp add: shell_ok_def running_operations_def)
  qed
next
  case (finished s before t after w1 m)
  have "List.map_filter msg_operation (case m of None \<Rightarrow> [] | Some m1 \<Rightarrow> [m1]) = task_operations [t]"
    using report_operation [OF finished(2)] by (cases m; cases "task_operation t") (auto simp: map_filter_simps)
  moreover have "length (task_operations before @ task_operations [t] @ task_operations after @ List.map_filter msg_operation (sh_messages s)) \<le> 1"
  proof -
    have "running_operations s = task_operations before @ task_operations [t] @ task_operations after @ List.map_filter msg_operation (sh_messages s)"
      using finished(1) by (simp add: running_operations_def map_filter_simps split: option.split)
    then show ?thesis using finished(3) by (metis shell_ok_def)
  qed
  ultimately show ?case using finished(1,3)
    by (cases m; cases "task_operation t") (auto simp: shell_ok_def running_operations_def post_def map_filter_simps)
qed (auto simp: shell_ok_def running_operations_def post_def map_filter_simps msg_operation_def)

text \<open>What a composer submits has a word, so no update fails.\<close>

lemma split_ws_empty: "split_ws_acc cur s = [] \<Longrightarrow> cur = [] \<and> (\<forall>c \<in> set s. py_space c)"
proof (induction s arbitrary: cur)
  case (Cons c s)
  then show ?case by (cases "py_space c"; cases "cur = []") fastforce+
qed (simp split: if_split_asm)

lemma stripped_word: "py_strip v \<noteq> '''' \<Longrightarrow> split_ws (py_strip v) \<noteq> []"
proof
  define xs where "xs = dropWhile py_space (rev (dropWhile py_space v))"
  have s: "py_strip v = rev xs" by (simp add: py_strip_def strip_by_def xs_def)
  assume a: "py_strip v \<noteq> ''''" "split_ws (py_strip v) = []"
  have "\<forall>c \<in> set xs. py_space c" using split_ws_empty [of "[]" "py_strip v"] a(2) by (simp add: split_ws_def s)
  moreover have "xs \<noteq> []" using a(1) s by simp
  moreover have "xs \<noteq> [] \<Longrightarrow> \<not> py_space (hd xs)" unfolding xs_def by (rule hd_dropWhile)
  ultimately show False by (metis hd_in_set)
qed

lemma composer_intent_text:
  "composer_update c key = (c1, Some it) \<Longrightarrow> it_kind it = SUBMIT \<Longrightarrow> split_ws (it_text it) \<noteq> []"
  using stripped_word
  by (auto simp: composer_update_def key_escape_def key_tab_def key_up_def key_down_def key_enter_def composer_action_def Let_def
    split: if_splits prod.splits bool.splits)

lemma submitText_total: "split_ws t \<noteq> [] \<Longrightarrow> is_ok (submitText tp t u)"
  by (auto simp: submitText_def Let_def handle_command_def is_ok_iff split: list.split prod.split)

lemma update_total: "is_ok (app_update tp m u)"
proof -
  have c: "is_ok (composer_key tp key u)" for key and u :: "'a ui"
    by (auto simp: composer_key_def Let_def split: prod.split option.split intent_kind.split intro!: submitText_total dest: composer_intent_text)
  have f: "is_ok (feature_key tp key u)" for key using c by (auto simp: feature_key_def Let_def split: prod.split option.split)
  have "is_ok (updateKey tp key u)" for key
    unfolding updateKey_def Let_def by (auto simp: f split: prod.split)
  then show ?thesis by (cases m) (auto simp: app_update_def Let_def split: prod.split)
qed

text \<open>
  C19. One operation at a time. In every order of keys, answers, interrupts, notifications and finished
  commands, at most one turn, compaction or server change is running or has reported without having
  been taken in, and it is the one the interface believes is running; and no update can fail.
\<close>
theorem one_operation_at_a_time:
  assumes "shell_reachable tp s"
  shows "running_operations s = believed (sh_ui s) \<and> length (running_operations s) \<le> 1 \<and> is_ok (app_update tp m (sh_ui s))"
proof -
  from assms have "shell_ok s"
  proof induction
    case (start a w)
    then show ?case by (simp add: shell_ok_def running_operations_def new_shell_def app_init_def start_tasks_def start_task_def map_filter_simps believed_def)
  qed (rule shell_step_ok)
  then show ?thesis using update_total by (simp add: shell_ok_def)
qed

definition fresh_shell :: "unit shell" where
  "fresh_shell = new_shell (ui_app fresh_ui) ()"

definition turn_shell :: "unit shell" where
  "turn_shell = (case read_line_prompt quiet_ports (Some ''go'') (fresh_shell) of Inr s \<Rightarrow> s | Inl e \<Rightarrow> fresh_shell)"

lemma one_operation_at_a_time_witness:
  "running_operations turn_shell = [Turn] \<and> length (running_operations turn_shell) \<le> 1"
proof -
  have "shell_reachable quiet_ports fresh_shell"
    unfolding fresh_shell_def by (rule shell_reachable.start) (simp_all add: fresh_ui_def new_app_def new_commands_def)
  moreover have "shell_step quiet_ports fresh_shell turn_shell"
  proof (rule shell_step.line)
    have "is_ok (read_line_prompt quiet_ports (Some ''go'') fresh_shell)" by code_simp
    then show "read_line_prompt quiet_ports (Some ''go'') fresh_shell = Inr turn_shell"
      by (auto simp: turn_shell_def is_ok_iff)
  qed code_simp+
  ultimately have "shell_reachable quiet_ports turn_shell" by (rule shell_reachable.step)
  moreover have "running_operations turn_shell = [Turn]" by code_simp
  ultimately show ?thesis using one_operation_at_a_time [of quiet_ports turn_shell QuitMsg] by simp
qed

end
