(* ===== verification/ProjectFiles.thy ===== *)
theory ProjectFiles
  imports FileTools
begin

text \<open>
  What a directory tells the application before a session starts: the project root
  (\<open>project/project.py\<close>) and the layered instructions (\<open>app/instructions\<close>). The home directory
  is an argument; files are read through the tree and the text codecs of the workspace.
\<close>

section \<open>Questions about a path\<close>

definition exists_path :: "tree \<Rightarrow> string \<Rightarrow> bool" where
  "exists_path fs p = is_ok (stat_node fs p)"

definition isfile :: "tree \<Rightarrow> string \<Rightarrow> bool" where
  "isfile fs p = (case stat_node fs p of Inr (FileNode _ _) \<Rightarrow> True | _ \<Rightarrow> False)"

text \<open>\<open>open(path, encoding, errors=replace)\<close> in text mode: every line ending becomes a line feed.\<close>

fun universal_newlines :: "string \<Rightarrow> string" where
  "universal_newlines [] = []"
| "universal_newlines (c # cs) =
     (if c = CHR 0x0D then CHR 0x0A # (case cs of d # ds \<Rightarrow> if d = CHR 0x0A then universal_newlines ds else universal_newlines cs | [] \<Rightarrow> [])
      else c # universal_newlines cs)"

definition read_text :: "py_text \<Rightarrow> tree \<Rightarrow> string \<Rightarrow> (ws_error, string) result" where
  "read_text pt fs p = (case stat_node fs p of
       Inl e \<Rightarrow> Inl (WorkspaceOSError e)
     | Inr (FileNode content mode) \<Rightarrow> Inr (universal_newlines (pt_decode pt content))
     | Inr _ \<Rightarrow> Inl (WorkspaceOSError IsADirectoryError))"

section \<open>The project\<close>

record project =
  pj_id :: string
  pj_root :: string

definition project_directory :: "os_world \<Rightarrow> string \<Rightarrow> (ws_error, string) result" where
  "project_directory w p = bind_result (os_result (realpath (ow_tree w) (abspath (ow_cwd w) p))) (\<lambda>resolved.
     if \<not> isdir (ow_tree w) resolved then Inl (WorkspaceDirError (''project root is not a directory: '' @ p))
     else Inr (normpath resolved))"

text \<open>The loop of \<open>resolve\<close>: the first directory with a \<open>.git\<close>, or the directory it began with.\<close>

function git_root :: "tree \<Rightarrow> string \<Rightarrow> string \<Rightarrow> (ws_error, string) result" where
  "git_root fs root current = (case stat_node fs (path_join current ''.git'') of
       Inr _ \<Rightarrow> Inr current
     | Inl FileNotFoundError \<Rightarrow> if dirname current = current then Inr root else git_root fs root (dirname current)
     | Inl e \<Rightarrow> Inl (WorkspaceOSError e))"
  by pat_completeness auto
termination by (relation "measure (\<lambda>(fs, root, current). length current)") (auto dest: dirname_shorter)

declare git_root.simps [simp del]

definition resolve_project :: "os_world \<Rightarrow> string \<Rightarrow> string \<Rightarrow> (ws_error, project) result" where
  "resolve_project w explicit cwd =
     (if cwd = '''' then Inl (WorkspaceValueError ''cwd is required'')
      else let start = (if explicit = '''' then cwd else if isabs explicit then explicit else path_join cwd explicit)
        in bind_result (project_directory w start) (\<lambda>canonical.
           bind_result (if explicit = '''' then git_root (ow_tree w) canonical canonical else Inr canonical) (\<lambda>root.
             Inr \<lparr>pj_id = root, pj_root = root\<rparr>)))"

section \<open>Layered instructions\<close>

definition MAX_FILE_SIZE :: int where "MAX_FILE_SIZE = 128 * 1024"

definition USER_CONFIG_DIRECTORY :: string where "USER_CONFIG_DIRECTORY = ''.superagent''"

definition INSTRUCTION_FILES :: "string list" where "INSTRUCTION_FILES = [''AGENTS.md'', ''CLAUDE.md'']"

record instruction_source =
  is_path :: string
  is_kind :: string

record instruction_bundle =
  bd_content :: string
  bd_sources :: "instruction_source list"

definition empty_bundle :: instruction_bundle where
  "empty_bundle = \<lparr>bd_content = '''', bd_sources = []\<rparr>"

definition has_git_dir :: "tree \<Rightarrow> string \<Rightarrow> bool" where
  "has_git_dir fs d = (isdir fs (path_join d ''.git'') \<or> isfile fs (path_join d ''.git''))"

text \<open>\<open>_has_instruction_file\<close>: one name at a time; a failure other than a missing file is raised.\<close>

fun has_instruction_in :: "py_text \<Rightarrow> tree \<Rightarrow> string \<Rightarrow> string list \<Rightarrow> (ws_error, bool) result" where
  "has_instruction_in pt fs d [] = Inr False"
| "has_instruction_in pt fs d (name # names) = (case stat_node fs (path_join d name) of
       Inl FileNotFoundError \<Rightarrow> has_instruction_in pt fs d names
     | Inl e \<Rightarrow> Inl (WorkspaceValueError (''cannot check instruction file in '' @ d @ '': '' @ pt_os_error pt e))
     | Inr _ \<Rightarrow> if isdir fs (path_join d name) then has_instruction_in pt fs d names else Inr True)"

definition has_instruction_file :: "py_text \<Rightarrow> tree \<Rightarrow> string \<Rightarrow> (ws_error, bool) result" where
  "has_instruction_file pt fs d = has_instruction_in pt fs d INSTRUCTION_FILES"

text \<open>\<open>_trim_above_topmost_instruction_dir\<close>, from the top; nothing found keeps the first directory.\<close>

fun drop_bare :: "(string \<Rightarrow> (ws_error, bool) result) \<Rightarrow> string list \<Rightarrow> (ws_error, string list) result" where
  "drop_bare has [] = Inr []"
| "drop_bare has (d # ds) = bind_result (has d) (\<lambda>found. if found then Inr (d # ds) else drop_bare has ds)"

definition trim_above :: "py_text \<Rightarrow> tree \<Rightarrow> string list \<Rightarrow> (ws_error, string list) result" where
  "trim_above pt fs reversed_dirs = bind_result (drop_bare (has_instruction_file pt fs) (rev reversed_dirs)) (\<lambda>kept.
     Inr (if kept = [] then take 1 reversed_dirs else rev kept))"

text \<open>The walk from a directory to the nearest one with a \<open>.git\<close>, or to the root.\<close>

function up_to_git :: "tree \<Rightarrow> string \<Rightarrow> string list" where
  "up_to_git fs d = (if has_git_dir fs d \<or> dirname d = d then [d] else d # up_to_git fs (dirname d))"
  by pat_completeness auto
termination by (relation "measure (\<lambda>(fs, d). length d)") (auto dest: dirname_shorter)

declare up_to_git.simps [simp del]

definition start_directory :: "os_world \<Rightarrow> string \<Rightarrow> string" where
  "start_directory w cwd = (let absolute = abspath (ow_cwd w) cwd
     in if isdir (ow_tree w) absolute then absolute else dirname absolute)"

definition ancestorDirs :: "py_text \<Rightarrow> os_world \<Rightarrow> string \<Rightarrow> (ws_error, string list) result" where
  "ancestorDirs pt w cwd = bind_result (trim_above pt (ow_tree w) (up_to_git (ow_tree w) (start_directory w cwd)))
     (\<lambda>trimmed. Inr (rev trimmed))"

type_synonym layers = "(string \<times> instruction_source) list"

text \<open>\<open>_append_source\<close>: the layers so far, and whether the file contributed one.\<close>

definition append_source :: "py_text \<Rightarrow> tree \<Rightarrow> layers \<Rightarrow> string \<Rightarrow> string \<Rightarrow> (ws_error, layers \<times> bool) result" where
  "append_source pt fs ls p kind =
     (if \<not> exists_path fs p \<or> isdir fs p then Inr (ls, False)
      else case stat_node fs p of
          Inr (FileNode content mode) \<Rightarrow>
            if int (length content) > MAX_FILE_SIZE
            then Inl (WorkspaceValueError (''instruction file '' @ p @ '' is too large: '' @ dec (length content)
                   @ '' bytes exceeds '' @ dec_int MAX_FILE_SIZE @ '' bytes''))
            else bind_result (read_text pt fs p) (\<lambda>raw. let t = py_strip raw
              in if t = '''' then Inr (ls, False) else Inr (ls @ [(t, \<lparr>is_path = p, is_kind = kind\<rparr>)], True))
        | Inr _ \<Rightarrow> Inl (WorkspaceOSError IsADirectoryError)
        | Inl e \<Rightarrow> Inl (WorkspaceOSError e))"

definition append_directory :: "py_text \<Rightarrow> tree \<Rightarrow> layers \<Rightarrow> string \<Rightarrow> (ws_error, layers) result" where
  "append_directory pt fs ls d = bind_result (append_source pt fs ls (path_join d ''AGENTS.md'') ''project'') (\<lambda>(ls1, took).
     if took then Inr ls1
     else bind_result (append_source pt fs ls1 (path_join d ''CLAUDE.md'') ''claude-compat'') (\<lambda>(ls2, _). Inr ls2))"

definition bundle_of :: "layers \<Rightarrow> instruction_bundle" where
  "bundle_of ls = \<lparr>bd_content = join_with (newline # [newline]) (map fst ls), bd_sources = map snd ls\<rparr>"

definition load_instructions :: "py_text \<Rightarrow> os_world \<Rightarrow> string \<Rightarrow> string \<Rightarrow> (ws_error, instruction_bundle) result" where
  "load_instructions pt w home cwd =
     bind_result (append_source pt (ow_tree w) [] (path_join (path_join home USER_CONFIG_DIRECTORY) ''AGENTS.md'') ''user-spec'') (\<lambda>(ls, _).
     bind_result (ancestorDirs pt w cwd) (\<lambda>dirs.
     bind_result (fold_result (append_directory pt (ow_tree w)) ls dirs) (\<lambda>all. Inr (bundle_of all))))"

definition load_project_instructions :: "py_text \<Rightarrow> os_world \<Rightarrow> string \<Rightarrow> string \<Rightarrow> (ws_error, string) result" where
  "load_project_instructions pt w home directory =
     bind_result (load_instructions pt w home directory) (\<lambda>b. Inr (bd_content b))"

section \<open>What is loaded\<close>

text \<open>The layer a file gives, and the one a directory gives: \<open>CLAUDE.md\<close> where \<open>AGENTS.md\<close> says nothing.\<close>

definition file_layer :: "py_text \<Rightarrow> tree \<Rightarrow> string \<Rightarrow> string \<Rightarrow> layers" where
  "file_layer pt fs p kind = (case stat_node fs p of
       Inr (FileNode content mode) \<Rightarrow> (let t = py_strip (universal_newlines (pt_decode pt content))
         in if t = '''' then [] else [(t, \<lparr>is_path = p, is_kind = kind\<rparr>)])
     | _ \<Rightarrow> [])"

definition directory_layer :: "py_text \<Rightarrow> tree \<Rightarrow> string \<Rightarrow> layers" where
  "directory_layer pt fs d = (let own = file_layer pt fs (path_join d ''AGENTS.md'') ''project''
     in if own = [] then file_layer pt fs (path_join d ''CLAUDE.md'') ''claude-compat'' else own)"

definition within_cap :: "tree \<Rightarrow> string \<Rightarrow> bool" where
  "within_cap fs p = (case stat_node fs p of Inr (FileNode content mode) \<Rightarrow> int (length content) \<le> MAX_FILE_SIZE | _ \<Rightarrow> True)"

lemma append_source_exact:
  "append_source pt fs ls p kind = Inr (ls', took) \<Longrightarrow>
   ls' = ls @ file_layer pt fs p kind \<and> (took \<longleftrightarrow> file_layer pt fs p kind \<noteq> []) \<and> within_cap fs p"
  by (auto simp: append_source_def file_layer_def within_cap_def exists_path_def isdir_def read_text_def Let_def
      split: if_splits sum.splits node.splits)

lemma append_directory_exact:
  "append_directory pt fs ls d = Inr ls' \<Longrightarrow> ls' = ls @ directory_layer pt fs d \<and> within_cap fs (path_join d ''AGENTS.md'')"
  by (auto simp: append_directory_def directory_layer_def bind_result_Inr_iff Let_def split: prod.splits if_splits
      dest!: append_source_exact)

lemma append_directories_exact:
  "fold_result (append_directory pt fs) ls ds = Inr ls' \<Longrightarrow>
   ls' = ls @ concat (map (directory_layer pt fs) ds) \<and> list_all (\<lambda>d. within_cap fs (path_join d ''AGENTS.md'')) ds"
proof (induction ds arbitrary: ls)
  case (Cons d ds)
  then obtain mid where "append_directory pt fs ls d = Inr mid" "fold_result (append_directory pt fs) mid ds = Inr ls'"
    by (auto simp: bind_result_Inr_iff)
  with append_directory_exact [OF this(1)] Cons.IH [OF this(2)] show ?case by simp
qed simp

lemma not_a_file:
  "stat_node fs p = Inl e \<Longrightarrow> append_source pt fs ls p kind = Inr (ls, False)"
  "isdir fs p \<Longrightarrow> append_source pt fs ls p kind = Inr (ls, False)"
  by (simp_all add: append_source_def exists_path_def)

lemma bare_directory: "has_instruction_file pt fs d = Inr False \<Longrightarrow> append_directory pt fs ls d = Inr ls"
  by (auto simp: has_instruction_file_def INSTRUCTION_FILES_def append_directory_def not_a_file
      split: sum.splits os_error.splits if_splits)

lemma drop_bare_invisible:
  "drop_bare (has_instruction_file pt fs) ds = Inr kept \<Longrightarrow>
   fold_result (append_directory pt fs) ls ds = fold_result (append_directory pt fs) ls kept
   \<and> (kept = [] \<longrightarrow> list_all (\<lambda>d. has_instruction_file pt fs d = Inr False) ds)"
proof (induction ds)
  case (Cons d ds)
  then obtain found where found: "has_instruction_file pt fs d = Inr found"
    by (auto simp: bind_result_Inr_iff)
  with Cons show ?case by (cases found) (auto simp: bare_directory)
qed simp

lemma trim_invisible:
  assumes "trim_above pt fs ds = Inr kept"
  shows "fold_result (append_directory pt fs) ls (rev kept) = fold_result (append_directory pt fs) ls (rev ds)"
proof -
  from assms obtain top where top: "drop_bare (has_instruction_file pt fs) (rev ds) = Inr top"
    and kept: "kept = (if top = [] then take 1 ds else rev top)"
    by (auto simp: trim_above_def bind_result_Inr_iff)
  have same: "fold_result (append_directory pt fs) ls (rev ds) = fold_result (append_directory pt fs) ls top"
    using drop_bare_invisible [OF top] by simp
  show ?thesis
  proof (cases "top = []")
    case True
    with drop_bare_invisible [OF top] have "list_all (\<lambda>d. has_instruction_file pt fs d = Inr False) ds"
      by (simp add: list_all_iff)
    then have "fold_result (append_directory pt fs) ls (rev (take 1 ds)) = Inr ls"
      by (cases ds) (simp_all add: bare_directory)
    with True same kept show ?thesis by simp
  qed (use same kept in simp)
qed

text \<open>
  C37. What a session is instructed: a successful load has the user's file first and then, for every
  directory from the one the walk ended at (the nearest with a \<open>.git\<close>, or the root of the file
  system) down to the working directory, its \<open>AGENTS.md\<close>, or its \<open>CLAUDE.md\<close> where that is missing
  or blank; nothing else, in that order, and no \<open>AGENTS.md\<close> on the way is over the size cap. The
  directories above the topmost instruction file are trimmed before, which changes nothing: outside
  a project every file up to the root counts.
\<close>
theorem instructions_exact:
  assumes "load_instructions pt w home cwd = Inr b"
  shows "b = bundle_of (file_layer pt (ow_tree w) (path_join (path_join home ''.superagent'') ''AGENTS.md'') ''user-spec''
         @ concat (map (directory_layer pt (ow_tree w)) (rev (up_to_git (ow_tree w) (start_directory w cwd)))))
    \<and> list_all (\<lambda>d. within_cap (ow_tree w) (path_join d ''AGENTS.md'')) (up_to_git (ow_tree w) (start_directory w cwd))"
proof -
  let ?fs = "ow_tree w" and ?dirs = "up_to_git (ow_tree w) (start_directory w cwd)"
  from assms obtain ls took kept all where
    user: "append_source pt ?fs [] (path_join (path_join home ''.superagent'') ''AGENTS.md'') ''user-spec'' = Inr (ls, took)"
    and kept: "trim_above pt ?fs ?dirs = Inr kept"
    and folded: "fold_result (append_directory pt ?fs) ls (rev kept) = Inr all" and b: "b = bundle_of all"
    by (auto simp: load_instructions_def ancestorDirs_def bind_result_Inr_iff USER_CONFIG_DIRECTORY_def)
  from folded have "fold_result (append_directory pt ?fs) ls (rev ?dirs) = Inr all"
    using trim_invisible [OF kept] by simp
  from append_directories_exact [OF this] append_source_exact [OF user] b show ?thesis by (simp add: list_all_iff)
qed

definition stray_world :: os_world where
  "stray_world = \<lparr>ow_cwd = ''/'', ow_tree = [([''AGENTS.md''], FileNode ''stray'' 420), ([''h''], DirNode), ([''h'', ''p''], DirNode),
     ([''h'', ''p'', ''AGENTS.md''], FileNode '' '' 420), ([''h'', ''p'', ''CLAUDE.md''], FileNode ''own'' 420)]\<rparr>"

theorem instructions_exact_witness:
  "up_to_git (ow_tree stray_world) (start_directory stray_world ''/h/p'') = [''/h/p'', ''/h'', ''/'']
   \<and> map is_path (bd_sources (bundle_of (concat (map (directory_layer plain_text (ow_tree stray_world)) [''/'', ''/h'', ''/h/p'']))))
     = [''/AGENTS.md'', ''/h/p/CLAUDE.md'']"
proof -
  have dirs: "up_to_git (ow_tree stray_world) (start_directory stray_world ''/h/p'') = [''/h/p'', ''/h'', ''/'']" by code_simp
  have user: "file_layer plain_text (ow_tree stray_world) (path_join (path_join ''/h'' ''.superagent'') ''AGENTS.md'') ''user-spec'' = []"
    by code_simp
  have "load_instructions plain_text stray_world ''/h'' ''/h/p'' = Inr \<lparr>bd_content = ''stray'' @ [newline, newline] @ ''own'',
      bd_sources = [\<lparr>is_path = ''/AGENTS.md'', is_kind = ''project''\<rparr>, \<lparr>is_path = ''/h/p/CLAUDE.md'', is_kind = ''claude-compat''\<rparr>]\<rparr>"
    by code_simp
  from instructions_exact [OF this] have "bundle_of (concat (map (directory_layer plain_text (ow_tree stray_world)) [''/'', ''/h'', ''/h/p'']))
      = \<lparr>bd_content = ''stray'' @ [newline, newline] @ ''own'',
      bd_sources = [\<lparr>is_path = ''/AGENTS.md'', is_kind = ''project''\<rparr>, \<lparr>is_path = ''/h/p/CLAUDE.md'', is_kind = ''claude-compat''\<rparr>]\<rparr>"
    by (simp add: dirs user)
  with dirs show ?thesis by simp
qed

text \<open>The project root is the nearest ancestor with a \<open>.git\<close>, and without one the directory itself.\<close>

function ancestors :: "string \<Rightarrow> string list" where
  "ancestors d = (if dirname d = d then [d] else d # ancestors (dirname d))"
  by pat_completeness auto
termination by (relation "measure length") (auto dest: dirname_shorter)

declare ancestors.simps [simp del]

lemma git_root_nearest:
  "git_root fs root d = Inr r \<Longrightarrow>
   r = (case find (\<lambda>a. exists_path fs (path_join a ''.git'')) (ancestors d) of Some a \<Rightarrow> a | None \<Rightarrow> root)"
proof (induction fs root d rule: git_root.induct)
  case (1 fs root d)
  from 1(2) show ?case
    by (subst ancestors.simps) (auto simp: git_root.simps [of fs root d] exists_path_def dest: 1(1)
        split: sum.splits os_error.splits if_splits)
qed

end
