(* ===== verification/Extensions.thy ===== *)
theory Extensions
  imports ProjectFiles SlashCommands
begin

text \<open>
  Commands, hooks, skills and plugins (\<open>app/extensions.py\<close>), the workflows that use them
  (\<open>app/workflows.py\<close>) and the runner that puts the tool hooks around every call (\<open>toolHooks\<close> of
  \<open>app/session.py\<close>). \<open>json.loads\<close> is an argument; a dict is an association list in insertion order.
\<close>

section \<open>Names\<close>

definition MAX_EXTENSION_FILE_SIZE :: int where "MAX_EXTENSION_FILE_SIZE = 131072"

definition PROJECT_EXTENSIONS_DIRECTORY :: string where "PROJECT_EXTENSIONS_DIRECTORY = ''.superagent''"

definition HOOK_EVENTS :: "string list" where
  "HOOK_EVENTS = [''startup'', ''session_start'', ''before_turn'', ''pre_tool'', ''post_tool'', ''approval_requested'',
     ''turn_complete'', ''after_turn'', ''error'']"

definition RESERVED_COMMAND_NAMES :: "string list" where
  "RESERVED_COMMAND_NAMES = [''agent'', ''attach'', ''attachments'', ''branch'', ''build'', ''clear'', ''commands'',
     ''commit-message'', ''compact'', ''delete-session'', ''diagnostics'', ''diff'', ''export'', ''fix-ci'', ''forget'', ''fork'',
     ''help'', ''instructions'', ''mcp'', ''memory'', ''mode'', ''permissions'', ''plan'', ''plugins'', ''quit'', ''remember'', ''rename'',
     ''reset'', ''resume'', ''review'', ''sessions'', ''share'', ''skills'', ''undo'']"

record extension_settings =
  es_commands :: "(string \<times> string) list"
  es_hooks :: "(string \<times> string list) list"
  es_skills :: "string list"
  es_plugins :: "string list"

definition no_extension_settings :: extension_settings where
  "no_extension_settings = \<lparr>es_commands = [], es_hooks = [], es_skills = [], es_plugins = []\<rparr>"

record plugin_manifest =
  pm_commands :: "(string \<times> string) list"
  pm_hooks :: "(string \<times> string list) list"
  pm_skills :: "string list"

record extensions =
  ex_commands :: "(string \<times> string) list"
  ex_hooks :: "(string \<times> string list) list"
  ex_skill_prompt :: string
  ex_skills :: "string list"
  ex_plugins :: "string list"

definition no_extensions :: extensions where
  "no_extensions = \<lparr>ex_commands = [], ex_hooks = [], ex_skill_prompt = '''', ex_skills = [], ex_plugins = []\<rparr>"

text \<open>Why a start fails: a file, a value, a document that does not decode.\<close>

datatype startup_error = StartupFile ws_error | StartupValue string | StartupDecode string decode_error

definition on_files :: "(ws_error, 'a) result \<Rightarrow> (startup_error, 'a) result" where
  "on_files r = (case r of Inl e \<Rightarrow> Inl (StartupFile e) | Inr x \<Rightarrow> Inr x)"

section \<open>Files\<close>

text \<open>\<open>os.path.splitext\<close>: the last dot of the name, unless only dots precede it.\<close>

definition splitext :: "string \<Rightarrow> string \<times> string" where
  "splitext p = (let base = path_basename p; ext = rev (takeWhile (\<lambda>c. c \<noteq> CHR ''.'') (rev base));
       stem = take (length base - length ext - 1) base
     in if CHR ''.'' \<in> set base \<and> list_ex (\<lambda>c. c \<noteq> CHR ''.'') stem
        then (take (length p - length ext - 1) p, CHR ''.'' # ext) else (p, ''''))"

definition listdir :: "tree \<Rightarrow> string \<Rightarrow> (startup_error, string list) result" where
  "listdir fs p = (case follow fs [] [] (split_on CHR ''/'' p) of
       Inl FileNotFoundError \<Rightarrow> Inr []
     | Inl e \<Rightarrow> Inl (StartupFile (WorkspaceOSError e))
     | Inr d \<Rightarrow> (case node_at fs d of
           None \<Rightarrow> Inr []
         | Some DirNode \<Rightarrow> Inr (sort (child_names fs d))
         | Some _ \<Rightarrow> Inl (StartupFile (WorkspaceOSError NotADirectoryError))))"

definition readExtensionFile :: "py_text \<Rightarrow> tree \<Rightarrow> string \<Rightarrow> (startup_error, string) result" where
  "readExtensionFile pt fs p = (case stat_node fs p of
       Inr (FileNode content mode) \<Rightarrow>
         if int (length content) > MAX_EXTENSION_FILE_SIZE then Inl (StartupValue ''extension file exceeds 128 KiB'')
         else on_files (read_text pt fs p)
     | _ \<Rightarrow> on_files (read_text pt fs p))"

definition resolveConfigPath :: "string \<Rightarrow> string \<Rightarrow> string" where
  "resolveConfigPath cwd p = (if isabs p then normpath p else normpath (path_join cwd p))"

definition bare_name :: "string \<Rightarrow> string" where
  "bare_name name = removeprefix (py_strip name) ''/''"

definition cloneStringMap :: "(string \<times> string) list \<Rightarrow> (string \<times> string) list" where
  "cloneStringMap m = foldl (\<lambda>acc (name, v). dict_set acc (bare_name name) v) [] m"

definition cloneHooks :: "(string \<times> string list) list \<Rightarrow> (string \<times> string list) list" where
  "cloneHooks m = m"

fun discover_commands_in :: "py_text \<Rightarrow> tree \<Rightarrow> string \<Rightarrow> string list \<Rightarrow> (string \<times> string) list \<Rightarrow> (startup_error, (string \<times> string) list) result" where
  "discover_commands_in pt fs directory [] acc = Inr acc"
| "discover_commands_in pt fs directory (entry # entries) acc =
     (if snd (splitext entry) \<noteq> ''.md'' then discover_commands_in pt fs directory entries acc
      else bind_result (readExtensionFile pt fs (path_join directory entry)) (\<lambda>content.
        discover_commands_in pt fs directory entries (dict_set acc (fst (splitext entry)) (py_strip content))))"

definition discoverCommands :: "py_text \<Rightarrow> tree \<Rightarrow> string \<Rightarrow> (startup_error, (string \<times> string) list) result" where
  "discoverCommands pt fs directory = bind_result (listdir fs directory) (\<lambda>entries. discover_commands_in pt fs directory entries [])"

definition discoverSkills :: "tree \<Rightarrow> string \<Rightarrow> (startup_error, string list) result" where
  "discoverSkills fs directory = bind_result (listdir fs directory) (\<lambda>entries.
     Inr (filter (isfile fs) (map (\<lambda>entry. path_join (path_join directory entry) ''SKILL.md'') entries)))"

section \<open>Manifests\<close>

text \<open>\<open>jsonutil.loads\<close>: a document that is an object, then its typed decoding.\<close>

definition loads_as :: "(string \<Rightarrow> json option) \<Rightarrow> json_env \<Rightarrow> ty \<Rightarrow> string \<Rightarrow> (decode_error, pyval) result" where
  "loads_as json_loads env t s = (case json_loads s of
       None \<Rightarrow> Inl DecodeValueError
     | Some (JObject kvs) \<Rightarrow> decode env t (JObject kvs)
     | Some _ \<Rightarrow> Inl DecodeTypeError)"

definition text_of_val :: "pyval \<Rightarrow> string" where
  "text_of_val v = (case v of PStr s \<Rightarrow> s | _ \<Rightarrow> '''')"

definition texts_of_val :: "pyval \<Rightarrow> string list" where
  "texts_of_val v = (case v of PSeq vs \<Rightarrow> map text_of_val vs | _ \<Rightarrow> [])"

definition dict_of_val :: "(pyval \<Rightarrow> 'a) \<Rightarrow> pyval \<Rightarrow> (string \<times> 'a) list" where
  "dict_of_val f v = (case v of PDict kvs \<Rightarrow> map (\<lambda>(k, x). (k, f x)) kvs | _ \<Rightarrow> [])"

definition manifest_type :: ty where
  "manifest_type = TData [plain_field ''commands'' (TDict TStr) (PDict []), plain_field ''hooks'' (TDict (TSeq TStr)) (PDict []),
     plain_field ''skills'' (TSeq TStr) (PSeq [])]"

definition manifest_of :: "pyval \<Rightarrow> plugin_manifest" where
  "manifest_of v = \<lparr>pm_commands = dict_of_val text_of_val (field_of v ''commands''),
     pm_hooks = dict_of_val texts_of_val (field_of v ''hooks''), pm_skills = texts_of_val (field_of v ''skills'')\<rparr>"

text \<open>A manifest that does not parse is reported with its path; a missing attribute or an overflow passes as it is.\<close>

definition read_manifest :: "(string \<Rightarrow> json option) \<Rightarrow> json_env \<Rightarrow> string \<Rightarrow> string \<Rightarrow> (startup_error, plugin_manifest) result" where
  "read_manifest json_loads env plugin_path content = (case loads_as json_loads env manifest_type content of
       Inr v \<Rightarrow> Inr (manifest_of v)
     | Inl DecodeTypeError \<Rightarrow> Inl (StartupDecode (''decode plugin '' @ plugin_path) DecodeTypeError)
     | Inl DecodeValueError \<Rightarrow> Inl (StartupDecode (''decode plugin '' @ plugin_path) DecodeValueError)
     | Inl e \<Rightarrow> Inl (StartupDecode '''' e))"

section \<open>Loading\<close>

record loading =
  lo_commands :: "(string \<times> string) list"
  lo_hooks :: "(string \<times> string list) list"
  lo_skill_paths :: "string list"
  lo_seen_plugins :: "string list"

definition set_default :: "(string \<times> 'a) list \<Rightarrow> string \<times> 'a \<Rightarrow> (string \<times> 'a) list" where
  "set_default m kv = (if fst kv \<in> set (map fst m) then m else m @ [kv])"

definition discover_root :: "py_text \<Rightarrow> tree \<Rightarrow> loading \<Rightarrow> string \<Rightarrow> (startup_error, loading) result" where
  "discover_root pt fs st root = bind_result (discoverCommands pt fs (path_join root ''commands'')) (\<lambda>found.
     bind_result (discoverSkills fs (path_join root ''skills'')) (\<lambda>skills.
       Inr (st\<lparr>lo_commands := foldl set_default (lo_commands st) found, lo_skill_paths := lo_skill_paths st @ skills\<rparr>)))"

definition plugin_directories :: "tree \<Rightarrow> string list \<Rightarrow> string \<Rightarrow> (startup_error, string list) result" where
  "plugin_directories fs paths root = bind_result (listdir fs root) (\<lambda>entries.
     Inr (paths @ filter (isdir fs) (map (path_join root) entries)))"

fun plugin_commands :: "(string \<times> string) list \<Rightarrow> (string \<times> string) list \<Rightarrow> (startup_error, (string \<times> string) list) result" where
  "plugin_commands commands [] = Inr commands"
| "plugin_commands commands ((raw, prompt) # rest) = (let name = bare_name raw in
     if name \<in> set (map fst commands) then Inl (StartupValue (''duplicate custom command: '' @ name))
     else plugin_commands (commands @ [(name, prompt)]) rest)"

definition add_hooks :: "(string \<times> string list) list \<Rightarrow> string \<times> string list \<Rightarrow> (string \<times> string list) list" where
  "add_hooks hooks ev = dict_set hooks (fst ev) ((case map_of hooks (fst ev) of None \<Rightarrow> [] | Some cs \<Rightarrow> cs) @ snd ev)"

definition load_plugin ::
    "py_text \<Rightarrow> (string \<Rightarrow> json option) \<Rightarrow> json_env \<Rightarrow> tree \<Rightarrow> string \<Rightarrow> loading \<Rightarrow> string \<Rightarrow> (startup_error, loading) result" where
  "load_plugin pt json_loads env fs cwd st plugin_path =
     (let plugin_root = resolveConfigPath cwd plugin_path in
      if plugin_root \<in> set (lo_seen_plugins st) then Inr st
      else bind_result (readExtensionFile pt fs (path_join plugin_root ''plugin.json'')) (\<lambda>content.
        bind_result (read_manifest json_loads env plugin_path content) (\<lambda>parsed.
        bind_result (plugin_commands (lo_commands st) (pm_commands parsed)) (\<lambda>commands.
          Inr \<lparr>lo_commands = commands, lo_hooks = foldl add_hooks (lo_hooks st) (pm_hooks parsed),
             lo_skill_paths = lo_skill_paths st @ map (path_join plugin_root) (pm_skills parsed),
             lo_seen_plugins = lo_seen_plugins st @ [plugin_root]\<rparr>))))"

fun validate_commands :: "(string \<times> string) list \<Rightarrow> (startup_error, unit) result" where
  "validate_commands [] = Inr ()"
| "validate_commands ((name, prompt) # rest) =
     (if name = '''' \<or> list_ex (\<lambda>c. c \<in> set ('' '' @ [CHR 0x09, CHR 0x0A])) name
      then Inl (StartupValue (''invalid custom command name: '' @ name))
      else if name \<in> set RESERVED_COMMAND_NAMES then Inl (StartupValue (''custom command is reserved: '' @ name))
      else if py_strip prompt = '''' then Inl (StartupValue (''custom command prompt is empty: '' @ name))
      else validate_commands rest)"

fun validate_hooks :: "string list \<Rightarrow> (startup_error, unit) result" where
  "validate_hooks [] = Inr ()"
| "validate_hooks (event # rest) =
     (if event \<notin> set HOOK_EVENTS then Inl (StartupValue (''unknown hook event: '' @ event)) else validate_hooks rest)"

fun load_skills :: "py_text \<Rightarrow> tree \<Rightarrow> string \<Rightarrow> string list \<Rightarrow> (startup_error, (string \<times> string) list) result" where
  "load_skills pt fs cwd [] = Inr []"
| "load_skills pt fs cwd (skill_path # rest) =
     (let resolved = resolveConfigPath cwd skill_path;
          p = (if path_basename resolved \<noteq> ''SKILL.md'' then path_join resolved ''SKILL.md'' else resolved);
          name = path_basename (dirname p)
      in bind_result (readExtensionFile pt fs p) (\<lambda>content.
         bind_result (load_skills pt fs cwd rest) (\<lambda>others.
           Inr ((name, ''Skill: '' @ name @ [newline] @ py_strip content) # others))))"

definition loadExtensions ::
    "py_text \<Rightarrow> (string \<Rightarrow> json option) \<Rightarrow> json_env \<Rightarrow> tree \<Rightarrow> string \<Rightarrow> extension_settings \<Rightarrow> string \<Rightarrow> (startup_error, extensions) result" where
  "loadExtensions pt json_loads env fs home settings cwd =
     (let user = path_join home USER_CONFIG_DIRECTORY; own = path_join cwd PROJECT_EXTENSIONS_DIRECTORY;
          begun = \<lparr>lo_commands = cloneStringMap (es_commands settings), lo_hooks = cloneHooks (es_hooks settings),
            lo_skill_paths = es_skills settings, lo_seen_plugins = []\<rparr>
      in bind_result (fold_result (discover_root pt fs) begun [user, own]) (\<lambda>st.
         bind_result (fold_result (plugin_directories fs) (es_plugins settings) [path_join user ''plugins'', path_join own ''plugins'']) (\<lambda>plugin_paths.
         bind_result (fold_result (load_plugin pt json_loads env fs cwd) st plugin_paths) (\<lambda>loaded.
         bind_result (validate_commands (lo_commands loaded)) (\<lambda>_.
         bind_result (validate_hooks (map fst (lo_hooks loaded))) (\<lambda>_.
         bind_result (load_skills pt fs cwd (lo_skill_paths loaded)) (\<lambda>skills.
           Inr \<lparr>ex_commands = lo_commands loaded, ex_hooks = lo_hooks loaded,
              ex_skill_prompt = join_with [newline, newline] (map snd skills), ex_skills = sort (map fst skills),
              ex_plugins = sort (remdups (map path_basename (lo_seen_plugins loaded)))\<rparr>)))))))"

section \<open>Workflows\<close>

text \<open>
  The controller has the extensions and, unless tools are disabled, the registry its hooks run
  commands through; a hook is a direct call of \<open>run_command\<close>.
\<close>

definition hook_call :: "string \<Rightarrow> tool_call" where
  "hook_call command = default_tool_call\<lparr>tc_name := ''run_command'',
     tc_input := dumps_compact (JObject [(''command'', JString command)])\<rparr>"

fun run_hook_commands :: "nat \<Rightarrow> 'w registry option \<Rightarrow> 'w \<Rightarrow> string list \<Rightarrow> 'w \<times> (exc, unit) result" where
  "run_hook_commands fresh rg w [] = (w, Inr ())"
| "run_hook_commands fresh rg w (command # commands) = (case rg of
       None \<Rightarrow> (w, Inl (plain_exc fresh ValueErrorC ''hooks require tools''))
     | Some r \<Rightarrow> (case run_direct fresh r w (hook_call command) of
           (w1, Inl e) \<Rightarrow> (w1, Inl e)
         | (w1, Inr out) \<Rightarrow> run_hook_commands fresh rg w1 commands))"

definition run_hook :: "nat \<Rightarrow> 'w registry option \<Rightarrow> extensions \<Rightarrow> 'w \<Rightarrow> string \<Rightarrow> 'w \<times> (exc, unit) result" where
  "run_hook fresh rg ext w event =
     run_hook_commands fresh rg w (case map_of (ex_hooks ext) event of None \<Rightarrow> [] | Some commands \<Rightarrow> commands)"

text \<open>\<open>run_hooks\<close>: an \<open>Exception\<close> is kept for later, anything else ends the loop.\<close>

fun run_events :: "nat \<Rightarrow> 'w registry option \<Rightarrow> extensions \<Rightarrow> 'w \<Rightarrow> exc list \<Rightarrow> string list \<Rightarrow> 'w \<times> (exc, exc list) result" where
  "run_events fresh rg ext w failures [] = (w, Inr failures)"
| "run_events fresh rg ext w failures (event # events) = (case run_hook fresh rg ext w event of
       (w1, Inr _) \<Rightarrow> run_events fresh rg ext w1 failures events
     | (w1, Inl e) \<Rightarrow> if isinstance_exc e ExceptionC then run_events fresh rg ext w1 (failures @ [e]) events else (w1, Inl e))"

definition run_hooks :: "nat \<Rightarrow> 'w registry option \<Rightarrow> extensions \<Rightarrow> 'w \<Rightarrow> string list \<Rightarrow> 'w \<times> (exc, unit) result" where
  "run_hooks fresh rg ext w events = (case run_events fresh rg ext w [] events of
       (w1, Inl e) \<Rightarrow> (w1, Inl e)
     | (w1, Inr failures) \<Rightarrow> (w1, if failures = [] then Inr () else Inl (joined_error fresh (map Some failures))))"

definition wf_custom_commands :: "extensions \<Rightarrow> string list" where
  "wf_custom_commands ext = sort (map fst (ex_commands ext))"

definition arguments_marker :: string where "arguments_marker = ''$ARGUMENTS''"

definition expand_command :: "extensions \<Rightarrow> string \<Rightarrow> string \<Rightarrow> (string, string) result" where
  "expand_command ext name arguments = (case map_of (ex_commands ext) name of
       None \<Rightarrow> Inl (''unknown custom command: '' @ name)
     | Some template \<Rightarrow>
         if contains arguments_marker template then Inr (replace_every arguments_marker arguments template)
         else if py_strip arguments \<noteq> '''' then Inr (template @ [newline, newline] @ ''Arguments: '' @ arguments)
         else Inr template)"

section \<open>The hooks around a call\<close>

text \<open>\<open>toolHooks.run\<close>; before the controller is installed there is nothing to run.\<close>

definition hooked_run :: "nat \<Rightarrow> 'w registry \<Rightarrow> extensions option \<Rightarrow> 'w \<Rightarrow> tool_call \<Rightarrow> 'w \<times> (exc, string) result" where
  "hooked_run fresh rg workflows w call = (case workflows of
       None \<Rightarrow> run_direct fresh rg w call
     | Some ext \<Rightarrow> (case run_hook fresh (Some rg) ext w ''pre_tool'' of
           (w1, Inl e) \<Rightarrow> (w1, Inl e)
         | (w1, Inr _) \<Rightarrow> (case run_direct fresh rg w1 call of (w2, out) \<Rightarrow>
             (case run_hook fresh (Some rg) ext w2 ''post_tool'' of
                (w3, Inr _) \<Rightarrow> (w3, out)
              | (w3, Inl hook) \<Rightarrow> if isinstance_exc hook ExceptionC
                  then (w3, case out of Inl e \<Rightarrow> Inl e
                       | Inr result \<Rightarrow> Inr (result @ newline # ''[post_tool hook failed: '' @ exc_text hook @ '']''))
                  else (w3, Inl hook)))))"

text \<open>The queries run through the hooks, a missing runner raises.\<close>

definition workflow_query ::
    "nat \<Rightarrow> 'w registry option \<Rightarrow> extensions \<Rightarrow> 'w \<Rightarrow> tool_call \<Rightarrow> 'w \<times> (exc, string) result" where
  "workflow_query fresh rg ext w call = (case rg of
       None \<Rightarrow> (w, Inl (plain_exc fresh ValueErrorC ''workflow tools are unavailable''))
     | Some r \<Rightarrow> hooked_run fresh r (Some ext) w call)"

definition wf_git_diff :: "nat \<Rightarrow> 'w registry option \<Rightarrow> extensions \<Rightarrow> 'w \<Rightarrow> 'w \<times> (exc, string) result" where
  "wf_git_diff fresh rg ext w = workflow_query fresh rg ext w (default_tool_call\<lparr>tc_name := ''git_diff'', tc_input := ''{}''\<rparr>)"

definition wf_git_status :: "nat \<Rightarrow> 'w registry option \<Rightarrow> extensions \<Rightarrow> 'w \<Rightarrow> 'w \<times> (exc, string) result" where
  "wf_git_status fresh rg ext w = workflow_query fresh rg ext w (default_tool_call\<lparr>tc_name := ''git_status'', tc_input := ''{}''\<rparr>)"

definition wf_diagnostics :: "nat \<Rightarrow> 'w registry option \<Rightarrow> extensions \<Rightarrow> 'w \<Rightarrow> string \<Rightarrow> 'w \<times> (exc, string) result" where
  "wf_diagnostics fresh rg ext w p = workflow_query fresh rg ext w
     (default_tool_call\<lparr>tc_name := ''lsp_diagnostics'', tc_input := dumps_compact (JObject [(''path'', JString p)])\<rparr>)"

text \<open>
  The reserved names are the commands of the terminal's catalogue, and the dispatcher answers one
  more, \<open>/exit\<close>, itself.
\<close>

lemma reserved_are_catalogue: "built_in (''/'' @ name) \<longleftrightarrow> name \<in> set RESERVED_COMMAND_NAMES \<or> name = ''exit''"
  by (auto simp: built_in_def slashCommands_def RESERVED_COMMAND_NAMES_def)

section \<open>What a load guarantees\<close>

text \<open>A table that keeps every binding of another one, each name once.\<close>

definition extends_table :: "(string \<times> 'a) list \<Rightarrow> (string \<times> 'a) list \<Rightarrow> bool" where
  "extends_table m m' \<longleftrightarrow> map_of m \<subseteq>\<^sub>m map_of m' \<and> (distinct (map fst m) \<longrightarrow> distinct (map fst m'))"

lemma extends_refl [simp]: "extends_table m m"
  by (simp add: extends_table_def)

lemma extends_trans: "extends_table a b \<Longrightarrow> extends_table b c \<Longrightarrow> extends_table a c"
  by (auto simp: extends_table_def intro: map_le_trans)

lemma extends_append: "name \<notin> set (map fst m) \<Longrightarrow> extends_table m (m @ [(name, v)])"
  by (auto simp: extends_table_def map_le_def map_add_def dom_def split: option.splits dest: map_of_SomeD)

lemma set_default_extends: "extends_table m (set_default m kv)"
  by (cases kv) (auto simp: set_default_def intro: extends_append)

lemma set_defaults_extend: "extends_table m (foldl set_default m kvs)"
  by (induction kvs arbitrary: m) (auto intro: extends_trans set_default_extends)

lemma plugin_commands_extend: "plugin_commands m kvs = Inr m' \<Longrightarrow> extends_table m m'"
proof (induction m kvs rule: plugin_commands.induct)
  case (2 commands raw prompt rest)
  then have fresh: "bare_name raw \<notin> set (map fst commands)"
    and rest: "plugin_commands (commands @ [(bare_name raw, prompt)]) rest = Inr m'"
    by (auto simp: Let_def split: if_splits)
  from 2(1) [OF refl fresh rest] show ?case by (rule extends_trans [OF extends_append [OF fresh]])
qed simp

lemma discover_root_extends: "discover_root pt fs st root = Inr st' \<Longrightarrow> extends_table (lo_commands st) (lo_commands st')"
  by (auto simp: discover_root_def bind_result_Inr_iff intro: set_defaults_extend)

lemma load_plugin_extends: "load_plugin pt j env fs cwd st p = Inr st' \<Longrightarrow> extends_table (lo_commands st) (lo_commands st')"
  by (auto simp: load_plugin_def Let_def bind_result_Inr_iff split: if_splits intro: plugin_commands_extend)

lemma fold_extends:
  assumes step: "\<And>st x st'. f st x = Inr st' \<Longrightarrow> extends_table (lo_commands st) (lo_commands st')"
    and "fold_result f st xs = Inr st'"
  shows "extends_table (lo_commands st) (lo_commands st')"
  using assms(2)
proof (induction xs arbitrary: st)
  case (Cons x xs)
  then obtain mid where "f st x = Inr mid" "fold_result f mid xs = Inr st'" by (auto simp: bind_result_Inr_iff)
  from Cons.IH [OF this(2)] show ?case by (rule extends_trans [OF step [OF \<open>f st x = Inr mid\<close>]])
qed simp

lemma cloned_distinct: "distinct (map fst (cloneStringMap m))"
proof -
  have "distinct (map fst acc) \<Longrightarrow> distinct (map fst (foldl (\<lambda>acc (name, v). dict_set acc (bare_name name) v) acc m))" for acc :: "(string \<times> string) list"
    by (induction m arbitrary: acc) (auto simp: dict_set_keys)
  then show ?thesis by (simp add: cloneStringMap_def)
qed

lemma validated_commands:
  "validate_commands cs = Inr () \<longleftrightarrow> list_all (\<lambda>(name, prompt). name \<noteq> '''' \<and> list_all (\<lambda>c. c \<notin> {CHR '' '', CHR 0x09, CHR 0x0A}) name
     \<and> name \<notin> set RESERVED_COMMAND_NAMES \<and> py_strip prompt \<noteq> '''') cs"
  by (induction cs rule: validate_commands.induct) (auto simp: list_ex_iff list_all_iff)

lemma validated_hooks: "validate_hooks es = Inr () \<longleftrightarrow> list_all (\<lambda>e. e \<in> set HOOK_EVENTS) es"
  by (induction es) auto

definition command_ok :: "string \<times> string \<Rightarrow> bool" where
  "command_ok c \<longleftrightarrow> fst c \<noteq> '''' \<and> list_all (\<lambda>ch. ch \<notin> {CHR '' '', CHR 0x09, CHR 0x0A}) (fst c)
     \<and> fst c \<notin> set RESERVED_COMMAND_NAMES \<and> py_strip (snd c) \<noteq> ''''"

lemma loaded_extensions:
  assumes "loadExtensions pt j env fs home settings cwd = Inr ext"
  shows "distinct (map fst (ex_commands ext)) \<and> list_all command_ok (ex_commands ext)
    \<and> list_all (\<lambda>e. e \<in> set HOOK_EVENTS) (map fst (ex_hooks ext))
    \<and> map_of (cloneStringMap (es_commands settings)) \<subseteq>\<^sub>m map_of (ex_commands ext)"
proof -
  obtain st paths loaded where
    roots: "fold_result (discover_root pt fs) \<lparr>lo_commands = cloneStringMap (es_commands settings), lo_hooks = cloneHooks (es_hooks settings),
        lo_skill_paths = es_skills settings, lo_seen_plugins = []\<rparr>
        [path_join home USER_CONFIG_DIRECTORY, path_join cwd PROJECT_EXTENSIONS_DIRECTORY] = Inr st"
    and plugins: "fold_result (load_plugin pt j env fs cwd) st paths = Inr loaded"
    and valid: "validate_commands (lo_commands loaded) = Inr ()" "validate_hooks (map fst (lo_hooks loaded)) = Inr ()"
    and ext: "ex_commands ext = lo_commands loaded" "ex_hooks ext = lo_hooks loaded"
    using assms unfolding loadExtensions_def Let_def bind_result_Inr_iff by auto
  have "extends_table (cloneStringMap (es_commands settings)) (lo_commands st)"
    using fold_extends [OF discover_root_extends roots] by simp
  moreover have "extends_table (lo_commands st) (lo_commands loaded)" by (rule fold_extends [OF load_plugin_extends plugins])
  ultimately have "extends_table (cloneStringMap (es_commands settings)) (lo_commands loaded)" by (rule extends_trans)
  moreover from valid(1) have "list_all command_ok (lo_commands loaded)"
    by (simp add: validated_commands command_ok_def list_all_iff case_prod_unfold)
  ultimately show ?thesis using valid(2) ext cloned_distinct [of "es_commands settings"]
    by (simp add: extends_table_def validated_hooks)
qed

text \<open>What is typed after the name, as the dispatcher hands it on.\<close>

lemma py_strip_space: "py_space c \<Longrightarrow> py_strip (c # s) = py_strip s"
  by (simp add: py_strip_def strip_by_def)

lemma strip_by_idem: "strip_by p (strip_by p s) = strip_by p s"
proof -
  define a b where "a = dropWhile p s" and "b = rev (dropWhile p (rev a))"
  have "a = b @ rev (takeWhile p (rev a))"
    unfolding b_def by (metis rev_append rev_rev_ident takeWhile_dropWhile_id)
  then have hd: "\<not> p (hd b)" if "b \<noteq> []"
    using that hd_dropWhile [of p s] by (metis a_def append_is_Nil_conv hd_append2)
  have "dropWhile p b = b"
    using hd by (cases b) simp_all
  moreover have "dropWhile p (rev b) = rev b"
    by (simp add: b_def dropWhile_idem)
  ultimately show ?thesis by (simp add: strip_by_def a_def [symmetric] b_def [symmetric])
qed

lemma py_strip_idem: "py_strip (py_strip s) = py_strip s"
  by (simp add: py_strip_def strip_by_idem)

lemma typed_command:
  assumes "name \<noteq> ''''" and "list_all (\<lambda>c. \<not> py_space c) name"
  shows "split_ws ((''/'' @ name) @ '' '' @ args) = (''/'' @ name) # split_ws args"
    and "py_strip (removeprefix ((''/'' @ name) @ '' '' @ args) (''/'' @ name)) = py_strip args"
proof -
  have "py_space CHR '' ''" "\<not> py_space CHR ''/''" by code_simp+
  then show "split_ws ((''/'' @ name) @ '' '' @ args) = (''/'' @ name) # split_ws args"
    using split_ws_space [of "CHR '' ''" "''/'' @ name" args] assms by (auto simp: list_all_iff)
  show "py_strip (removeprefix ((''/'' @ name) @ '' '' @ args) (''/'' @ name)) = py_strip args"
    using py_strip_space [OF \<open>py_space CHR '' ''\<close>] by (simp add: removeprefix_def startswith_def)
qed

section \<open>Properties\<close>

text \<open>
  C38. Custom commands from the file to the prompt. What loads has every name once, none empty, blank
  inside or reserved, no blank prompt, only known hook events, and the settings' own commands as
  written there. Typing the name of a loaded command, with no white space in it, asks the model its
  template with the arguments in place of the marker or after it; but one named \<open>exit\<close>, which
  no check refuses, ends the program instead.
\<close>
theorem custom_commands_run:
  assumes "loadExtensions pt j env fs home settings cwd = Inr ext"
    and "map_of (ex_commands ext) name = Some template" and "list_all (\<lambda>c. \<not> py_space c) name"
    and "\<And>n a v. po_expand_custom_command po n a v = (expand_command ext n a, v)"
  shows "distinct (map fst (ex_commands ext)) \<and> list_all command_ok (ex_commands ext)
    \<and> list_all (\<lambda>e. e \<in> set HOOK_EVENTS) (map fst (ex_hooks ext))
    \<and> map_of (cloneStringMap (es_commands settings)) \<subseteq>\<^sub>m map_of (ex_commands ext)
    \<and> handle_command po m ((''/'' @ name) @ '' '' @ args) attachments w
      = (Inr (m, if name = ''exit'' then no_outcome\<lparr>oc_quit := True\<rparr>
           else no_outcome\<lparr>oc_prompt := (if contains arguments_marker template then replace_every arguments_marker (py_strip args) template
             else if py_strip args \<noteq> '''' then template @ [newline, newline] @ ''Arguments: '' @ py_strip args else template)\<rparr>, None), w)"
proof -
  have load: "distinct (map fst (ex_commands ext)) \<and> list_all command_ok (ex_commands ext)
      \<and> list_all (\<lambda>e. e \<in> set HOOK_EVENTS) (map fst (ex_hooks ext))
      \<and> map_of (cloneStringMap (es_commands settings)) \<subseteq>\<^sub>m map_of (ex_commands ext)"
    by (rule loaded_extensions [OF assms(1)])
  have "command_ok (name, template)" using load map_of_SomeD [OF assms(2)] by (auto simp: list_all_iff)
  then have name: "name \<noteq> ''''" "name \<notin> set RESERVED_COMMAND_NAMES" by (simp_all add: command_ok_def)
  have other: "''/'' @ name \<noteq> ''/mcp''" "''/'' @ name \<noteq> ''/compact''" using name(2) by (auto simp: RESERVED_COMMAND_NAMES_def)
  note typed = typed_command [OF name(1) assms(3), of args]
  have strip: "py_strip (py_strip args) = py_strip args" for args by (rule py_strip_idem)
  show ?thesis
  proof (cases "name = ''exit''")
    case True
    have "handle_plain po m ((''/'' @ name) @ '' '' @ args) attachments ((''/'' @ name) # split_ws args) w = (no_outcome\<lparr>oc_quit := True\<rparr>, w)"
      unfolding True by (simp add: handle_plain_def Let_def)
    with True load typed(1) show ?thesis by (simp add: handle_command_def)
  next
    case False
    with name(2) have "\<not> built_in (''/'' @ name)" by (simp only: reserved_are_catalogue simp_thms)
    then have "handle_plain po m ((''/'' @ name) @ '' '' @ args) attachments ((''/'' @ name) # split_ws args) w
        = (case expand_command ext name (py_strip args) of Inl e \<Rightarrow> (failed (''Unknown command: '' @ ''/'' @ name), w)
           | Inr expanded \<Rightarrow> (no_outcome\<lparr>oc_prompt := expanded\<rparr>, w))"
    proof -
      assume unknown: "\<not> built_in (''/'' @ name)"
      have bare: "removeprefix (''/'' @ name) ''/'' = name" by (simp add: removeprefix_def startswith_def)
      have "handle_plain po m t attachments ((''/'' @ name) # parts) w = (case po_expand_custom_command po (removeprefix (''/'' @ name) ''/'') (py_strip (removeprefix t (''/'' @ name))) w of
          (Inl e, w1) \<Rightarrow> (failed (''Unknown command: '' @ ''/'' @ name), w1)
        | (Inr expanded, w1) \<Rightarrow> (no_outcome\<lparr>oc_prompt := expanded\<rparr>, w1))" for t parts
        using handle_plain_unknown [of "(''/'' @ name) # parts" po m t attachments w] unknown other by (simp only: list.sel simp_thms)
      then show ?thesis by (simp only: typed(2) bare assms(4)) (simp split: sum.split)
    qed
    with False load typed(1) other show ?thesis by (simp add: handle_command_def expand_command_def assms(2) strip)
  qed
qed

definition exiting_settings :: extension_settings where
  "exiting_settings = no_extension_settings\<lparr>es_commands := [(''/explain '', ''Explain $ARGUMENTS''), (''exit'', ''Leave well'')]\<rparr>"

definition exiting_extensions :: extensions where
  "exiting_extensions = no_extensions\<lparr>ex_commands := [(''explain'', ''Explain $ARGUMENTS''), (''exit'', ''Leave well'')]\<rparr>"

definition expanding_ports :: "unit ports" where
  "expanding_ports = silent_ports\<lparr>po_expand_custom_command := (\<lambda>n a v. (expand_command exiting_extensions n a, v))\<rparr>"

theorem custom_commands_run_witness:
  "handle_command expanding_ports silent_commands ''/explain  it'' [] () = (Inr (silent_commands, no_outcome\<lparr>oc_prompt := ''Explain it''\<rparr>, None), ())
   \<and> handle_command expanding_ports silent_commands ''/exit  it'' [] () = (Inr (silent_commands, no_outcome\<lparr>oc_quit := True\<rparr>, None), ())"
proof -
  have load: "loadExtensions plain_text (\<lambda>_. None) sample_json_env [([''h''], DirNode)] ''/h'' exiting_settings ''/h'' = Inr exiting_extensions"
    by code_simp
  have po: "po_expand_custom_command expanding_ports n a v = (expand_command exiting_extensions n a, v)" for n a v
    by (simp add: expanding_ports_def)
  have e: "map_of (ex_commands exiting_extensions) ''explain'' = Some ''Explain $ARGUMENTS''" "list_all (\<lambda>c. \<not> py_space c) ''explain''"
    "map_of (ex_commands exiting_extensions) ''exit'' = Some ''Leave well''" "list_all (\<lambda>c. \<not> py_space c) ''exit''"
    by code_simp+
  have out: "contains arguments_marker ''Explain $ARGUMENTS''" "replace_every arguments_marker (py_strip '' it'') ''Explain $ARGUMENTS'' = ''Explain it''"
    by code_simp+
  from custom_commands_run [OF load e(1,2) po, of silent_commands "'' it''" "[]" "()"] out
    custom_commands_run [OF load e(3,4) po, of silent_commands "'' it''" "[]" "()"]
  show ?thesis by simp
qed

section \<open>The hooks\<close>

text \<open>The failures of the events, each run in the world the one before left.\<close>

fun event_failures :: "nat \<Rightarrow> 'w registry option \<Rightarrow> extensions \<Rightarrow> 'w \<Rightarrow> string list \<Rightarrow> exc list" where
  "event_failures fresh rg ext w [] = []"
| "event_failures fresh rg ext w (event # events) = (case run_hook fresh rg ext w event of
     (w1, r) \<Rightarrow> (case r of Inl e \<Rightarrow> [e] | Inr _ \<Rightarrow> []) @ event_failures fresh rg ext w1 events)"

abbreviation event_world :: "nat \<Rightarrow> 'w registry option \<Rightarrow> extensions \<Rightarrow> 'w \<Rightarrow> string list \<Rightarrow> 'w" where
  "event_world fresh rg ext w events \<equiv> foldl (\<lambda>w event. fst (run_hook fresh rg ext w event)) w events"

lemma run_hook_ordinary:
  assumes ordinary: "\<And>w call e. snd (run_direct fresh rg w call) = Inl e \<Longrightarrow> isinstance_exc e ExceptionC"
  shows "snd (run_hook fresh (Some rg) ext w event) = Inl e \<Longrightarrow> isinstance_exc e ExceptionC"
proof -
  have "snd (run_hook_commands fresh (Some rg) w cs) = Inl e \<Longrightarrow> isinstance_exc e ExceptionC" for cs
  proof (induction cs arbitrary: w)
    case (Cons c cs)
    then show ?case using ordinary [of w "hook_call c"] by (auto split: prod.splits sum.splits)
  qed simp
  then show "snd (run_hook fresh (Some rg) ext w event) = Inl e \<Longrightarrow> isinstance_exc e ExceptionC"
    by (simp add: run_hook_def)
qed

lemma run_events_all:
  assumes ordinary: "\<And>w call e. snd (run_direct fresh rg w call) = Inl e \<Longrightarrow> isinstance_exc e ExceptionC"
  shows "run_events fresh (Some rg) ext w fs events
    = (event_world fresh (Some rg) ext w events, Inr (fs @ event_failures fresh (Some rg) ext w events))"
proof (induction events arbitrary: w fs)
  case (Cons event events)
  show ?case using Cons run_hook_ordinary [OF ordinary, where ext = ext and w = w and event = event]
    by (auto split: prod.split sum.split)
qed simp

lemma run_direct_observer: "run_direct fresh (set_tool_observer rg obs) = run_direct fresh rg"
  by (intro ext) (simp add: run_direct_def set_tool_observer_def split: option.split)


text \<open>Tools that log what they are asked; a command with a \<open>!\<close> fails.\<close>

definition logging_tool :: "string \<Rightarrow> string list tool" where
  "logging_tool name = \<lparr>tl_specs = [\<lparr>ts_name = name, ts_description = '''', ts_parameters = None, ts_risky = False\<rparr>],
     tl_run = (\<lambda>w c. (w @ [tc_name c], if CHR ''!'' \<in> set (tc_input c) then Inl (plain_exc 7 RuntimeErrorC ''failed'') else Inr ''done''))\<rparr>"

definition logging_registry :: "string list registry" where
  "logging_registry = \<lparr>rg_tools = [(''run_command'', logging_tool ''run_command''), (''search'', logging_tool ''search'')],
     rg_order = [''run_command'', ''search''], rg_checkpoint = None, rg_observer = None\<rparr>"

definition logging_extensions :: extensions where
  "logging_extensions = no_extensions\<lparr>ex_hooks := [(''pre_tool'', [''a'']), (''post_tool'', [''b!'']), (''after_turn'', [''c''])]\<rparr>"

lemma logging_ordinary: "snd (run_direct fresh logging_registry v c) = Inl e \<Longrightarrow> isinstance_exc e ExceptionC"
proof -
  have "subclass_of RuntimeErrorC ExceptionC" by code_simp
  then show "snd (run_direct fresh logging_registry v c) = Inl e \<Longrightarrow> isinstance_exc e ExceptionC"
    by (auto simp: run_direct_def logging_registry_def logging_tool_def isinstance_exc_def split: if_splits)
qed


end
