(* ===== verification/Settings.thy ===== *)
theory Settings
  imports Extensions CommandTools ModelAdapters
begin

text \<open>
  Startup configuration (\<open>app/config.py\<close>) and the command line (\<open>cli.py\<close>): the settings file and
  its template, what a missing or zero field becomes, the credential of the selected provider, the
  permission mode, and the configuration a session is built from. The environment is a lookup, the
  home directory and \<open>json.loads\<close> are arguments; texts are valid UTF-8.
\<close>

section \<open>The command line\<close>

record flags =
  fl_auto_approve_tools :: bool
  fl_no_tools :: bool
  fl_permission_mode :: string
  fl_cwd :: string

definition no_flags :: flags where
  "no_flags = \<lparr>fl_auto_approve_tools = False, fl_no_tools = False, fl_permission_mode = '''', fl_cwd = ''''\<rparr>"

text \<open>A flag and whether it is boolean; the message of an error and the exit status.\<close>

definition FLAGS :: "(string \<times> bool) list" where
  "FLAGS = [(''yolo'', True), (''no-tools'', True), (''approval-mode'', False), (''cwd'', False)]"

type_synonym flag_error = "string \<times> int"

definition TRUE_VALUES :: "string list" where "TRUE_VALUES = [''1'', ''t'', ''T'', ''TRUE'', ''true'', ''True'']"

definition FALSE_VALUES :: "string list" where "FALSE_VALUES = [''0'', ''f'', ''F'', ''FALSE'', ''false'', ''False'']"

definition flag_name :: "string \<Rightarrow> string" where
  "flag_name argument = drop (if argument ! 1 = CHR ''-'' then 2 else 1) argument"

fun parse_values :: "(string \<times> string) list \<Rightarrow> string list \<Rightarrow> (flag_error, (string \<times> string) list) result" where
  "parse_values values [] = Inr values"
| "parse_values values (argument # rest) =
     (if length argument < 2 \<or> hd argument \<noteq> CHR ''-'' \<or> argument = ''--'' then Inr values
      else let spelled = flag_name argument in
        if spelled = '''' \<or> hd spelled \<in> {CHR ''-'', CHR ''=''} then Inl (''bad flag syntax: '' @ argument, 2)
        else let has_value = (CHR ''='' \<in> set (tl spelled)); name = takeWhile (\<lambda>c. c \<noteq> CHR ''='') spelled;
                 value = tl (dropWhile (\<lambda>c. c \<noteq> CHR ''='') spelled)
          in case map_of FLAGS name of
               None \<Rightarrow> if name \<in> {''help'', ''h''} then Inl ('''', 0) else Inl (''flag provided but not defined: -'' @ name, 2)
             | Some True \<Rightarrow> parse_values (dict_set values name (if has_value then value else ''true'')) rest
             | Some False \<Rightarrow> if has_value then parse_values (dict_set values name value) rest
                 else (case rest of
                     [] \<Rightarrow> Inl (''flag needs an argument: -'' @ name, 2)
                   | v # rest' \<Rightarrow> parse_values (dict_set values name v) rest'))"

definition bool_value :: "string \<Rightarrow> string \<Rightarrow> (flag_error, bool) result" where
  "bool_value value name = (if value \<in> set TRUE_VALUES then Inr True else if value \<in> set FALSE_VALUES then Inr False
     else Inl (''invalid boolean value \"'' @ value @ ''\" for -'' @ name @ '': parse error'', 2))"

definition flag_defaults :: "(string \<times> string) list" where
  "flag_defaults = map (\<lambda>(name, is_bool). (name, if is_bool then ''false'' else '''')) FLAGS"

definition value_of :: "(string \<times> string) list \<Rightarrow> string \<Rightarrow> string" where
  "value_of values name = (case map_of values name of Some v \<Rightarrow> v | None \<Rightarrow> '''')"

definition parse_flags :: "string list \<Rightarrow> (flag_error, flags) result" where
  "parse_flags argv = bind_result (parse_values flag_defaults argv) (\<lambda>values.
     bind_result (bool_value (value_of values ''yolo'') ''yolo'') (\<lambda>yolo.
     bind_result (bool_value (value_of values ''no-tools'') ''no-tools'') (\<lambda>no_tools.
       Inr \<lparr>fl_auto_approve_tools = yolo, fl_no_tools = no_tools, fl_permission_mode = value_of values ''approval-mode'',
          fl_cwd = value_of values ''cwd''\<rparr>)))"

section \<open>Settings\<close>

definition CLAUDE_PLACEHOLDER :: string where "CLAUDE_PLACEHOLDER = ''sk-ant-...''"

definition DEFAULT_PLACEHOLDER :: string where "DEFAULT_PLACEHOLDER = ''sk-...''"

definition ITEMS :: "string list" where
  "ITEMS = [''model'', ''approval'', ''context_usage'', ''session_id'', ''sandbox'', ''cwd'', ''spinner'']"

definition DEFAULT_ORDER :: "string list" where "DEFAULT_ORDER = [''model'', ''approval'', ''context_usage'']"

record agent_settings =
  as_provider :: string
  as_model :: string
  as_prompt :: string
  as_permission_mode :: string
  as_tools :: "string list"

record lsp_server_settings =
  ls_command :: string
  ls_args :: "string list"
  ls_extensions :: "string list"
  ls_language_id :: string

record mcp_server_settings =
  ms_command :: string
  ms_args :: "string list"
  ms_env :: "(string \<times> string) list"
  ms_cwd :: string
  ms_connect_timeout_seconds :: int
  ms_call_timeout_seconds :: int

record sandbox_settings =
  bx_mode :: string
  bx_cpu_seconds :: int
  bx_memory_mb :: int
  bx_max_processes :: int
  bx_max_open_files :: int

record permission_settings =
  ps_mode :: string
  ps_rules :: permission_rules

text \<open>The rule fields of the \<open>permissions\<close> block are those of \<open>permission_rules\<close>.\<close>

record settings =
  st_provider :: string
  st_providers :: "(string \<times> provider_config) list"
  st_permissions :: permission_settings
  st_sandbox :: sandbox_settings
  st_mcp_servers :: "(string \<times> mcp_server_settings) list"
  st_lsp_servers :: "(string \<times> lsp_server_settings) list"
  st_agent :: string
  st_agents :: "(string \<times> agent_settings) list"
  st_extensions :: extension_settings
  st_telemetry_log_path :: string
  st_status_line :: "string list option"

definition default_settings :: settings where
  "default_settings = \<lparr>st_provider = ''deepseek'',
     st_providers = [(''deepseek'', \<lparr>pc_base_url = ''https://api.deepseek.com'', pc_api_key = DEFAULT_PLACEHOLDER, pc_model = ''deepseek-reasoner''\<rparr>),
       (''openai'', \<lparr>pc_base_url = '''', pc_api_key = DEFAULT_PLACEHOLDER, pc_model = ''gpt-4o''\<rparr>),
       (''claude'', \<lparr>pc_base_url = '''', pc_api_key = CLAUDE_PLACEHOLDER, pc_model = ''claude-3-7-sonnet-20250219''\<rparr>)],
     st_permissions = \<lparr>ps_mode = ''ask'', ps_rules = default_rules\<lparr>network := ''deny''\<rparr>\<rparr>,
     st_sandbox = \<lparr>bx_mode = ''strict'', bx_cpu_seconds = 120, bx_memory_mb = 1024, bx_max_processes = 128, bx_max_open_files = 256\<rparr>,
     st_mcp_servers = [], st_lsp_servers = [], st_agent = ''build'', st_agents = [], st_extensions = no_extension_settings,
     st_telemetry_log_path = '''', st_status_line = Some DEFAULT_ORDER\<rparr>"

definition or_zero :: "int \<Rightarrow> int \<Rightarrow> int" where
  "or_zero v d = (if v > 0 then v else d)"

definition normalizeSettings :: "settings \<Rightarrow> settings" where
  "normalizeSettings s = (let d = st_sandbox default_settings; p = st_permissions s; b = st_sandbox s in
     s\<lparr>st_agent := or_default (st_agent s) ''build'',
       st_permissions := p\<lparr>ps_mode := or_default (ps_mode p) ''ask'',
         ps_rules := (ps_rules p)\<lparr>network := or_default (network (ps_rules p)) ''deny''\<rparr>\<rparr>,
       st_sandbox := \<lparr>bx_mode = or_default (bx_mode b) (bx_mode d), bx_cpu_seconds = or_zero (bx_cpu_seconds b) (bx_cpu_seconds d),
         bx_memory_mb = or_zero (bx_memory_mb b) (bx_memory_mb d), bx_max_processes = or_zero (bx_max_processes b) (bx_max_processes d),
         bx_max_open_files = or_zero (bx_max_open_files b) (bx_max_open_files d)\<rparr>\<rparr>)"

section \<open>Resolving\<close>

type_synonym lookup = "string \<Rightarrow> string option"

definition envTrue :: "lookup \<Rightarrow> string \<Rightarrow> bool" where
  "envTrue lookup key \<longleftrightarrow> lookup key = Some ''true''"

definition apikeyPlaceholder :: "string \<Rightarrow> string" where
  "apikeyPlaceholder provider = (if provider = ''claude'' then CLAUDE_PLACEHOLDER else DEFAULT_PLACEHOLDER)"

definition resolveProviderConfig :: "settings \<Rightarrow> string \<Rightarrow> lookup \<Rightarrow> (startup_error, provider_config) result" where
  "resolveProviderConfig s provider lookup = (case map_of (st_providers s) provider of
       None \<Rightarrow> Inl (StartupValue (''provider '' @ provider @ '' is not configured: add it to the providers map in settings.json''))
     | Some entry \<Rightarrow>
         let config = (if pc_api_key entry = apikeyPlaceholder provider then entry\<lparr>pc_api_key := ''''\<rparr> else entry);
             envKey = py_upper provider @ ''_API_KEY''
         in if pc_api_key config \<noteq> '''' then Inr config
            else case lookup envKey of
                Some value \<Rightarrow> if value \<noteq> '''' then Inr (config\<lparr>pc_api_key := value\<rparr>)
                  else Inl (StartupValue (''provider '' @ provider @ '' has no api_key: set it in settings.json or export '' @ envKey))
              | None \<Rightarrow> Inl (StartupValue (''provider '' @ provider @ '' has no api_key: set it in settings.json or export '' @ envKey)))"

fun check_items :: "string list \<Rightarrow> (startup_error, unit) result" where
  "check_items [] = Inr ()"
| "check_items (item # items) = (if item \<notin> set ITEMS then Inl (StartupValue (''invalid status line item: '' @ item)) else check_items items)"

definition resolve_status_line :: "string list option \<Rightarrow> (startup_error, string list) result" where
  "resolve_status_line items = (case items of None \<Rightarrow> Inr [] | Some its \<Rightarrow> bind_result (check_items its) (\<lambda>_. Inr its))"

text \<open>The permission mode: the flag, the settings or \<open>ask\<close>; bypass on \<open>--yolo\<close>, or on \<open>YOLO\<close> without a flag.\<close>

definition resolve_mode :: "flags \<Rightarrow> settings \<Rightarrow> lookup \<Rightarrow> (startup_error, string) result" where
  "resolve_mode fl s lookup =
     (let stated = firstNonEmpty [fl_permission_mode fl, ps_mode (st_permissions s), ''ask'']
      in if fl_auto_approve_tools fl \<and> fl_permission_mode fl \<noteq> ''''
         then Inl (StartupValue ''--yolo and --approval-mode are mutually exclusive; use --approval-mode bypass instead of --yolo'')
         else let mode = (if fl_auto_approve_tools fl \<or> (fl_permission_mode fl = '''' \<and> envTrue lookup ''YOLO'') then PERMISSION_MODE_BYPASS else stated)
           in if \<not> valid_permission_mode mode then Inl (StartupValue (''invalid permission mode: '' @ mode)) else Inr mode)"

section \<open>The settings file\<close>

text \<open>The annotations and values of the codec. A field and its default, in declaration order.\<close>

abbreviation text_field :: "string \<Rightarrow> (string \<times> bool) \<times> ty \<times> pyval option" where
  "text_field key \<equiv> plain_field key TStr (PStr '''')"

abbreviation texts_field :: "string \<Rightarrow> (string \<times> bool) \<times> ty \<times> pyval option" where
  "texts_field key \<equiv> plain_field key (TSeq TStr) (PSeq [])"

abbreviation number_field :: "string \<Rightarrow> (string \<times> bool) \<times> ty \<times> pyval option" where
  "number_field key \<equiv> plain_field key TInt (PInt 0)"

definition texts_val :: "string list \<Rightarrow> pyval" where
  "texts_val ts = PSeq (map PStr ts)"

definition dict_val :: "('a \<Rightarrow> pyval) \<Rightarrow> (string \<times> 'a) list \<Rightarrow> pyval" where
  "dict_val f kvs = PDict (map (\<lambda>(k, x). (k, f x)) kvs)"

definition provider_type :: ty where
  "provider_type = TData [text_field ''base_url'', text_field ''api_key'', text_field ''model'']"

definition provider_val :: "provider_config \<Rightarrow> pyval" where
  "provider_val c = PData [((''base_url'', False), PStr (pc_base_url c)), ((''api_key'', False), PStr (pc_api_key c)), ((''model'', False), PStr (pc_model c))]"

definition provider_of_val :: "pyval \<Rightarrow> provider_config" where
  "provider_of_val v = \<lparr>pc_base_url = str_field v ''base_url'', pc_api_key = str_field v ''api_key'', pc_model = str_field v ''model''\<rparr>"

definition permission_type :: ty where
  "permission_type = TData [text_field ''mode'', texts_field ''allow_tools'', texts_field ''deny_tools'', texts_field ''allow_command_prefixes'',
     texts_field ''deny_command_prefixes'', texts_field ''allow_paths'', texts_field ''deny_paths'', texts_field ''allow_env'',
     texts_field ''deny_env'', text_field ''network'']"

definition permission_val :: "permission_settings \<Rightarrow> pyval" where
  "permission_val p = (let r = ps_rules p in PData [((''mode'', False), PStr (ps_mode p)), ((''allow_tools'', False), texts_val (allow_tools r)),
     ((''deny_tools'', False), texts_val (deny_tools r)), ((''allow_command_prefixes'', False), texts_val (allow_prefixes r)),
     ((''deny_command_prefixes'', False), texts_val (deny_prefixes r)), ((''allow_paths'', False), texts_val (allow_paths r)),
     ((''deny_paths'', False), texts_val (deny_paths r)), ((''allow_env'', False), texts_val (allow_env r)),
     ((''deny_env'', False), texts_val (deny_env r)), ((''network'', False), PStr (network r))])"

definition texts_of :: "pyval \<Rightarrow> string \<Rightarrow> string list" where
  "texts_of v key = texts_of_val (field_of v key)"

definition permission_of_val :: "pyval \<Rightarrow> permission_settings" where
  "permission_of_val v = \<lparr>ps_mode = str_field v ''mode'', ps_rules = \<lparr>allow_tools = texts_of v ''allow_tools'', deny_tools = texts_of v ''deny_tools'',
     allow_prefixes = texts_of v ''allow_command_prefixes'', deny_prefixes = texts_of v ''deny_command_prefixes'',
     allow_paths = texts_of v ''allow_paths'', deny_paths = texts_of v ''deny_paths'', allow_env = texts_of v ''allow_env'',
     deny_env = texts_of v ''deny_env'', network = str_field v ''network''\<rparr>\<rparr>"

definition sandbox_type :: ty where
  "sandbox_type = TData [text_field ''mode'', number_field ''cpu_seconds'', number_field ''memory_mb'', number_field ''max_processes'', number_field ''max_open_files'']"

definition sandbox_val :: "sandbox_settings \<Rightarrow> pyval" where
  "sandbox_val b = PData [((''mode'', False), PStr (bx_mode b)), ((''cpu_seconds'', False), PInt (bx_cpu_seconds b)), ((''memory_mb'', False), PInt (bx_memory_mb b)),
     ((''max_processes'', False), PInt (bx_max_processes b)), ((''max_open_files'', False), PInt (bx_max_open_files b))]"

definition sandbox_of_val :: "pyval \<Rightarrow> sandbox_settings" where
  "sandbox_of_val v = \<lparr>bx_mode = str_field v ''mode'', bx_cpu_seconds = int_field v ''cpu_seconds'', bx_memory_mb = int_field v ''memory_mb'',
     bx_max_processes = int_field v ''max_processes'', bx_max_open_files = int_field v ''max_open_files''\<rparr>"

definition mcp_server_type :: ty where
  "mcp_server_type = TData [text_field ''command'', texts_field ''args'', plain_field ''env'' (TDict TStr) (PDict []), text_field ''cwd'',
     number_field ''connect_timeout_seconds'', number_field ''call_timeout_seconds'']"

definition mcp_server_val :: "mcp_server_settings \<Rightarrow> pyval" where
  "mcp_server_val m = PData [((''command'', False), PStr (ms_command m)), ((''args'', False), texts_val (ms_args m)), ((''env'', False), dict_val PStr (ms_env m)),
     ((''cwd'', False), PStr (ms_cwd m)), ((''connect_timeout_seconds'', False), PInt (ms_connect_timeout_seconds m)),
     ((''call_timeout_seconds'', False), PInt (ms_call_timeout_seconds m))]"

definition mcp_server_of_val :: "pyval \<Rightarrow> mcp_server_settings" where
  "mcp_server_of_val v = \<lparr>ms_command = str_field v ''command'', ms_args = texts_of v ''args'', ms_env = dict_of_val text_of_val (field_of v ''env''),
     ms_cwd = str_field v ''cwd'', ms_connect_timeout_seconds = int_field v ''connect_timeout_seconds'', ms_call_timeout_seconds = int_field v ''call_timeout_seconds''\<rparr>"

definition lsp_server_type :: ty where
  "lsp_server_type = TData [text_field ''command'', texts_field ''args'', texts_field ''extensions'', text_field ''language_id'']"

definition lsp_server_val :: "lsp_server_settings \<Rightarrow> pyval" where
  "lsp_server_val l = PData [((''command'', False), PStr (ls_command l)), ((''args'', False), texts_val (ls_args l)),
     ((''extensions'', False), texts_val (ls_extensions l)), ((''language_id'', False), PStr (ls_language_id l))]"

definition lsp_server_of_val :: "pyval \<Rightarrow> lsp_server_settings" where
  "lsp_server_of_val v = \<lparr>ls_command = str_field v ''command'', ls_args = texts_of v ''args'', ls_extensions = texts_of v ''extensions'', ls_language_id = str_field v ''language_id''\<rparr>"

text \<open>Every field of an agent is left out when it is empty.\<close>

abbreviation agent_field :: "string \<Rightarrow> ty \<Rightarrow> pyval \<Rightarrow> (string \<times> bool) \<times> ty \<times> pyval option" where
  "agent_field key t d \<equiv> ((key, True), t, Some d)"

definition agent_type :: ty where
  "agent_type = TData [agent_field ''provider'' TStr (PStr ''''), agent_field ''model'' TStr (PStr ''''), agent_field ''prompt'' TStr (PStr ''''),
     agent_field ''permission_mode'' TStr (PStr ''''), agent_field ''tools'' (TSeq TStr) (PSeq [])]"

definition agent_val :: "agent_settings \<Rightarrow> pyval" where
  "agent_val a = PData [((''provider'', True), PStr (as_provider a)), ((''model'', True), PStr (as_model a)), ((''prompt'', True), PStr (as_prompt a)),
     ((''permission_mode'', True), PStr (as_permission_mode a)), ((''tools'', True), texts_val (as_tools a))]"

definition agent_of_val :: "pyval \<Rightarrow> agent_settings" where
  "agent_of_val v = \<lparr>as_provider = str_field v ''provider'', as_model = str_field v ''model'', as_prompt = str_field v ''prompt'',
     as_permission_mode = str_field v ''permission_mode'', as_tools = texts_of v ''tools''\<rparr>"

definition extension_type :: ty where
  "extension_type = TData [plain_field ''commands'' (TDict TStr) (PDict []), plain_field ''hooks'' (TDict (TSeq TStr)) (PDict []),
     texts_field ''skills'', texts_field ''plugins'']"

definition extension_val :: "extension_settings \<Rightarrow> pyval" where
  "extension_val x = PData [((''commands'', False), dict_val PStr (es_commands x)), ((''hooks'', False), dict_val texts_val (es_hooks x)),
     ((''skills'', False), texts_val (es_skills x)), ((''plugins'', False), texts_val (es_plugins x))]"

definition extension_of_val :: "pyval \<Rightarrow> extension_settings" where
  "extension_of_val v = \<lparr>es_commands = dict_of_val text_of_val (field_of v ''commands''), es_hooks = dict_of_val texts_of_val (field_of v ''hooks''),
     es_skills = texts_of v ''skills'', es_plugins = texts_of v ''plugins''\<rparr>"

definition zero_permissions :: permission_settings where
  "zero_permissions = \<lparr>ps_mode = '''', ps_rules = default_rules\<rparr>"

definition zero_sandbox :: sandbox_settings where
  "zero_sandbox = \<lparr>bx_mode = '''', bx_cpu_seconds = 0, bx_memory_mb = 0, bx_max_processes = 0, bx_max_open_files = 0\<rparr>"

definition telemetry_type :: ty where
  "telemetry_type = TData [text_field ''log_path'']"

definition terminal_type :: ty where
  "terminal_type = TData [plain_field ''status_line'' (TOption (TSeq TStr)) (texts_val DEFAULT_ORDER)]"

definition status_line_val :: "string list option \<Rightarrow> pyval" where
  "status_line_val s = (case s of None \<Rightarrow> PNone | Some items \<Rightarrow> texts_val items)"

definition settings_type :: ty where
  "settings_type = TData [text_field ''provider'', plain_field ''providers'' (TDict provider_type) (PDict []),
     plain_field ''permissions'' permission_type (permission_val zero_permissions), plain_field ''sandbox'' sandbox_type (sandbox_val zero_sandbox),
     plain_field ''mcp_servers'' (TDict mcp_server_type) (PDict []), plain_field ''lsp_servers'' (TDict lsp_server_type) (PDict []),
     text_field ''agent'', plain_field ''agents'' (TDict agent_type) (PDict []),
     plain_field ''extensions'' extension_type (extension_val no_extension_settings),
     plain_field ''telemetry'' telemetry_type (PData [((''log_path'', False), PStr '''')]),
     plain_field ''tui'' terminal_type (PData [((''status_line'', False), texts_val DEFAULT_ORDER)])]"

definition settings_val :: "settings \<Rightarrow> pyval" where
  "settings_val s = PData [((''provider'', False), PStr (st_provider s)), ((''providers'', False), dict_val provider_val (st_providers s)),
     ((''permissions'', False), permission_val (st_permissions s)), ((''sandbox'', False), sandbox_val (st_sandbox s)),
     ((''mcp_servers'', False), dict_val mcp_server_val (st_mcp_servers s)), ((''lsp_servers'', False), dict_val lsp_server_val (st_lsp_servers s)),
     ((''agent'', False), PStr (st_agent s)), ((''agents'', False), dict_val agent_val (st_agents s)),
     ((''extensions'', False), extension_val (st_extensions s)),
     ((''telemetry'', False), PData [((''log_path'', False), PStr (st_telemetry_log_path s))]),
     ((''tui'', False), PData [((''status_line'', False), status_line_val (st_status_line s))])]"

definition settings_of_val :: "pyval \<Rightarrow> settings" where
  "settings_of_val v = \<lparr>st_provider = str_field v ''provider'', st_providers = dict_of_val provider_of_val (field_of v ''providers''),
     st_permissions = permission_of_val (field_of v ''permissions''), st_sandbox = sandbox_of_val (field_of v ''sandbox''),
     st_mcp_servers = dict_of_val mcp_server_of_val (field_of v ''mcp_servers''), st_lsp_servers = dict_of_val lsp_server_of_val (field_of v ''lsp_servers''),
     st_agent = str_field v ''agent'', st_agents = dict_of_val agent_of_val (field_of v ''agents''),
     st_extensions = extension_of_val (field_of v ''extensions''), st_telemetry_log_path = str_field (field_of v ''telemetry'') ''log_path'',
     st_status_line = (case field_of (field_of v ''tui'') ''status_line'' of PNone \<Rightarrow> None | x \<Rightarrow> Some (texts_of_val x))\<rparr>"

text \<open>\<open>decodeExtensions\<close>: the block once more, on its own; anything but an object gives the empty one.\<close>

definition decodeExtensions :: "(string \<Rightarrow> json option) \<Rightarrow> json_env \<Rightarrow> string \<Rightarrow> (startup_error, extension_settings) result" where
  "decodeExtensions json_loads env content = (case json_loads content of
       None \<Rightarrow> Inl (StartupDecode '''' DecodeValueError)
     | Some (JObject kvs) \<Rightarrow> (case map_of kvs ''extensions'' of
           Some (JObject block) \<Rightarrow> (case decode env extension_type (JObject block) of
               Inl e \<Rightarrow> Inl (StartupDecode '''' e) | Inr v \<Rightarrow> Inr (extension_of_val v))
         | _ \<Rightarrow> Inr no_extension_settings)
     | Some _ \<Rightarrow> Inr no_extension_settings)"

definition settings_text :: "(stamp \<Rightarrow> string) \<Rightarrow> settings \<Rightarrow> string" where
  "settings_text ft s = dumps_indented 0 (to_json_value ft (settings_val s)) @ [newline]"

definition save_settings_file :: "py_text \<Rightarrow> (stamp \<Rightarrow> string) \<Rightarrow> tree \<Rightarrow> string \<Rightarrow> settings \<Rightarrow> tree \<times> (startup_error, unit) result" where
  "save_settings_file pt ft fs p s = (case makedirs fs (path_parts (dirname p)) of
       (fs1, Inl e) \<Rightarrow> (fs1, Inl (StartupFile (WorkspaceOSError e)))
     | (fs1, Inr _) \<Rightarrow> (case replace_file fs1 p (pt_encode pt (settings_text ft s)) 384 of
           Inl e \<Rightarrow> (fs1, Inl (StartupFile (WorkspaceOSError e)))
         | Inr fs2 \<Rightarrow> (fs2, Inr ())))"

definition parse_settings :: "(string \<Rightarrow> json option) \<Rightarrow> json_env \<Rightarrow> string \<Rightarrow> (startup_error, settings) result" where
  "parse_settings json_loads env content = (case loads_as json_loads env settings_type content of
       Inl e \<Rightarrow> Inl (StartupDecode '''' e)
     | Inr v \<Rightarrow> bind_result (decodeExtensions json_loads env content) (\<lambda>x.
         Inr (normalizeSettings ((settings_of_val v)\<lparr>st_extensions := x\<rparr>))))"

definition load_settings_file ::
    "py_text \<Rightarrow> (string \<Rightarrow> json option) \<Rightarrow> json_env \<Rightarrow> (stamp \<Rightarrow> string) \<Rightarrow> tree \<Rightarrow> string \<Rightarrow> tree \<times> (startup_error, settings) result" where
  "load_settings_file pt json_loads env ft fs p = (case stat_node fs p of
       Inl FileNotFoundError \<Rightarrow> (case save_settings_file pt ft fs p default_settings of
           (fs1, Inl e) \<Rightarrow> (fs1, Inl e) | (fs1, Inr _) \<Rightarrow> (fs1, Inr default_settings))
     | _ \<Rightarrow> (fs, bind_result (on_files (read_text pt fs p)) (parse_settings json_loads env)))"

definition settings_path :: "string \<Rightarrow> string" where
  "settings_path home = path_join (path_join home USER_CONFIG_DIRECTORY) ''settings.json''"

section \<open>The configuration\<close>

text \<open>A timeout is the integer of the file; a server's configuration resolves its working directory.\<close>

record mcp_server_config =
  mc_name :: string
  mc_command :: string
  mc_args :: "string list"
  mc_env :: "(string \<times> string) list"
  mc_cwd :: string
  mc_connect_timeout :: int
  mc_call_timeout :: int

record lsp_server_config =
  lc_name :: string
  lc_command :: string
  lc_language_id :: string
  lc_root :: string
  lc_args :: "string list"
  lc_extensions :: "string list"

record config =
  cf_provider :: string
  cf_no_tools :: bool
  cf_permission_mode :: string
  cf_permission_rules :: permission_rules
  cf_sandbox :: sandbox_config
  cf_mcp_servers :: "mcp_server_config list"
  cf_lsp_servers :: "lsp_server_config list"
  cf_model_config :: provider_config
  cf_provider_configs :: "(string \<times> provider_config) list"
  cf_instructions :: instruction_bundle
  cf_instruction_sources :: "string list"
  cf_agents :: "(string \<times> agent_settings) list"
  cf_agent :: string
  cf_extensions :: extensions
  cf_telemetry_path :: string
  cf_status_line :: "string list"
  cf_project :: project
  cf_workspace :: ctx_policy
  cf_config_root :: string

definition instructionSourcePaths :: "instruction_bundle \<Rightarrow> string list" where
  "instructionSourcePaths b = map is_path (bd_sources b)"

definition server_cwd :: "string \<Rightarrow> string \<Rightarrow> string" where
  "server_cwd cwd p = (if p = '''' then cwd else if isabs p then p else path_join cwd p)"

definition mcp_config :: "string \<Rightarrow> string \<Rightarrow> mcp_server_settings \<Rightarrow> mcp_server_config" where
  "mcp_config cwd name m = \<lparr>mc_name = name, mc_command = ms_command m, mc_args = ms_args m, mc_env = ms_env m, mc_cwd = server_cwd cwd (ms_cwd m),
     mc_connect_timeout = ms_connect_timeout_seconds m, mc_call_timeout = ms_call_timeout_seconds m\<rparr>"

definition lsp_config :: "string \<Rightarrow> string \<Rightarrow> lsp_server_settings \<Rightarrow> lsp_server_config" where
  "lsp_config cwd name l = \<lparr>lc_name = name, lc_command = ls_command l, lc_language_id = ls_language_id l, lc_root = cwd,
     lc_args = ls_args l, lc_extensions = ls_extensions l\<rparr>"

definition settingsMap :: "mcp_server_config list \<Rightarrow> (string \<times> mcp_server_settings) list" where
  "settingsMap configs = foldl (\<lambda>m c. dict_set m (mc_name c) \<lparr>ms_command = mc_command c, ms_args = mc_args c, ms_env = mc_env c, ms_cwd = mc_cwd c,
     ms_connect_timeout_seconds = mc_connect_timeout c, ms_call_timeout_seconds = mc_call_timeout c\<rparr>) [] configs"

definition telemetry_path :: "string \<Rightarrow> string \<Rightarrow> string \<Rightarrow> string" where
  "telemetry_path home cwd p = (if p = '''' then path_join (path_join home USER_CONFIG_DIRECTORY) ''telemetry.jsonl''
     else if isabs p then p else path_join cwd p)"

definition assembled_config ::
    "string \<Rightarrow> flags \<Rightarrow> lookup \<Rightarrow> settings \<Rightarrow> project \<Rightarrow> ctx_policy \<Rightarrow> instruction_bundle \<Rightarrow> extensions \<Rightarrow> string \<Rightarrow> string list \<Rightarrow> provider_config \<Rightarrow> config" where
  "assembled_config home fl lookup s pj cx bundle ext mode line model =
     (let cwd = cx_cwd cx; b = st_sandbox s;
          rules = (ps_rules (st_permissions s))\<lparr>network := firstNonEmpty [network (ps_rules (st_permissions s)), ''deny'']\<rparr>
      in \<lparr>cf_provider = st_provider s, cf_no_tools = (fl_no_tools fl \<or> envTrue lookup ''NO_TOOLS''), cf_permission_mode = mode,
          cf_permission_rules = rules,
          cf_sandbox = \<lparr>sb_mode = bx_mode b, sb_workspace = cwd, sb_allow_network = (network rules = ''allow''), sb_cpu_seconds = bx_cpu_seconds b,
            sb_memory_bytes = bx_memory_mb b * 1048576, sb_max_processes = bx_max_processes b, sb_max_open_files = bx_max_open_files b\<rparr>,
          cf_mcp_servers = map (\<lambda>(name, m). mcp_config cwd name m) (sort_key fst (st_mcp_servers s)),
          cf_lsp_servers = map (\<lambda>(name, l). lsp_config cwd name l) (sort_key fst (st_lsp_servers s)),
          cf_model_config = model, cf_provider_configs = st_providers s, cf_instructions = bundle,
          cf_instruction_sources = instructionSourcePaths bundle, cf_agents = st_agents s, cf_agent = firstNonEmpty [st_agent s, ''build''],
          cf_extensions = ext, cf_telemetry_path = telemetry_path home cwd (st_telemetry_log_path s), cf_status_line = line,
          cf_project = pj, cf_workspace = cx, cf_config_root = pj_root pj\<rparr>)"

definition config_from ::
    "py_text \<Rightarrow> (string \<Rightarrow> json option) \<Rightarrow> json_env \<Rightarrow> string \<Rightarrow> os_world \<Rightarrow> flags \<Rightarrow> lookup \<Rightarrow> settings \<Rightarrow> (startup_error, config) result" where
  "config_from pt json_loads env home w fl lookup s =
     bind_result (on_files (resolve_project w (fl_cwd fl) (ow_cwd w))) (\<lambda>pj.
     bind_result (on_files (new_default_context w (pj_root pj))) (\<lambda>cx.
     bind_result (on_files (load_instructions pt w home (cx_cwd cx))) (\<lambda>bundle.
     bind_result (loadExtensions pt json_loads env (ow_tree w) home (st_extensions s) (cx_cwd cx)) (\<lambda>ext.
     bind_result (resolve_mode fl s lookup) (\<lambda>mode.
     bind_result (if valid_sandbox_mode (bx_mode (st_sandbox s)) then Inr ()
       else Inl (StartupValue (''invalid sandbox mode: '' @ bx_mode (st_sandbox s)))) (\<lambda>_.
     bind_result (resolve_status_line (st_status_line s)) (\<lambda>line.
     bind_result (resolveProviderConfig s (st_provider s) lookup) (\<lambda>model.
       Inr (assembled_config home fl lookup s pj cx bundle ext mode line model)))))))))"

definition load_config ::
    "py_text \<Rightarrow> (string \<Rightarrow> json option) \<Rightarrow> json_env \<Rightarrow> (stamp \<Rightarrow> string) \<Rightarrow> string \<Rightarrow> os_world \<Rightarrow> flags \<Rightarrow> lookup
     \<Rightarrow> tree \<times> (startup_error, config) result" where
  "load_config pt json_loads env ft home w fl lookup =
     (case load_settings_file pt json_loads env ft (ow_tree w) (settings_path home) of
        (fs1, Inl e) \<Rightarrow> (fs1, Inl e)
      | (fs1, Inr s) \<Rightarrow> (fs1, config_from pt json_loads env home (w\<lparr>ow_tree := fs1\<rparr>) fl lookup s))"

section \<open>What the codec keeps\<close>

lemma texts_val_back [simp]: "texts_of_val (texts_val ts) = ts"
  by (simp add: texts_of_val_def texts_val_def text_of_val_def comp_def)

lemma text_val_back [simp]: "text_of_val (PStr t) = t"
  by (simp add: text_of_val_def)

lemma dict_val_back: "(\<And>x. g (f x) = x) \<Longrightarrow> dict_of_val g (dict_val f kvs) = kvs"
  by (simp add: dict_of_val_def dict_val_def case_prod_unfold comp_def)

lemmas field_defs = str_field_def int_field_def texts_of_def field_of_def

lemma server_vals_back [simp]:
  "provider_of_val (provider_val c) = c" "permission_of_val (permission_val p) = p" "sandbox_of_val (sandbox_val b) = b"
  "lsp_server_of_val (lsp_server_val l) = l" "agent_of_val (agent_val a) = a"
  by (simp_all add: provider_of_val_def provider_val_def permission_of_val_def permission_val_def sandbox_of_val_def sandbox_val_def
      lsp_server_of_val_def lsp_server_val_def agent_of_val_def agent_val_def field_defs Let_def)

lemma mcp_server_val_back [simp]: "mcp_server_of_val (mcp_server_val m) = m"
  by (simp add: mcp_server_of_val_def mcp_server_val_def field_defs dict_val_back)

lemma extension_val_back [simp]: "extension_of_val (extension_val x) = x"
  by (simp add: extension_of_val_def extension_val_def field_defs dict_val_back)

lemma settings_val_back [simp]: "settings_of_val (settings_val s) = s"
proof -
  have line: "(case status_line_val t of PNone \<Rightarrow> None | x \<Rightarrow> Some (texts_of_val x)) = t" for t
    by (cases t) (simp_all add: status_line_val_def texts_val_def texts_of_val_def text_of_val_def comp_def)
  show ?thesis
    by (simp add: settings_of_val_def settings_val_def str_field_def field_of_def line dict_val_back)
qed

text \<open>Dicts in key order, as the file has them; every field type is well formed.\<close>

definition sorted_table :: "(string \<times> 'a) list \<Rightarrow> bool" where
  "sorted_table kvs \<longleftrightarrow> sorted (map fst kvs)"

definition file_order :: "settings \<Rightarrow> bool" where
  "file_order s \<longleftrightarrow> sorted_table (st_providers s) \<and> sorted_table (st_mcp_servers s) \<and> list_all (\<lambda>m. sorted_table (ms_env (snd m))) (st_mcp_servers s)
     \<and> sorted_table (st_lsp_servers s) \<and> sorted_table (st_agents s)
     \<and> sorted_table (es_commands (st_extensions s)) \<and> sorted_table (es_hooks (st_extensions s))"

lemma storable_texts [simp]: "storable env ft (TSeq TStr) (texts_val ts)"
  by (simp add: texts_val_def list_all_iff)

lemma storable_dict: "storable env ft (TDict t) (dict_val f kvs) \<longleftrightarrow> sorted_table kvs \<and> list_all (\<lambda>kv. storable env ft t (f (snd kv))) kvs"
  by (simp add: dict_val_def sorted_table_def list_all_iff case_prod_unfold comp_def)

lemma storable_text_dict: "storable env ft (TDict TStr) (dict_val PStr kvs) \<longleftrightarrow> sorted_table kvs"
  by (simp add: storable_dict list_all_iff del: storable.simps(2,3))

lemma zero_texts: "is_zero (texts_val ts) \<longleftrightarrow> ts = []"
  by (simp add: texts_val_def)

lemma storable_servers [simp]:
  "storable env ft provider_type (provider_val c)" "storable env ft permission_type (permission_val p)" "storable env ft sandbox_type (sandbox_val b)"
  "storable env ft lsp_server_type (lsp_server_val l)" "storable env ft agent_type (agent_val a)"
  by (simp_all add: provider_type_def provider_val_def permission_type_def permission_val_def sandbox_type_def sandbox_val_def
      lsp_server_type_def lsp_server_val_def agent_type_def agent_val_def Let_def zero_texts texts_val_def list_all_iff)

lemma storable_mcp: "storable env ft mcp_server_type (mcp_server_val m) \<longleftrightarrow> sorted_table (ms_env m)"
  by (simp add: mcp_server_type_def mcp_server_val_def storable_text_dict del: storable.simps(2,3))

lemma storable_extension:
  "storable env ft extension_type (extension_val x) \<longleftrightarrow> sorted_table (es_commands x) \<and> sorted_table (es_hooks x)"
  by (simp add: extension_type_def extension_val_def storable_text_dict storable_dict list_all_iff del: storable.simps(2,3))

lemma storable_settings: "file_order s \<Longrightarrow> storable env ft settings_type (settings_val s)"
  by (simp add: settings_type_def settings_val_def file_order_def storable_dict storable_mcp storable_extension telemetry_type_def terminal_type_def
      status_line_val_def list_all_iff del: storable.simps(2,3) split: option.split)

section \<open>Properties\<close>

lemma normalize_idem: "normalizeSettings (normalizeSettings s) = normalizeSettings s"
  by (simp add: normalizeSettings_def Let_def or_default_def or_zero_def default_settings_def)

lemma normalize_default: "normalizeSettings default_settings = default_settings"
  by (simp add: normalizeSettings_def Let_def or_default_def or_zero_def default_settings_def)

lemma settings_types_ok: "ty_ok settings_type" "ty_ok extension_type"
  by code_simp+

lemma written_extensions:
  "to_json_value ft (settings_val s) = JObject kvs \<Longrightarrow> map_of kvs ''extensions'' = Some (to_json_value ft (extension_val (st_extensions s)))"
  by (auto simp: settings_val_def)

lemma written_is_object: "\<exists>kvs. to_json_value ft (settings_val s) = JObject kvs"
  by (simp add: settings_val_def)

text \<open>
  C40. The settings file. Settings whose tables are in key order, written and read again, come back
  as they were but for what normalization fills in: an empty mode, network or agent, and every
  sandbox limit that is not positive, also one the file states. Filling in once is enough, the
  template needs none, and afterwards every limit is positive.
\<close>
theorem settings_file_roundtrip:
  assumes "file_order s" and "json_loads (settings_text ft s) = Some (to_json_value ft (settings_val s))"
  shows "parse_settings json_loads env (settings_text ft s) = Inr (normalizeSettings s)
    \<and> normalizeSettings (normalizeSettings s) = normalizeSettings s \<and> normalizeSettings default_settings = default_settings
    \<and> (let b = st_sandbox (normalizeSettings s) in bx_cpu_seconds b > 0 \<and> bx_memory_mb b > 0 \<and> bx_max_processes b > 0 \<and> bx_max_open_files b > 0)"
proof -
  obtain kvs where kvs: "to_json_value ft (settings_val s) = JObject kvs" using written_is_object by blast
  have settings: "decode env settings_type (JObject kvs) = Inr (settings_val s)"
    using decode_encoded [OF settings_types_ok(1) storable_settings [OF assms(1)], of env ft] by (simp only: kvs)
  have block: "map_of kvs ''extensions'' = Some (to_json_value ft (extension_val (st_extensions s)))" by (rule written_extensions [OF kvs])
  have "storable env ft extension_type (extension_val (st_extensions s))" using assms(1) by (simp add: file_order_def storable_extension)
  from decode_encoded [OF settings_types_ok(2) this]
  have "decode env extension_type (to_json_value ft (extension_val (st_extensions s))) = Inr (extension_val (st_extensions s))" .
  moreover have "\<exists>b. to_json_value ft (extension_val (st_extensions s)) = JObject b" by (simp add: extension_val_def)
  ultimately have ext: "decodeExtensions json_loads env (settings_text ft s) = Inr (st_extensions s)"
    using assms(2) by (auto simp: decodeExtensions_def kvs block)
  have "loads_as json_loads env settings_type (settings_text ft s) = Inr (settings_val s)"
    using assms(2) settings by (simp add: loads_as_def kvs)
  then have "parse_settings json_loads env (settings_text ft s) = Inr (normalizeSettings s)"
    by (simp add: parse_settings_def ext)
  moreover have "let b = st_sandbox (normalizeSettings s) in bx_cpu_seconds b > 0 \<and> bx_memory_mb b > 0 \<and> bx_max_processes b > 0 \<and> bx_max_open_files b > 0"
    by (simp add: normalizeSettings_def Let_def or_zero_def default_settings_def)
  ultimately show ?thesis using normalize_idem normalize_default by blast
qed

definition sample_settings :: settings where
  "sample_settings = default_settings\<lparr>st_providers := [(''claude'', \<lparr>pc_base_url = '''', pc_api_key = ''k'', pc_model = ''''\<rparr>)],
     st_sandbox := \<lparr>bx_mode = ''off'', bx_cpu_seconds = 0, bx_memory_mb = 64, bx_max_processes = -1, bx_max_open_files = 16\<rparr>,
     st_agents := [(''a'', \<lparr>as_provider = '''', as_model = '''', as_prompt = ''p'', as_permission_mode = '''', as_tools = []\<rparr>)]\<rparr>"

definition sample_loads :: "string \<Rightarrow> json option" where
  "sample_loads s = (if s = settings_text (\<lambda>_. '''') sample_settings then Some (to_json_value (\<lambda>_. '''') (settings_val sample_settings)) else None)"

theorem settings_file_roundtrip_witness:
  "\<exists>s. parse_settings sample_loads sample_json_env (settings_text (\<lambda>_. '''') sample_settings) = Inr s
     \<and> st_sandbox s = \<lparr>bx_mode = ''off'', bx_cpu_seconds = 120, bx_memory_mb = 64, bx_max_processes = 128, bx_max_open_files = 16\<rparr>"
proof -
  have "file_order sample_settings" by code_simp
  moreover have "sample_loads (settings_text (\<lambda>_. '''') sample_settings) = Some (to_json_value (\<lambda>_. '''') (settings_val sample_settings))"
    by (simp only: sample_loads_def simp_thms if_True)
  ultimately have "parse_settings sample_loads sample_json_env (settings_text (\<lambda>_. '''') sample_settings) = Inr (normalizeSettings sample_settings)"
    using settings_file_roundtrip by blast
  moreover have "st_sandbox (normalizeSettings sample_settings)
      = \<lparr>bx_mode = ''off'', bx_cpu_seconds = 120, bx_memory_mb = 64, bx_max_processes = 128, bx_max_open_files = 16\<rparr>"
    by code_simp
  ultimately show ?thesis by blast
qed

lemma assembled_fields:
  "cf_permission_mode (assembled_config home fl lookup s pj cx bundle ext mode line model) = mode"
  "cf_model_config (assembled_config home fl lookup s pj cx bundle ext mode line model) = model"
  "sb_mode (cf_sandbox (assembled_config home fl lookup s pj cx bundle ext mode line model)) = bx_mode (st_sandbox s)"
  "cf_provider (assembled_config home fl lookup s pj cx bundle ext mode line model) = st_provider s"
  "cf_provider_configs (assembled_config home fl lookup s pj cx bundle ext mode line model) = st_providers s"
  "cf_agents (assembled_config home fl lookup s pj cx bundle ext mode line model) = st_agents s"
  "sb_allow_network (cf_sandbox (assembled_config home fl lookup s pj cx bundle ext mode line model))
     \<longleftrightarrow> network (cf_permission_rules (assembled_config home fl lookup s pj cx bundle ext mode line model)) = ''allow''"
  by (simp_all add: assembled_config_def Let_def)

lemma config_from_parts:
  assumes "config_from pt j env home w fl lookup s = Inr cfg"
  shows "resolve_mode fl s lookup = Inr (cf_permission_mode cfg)" and "resolveProviderConfig s (st_provider s) lookup = Inr (cf_model_config cfg)"
    and "valid_sandbox_mode (bx_mode (st_sandbox s))" and "sb_mode (cf_sandbox cfg) = bx_mode (st_sandbox s)"
    and "cf_provider cfg = st_provider s" and "cf_provider_configs cfg = st_providers s" and "cf_agents cfg = st_agents s"
    and "sb_allow_network (cf_sandbox cfg) \<longleftrightarrow> network (cf_permission_rules cfg) = ''allow''"
proof -
  obtain pj cx bd ext mode u line model where mode: "resolve_mode fl s lookup = Inr mode"
    and valid: "(if valid_sandbox_mode (bx_mode (st_sandbox s)) then Inr () else Inl (StartupValue (''invalid sandbox mode: '' @ bx_mode (st_sandbox s)))) = Inr u"
    and model: "resolveProviderConfig s (st_provider s) lookup = Inr model"
    and cfg: "(Inr (assembled_config home fl lookup s pj cx bd ext mode line model) :: (startup_error, config) result) = Inr cfg"
    using assms unfolding config_from_def bind_result_Inr_iff by (elim exE conjE) (rule that, assumption+)
  from valid show "valid_sandbox_mode (bx_mode (st_sandbox s))" by (rule contrapos_pp) simp
  from cfg have c: "cfg = assembled_config home fl lookup s pj cx bd ext mode line model" by simp
  from mode model show "resolve_mode fl s lookup = Inr (cf_permission_mode cfg)" "resolveProviderConfig s (st_provider s) lookup = Inr (cf_model_config cfg)"
    by (simp_all only: c assembled_fields)
  show "sb_mode (cf_sandbox cfg) = bx_mode (st_sandbox s)" "cf_provider cfg = st_provider s" "cf_provider_configs cfg = st_providers s"
    "cf_agents cfg = st_agents s" "sb_allow_network (cf_sandbox cfg) \<longleftrightarrow> network (cf_permission_rules cfg) = ''allow''"
    by (simp_all only: c assembled_fields)
qed

lemma resolve_mode_exact:
  "resolve_mode fl s lookup = Inr mode \<Longrightarrow> valid_permission_mode mode
     \<and> (fl_permission_mode fl \<noteq> '''' \<longrightarrow> mode = fl_permission_mode fl)
     \<and> (mode = PERMISSION_MODE_BYPASS \<longleftrightarrow> fl_auto_approve_tools fl \<or> fl_permission_mode fl = PERMISSION_MODE_BYPASS
         \<or> (fl_permission_mode fl = '''' \<and> (envTrue lookup ''YOLO'' \<or> ps_mode (st_permissions s) = PERMISSION_MODE_BYPASS)))"
  by (auto simp: resolve_mode_def Let_def firstNonEmpty_def PERMISSION_MODE_BYPASS_def split: if_splits)

definition unset_key :: "string \<Rightarrow> provider_config \<Rightarrow> bool" where
  "unset_key provider entry \<longleftrightarrow> pc_api_key entry \<in> {'''', apikeyPlaceholder provider}"

lemma resolve_provider_cases:
  "map_of (st_providers s) provider = Some entry \<Longrightarrow> resolveProviderConfig s provider lookup =
     (if \<not> unset_key provider entry then Inr entry
      else case lookup (py_upper provider @ ''_API_KEY'') of
          None \<Rightarrow> Inl (StartupValue (''provider '' @ provider @ '' has no api_key: set it in settings.json or export '' @ py_upper provider @ ''_API_KEY''))
        | Some v \<Rightarrow> if v = '''' then Inl (StartupValue (''provider '' @ provider @ '' has no api_key: set it in settings.json or export '' @ py_upper provider @ ''_API_KEY''))
            else Inr (entry\<lparr>pc_api_key := v\<rparr>))"
  by (cases entry) (auto simp: resolveProviderConfig_def Let_def unset_key_def split: option.split)

lemma resolve_provider_exact:
  assumes "resolveProviderConfig s provider lookup = Inr c"
  shows "pc_api_key c \<noteq> ''''" and "\<exists>entry. map_of (st_providers s) provider = Some entry
     \<and> c = entry\<lparr>pc_api_key := pc_api_key c\<rparr>
     \<and> (if unset_key provider entry then lookup (py_upper provider @ ''_API_KEY'') = Some (pc_api_key c) else pc_api_key c = pc_api_key entry)"
proof -
  obtain entry where e: "map_of (st_providers s) provider = Some entry"
    using assms by (cases "map_of (st_providers s) provider") (simp_all add: resolveProviderConfig_def)
  have "pc_api_key c \<noteq> '''' \<and> c = entry\<lparr>pc_api_key := pc_api_key c\<rparr>
     \<and> (if unset_key provider entry then lookup (py_upper provider @ ''_API_KEY'') = Some (pc_api_key c) else pc_api_key c = pc_api_key entry)"
  proof (cases "unset_key provider entry")
    case False
    with assms e have "c = entry" by (simp add: resolve_provider_cases)
    with False show ?thesis by (simp add: unset_key_def)
  next
    case True
    with assms e obtain v where "lookup (py_upper provider @ ''_API_KEY'') = Some v" "v \<noteq> ''''" "c = entry\<lparr>pc_api_key := v\<rparr>"
      by (auto simp: resolve_provider_cases split: option.splits if_splits)
    with True show ?thesis by simp
  qed
  with e show "pc_api_key c \<noteq> ''''" and "\<exists>entry. map_of (st_providers s) provider = Some entry
     \<and> c = entry\<lparr>pc_api_key := pc_api_key c\<rparr>
     \<and> (if unset_key provider entry then lookup (py_upper provider @ ''_API_KEY'') = Some (pc_api_key c) else pc_api_key c = pc_api_key entry)"
    by blast+
qed

text \<open>
  C18. What a configuration that loads is safe in. The selected provider has a credential: the one the
  settings state unless it is empty or the template's placeholder, and then the environment's.
  Prompts are bypassed only by \<open>--yolo\<close>, by the mode flag, or, without a mode flag, by \<open>YOLO\<close> in the
  environment (which a file \<open>.env\<close> supplies) or by the settings; a mode flag decides alone; commands
  run outside the sandbox only where the settings say \<open>off\<close>; and the network is open to them only
  where the rules say \<open>allow\<close>.
\<close>
theorem configuration_safe:
  assumes "load_config pt json_loads env ft home w fl lookup = (fs1, Inr cfg)"
  shows "\<exists>s. snd (load_settings_file pt json_loads env ft (ow_tree w) (settings_path home)) = Inr s
    \<and> pc_api_key (cf_model_config cfg) \<noteq> ''''
    \<and> (\<exists>entry. map_of (st_providers s) (cf_provider cfg) = Some entry \<and> cf_model_config cfg = entry\<lparr>pc_api_key := pc_api_key (cf_model_config cfg)\<rparr>
        \<and> (if unset_key (cf_provider cfg) entry
           then lookup (py_upper (cf_provider cfg) @ ''_API_KEY'') = Some (pc_api_key (cf_model_config cfg))
           else pc_api_key (cf_model_config cfg) = pc_api_key entry))
    \<and> valid_permission_mode (cf_permission_mode cfg)
    \<and> (fl_permission_mode fl \<noteq> '''' \<longrightarrow> cf_permission_mode cfg = fl_permission_mode fl)
    \<and> (cf_permission_mode cfg = PERMISSION_MODE_BYPASS \<longleftrightarrow> fl_auto_approve_tools fl \<or> fl_permission_mode fl = PERMISSION_MODE_BYPASS
         \<or> (fl_permission_mode fl = '''' \<and> (envTrue lookup ''YOLO'' \<or> ps_mode (st_permissions s) = PERMISSION_MODE_BYPASS)))
    \<and> (sb_mode (cf_sandbox cfg) = SANDBOX_MODE_STRICT \<or> sb_mode (cf_sandbox cfg) = SANDBOX_MODE_OFF \<and> bx_mode (st_sandbox s) = SANDBOX_MODE_OFF)
    \<and> (sb_allow_network (cf_sandbox cfg) \<longleftrightarrow> network (cf_permission_rules cfg) = ''allow'')"
proof -
  from assms obtain s where s: "load_settings_file pt json_loads env ft (ow_tree w) (settings_path home) = (fs1, Inr s)"
    and c: "config_from pt json_loads env home (w\<lparr>ow_tree := fs1\<rparr>) fl lookup s = Inr cfg"
    by (auto simp: load_config_def split: prod.splits sum.splits)
  note parts = config_from_parts [OF c]
  have "sb_mode (cf_sandbox cfg) = SANDBOX_MODE_STRICT \<or> sb_mode (cf_sandbox cfg) = SANDBOX_MODE_OFF \<and> bx_mode (st_sandbox s) = SANDBOX_MODE_OFF"
    using parts(3,4) by (auto simp: valid_sandbox_mode_def)
  moreover have "snd (load_settings_file pt json_loads env ft (ow_tree w) (settings_path home)) = Inr s" by (simp only: s snd_conv)
  moreover note m = resolve_mode_exact [OF parts(1)]
  note m [THEN conjunct1] and m [THEN conjunct2, THEN conjunct1] and m [THEN conjunct2, THEN conjunct2]
  moreover note resolve_provider_exact [OF parts(2), folded parts(5)] and parts(8)
  ultimately show ?thesis using m by (intro exI [of _ s] conjI) (assumption | elim conjE, assumption)+
qed

definition bare_world :: os_world where
  "bare_world = \<lparr>ow_cwd = ''/p'', ow_tree = [([''h''], DirNode), ([''p''], DirNode)]\<rparr>"

definition yolo_env :: lookup where
  "yolo_env name = (if name = ''DEEPSEEK_API_KEY'' then Some ''k'' else if name = ''YOLO'' then Some ''true'' else None)"

theorem configuration_safe_witness:
  "\<exists>fs1 cfg. load_config plain_text (\<lambda>_. None) sample_json_env (\<lambda>_. '''') ''/h'' bare_world no_flags yolo_env = (fs1, Inr cfg)
     \<and> ps_mode (st_permissions default_settings) = ''ask'' \<and> cf_permission_mode cfg = PERMISSION_MODE_BYPASS \<and> pc_api_key (cf_model_config cfg) \<noteq> ''''"
proof -
  let ?out = "load_config plain_text (\<lambda>_. None) sample_json_env (\<lambda>_. '''') ''/h'' bare_world no_flags yolo_env"
  have "is_ok (snd ?out)" by code_simp
  then obtain fs1 cfg where out: "?out = (fs1, Inr cfg)" by (cases ?out) (auto simp: is_ok_iff)
  from configuration_safe [OF out] have "pc_api_key (cf_model_config cfg) \<noteq> ''''" and "cf_permission_mode cfg = PERMISSION_MODE_BYPASS"
    by (auto simp: envTrue_def yolo_env_def no_flags_def)
  moreover have "ps_mode (st_permissions default_settings) = ''ask''" by (simp add: default_settings_def)
  ultimately show ?thesis using out by blast
qed

section \<open>Flags\<close>

text \<open>A spelling of flags: one or two dashes, a boolean alone or with its value, a value apart or joined.\<close>

definition spelled_flags :: "bool \<Rightarrow> bool \<Rightarrow> flags \<Rightarrow> string list" where
  "spelled_flags twice joined fl = (let d = (if twice then ''--'' else ''-'');
       value = (\<lambda>name v. if joined then [d @ name @ ''='' @ v] else [d @ name, v]);
       switch = (\<lambda>name b. if b then [d @ name] else if joined then [d @ name @ ''=false''] else [])
     in switch ''yolo'' (fl_auto_approve_tools fl) @ value ''cwd'' (fl_cwd fl) @ switch ''no-tools'' (fl_no_tools fl)
        @ value ''approval-mode'' (fl_permission_mode fl))"

definition positional :: "string list \<Rightarrow> bool" where
  "positional rest \<longleftrightarrow> (case rest of [] \<Rightarrow> True | a # as \<Rightarrow> length a < 2 \<or> hd a \<noteq> CHR ''-'' \<or> a = ''--'')"

lemma parse_positional: "positional rest \<Longrightarrow> parse_values values rest = Inr values"
  by (cases rest) (auto simp: positional_def)

lemma parse_joined:
  assumes "map_of FLAGS name = Some b" and "name \<noteq> ''''" and "hd name \<notin> {CHR ''-'', CHR ''=''}" and "CHR ''='' \<notin> set name"
  shows "parse_values vals (((if twice then ''--'' else ''-'') @ name @ CHR ''='' # v) # rest) = parse_values (dict_set vals name v) rest"
proof -
  let ?a = "(if twice then ''--'' else ''-'') @ name @ CHR ''='' # v"
  obtain c cs where n: "name = c # cs" using assms(2) by (cases name) auto
  have f: "flag_name ?a = name @ CHR ''='' # v" using assms(3) by (simp add: flag_name_def n)
  have t: "takeWhile (\<lambda>c. c \<noteq> CHR ''='') (name @ CHR ''='' # v) = name" "dropWhile (\<lambda>c. c \<noteq> CHR ''='') (name @ CHR ''='' # v) = CHR ''='' # v"
    using assms(4) by (auto simp: takeWhile_append dropWhile_append intro: dropWhile_eq_Nil_conv [THEN iffD2])
  have flag: "\<not> (length ?a < 2 \<or> hd ?a \<noteq> CHR ''-'' \<or> ?a = ''--'')" by (auto simp: n)
  have "CHR ''='' \<in> set (tl (name @ CHR ''='' # v))" "hd (name @ CHR ''='' # v) = hd name" "name @ CHR ''='' # v \<noteq> ''''" by (simp_all add: n)
  with assms(1,3) flag f t show ?thesis
    by (cases b) (simp_all only: parse_values.simps if_False Let_def f t, simp_all)
qed

lemma parse_apart:
  assumes "map_of FLAGS name = Some b" and "name \<noteq> ''''" and "hd name \<notin> {CHR ''-'', CHR ''=''}" and "CHR ''='' \<notin> set name"
  shows "parse_values vals (((if twice then ''--'' else ''-'') @ name) # rest)
    = (if b then parse_values (dict_set vals name ''true'') rest
       else case rest of [] \<Rightarrow> Inl (''flag needs an argument: -'' @ name, 2) | v # rest' \<Rightarrow> parse_values (dict_set vals name v) rest')"
proof -
  let ?a = "(if twice then ''--'' else ''-'') @ name"
  obtain c cs where n: "name = c # cs" using assms(2) by (cases name) auto
  have f: "flag_name ?a = name" using assms(3) by (simp add: flag_name_def n)
  have t: "takeWhile (\<lambda>c. c \<noteq> CHR ''='') name = name" using assms(4) by (simp add: takeWhile_eq_all_conv) (metis)
  have flag: "\<not> (length ?a < 2 \<or> hd ?a \<noteq> CHR ''-'' \<or> ?a = ''--'')" using assms(3) by (auto simp: n)
  have "CHR ''='' \<notin> set (tl name)" using assms(4) by (simp add: n)
  with assms(1,2,3) flag f t show ?thesis
    by (cases b) (simp_all only: parse_values.simps if_False Let_def f t, simp_all split: list.split)
qed

declare parse_values.simps(2) [simp del]

lemma flags_declared: "map_of FLAGS ''yolo'' = Some True" "map_of FLAGS ''no-tools'' = Some True" "map_of FLAGS ''cwd'' = Some False"
  "map_of FLAGS ''approval-mode'' = Some False"
  by (simp_all add: FLAGS_def)

lemmas joined_flags = flags_declared [THEN parse_joined, simplified]
lemmas apart_flags = flags_declared [THEN parse_apart, simplified]

lemma values_read: "parse_values flag_defaults argv = Inr values \<Longrightarrow> value_of values ''yolo'' = (if y then ''true'' else ''false'') \<Longrightarrow>
   value_of values ''no-tools'' = (if n then ''true'' else ''false'') \<Longrightarrow>
   parse_flags argv = Inr \<lparr>fl_auto_approve_tools = y, fl_no_tools = n, fl_permission_mode = value_of values ''approval-mode'', fl_cwd = value_of values ''cwd''\<rparr>"
  by (simp add: parse_flags_def bool_value_def TRUE_VALUES_def FALSE_VALUES_def)

lemma spelled_values:
  assumes "positional rest"
  shows "\<exists>values. parse_values flag_defaults (spelled_flags twice joined fl @ rest) = Inr values
    \<and> value_of values ''yolo'' = (if fl_auto_approve_tools fl then ''true'' else ''false'')
    \<and> value_of values ''no-tools'' = (if fl_no_tools fl then ''true'' else ''false'')
    \<and> value_of values ''approval-mode'' = fl_permission_mode fl \<and> value_of values ''cwd'' = fl_cwd fl"
  by (cases joined; cases "fl_auto_approve_tools fl"; cases "fl_no_tools fl")
    (simp_all add: spelled_flags_def Let_def joined_flags apart_flags parse_positional [OF assms] flag_defaults_def FLAGS_def value_of_def)

text \<open>
  The command line. However the flags are spelled (one dash or two, a value joined by an equals
  sign or as the next argument), the parser gives them back, whatever text the values are, and stops
  at the first argument that is no flag; a boolean never takes the next argument, and an
  undeclared flag is status 2 but for the two that ask for help.
\<close>
theorem flags_read_back:
  assumes "positional rest"
  shows "parse_flags (spelled_flags twice joined fl @ rest) = Inr fl
    \<and> parse_flags (''-yolo'' # rest) = Inr (no_flags\<lparr>fl_auto_approve_tools := True\<rparr>)
    \<and> parse_flags [''-help''] = Inl ('''', 0) \<and> parse_flags [''--version''] = Inl (''flag provided but not defined: -version'', 2)"
proof (intro conjI)
  from spelled_values [OF assms, of twice joined fl] obtain vals where
    v: "parse_values flag_defaults (spelled_flags twice joined fl @ rest) = Inr vals"
    "value_of vals ''yolo'' = (if fl_auto_approve_tools fl then ''true'' else ''false'')"
    "value_of vals ''no-tools'' = (if fl_no_tools fl then ''true'' else ''false'')"
    "value_of vals ''approval-mode'' = fl_permission_mode fl" "value_of vals ''cwd'' = fl_cwd fl" by blast
  from values_read [OF v(1-3)] v(4,5) show "parse_flags (spelled_flags twice joined fl @ rest) = Inr fl" by simp
  have "parse_values flag_defaults (''-yolo'' # rest) = Inr (dict_set flag_defaults ''yolo'' ''true'')"
    using parse_apart [OF flags_declared(1), where twice = False and rest = rest] by (simp add: parse_positional [OF assms])
  from values_read [OF this, of True False] show "parse_flags (''-yolo'' # rest) = Inr (no_flags\<lparr>fl_auto_approve_tools := True\<rparr>)"
    by (simp add: flag_defaults_def FLAGS_def value_of_def no_flags_def)
  show "parse_flags [''-help''] = Inl ('''', 0)" "parse_flags [''--version''] = Inl (''flag provided but not defined: -version'', 2)" by code_simp+
qed

theorem flags_read_back_witness:
  "parse_flags ([''--yolo'', ''--cwd=/w'', ''--no-tools=false'', ''--approval-mode=''] @ [''false'', ''-x'']) = Inr (no_flags\<lparr>fl_auto_approve_tools := True, fl_cwd := ''/w''\<rparr>)"
proof -
  have "positional [''false'', ''-x'']" by code_simp
  moreover have "spelled_flags True True (no_flags\<lparr>fl_auto_approve_tools := True, fl_cwd := ''/w''\<rparr>) = [''--yolo'', ''--cwd=/w'', ''--no-tools=false'', ''--approval-mode='']"
    by code_simp
  ultimately show ?thesis using flags_read_back [of "[''false'', ''-x'']" True True "no_flags\<lparr>fl_auto_approve_tools := True, fl_cwd := ''/w''\<rparr>"] by (simp only: simp_thms)
qed

end
