(* ===== verification/Spec2Isabelle.thy ===== *)
theory Spec2Isabelle
  imports Prelude Protocol Exceptions RunContexts Machine Transition Transcript RunControl Paths
    CommandAnalyzer Policy ApprovalStore Execution Engine EngineSystem TurnLoop
    Timestamps EventLog SessionStore SessionRepository
    Emitter Session SessionHistory SessionInvariant Conversations SessionFaults
    ModelAdapters FileTree WorkspaceContext Workspace
    JsonCodec ToolRegistry FileTools FileToolsSafety CommandTools CommandSafety WebTools BuiltinTools
    Composer ApprovalMenu SlashCommands TranscriptView TuiApp TuiShell
    ProjectFiles Extensions Settings
begin

text \<open>
  A verification library for super-agent, a terminal coding agent: a conversation with a
  language model that may ask for tools, run under a permission policy, stored on disk, and
  confined to a workspace. Paths below are relative to \<open>src/super_agent/\<close>.

  The parts and how they interact. An engine (\<open>runtime/engine\<close>) drives a table-driven state
  machine (\<open>runtime/machine\<close>): every event is looked up by state, its handler answers with data
  changes and at most one action, and the changed data is validated before it is committed.
  Actions go through a queue to an executor (\<open>runtime/execution\<close>) that calls the model, a tool
  or a person, and the resolver turns the result into the next event; the permission policy
  and the remembered approvals decide what happens to a tool call. A session
  (\<open>runtime/session\<close>) runs turns on the engine, announces what the machine did, and writes
  every message to the session store (\<open>store/\<close>) as an event log that a resume replays. The
  model adapters (\<open>llm/\<close>) translate a conversation into a provider's request and assemble its
  streamed reply. The workspace (\<open>workspace/\<close>) decides which paths a session may touch and
  takes the checkpoints an undo puts back; the tools (\<open>tools/\<close>) work within it. The terminal
  (\<open>tui/\<close>) is an update function over its own state that asks for work in the background and gets
  its results, keys and notifications as messages. The application (\<open>app/\<close>, \<open>cli.py\<close>) reads
  flags, settings, instructions and extensions into the configuration a session is built from.

  Theories, in the order of the imports.

  \<^item> \<open>Prelude\<close>: the result type (\<open>Inl\<close> an exception, \<open>Inr\<close> a value), Python string operations,
    decimal text, JSON values, dicts as association lists in insertion order.
  \<^item> \<open>Protocol\<close> (\<open>runtime/protocol/types.py\<close>), \<open>Exceptions\<close> (\<open>errors.py\<close>), \<open>RunContexts\<close>
    (\<open>runtime/protocol/run_context.py\<close>, a heap of contexts that share events).
  \<^item> \<open>Machine\<close>, \<open>Transition\<close>, \<open>Transcript\<close> (\<open>runtime/machine/*.py\<close>): the data and its validity,
    the fifteen handlers, the registry and the applier; the abstract machine they refine
    (\<open>machine_step_exact\<close>), the table (\<open>registry_conforms\<close>), and what a provider demands of a
    transcript.
  \<^item> \<open>RunControl\<close> (\<open>run_controller.py\<close>, \<open>action_queue.py\<close>): locales of token and identity sources,
    interpreted on the run controller and on the queue.
  \<^item> \<open>Paths\<close> (the part of \<open>os.path\<close> the sources call), \<open>CommandAnalyzer\<close>, \<open>Policy\<close>
    (\<open>command_analyzer.py\<close>, \<open>policy.py\<close>), \<open>ApprovalStore\<close> (\<open>approval_store.py\<close>).
  \<^item> \<open>Execution\<close> (\<open>scheduled_action_*.py\<close>, \<open>action_result_resolver.py\<close>), \<open>Engine\<close>
    (\<open>runtime/engine/*.py\<close>, one definition per critical section), \<open>EngineSystem\<close> (every
    interleaving of agent loops, commands, chunks and failures as the relation \<open>sys_step\<close> with
    its reachable states), \<open>TurnLoop\<close> (a turn run to its end).
  \<^item> \<open>Timestamps\<close> (\<open>timeutil.py\<close>), \<open>EventLog\<close>, \<open>SessionStore\<close> (\<open>store/store.py\<close>: the log with its torn
    tail, replay, truncation, one directory per session), \<open>SessionRepository\<close>
    (\<open>runtime/session/repository.py\<close>, \<open>store/repository.py\<close>). The locale \<open>transcript_port\<close> is what the
    session needs of a store; it is interpreted on the event log.
  \<^item> \<open>Emitter\<close>, \<open>Session\<close>, \<open>SessionHistory\<close> (\<open>runtime/session/*.py\<close>): the emitter, a turn around the
    engine, and the use cases; \<open>SessionInvariant\<close> (the log agrees with the conversation in every
    order of operations), \<open>Conversations\<close> (compaction and memory), \<open>SessionFaults\<close> (two defects).
  \<^item> \<open>ModelAdapters\<close> (\<open>llm/*.py\<close>): requests, streamed replies, provider defaults and registry.
  \<^item> \<open>FileTree\<close> (the system calls of \<open>os\<close> over a tree with symbolic links), \<open>WorkspaceContext\<close>
    (\<open>workspace/context.py\<close>), \<open>Workspace\<close> (\<open>workspace/workspace.py\<close>, the port of the session).
  \<^item> \<open>JsonCodec\<close> (\<open>jsonutil.py\<close>: annotations as the type \<open>ty\<close>, values as \<open>pyval\<close>), \<open>ToolRegistry\<close>
    (\<open>tools/registry.py\<close>), \<open>FileTools\<close> (\<open>tools/files.py\<close>, \<open>tools/workspace.py\<close>,
    \<open>tools/nofollow_unix.py\<close>) and \<open>FileToolsSafety\<close>: what the file tools change, patch and list.
  \<^item> \<open>CommandTools\<close> (\<open>tools/commands.py\<close>, \<open>tools/bash.py\<close>, \<open>tools/output.py\<close>, \<open>tools/env.py\<close>,
    \<open>tools/sandbox*.py\<close>) and \<open>CommandSafety\<close>: bounds, environment and sandbox of every process;
    \<open>WebTools\<close> (\<open>tools/web.py\<close>); \<open>BuiltinTools\<close>: the eleven tools in one registry, under the policy.
  \<^item> \<open>Composer\<close> (\<open>tui/composer\<close>: editing refines a text around a cursor), \<open>ApprovalMenu\<close>
    (\<open>tui/approval\<close>), \<open>SlashCommands\<close> (\<open>tui/commands\<close>, over ports of the session), \<open>TranscriptView\<close>
    (\<open>tui/transcript\<close>), \<open>TuiApp\<close> (\<open>tui/update.py\<close>, \<open>actions.py\<close>, \<open>conversation.py\<close>: the update
    function) and \<open>TuiShell\<close> (\<open>tui/terminal.py\<close>: readers and tasks as the relation \<open>shell_step\<close>, in
    every order).
  \<^item> \<open>ProjectFiles\<close> (\<open>project/project.py\<close>, \<open>app/instructions\<close>), \<open>Extensions\<close> (\<open>app/extensions.py\<close>,
    \<open>app/workflows.py\<close>, the tool hooks of \<open>app/session.py\<close>; commands from their file to the prompt, and
    the hooks as the registry's observer), \<open>Settings\<close> (\<open>app/config.py\<close>, \<open>cli.py\<close>: the settings file, what
    a missing field becomes, the credential, the permission mode, the flags).

  State and operations. A Python object is a record, and a method is a function from the record
  to the record, with the result last where the method returns or raises. Dicts keep their
  order. A method that mutates and then raises returns both the changed state and the error.
  Coroutines are cut at their awaits: each piece between two awaits is one definition, and the
  relations \<open>sys_step\<close>, \<open>session_step\<close> and \<open>shell_step\<close> put the pieces in every order.

  What the lemmas show. Each component has lemmas for its well-formedness invariant and for the
  effect of every operation, errors included; the properties (the numbered statements) rest on
  them. The chain through the program is: handlers keep the data valid and the transcript
  answered (\<open>Transition\<close>, \<open>Transcript\<close>), so every reachable engine does (\<open>EngineSystem\<close>), so what
  the session stores is a transcript that replays to the conversation (\<open>SessionInvariant\<close>), and
  what the adapters send is a request the provider accepts (\<open>ModelAdapters\<close>).

  Bounds and fuel. \<open>run_loop\<close> has fuel for the iterations of the agent loop, which need not end
  when the model never stops asking; \<open>turn_returns\<close> states how much is enough when it does stop.
  Following links ends because a link met while it is being followed is a loop (\<open>FileTree\<close>).
  Everything else is
  structurally recursive or has a termination proof.

  Assumed, as arguments or hypotheses: \<open>json.loads\<close>, SHA-256, base64, UTF-8, the clock and random
  bytes are arguments. Characters are the 256 of HOL's \<open>char\<close>: a text is a sequence of code points
  below 256 or of bytes. Stamps are UTC. Writes to the store succeed, since a failed write ends
  the process in the same place; the bounded notification queue has room, and then an emission
  is one step. The file tree has no owners, permission checks, or devices, and the umask is not
  applied. The process has one thread, so a critical section is one step.

  Not modelled, and why: telemetry records and the observers of the engine (write-only
  output); starting and killing processes, DNS, HTTP, and the HTML and URL parsers, which are
  arguments of the tools; the protocol clients of language and MCP servers (I/O around programs
  that are not under \<open>src\<close>); what the terminal prints, its modes, the clipboard programs and the
  markdown library; agent profiles, delegated agents, the MCP controller, the adapter between
  session and terminal, and the construction of the parts; the provider SDKs, whose streams enter
  as lists of decoded events.
\<close>

end
